(* ===== verification/Prelude.thy ===== *)
theory Prelude
  imports Main "HOL-Library.Multiset" "HOL-Library.Char_ord" "HOL-Library.List_Lexorder"
begin

text \<open>
  Shared vocabulary of the development: results of fallible operations, the collections of rewrite
  rules the component theories add to, and generic facts about lists and options that several
  components use.

  Go strings are byte sequences; they are modelled as \<^typ>\<open>string\<close>, and the order of
  \<^verbatim>\<open>HOL-Library.List_Lexorder\<close> over the character order is the byte-wise order of
  Go's \<^verbatim>\<open><\<close> on strings.
\<close>

named_theorems float_simps \<open>rewrite rules for rounded arithmetic\<close>
named_theorems lease_simps \<open>definitions of the lease operations\<close>
named_theorems schedule_simps \<open>definitions of the Rental Schedule operations\<close>

subsection \<open>Results\<close>

text \<open>
  A Go function returning \<^verbatim>\<open>(T, error)\<close> is a function into \<open>'e + 'a\<close>:
  \<open>Inl\<close> carries the error, \<open>Inr\<close> the value. A Go function returning only
  \<^verbatim>\<open>error\<close> is a function into \<open>'e option\<close>, where \<open>None\<close> is the nil error.
\<close>

definition checked :: "'e option \<Rightarrow> 'e + 'a \<Rightarrow> 'e + 'a" where
  "checked err rest = (case err of Some e \<Rightarrow> Inl e | None \<Rightarrow> rest)"

lemma checked_simps [simp]:
  "checked None r = r"
  "checked (Some e) r = Inl e"
  by (simp_all add: checked_def)

lemma checked_eq_Inr [simp]: "checked err rest = Inr x \<longleftrightarrow> err = None \<and> rest = Inr x"
  by (cases err) auto

lemma first_error_None:
  "(case x of None \<Rightarrow> rest | Some e \<Rightarrow> Some e) = None \<longleftrightarrow> x = None \<and> rest = None"
  by (cases x) auto

definition is_ok :: "'e + 'a \<Rightarrow> bool" where
  "is_ok r \<longleftrightarrow> (\<exists>x. r = Inr x)"

lemma is_ok_simps [simp]: "is_ok (Inr x)" "\<not> is_ok (Inl e)"
  by (auto simp: is_ok_def)

subsection \<open>Strings\<close>

abbreviation empty_string :: string where
  "empty_string \<equiv> []"

subsection \<open>Lists\<close>

text \<open>A guarded \<^verbatim>\<open>append\<close> to a list of findings.\<close>

definition finding :: "bool \<Rightarrow> 'a \<Rightarrow> 'a list" where
  "finding c v = (if c then [v] else [])"

lemma finding_simps [simp]:
  "finding c v = [] \<longleftrightarrow> \<not> c"
  "set (finding c v) = (if c then {v} else {})"
  by (simp_all add: finding_def)

lemma last_eq_nth: "xs \<noteq> [] \<Longrightarrow> last xs = xs ! (length xs - 1)"
  by (rule last_conv_nth)

lemma list_update_last: "xs \<noteq> [] \<Longrightarrow> xs[length xs - 1 := y] = butlast xs @ [y]"
  by (induction xs) (auto simp: less_Suc_eq_0_disj split: nat.splits)

lemma butlast_append_last: "xs \<noteq> [] \<Longrightarrow> butlast xs @ [last xs] = xs"
  by simp

lemma nth_butlast_last:
  "i < length xs \<Longrightarrow> xs ! i = (if i = length xs - 1 then last xs else butlast xs ! i)"
  by (cases xs rule: rev_cases) (auto simp: nth_append)

subsection \<open>Versioned objects\<close>

text \<open>
  A lease and a Rental Schedule are immutable values that a transition replaces, and each carries a
  version that counts its transitions. \<open>run_ops\<close> applies a sequence of transitions the way
  their callers do: a refused transition leaves the object the caller already holds.
\<close>

fun run_ops :: "('op \<Rightarrow> 'a \<Rightarrow> 'e + 'a) \<Rightarrow> 'op list \<Rightarrow> 'a \<Rightarrow> 'a" where
  "run_ops step [] x = x"
| "run_ops step (op # ops) x =
     run_ops step ops (case step op x of Inl _ \<Rightarrow> x | Inr y \<Rightarrow> y)"

locale versioned_object =
  fixes step :: "'op \<Rightarrow> 'a \<Rightarrow> 'e + 'a"
    and version :: "'a \<Rightarrow> nat"
    and limit :: nat
    and inv :: "'a \<Rightarrow> bool"
    and same :: "'a \<Rightarrow> 'a \<Rightarrow> bool"
  assumes step_inv: "inv x \<Longrightarrow> version x < limit \<Longrightarrow> step op x = Inr y \<Longrightarrow> inv y"
    and step_version: "version x < limit \<Longrightarrow> step op x = Inr y \<Longrightarrow> y = x \<or> version y = version x + 1"
    and step_same: "inv x \<Longrightarrow> version x < limit \<Longrightarrow> step op x = Inr y \<Longrightarrow> same x y"
    and same_refl: "same x x"
    and same_trans: "same x y \<Longrightarrow> same y z \<Longrightarrow> same x z"
begin

lemma step_version_le: "version x < limit \<Longrightarrow> step op x = Inr y \<Longrightarrow> version y \<le> version x + 1"
  using step_version by fastforce

lemma run_ops_keeps:
  assumes "inv x" "version x + length ops \<le> limit"
  shows "inv (run_ops step ops x) \<and> same x (run_ops step ops x)
    \<and> version x \<le> version (run_ops step ops x)
    \<and> version (run_ops step ops x) \<le> version x + length ops"
  using assms
proof (induction ops arbitrary: x)
  case Nil
  then show ?case by (simp add: same_refl)
next
  case (Cons op ops)
  show ?case
  proof (cases "step op x")
    case (Inl e)
    with Cons.IH[of x] Cons.prems show ?thesis by auto
  next
    case (Inr y)
    have lt: "version x < limit" using Cons.prems by simp
    note y = step_inv[OF Cons.prems(1) lt Inr] step_same[OF Cons.prems(1) lt Inr] step_version[OF lt Inr]
    with Cons.IH[of y] Cons.prems show ?thesis by (auto simp: Inr intro: same_trans)
  qed
qed

end

subsection \<open>Objects without a bound on their transitions\<close>

locale evolving_object =
  fixes step :: "'op \<Rightarrow> 'a \<Rightarrow> 'e + 'a"
    and inv :: "'a \<Rightarrow> bool"
    and grows :: "'a \<Rightarrow> 'a \<Rightarrow> bool"
  assumes step_inv: "inv x \<Longrightarrow> step op x = Inr y \<Longrightarrow> inv y"
    and step_grows: "inv x \<Longrightarrow> step op x = Inr y \<Longrightarrow> grows x y"
    and grows_refl: "grows x x"
    and grows_trans: "grows x y \<Longrightarrow> grows y z \<Longrightarrow> grows x z"
begin

lemma run_ops_evolves: "inv x \<Longrightarrow> inv (run_ops step ops x) \<and> grows x (run_ops step ops x)"
proof (induction ops arbitrary: x)
  case Nil
  then show ?case by (simp add: grows_refl)
next
  case (Cons op ops)
  show ?case
  proof (cases "step op x")
    case (Inl e)
    with Cons show ?thesis by simp
  next
    case (Inr y)
    from Cons.IH[OF step_inv[OF Cons.prems Inr]] step_grows[OF Cons.prems Inr] show ?thesis
      by (auto simp: Inr intro: grows_trans)
  qed
qed

end

subsection \<open>Replaying facts\<close>

text \<open>
  A read model is the fold of a reducer over the facts of a stream, and the first fact it refuses
  ends the replay. Two contracts carry every property of a replay: what each fact keeps, and how
  each fact may move the state.
\<close>

fun reduce_facts :: "('f \<Rightarrow> 's \<Rightarrow> 'e + 's) \<Rightarrow> 'f list \<Rightarrow> 's \<Rightarrow> 'e + 's" where
  "reduce_facts handle [] st = Inr st"
| "reduce_facts handle (f # fs) st =
     (case handle f st of Inl e \<Rightarrow> Inl e | Inr st' \<Rightarrow> reduce_facts handle fs st')"

lemma reduce_facts_Cons_Inr:
  "reduce_facts handle (f # fs) st = Inr st'' \<longleftrightarrow>
     (\<exists>st'. handle f st = Inr st' \<and> reduce_facts handle fs st' = Inr st'')"
  by (auto split: sum.splits)

lemma reduce_facts_append_Inr:
  "reduce_facts handle (fs @ gs) st = Inr st'' \<longleftrightarrow>
     (\<exists>st'. reduce_facts handle fs st = Inr st' \<and> reduce_facts handle gs st' = Inr st'')"
  by (induction fs arbitrary: st) (auto simp del: reduce_facts.simps(2) simp: reduce_facts_Cons_Inr)

locale replay_invariant =
  fixes handle :: "'f \<Rightarrow> 's \<Rightarrow> 'e + 's"
    and sound :: "'s \<Rightarrow> bool"
  assumes handle_sound: "sound st \<Longrightarrow> handle f st = Inr st' \<Longrightarrow> sound st'"
begin

lemma replay_sound: "sound st \<Longrightarrow> reduce_facts handle fs st = Inr st' \<Longrightarrow> sound st'"
  by (induction fs arbitrary: st) (auto split: sum.splits intro: handle_sound)

end

locale replay_order =
  fixes handle :: "'f \<Rightarrow> 's \<Rightarrow> 'e + 's"
    and before :: "'s \<Rightarrow> 's \<Rightarrow> bool"
  assumes handle_before: "handle f st = Inr st' \<Longrightarrow> before st st'"
    and before_refl: "before st st"
    and before_trans: "before st st' \<Longrightarrow> before st' st'' \<Longrightarrow> before st st''"
begin

lemma replay_before: "reduce_facts handle fs st = Inr st' \<Longrightarrow> before st st'"
  by (induction fs arbitrary: st)
    (auto split: sum.splits intro: before_refl dest!: handle_before intro: before_trans)

lemma longer_replay:
  "reduce_facts handle fs st = Inr st1 \<Longrightarrow> reduce_facts handle (fs @ gs) st = Inr st2 \<Longrightarrow> before st1 st2"
  by (auto simp: reduce_facts_append_Inr intro: replay_before)

end

subsection \<open>The first case that applies\<close>

fun first_case :: "(bool \<times> 'a) list \<Rightarrow> 'a option" where
  "first_case [] = None"
| "first_case ((c, v) # cases) = (if c then Some v else first_case cases)"

lemma first_case_None [simp]: "first_case cs = None \<longleftrightarrow> (\<forall>(c, v) \<in> set cs. \<not> c)"
  by (induction cs rule: first_case.induct) (auto split: if_splits)

declare first_case.simps [simp del]

subsection \<open>Maxima\<close>

lemma foldr_max_0_le: "x \<in> set xs \<Longrightarrow> x \<le> foldr max xs (0::nat)"
  by (induction xs) auto

lemma foldr_max_upt: "foldr max [Suc 0..<Suc n] (0::nat) = n"
proof -
  have "foldr max [Suc 0..<Suc n] m = max n m" for m :: nat
    by (induction n arbitrary: m) (simp_all add: max_def)
  then show ?thesis by simp
qed

subsection \<open>Sorted lists read in pages\<close>

lemma sort_key_id: "sorted (map f xs) \<Longrightarrow> sort_key f xs = xs"
  by (rule sort_key_id_if_sorted)

lemma sorted_wrt_less_filter:
  "sorted_wrt (<) (map f xs) \<Longrightarrow> sorted_wrt (<) (map f (filter P xs))"
  by (induction xs) auto

lemma strict_sorted_imp_sorted: "sorted_wrt (<) (xs :: nat list) \<Longrightarrow> sorted xs"
  by (rule sorted_wrt_mono_rel[of _ "(<)"]) auto

subsection \<open>Keeping the best of a list\<close>

text \<open>
  The selection loop: an element that is not eligible is passed over, and an eligible one replaces
  the best so far only when it is preferred to it.
\<close>

fun pick_best :: "('a \<Rightarrow> bool) \<Rightarrow> ('a \<Rightarrow> 'a \<Rightarrow> bool) \<Rightarrow> 'a option \<Rightarrow> 'a list \<Rightarrow> 'a option" where
  "pick_best ok pref best [] = best"
| "pick_best ok pref best (x # xs) =
     pick_best ok pref
       (if \<not> ok x then best
        else case best of None \<Rightarrow> Some x | Some b \<Rightarrow> if pref x b then Some x else best) xs"

locale preference =
  fixes pref :: "'a \<Rightarrow> 'a \<Rightarrow> bool"
  assumes irrefl: "\<not> pref x x"
    and trans: "pref x y \<Longrightarrow> pref y z \<Longrightarrow> pref x z"
begin

definition unbeaten :: "('a \<Rightarrow> bool) \<Rightarrow> 'a set \<Rightarrow> 'a option \<Rightarrow> bool" where
  "unbeaten ok S best = (case best of
     None \<Rightarrow> \<forall>x \<in> S. \<not> ok x
   | Some b \<Rightarrow> b \<in> S \<and> ok b \<and> (\<forall>x \<in> S. ok x \<longrightarrow> \<not> pref x b))"

lemma unbeaten_step:
  assumes "unbeaten ok S best"
  shows "unbeaten ok (insert x S)
    (if \<not> ok x then best else case best of None \<Rightarrow> Some x | Some b \<Rightarrow> if pref x b then Some x else best)"
  using assms irrefl trans by (auto simp: unbeaten_def split: option.splits)

lemma pick_best_unbeaten:
  "unbeaten ok S best \<Longrightarrow> unbeaten ok (S \<union> set xs) (pick_best ok pref best xs)"
proof (induction xs arbitrary: S best)
  case (Cons x xs)
  from Cons.IH[OF unbeaten_step[OF Cons.prems, of x]] show ?case by simp
qed simp

lemma pick_best_correct: "unbeaten ok (set xs) (pick_best ok pref None xs)"
  using pick_best_unbeaten[of ok "{}" None xs] by (simp add: unbeaten_def)

end

subsection \<open>Sorting forgets the order of arrival\<close>

lemma sort_key_perm:
  assumes "mset xs = mset ys" "inj_on f (set xs)"
  shows "sort_key f xs = sort_key f ys"
proof (rule properties_for_sort_key)
  show "mset (sort_key f ys) = mset xs" using assms(1) by simp
  show "filter (\<lambda>x. f k = f x) (sort_key f ys) = filter (\<lambda>x. f k = f x) xs" if "k \<in> set (sort_key f ys)" for k
  proof -
    have S: "set ys = set xs" using assms(1) by (metis set_mset_mset)
    have k: "k \<in> set xs" using that S by simp
    have eq: "filter (\<lambda>x. f k = f x) zs = filter (\<lambda>x. x = k) zs" if "set zs = set xs" for zs
      using assms(2) k that by (intro filter_cong) (auto dest: inj_onD)
    have rep: "filter (\<lambda>x. x = k) zs = replicate (count (mset zs) k) k" for zs
      by (induction zs) auto
    show ?thesis using eq[of "sort_key f ys"] eq[of xs] rep[of "sort_key f ys"] rep[of xs] S assms(1) by simp
  qed
  show "sorted (map f (sort_key f ys))" by simp
qed

end
