(* ===== verification/GoNum.thy ===== *)
theory GoNum
  imports Prelude Complex_Main "HOL-Library.Log_Nat" "HOL-Library.Word" "HOL-Library.Signed_Division"
begin

text \<open>
  Go's numbers and moments, as the program uses them.
\<close>

subsection \<open>Rounding to binary64\<close>

type_synonym float64 = rat

definition rne :: "rat \<Rightarrow> int" where
  "rne x = (let f = \<lfloor>x\<rfloor>; d = x - of_int f in
     if d < 1/2 then f else if 1/2 < d then f + 1 else if even f then f else f + 1)"

definition ilog2 :: "rat \<Rightarrow> int" where
  "ilog2 x = (let (n, d) = quotient_of x; e = bitlen n - bitlen d in
     if 2 powi e \<le> x then e else e - 1)"

definition ulp_exp :: "rat \<Rightarrow> int" where
  "ulp_exp x = max (ilog2 \<bar>x\<bar> - 52) (- 1074)"

definition rnd64 :: "rat \<Rightarrow> float64" where
  "rnd64 x = (if x = 0 then 0
     else of_int (rne (x / 2 powi ulp_exp x)) * 2 powi ulp_exp x)"

lemma rne_of_int [simp]: "rne (of_int n) = n"
  by (simp add: rne_def)

lemma rne_bounds: "\<lfloor>x\<rfloor> \<le> rne x" "rne x \<le> \<lfloor>x\<rfloor> + 1"
  by (simp_all add: rne_def Let_def)

lemma rne_mono: "x \<le> y \<Longrightarrow> rne x \<le> rne y"
proof -
  assume le: "x \<le> y"
  then have fl: "\<lfloor>x\<rfloor> \<le> \<lfloor>y\<rfloor>" by (rule floor_mono)
  show ?thesis
  proof (cases "\<lfloor>x\<rfloor> = \<lfloor>y\<rfloor>")
    case True
    with le show ?thesis by (auto simp: rne_def Let_def)
  next
    case False
    with fl have "\<lfloor>x\<rfloor> + 1 \<le> \<lfloor>y\<rfloor>" by simp
    then show ?thesis using rne_bounds(2)[of x] rne_bounds(1)[of y] by linarith
  qed
qed

lemma rne_uminus: "rne (- x) = - rne x"
proof (cases "x = of_int \<lfloor>x\<rfloor>")
  case True
  then have "rne (- x) = rne (of_int (- \<lfloor>x\<rfloor>))" "rne x = rne (of_int \<lfloor>x\<rfloor>)" by simp_all
  then show ?thesis by (simp only: rne_of_int)
next
  case False
  have "\<lceil>x\<rceil> = \<lfloor>x\<rfloor> + 1"
    using False by (metis ceiling_altdef)
  then have fl: "\<lfloor>- x\<rfloor> = - \<lfloor>x\<rfloor> - 1"
    by (simp add: floor_minus)
  show ?thesis unfolding rne_def Let_def fl by (auto simp: field_simps)
qed

lemma powi2_less_iff: "(2::rat) powi a < 2 powi b \<longleftrightarrow> a < b"
  by (metis linorder_not_less one_le_numeral power_int_increasing power_int_strict_increasing one_less_numeral_iff semiring_norm(76))

lemma powi2_pos [simp]: "0 < (2::rat) powi e"
  by (simp add: zero_less_power_int)

lemma bitlen_powi:
  assumes "0 < n"
  shows "2 powi (bitlen n - 1) \<le> (of_int n :: rat)" "(of_int n :: rat) < 2 powi (bitlen n)"
proof -
  have pos: "0 < bitlen n"
    using assms bitlen_eq_zero_iff[of n] bitlen_nonneg[of n] by linarith
  then have k: "bitlen n - 1 = int (nat (bitlen n - 1))" "bitlen n = int (nat (bitlen n))" by simp_all
  from bitlen_bounds[OF assms]
  have "(of_int (2 ^ nat (bitlen n - 1)) :: rat) \<le> of_int n"
    "(of_int n :: rat) < of_int (2 ^ nat (bitlen n))" by (simp_all only: of_int_le_iff of_int_less_iff)
  then show "2 powi (bitlen n - 1) \<le> (of_int n :: rat)" "(of_int n :: rat) < 2 powi (bitlen n)"
    using k by (metis of_int_numeral of_int_power power_int_of_nat)+
qed

lemma ilog2_bounds:
  assumes "0 < x"
  shows "2 powi ilog2 x \<le> x" "x < 2 powi (ilog2 x + 1)"
proof -
  obtain n d where q: "quotient_of x = (n, d)" by fastforce
  then have d: "0 < d" and xq: "x = of_int n / of_int d"
    by (auto simp: quotient_of_denom_pos quotient_of_div)
  with assms have n: "0 < n" by (simp add: zero_less_divide_iff)
  define a b where "a = bitlen n" and "b = bitlen d"
  note nb = bitlen_powi[OF n, folded a_def] and db = bitlen_powi[OF d, folded b_def]
  have dpos: "(0::rat) < of_int d" using d by simp
  have "2 powi (a - b + 1) * 2 powi (b - 1) = (2::rat) powi a"
    by (simp flip: power_int_add)
  then have "of_int n < 2 powi (a - b + 1) * (of_int d :: rat)"
    using nb(2) mult_left_mono[OF db(1), of "2 powi (a - b + 1)"] less_imp_le[OF powi2_pos]
    by (simp add: less_le_trans)
  then have up: "x < 2 powi (a - b + 1)" using dpos by (simp add: xq pos_divide_less_eq)
  have "2 powi (a - b - 1) * 2 powi b = (2::rat) powi (a - 1)"
    by (simp flip: power_int_add)
  then have "2 powi (a - b - 1) * (of_int d :: rat) < of_int n"
    using nb(1) mult_strict_left_mono[OF db(2) powi2_pos, of "a - b - 1"] by simp
  then have low: "2 powi (a - b - 1) < x" using dpos by (simp add: xq pos_less_divide_eq)
  show "2 powi ilog2 x \<le> x" "x < 2 powi (ilog2 x + 1)"
    using up low by (auto simp: ilog2_def q Let_def a_def b_def)
qed

lemma ilog2_unique:
  assumes "2 powi e \<le> x" "x < 2 powi (e + 1)"
  shows "ilog2 x = e"
proof -
  have "0 < x" using powi2_pos[of e] assms(1) by (rule less_le_trans)
  note b = ilog2_bounds[OF this]
  from b(1) assms(2) have "2 powi ilog2 x < (2::rat) powi (e + 1)" by simp
  moreover from assms(1) b(2) have "2 powi e < (2::rat) powi (ilog2 x + 1)" by simp
  ultimately show ?thesis by (simp add: powi2_less_iff)
qed

lemma ilog2_mono:
  assumes "0 < x" "x \<le> y"
  shows "ilog2 x \<le> ilog2 y"
proof -
  have "2 powi ilog2 x < (2::rat) powi (ilog2 y + 1)"
    using ilog2_bounds(1)[of x] ilog2_bounds(2)[of y] assms by linarith
  then show ?thesis by (simp add: powi2_less_iff)
qed

lemma powi2_int: "0 \<le> e \<Longrightarrow> \<exists>k::int. (2::rat) powi e = of_int k"
  by (rule exI[of _ "2 ^ nat e"]) (simp add: power_int_def)

lemma rnd64_pos_eq: "0 < x \<Longrightarrow> rnd64 x = of_int (rne (x / 2 powi ulp_exp x)) * 2 powi ulp_exp x"
  by (simp add: rnd64_def)

lemma rnd64_uminus: "rnd64 (- x) = - rnd64 x"
  by (simp add: rnd64_def ulp_exp_def rne_uminus)

lemma rnd64_0 [simp]: "rnd64 0 = 0"
  by (simp add: rnd64_def)

text \<open>A value that is an integer multiple of its own unit in the last place is not changed.\<close>

lemma rnd64_exact:
  assumes "x / 2 powi ulp_exp x = of_int k"
  shows "rnd64 x = x"
proof -
  have "x = of_int k * 2 powi ulp_exp x" using assms by (simp add: divide_eq_eq)
  then show ?thesis using assms by (simp add: rnd64_def)
qed

lemma rne_le_of_int: "x \<le> of_int k \<Longrightarrow> rne x \<le> k"
  using rne_mono[of x "of_int k"] by simp

lemma of_int_le_rne: "of_int k \<le> x \<Longrightarrow> k \<le> rne x"
  using rne_mono[of "of_int k" x] by simp

lemma rnd64_le_bound:
  assumes "0 < x" "x \<le> 2 powi m" "ulp_exp x \<le> m"
  shows "rnd64 x \<le> 2 powi m"
proof -
  let ?u = "2 powi ulp_exp x :: rat"
  obtain k :: int where k: "2 powi (m - ulp_exp x) = (of_int k :: rat)"
    using powi2_int[of "m - ulp_exp x"] assms(3) by auto
  have split: "2 powi m = (of_int k :: rat) * ?u" by (simp flip: k power_int_add)
  then have "x / ?u \<le> of_int k" using assms(2) by (simp add: divide_le_eq)
  then have "rne (x / ?u) \<le> k" by (rule rne_le_of_int)
  then have "of_int (rne (x / ?u)) * ?u \<le> of_int k * ?u" by (intro mult_right_mono) simp_all
  then show ?thesis using assms(1) split by (simp add: rnd64_pos_eq)
qed

lemma bound_le_rnd64:
  assumes "0 < x" "2 powi m \<le> x" "ulp_exp x \<le> m"
  shows "2 powi m \<le> rnd64 x"
proof -
  let ?u = "2 powi ulp_exp x :: rat"
  obtain k :: int where k: "2 powi (m - ulp_exp x) = (of_int k :: rat)"
    using powi2_int[of "m - ulp_exp x"] assms(3) by auto
  have split: "2 powi m = (of_int k :: rat) * ?u" by (simp flip: k power_int_add)
  then have "of_int k \<le> x / ?u" using assms(2) by (simp add: le_divide_eq)
  then have "k \<le> rne (x / ?u)" by (rule of_int_le_rne)
  then have "of_int k * ?u \<le> of_int (rne (x / ?u)) * ?u" by (intro mult_right_mono) simp_all
  then show ?thesis using assms(1) split by (simp add: rnd64_pos_eq)
qed

lemma rnd64_mono_pos:
  assumes "0 < x" "x \<le> y"
  shows "rnd64 x \<le> rnd64 y"
proof (cases "ulp_exp x = ulp_exp y")
  case True
  have "x / 2 powi ulp_exp y \<le> y / 2 powi ulp_exp y"
    using assms(2) by (simp add: divide_right_mono)
  then have "rne (x / 2 powi ulp_exp y) \<le> rne (y / 2 powi ulp_exp y)" by (rule rne_mono)
  then show ?thesis using assms True by (simp add: rnd64_pos_eq)
next
  case False
  let ?m = "ilog2 y"
  have y: "0 < y" using assms by linarith
  have "ilog2 x \<le> ?m" using assms by (rule ilog2_mono)
  with False assms y have lt: "ulp_exp x < ?m - 52" "ulp_exp y = ?m - 52" "ilog2 x + 1 \<le> ?m"
    by (auto simp: ulp_exp_def)
  have "x \<le> 2 powi (ilog2 x + 1)" using ilog2_bounds(2)[OF assms(1)] by simp
  also have "\<dots> \<le> 2 powi ?m" using lt(3) by (simp add: power_int_increasing)
  finally have "rnd64 x \<le> 2 powi ?m" using assms(1) lt by (intro rnd64_le_bound) simp_all
  also have "\<dots> \<le> rnd64 y" using y ilog2_bounds(1)[OF y] lt by (intro bound_le_rnd64) simp_all
  finally show ?thesis .
qed

lemma rnd64_nonneg: "0 \<le> x \<Longrightarrow> 0 \<le> rnd64 x"
  by (auto simp: rnd64_def intro!: mult_nonneg_nonneg of_int_le_rne)

theorem rnd64_mono: "x \<le> y \<Longrightarrow> rnd64 x \<le> rnd64 y"
proof (cases "0 < x")
  case True
  then show "x \<le> y \<Longrightarrow> rnd64 x \<le> rnd64 y" by (rule rnd64_mono_pos)
next
  case x: False
  assume le: "x \<le> y"
  have x0: "rnd64 x \<le> 0" using x rnd64_nonneg[of "- x"] by (simp add: rnd64_uminus)
  show ?thesis
  proof (cases "y < 0")
    case True
    then have "rnd64 (- y) \<le> rnd64 (- x)" using le by (intro rnd64_mono_pos) simp_all
    then show ?thesis by (simp add: rnd64_uminus)
  next
    case False
    then show ?thesis using x0 rnd64_nonneg[of y] by simp
  qed
qed

lemma rnd64_of_int:
  assumes "\<bar>n\<bar> < 2 ^ 53"
  shows "rnd64 (of_int n) = of_int n"
proof (cases "n = 0")
  case False
  then have "(0::rat) < of_int \<bar>n\<bar>" by simp
  then have "2 powi ilog2 (of_int \<bar>n\<bar>) \<le> (of_int \<bar>n\<bar> :: rat)" by (rule ilog2_bounds)
  also have "\<dots> < of_int (2 ^ 53)" using assms by (simp only: of_int_less_iff)
  also have "\<dots> = 2 powi 53" by simp
  finally have "ilog2 (of_int \<bar>n\<bar>) < 53" by (simp only: powi2_less_iff)
  then have le: "ulp_exp (of_int n) \<le> 0" by (simp add: ulp_exp_def)
  obtain k :: int where k: "2 powi (- ulp_exp (of_int n)) = (of_int k :: rat)"
    using powi2_int[of "- ulp_exp (of_int n)"] le by auto
  have "of_int n / 2 powi ulp_exp (of_int n) = (of_int (n * k) :: rat)"
    by (simp flip: k add: power_int_minus field_simps)
  then show ?thesis by (rule rnd64_exact)
qed simp

lemma rnd64_multiple:
  assumes "ulp_exp x \<le> e" "x = of_int k * 2 powi e"
  shows "rnd64 x = x"
proof -
  obtain j :: int where j: "2 powi (e - ulp_exp x) = (of_int j :: rat)"
    using powi2_int[of "e - ulp_exp x"] assms(1) by auto
  have "x / 2 powi ulp_exp x = of_int k * 2 powi (e - ulp_exp x)"
    by (subst assms(2)) (simp add: power_int_diff)
  then have "x / 2 powi ulp_exp x = of_int (k * j)" by (simp add: j)
  then show ?thesis by (rule rnd64_exact)
qed

lemma rnd64_idem_pos:
  assumes x: "0 < x"
  shows "rnd64 (rnd64 x) = rnd64 x"
proof (cases "rnd64 x = 0")
  case False
  let ?e = "ulp_exp x" and ?y = "rnd64 x"
  define k where "k = rne (x / 2 powi ?e)"
  have y: "?y = of_int k * 2 powi ?e" using x by (simp add: rnd64_pos_eq k_def)
  have ypos: "0 < ?y" using False rnd64_nonneg[of x] x by simp
  have "x \<le> 2 powi (ilog2 x + 1)" using ilog2_bounds(2)[OF x] by simp
  also have "\<dots> \<le> 2 powi (?e + 53)" by (rule power_int_increasing) (use x in \<open>simp_all add: ulp_exp_def\<close>)
  finally have top: "?y \<le> 2 powi (?e + 53)" using x by (intro rnd64_le_bound) simp_all
  show ?thesis
  proof (cases "?y = 2 powi (?e + 53)")
    case True
    have "ilog2 ?y = ?e + 53" by (rule ilog2_unique) (simp_all add: True powi2_less_iff)
    then have "ulp_exp ?y \<le> ?e + 53" using ypos by (simp add: ulp_exp_def)
    then show ?thesis by (rule rnd64_multiple[of _ _ 1]) (simp add: True)
  next
    case neq: False
    have "2 powi ilog2 ?y \<le> ?y" by (rule ilog2_bounds(1)[OF ypos])
    also have "\<dots> < 2 powi (?e + 53)" using top neq by simp
    finally have "ilog2 ?y < ?e + 53" by (simp add: powi2_less_iff)
    then have "ulp_exp ?y \<le> ?e" using ypos by (simp add: ulp_exp_def)
    then show ?thesis using y by (rule rnd64_multiple)
  qed
qed simp

theorem rnd64_idem: "rnd64 (rnd64 x) = rnd64 x"
proof (cases "0 < x \<or> x = 0")
  case True
  then show ?thesis using rnd64_idem_pos by auto
next
  case False
  then have "rnd64 (rnd64 (- x)) = rnd64 (- x)" by (intro rnd64_idem_pos) simp
  then show ?thesis by (simp add: rnd64_uminus)
qed

subsection \<open>The interface of a rounding\<close>

text \<open>
  What the component proofs use of rounding: it is monotone, it fixes its own results and the
  small integers the program writes as literals, and it is odd. Every bound below is proved from
  these laws alone.
\<close>

locale rounding =
  fixes rnd :: "rat \<Rightarrow> rat"
  assumes mono: "x \<le> y \<Longrightarrow> rnd x \<le> rnd y"
    and idem: "rnd (rnd x) = rnd x"
    and zero: "rnd 0 = 0"
    and odd: "rnd (- x) = - rnd x"
    and small_int: "\<bar>n\<bar> < 2 ^ 53 \<Longrightarrow> rnd (of_int n) = of_int n"
begin

lemma nonneg: "0 \<le> x \<Longrightarrow> 0 \<le> rnd x"
  using mono[of 0 x] by (simp add: zero)

lemma nonpos: "x \<le> 0 \<Longrightarrow> rnd x \<le> 0"
  using mono[of x 0] by (simp add: zero)

lemma le_fixed: "rnd y = y \<Longrightarrow> x \<le> y \<Longrightarrow> rnd x \<le> y"
  using mono[of x y] by simp

lemma fixed_le: "rnd y = y \<Longrightarrow> y \<le> x \<Longrightarrow> y \<le> rnd x"
  using mono[of y x] by simp

lemma add_nonneg: "0 \<le> x \<Longrightarrow> 0 \<le> y \<Longrightarrow> 0 \<le> rnd (x + y)"
  by (simp add: nonneg)

lemma add_ge_left: "rnd x = x \<Longrightarrow> 0 \<le> y \<Longrightarrow> x \<le> rnd (x + y)"
  by (simp add: fixed_le)

lemma sub_le_left: "rnd x = x \<Longrightarrow> 0 \<le> y \<Longrightarrow> rnd (x - y) \<le> x"
  by (simp add: le_fixed)

lemma add_mono2: "a \<le> b \<Longrightarrow> c \<le> d \<Longrightarrow> rnd (a + c) \<le> rnd (b + d)"
  by (intro mono add_mono)

lemma unit_interval: "- 1 \<le> x \<Longrightarrow> x \<le> 1 \<Longrightarrow> - 1 \<le> rnd x \<and> rnd x \<le> 1"
  using fixed_le[of "- 1" x] le_fixed[of 1 x] small_int[of 1] small_int[of "- 1"] by simp

end

interpretation f64: rounding rnd64
  by unfold_locales (simp_all add: rnd64_mono rnd64_idem rnd64_uminus rnd64_of_int)

subsection \<open>float64 operations\<close>

definition is_f64 :: "rat \<Rightarrow> bool" where
  "is_f64 x \<longleftrightarrow> rnd64 x = x"

lemma is_f64_rnd64 [simp, intro]: "is_f64 (rnd64 x)"
  by (simp add: is_f64_def rnd64_idem)

lemma is_f64_of_int: "\<bar>n\<bar> < 2 ^ 53 \<Longrightarrow> is_f64 (of_int n)"
  by (simp add: is_f64_def rnd64_of_int)

lemma is_f64_0 [simp, intro]: "is_f64 0"
  by (simp add: is_f64_def)

lemma is_f64_numeral: "(numeral n :: int) < 2 ^ 53 \<Longrightarrow> is_f64 (numeral n)"
  using is_f64_of_int[of "numeral n"] by simp

definition fadd :: "float64 \<Rightarrow> float64 \<Rightarrow> float64" where "fadd x y = rnd64 (x + y)"
definition fsub :: "float64 \<Rightarrow> float64 \<Rightarrow> float64" where "fsub x y = rnd64 (x - y)"
definition fmul :: "float64 \<Rightarrow> float64 \<Rightarrow> float64" where "fmul x y = rnd64 (x * y)"
definition fdiv :: "float64 \<Rightarrow> float64 \<Rightarrow> float64" where "fdiv x y = rnd64 (x / y)"

lemmas float_ops = fadd_def fsub_def fmul_def fdiv_def

lemma is_f64_ops [simp, intro]:
  "is_f64 (fadd x y)" "is_f64 (fsub x y)" "is_f64 (fmul x y)" "is_f64 (fdiv x y)"
  by (simp_all add: float_ops)

lemma is_f64_max [intro]: "is_f64 x \<Longrightarrow> is_f64 y \<Longrightarrow> is_f64 (max x y)"
  by (simp add: max_def)

lemma is_f64_min [intro]: "is_f64 x \<Longrightarrow> is_f64 y \<Longrightarrow> is_f64 (min x y)"
  by (simp add: min_def)

lemma fadd_nonneg: "0 \<le> x \<Longrightarrow> 0 \<le> y \<Longrightarrow> 0 \<le> fadd x y"
  by (simp add: fadd_def f64.nonneg)

lemma fmul_nonneg: "0 \<le> x \<Longrightarrow> 0 \<le> y \<Longrightarrow> 0 \<le> fmul x y"
  by (simp add: fmul_def f64.nonneg)

lemma fdiv_nonneg: "0 \<le> x \<Longrightarrow> 0 \<le> y \<Longrightarrow> 0 \<le> fdiv x y"
  by (simp add: fdiv_def f64.nonneg)

lemma fadd_mono: "a \<le> b \<Longrightarrow> c \<le> d \<Longrightarrow> fadd a c \<le> fadd b d"
  by (simp add: fadd_def f64.add_mono2)

lemma fsub_mono: "a \<le> b \<Longrightarrow> d \<le> c \<Longrightarrow> fsub a c \<le> fsub b d"
  by (simp add: fsub_def f64.mono)

lemma fmul_mono: "0 \<le> a \<Longrightarrow> c \<le> d \<Longrightarrow> fmul a c \<le> fmul a d"
  by (simp add: fmul_def f64.mono mult_left_mono)

lemma fmul_mono_left: "0 \<le> c \<Longrightarrow> a \<le> b \<Longrightarrow> fmul a c \<le> fmul b c"
  by (simp add: fmul_def f64.mono mult_right_mono)

lemma fsub_le: "is_f64 x \<Longrightarrow> 0 \<le> y \<Longrightarrow> fsub x y \<le> x"
  by (simp add: fsub_def is_f64_def f64.sub_le_left)

lemma fadd_ge: "is_f64 x \<Longrightarrow> 0 \<le> y \<Longrightarrow> x \<le> fadd x y"
  by (simp add: fadd_def is_f64_def f64.add_ge_left)

lemma fsub_nonneg: "y \<le> x \<Longrightarrow> 0 \<le> fsub x y"
  by (simp add: fsub_def f64.nonneg)

lemma fadd_0 [simp]: "is_f64 x \<Longrightarrow> fadd 0 x = x" "is_f64 x \<Longrightarrow> fadd x 0 = x"
  by (simp_all add: fadd_def is_f64_def)

lemma fsub_0 [simp]: "is_f64 x \<Longrightarrow> fsub x 0 = x"
  by (simp add: fsub_def is_f64_def)

lemma fmul_0 [simp]: "fmul 0 x = 0" "fmul x 0 = 0"
  by (simp_all add: fmul_def)

text \<open>\<^verbatim>\<open>math.Ceil\<close> and \<^verbatim>\<open>math.Round\<close> (half away from zero).\<close>

definition fceil :: "float64 \<Rightarrow> float64" where
  "fceil x = of_int \<lceil>x\<rceil>"

definition fround :: "float64 \<Rightarrow> float64" where
  "fround x = (if 0 \<le> x then of_int \<lfloor>x + 1/2\<rfloor> else - of_int \<lfloor>- x + 1/2\<rfloor>)"

lemma fround_nonneg: "0 \<le> x \<Longrightarrow> 0 \<le> fround x"
  by (simp add: fround_def)

lemma fround_mono: "x \<le> y \<Longrightarrow> fround x \<le> fround y"
  by (auto simp: fround_def floor_mono intro: order_trans[of _ 0])

subsection \<open>64-bit integers\<close>

text \<open>
  \<^verbatim>\<open>int64\<close> values are integers in two's complement range; a sum that leaves the range
  wraps. \<^verbatim>\<open>uint64\<close> values are 64-bit words.
\<close>

type_synonym uint64 = "64 word"
type_synonym int64 = int

definition wrap64 :: "int \<Rightarrow> int64" where
  "wrap64 x = (x + 2 ^ 63) mod 2 ^ 64 - 2 ^ 63"

definition in_int64 :: "int \<Rightarrow> bool" where
  "in_int64 x \<longleftrightarrow> - (2 ^ 63) \<le> x \<and> x < 2 ^ 63"

definition i64_add :: "int64 \<Rightarrow> int64 \<Rightarrow> int64" where "i64_add x y = wrap64 (x + y)"
definition i64_sub :: "int64 \<Rightarrow> int64 \<Rightarrow> int64" where "i64_sub x y = wrap64 (x - y)"
definition i64_mul :: "int64 \<Rightarrow> int64 \<Rightarrow> int64" where "i64_mul x y = wrap64 (x * y)"

lemma wrap64_id: "in_int64 x \<Longrightarrow> wrap64 x = x"
  by (simp add: wrap64_def in_int64_def)

lemma in_int64_wrap64 [simp]: "in_int64 (wrap64 x)"
proof -
  have "0 \<le> (x + 2 ^ 63) mod 2 ^ 64" "(x + 2 ^ 63) mod 2 ^ 64 < (2 ^ 64 :: int)" by simp_all
  then show ?thesis by (simp add: wrap64_def in_int64_def)
qed

lemma version_succ: "unat (v :: uint64) < 2 ^ 64 - 1 \<Longrightarrow> unat (v + 1) = unat v + 1"
  by (simp add: unat_word_ariths)

definition f64_of_int :: "int64 \<Rightarrow> float64" where
  "f64_of_int n = rnd64 (of_int n)"

text \<open>
  Conversion of a float64 to int64 truncates towards zero. A value outside the range of int64 has an
  implementation-defined result in Go; the one modelled is that of amd64, the smallest int64.
\<close>

definition trunc_int :: "float64 \<Rightarrow> int" where
  "trunc_int x = (if 0 \<le> x then \<lfloor>x\<rfloor> else \<lceil>x\<rceil>)"

definition int64_of_f64 :: "float64 \<Rightarrow> int64" where
  "int64_of_f64 x = (if in_int64 (trunc_int x) then trunc_int x else - (2 ^ 63))"

lemma trunc_int_mono: "x \<le> y \<Longrightarrow> trunc_int x \<le> trunc_int y"
proof -
  assume le: "x \<le> y"
  consider "0 \<le> x" | "x < 0" "0 \<le> y" | "y < 0" by linarith
  then show ?thesis
  proof cases
    case 1
    with le show ?thesis by (simp add: trunc_int_def floor_mono)
  next
    case 2
    have "\<lceil>x\<rceil> \<le> 0" using 2 by simp
    also have "0 \<le> \<lfloor>y\<rfloor>" using 2 by simp
    finally show ?thesis using 2 by (simp add: trunc_int_def)
  next
    case 3
    with le show ?thesis by (simp add: trunc_int_def ceiling_mono)
  qed
qed

lemma trunc_int_nonneg: "0 \<le> x \<Longrightarrow> 0 \<le> trunc_int x"
  by (simp add: trunc_int_def)

subsection \<open>time.Time and time.Duration\<close>

text \<open>
  A moment is its distance in nanoseconds from Go's zero time (the start of year 1, UTC), so
  \<^verbatim>\<open>IsZero\<close> is equality with 0. A duration is an int64 count of nanoseconds.
  \<^verbatim>\<open>Sub\<close> saturates at the ends of the int64 range, as the library documents.
\<close>

type_synonym time = int
type_synonym duration = int

abbreviation (input) zero_time :: time where "zero_time \<equiv> 0"

definition time_is_zero :: "time \<Rightarrow> bool" where
  "time_is_zero t \<longleftrightarrow> t = 0"

definition time_add :: "time \<Rightarrow> duration \<Rightarrow> time" where
  "time_add t d = t + d"

definition time_sub :: "time \<Rightarrow> time \<Rightarrow> duration" where
  "time_sub t u = max (- (2 ^ 63)) (min (2 ^ 63 - 1) (t - u))"

definition nanos_per_second :: int where
  "nanos_per_second = 1000000000"

definition duration_seconds :: "duration \<Rightarrow> float64" where
  "duration_seconds d =
     fadd (f64_of_int (d sdiv nanos_per_second))
          (fdiv (f64_of_int (d smod nanos_per_second)) 1000000000)"

definition seconds_between :: "time \<Rightarrow> time \<Rightarrow> float64" where
  "seconds_between t u = duration_seconds (time_sub t u)"

definition seconds_duration :: "float64 \<Rightarrow> duration" where
  "seconds_duration secs = int64_of_f64 (fmul secs 1000000000)"

lemma time_sub_range: "in_int64 (time_sub t u)"
  by (auto simp: time_sub_def in_int64_def)

lemma time_sub_exact: "in_int64 (t - u) \<Longrightarrow> time_sub t u = t - u"
  by (auto simp: time_sub_def in_int64_def)

lemma time_sub_mono: "t \<le> t' \<Longrightarrow> time_sub t u \<le> time_sub t' u"
  by (simp add: time_sub_def)

lemma time_sub_nonneg: "u \<le> t \<Longrightarrow> 0 \<le> time_sub t u"
  by (simp add: time_sub_def)

lemma duration_seconds_uminus: "duration_seconds (- d) = - duration_seconds d"
proof -
  have "(- d) sdiv nanos_per_second = - (d sdiv nanos_per_second)"
    "(- d) smod nanos_per_second = - (d smod nanos_per_second)"
    by (simp_all add: signed_divide_int_def signed_modulo_int_def nanos_per_second_def sgn_if)
  moreover have "rnd64 (- a / c) = - rnd64 (a / c)" for a c
    using f64.odd[of "a / c"] by simp
  moreover have "rnd64 (- a - c) = - rnd64 (a + c)" for a c
    using f64.odd[of "a + c"] by simp
  ultimately show ?thesis by (simp add: duration_seconds_def float_ops f64_of_int_def f64.odd)
qed

lemma duration_seconds_pos_eq:
  assumes "0 \<le> d" "in_int64 d"
  shows "duration_seconds d
    = rnd64 (of_int (d div nanos_per_second)
             + rnd64 (of_int (d mod nanos_per_second) / 1000000000))"
proof -
  have sd: "d sdiv nanos_per_second = d div nanos_per_second"
    "d smod nanos_per_second = d mod nanos_per_second"
    using assms(1)
    by (auto simp: signed_divide_int_def signed_modulo_int_def nanos_per_second_def sgn_if
        minus_div_mult_eq_mod[symmetric])
  have "d div nanos_per_second < 2 ^ 53" "0 \<le> d div nanos_per_second"
    using assms by (simp_all add: in_int64_def nanos_per_second_def div_less_iff_less_mult pos_imp_zdiv_nonneg_iff)
  moreover have "d mod nanos_per_second < 1000000000" "0 \<le> d mod nanos_per_second"
    by (simp_all add: nanos_per_second_def)
  ultimately show ?thesis
    by (simp add: duration_seconds_def sd float_ops f64_of_int_def f64.small_int)
qed

lemma duration_seconds_nonneg: "0 \<le> d \<Longrightarrow> in_int64 d \<Longrightarrow> 0 \<le> duration_seconds d"
  by (simp add: duration_seconds_pos_eq nanos_per_second_def f64.nonneg pos_imp_zdiv_nonneg_iff)

lemma duration_seconds_mono_pos:
  assumes "0 \<le> d" "d \<le> d'" "in_int64 d'"
  shows "duration_seconds d \<le> duration_seconds d'"
proof -
  let ?n = nanos_per_second
  have in_d: "in_int64 d" using assms by (simp add: in_int64_def)
  have frac: "0 \<le> rnd64 (of_int (z mod ?n) / 1000000000)"
    "rnd64 (of_int (z mod ?n) / 1000000000) \<le> 1" for z
    using f64.unit_interval[of "of_int (z mod ?n) / 1000000000"]
      pos_mod_bound[of ?n z] pos_mod_sign[of ?n z]
    by (simp_all add: nanos_per_second_def f64.nonneg divide_le_eq)
  have le: "d div ?n \<le> d' div ?n" using assms(2) by (simp add: zdiv_mono1 nanos_per_second_def)
  show ?thesis
  proof (cases "d div ?n = d' div ?n")
    case True
    then have "d mod ?n \<le> d' mod ?n"
      using assms(2) by (simp add: minus_div_mult_eq_mod[symmetric])
    then show ?thesis using assms in_d True
      by (simp add: duration_seconds_pos_eq f64.mono divide_right_mono)
  next
    case False
    with le have "(of_int (d div ?n) :: rat) + 1 \<le> of_int (d' div ?n)"
      by (metis add1_zle_eq of_int_1 of_int_add of_int_le_iff order_le_neq_trans)
    then show ?thesis using assms in_d frac(2)[of d] frac(1)[of d']
      by (simp add: duration_seconds_pos_eq f64.mono)
  qed
qed

theorem duration_seconds_mono:
  assumes "d \<le> d'" "in_int64 d" "in_int64 d'" "- d < 2 ^ 63"
  shows "duration_seconds d \<le> duration_seconds d'"
proof -
  consider "0 \<le> d" | "d < 0" "0 \<le> d'" | "d' < 0" using assms(1) by linarith
  then show ?thesis
  proof cases
    case 1
    then show ?thesis using assms by (intro duration_seconds_mono_pos)
  next
    case 2
    have "0 \<le> duration_seconds (- d)" using 2 assms by (intro duration_seconds_nonneg) (simp_all add: in_int64_def)
    then show ?thesis
      using duration_seconds_nonneg[of d'] 2 assms by (simp add: duration_seconds_uminus)
  next
    case 3
    have "duration_seconds (- d') \<le> duration_seconds (- d)"
      using 3 assms by (intro duration_seconds_mono_pos) (simp_all add: in_int64_def)
    then show ?thesis by (simp add: duration_seconds_uminus)
  qed
qed

lemma seconds_between_nonneg: "u \<le> t \<Longrightarrow> 0 \<le> seconds_between t u"
  by (simp add: seconds_between_def duration_seconds_nonneg time_sub_nonneg time_sub_range)

lemma seconds_between_mono:
  "u \<le> t \<Longrightarrow> t \<le> t' \<Longrightarrow> seconds_between t u \<le> seconds_between t' u"
  by (simp add: seconds_between_def duration_seconds_mono_pos time_sub_nonneg time_sub_mono time_sub_range)

lemma is_f64_seconds [simp, intro]: "is_f64 (duration_seconds d)" "is_f64 (seconds_between t u)"
  by (simp_all add: duration_seconds_def seconds_between_def)

lemma seconds_duration_nonneg:
  "0 \<le> x \<Longrightarrow> in_int64 (trunc_int (fmul x 1000000000)) \<Longrightarrow> 0 \<le> seconds_duration x"
  by (simp add: seconds_duration_def int64_of_f64_def trunc_int_nonneg fmul_nonneg)

end
