(* ===== verification/ServiceClass.thy ===== *)
theory ServiceClass
  imports GoNum
begin

text \<open>
  Service classes (\<^verbatim>\<open>internal/domain/serviceclass.go\<close>), the admission vocabulary
  (\<^verbatim>\<open>internal/domain/admission.go\<close>) and run groups
  (\<^verbatim>\<open>internal/domain/rungroup.go\<close>): what each class pays for waiting, how a waiting Run
  ages, and when a wait breaks the bound its class promised.

  Constant expressions are exact in Go and rounded once, where they become a float64; the
  definitions round at the same places.
\<close>

subsection \<open>Classes and their weights\<close>

datatype service_class =
    ClassInteractive
  | ClassStandard
  | ClassBatch
  | ClassExperimental
  | ClassOpportunistic
  | ClassOther string  \<comment> \<open>any other string; the empty one is a class nobody stated\<close>

definition KnownServiceClasses :: "service_class list" where
  "KnownServiceClasses = [ClassInteractive, ClassStandard, ClassBatch, ClassExperimental, ClassOpportunistic]"

definition class_Known :: "service_class \<Rightarrow> bool" where
  "class_Known c \<longleftrightarrow> c \<in> set KnownServiceClasses"

definition WaitingUSDPerSecond :: rat where
  "WaitingUSDPerSecond = 5 / 10000"

definition UncertaintySeconds :: rat where
  "UncertaintySeconds = 60"

record score_weights =
  sw_StartLatencyUSDPerSecond :: float64
  sw_CompletionLatencyUSDPerSecond :: float64
  sw_UncertaintyPenaltyUSD :: float64

definition no_weights :: score_weights where
  "no_weights = \<lparr>sw_StartLatencyUSDPerSecond = 0, sw_CompletionLatencyUSDPerSecond = 0, sw_UncertaintyPenaltyUSD = 0\<rparr>"

definition waitingToStart :: "float64 \<Rightarrow> score_weights" where
  "waitingToStart usdPerSecond = no_weights\<lparr>sw_StartLatencyUSDPerSecond := usdPerSecond,
     sw_UncertaintyPenaltyUSD := fmul UncertaintySeconds usdPerSecond\<rparr>"

definition waitingToFinish :: "float64 \<Rightarrow> score_weights" where
  "waitingToFinish usdPerSecond = no_weights\<lparr>sw_CompletionLatencyUSDPerSecond := usdPerSecond,
     sw_UncertaintyPenaltyUSD := fmul UncertaintySeconds usdPerSecond\<rparr>"

definition class_Weights :: "service_class \<Rightarrow> score_weights" where
  "class_Weights c = (case c of
     ClassInteractive \<Rightarrow> waitingToStart (rnd64 (20 * WaitingUSDPerSecond))
   | ClassStandard \<Rightarrow> waitingToStart (rnd64 WaitingUSDPerSecond)
   | ClassExperimental \<Rightarrow> waitingToFinish (rnd64 (2 * WaitingUSDPerSecond))
   | ClassBatch \<Rightarrow> waitingToFinish (rnd64 (WaitingUSDPerSecond / 5))
   | ClassOpportunistic \<Rightarrow> no_weights
   | ClassOther _ \<Rightarrow> no_weights)"

subsection \<open>Admission policy\<close>

definition TopClassPriority :: float64 where
  "TopClassPriority = 100"

record admission =
  ad_Priority :: float64
  ad_MaxQueueDelaySeconds :: float64
  ad_DeadlineSeconds :: float64
  ad_BackfillEligible :: bool
  ad_PermitsInterruption :: bool

definition no_admission :: admission where
  "no_admission = \<lparr>ad_Priority = 0, ad_MaxQueueDelaySeconds = 0, ad_DeadlineSeconds = 0,
     ad_BackfillEligible = False, ad_PermitsInterruption = False\<rparr>"

definition class_Admission :: "service_class \<Rightarrow> admission" where
  "class_Admission c = (case c of
     ClassInteractive \<Rightarrow> no_admission\<lparr>ad_Priority := TopClassPriority,
       ad_MaxQueueDelaySeconds := 5 * 60, ad_DeadlineSeconds := 10 * 60\<rparr>
   | ClassExperimental \<Rightarrow> no_admission\<lparr>ad_Priority := 70,
       ad_MaxQueueDelaySeconds := 15 * 60, ad_DeadlineSeconds := 60 * 60\<rparr>
   | ClassStandard \<Rightarrow> no_admission\<lparr>ad_Priority := 50,
       ad_MaxQueueDelaySeconds := 30 * 60, ad_DeadlineSeconds := 4 * 60 * 60\<rparr>
   | ClassBatch \<Rightarrow> no_admission\<lparr>ad_Priority := 20, ad_MaxQueueDelaySeconds := 60 * 60,
       ad_DeadlineSeconds := 24 * 60 * 60, ad_PermitsInterruption := True\<rparr>
   | ClassOpportunistic \<Rightarrow> no_admission\<lparr>ad_Priority := 0, ad_MaxQueueDelaySeconds := 2 * 60 * 60,
       ad_BackfillEligible := True, ad_PermitsInterruption := True\<rparr>
   | ClassOther _ \<Rightarrow> no_admission)"

definition AgingPerSecond :: "admission \<Rightarrow> float64" where
  "AgingPerSecond p =
     (if ad_MaxQueueDelaySeconds p \<le> 0 then 0
      else fdiv (fsub (TopClassPriority + 1) (ad_Priority p)) (fdiv (ad_MaxQueueDelaySeconds p) 2))"

definition EffectivePriority :: "admission \<Rightarrow> float64 \<Rightarrow> float64" where
  "EffectivePriority p queuedSeconds =
     (if queuedSeconds \<le> 0 then ad_Priority p
      else fadd (ad_Priority p) (fmul (AgingPerSecond p) queuedSeconds))"

definition Starved :: "admission \<Rightarrow> float64 \<Rightarrow> bool" where
  "Starved p queuedSeconds \<longleftrightarrow> 0 < ad_MaxQueueDelaySeconds p \<and> ad_MaxQueueDelaySeconds p < queuedSeconds"

definition DeadlinePassed :: "admission \<Rightarrow> float64 \<Rightarrow> bool" where
  "DeadlinePassed p queuedSeconds \<longleftrightarrow> 0 < ad_DeadlineSeconds p \<and> ad_DeadlineSeconds p \<le> queuedSeconds"

definition DeadlineUnreachable :: "admission \<Rightarrow> float64 \<Rightarrow> float64 \<Rightarrow> bool \<Rightarrow> bool" where
  "DeadlineUnreachable p queuedSeconds waitSeconds projected =
     (if DeadlinePassed p queuedSeconds then True
      else if ad_DeadlineSeconds p \<le> 0 then False
      else projected \<and> ad_DeadlineSeconds p < fadd queuedSeconds waitSeconds)"

subsection \<open>Why a Run is still waiting\<close>

definition DeferredNoFeasibleOffer :: string where "DeferredNoFeasibleOffer = ''NO_FEASIBLE_OFFER''"
definition DeferredNoCapacityFits :: string where "DeferredNoCapacityFits = ''NO_CAPACITY_FITS''"
definition DeferredCapacityUnstated :: string where "DeferredCapacityUnstated = ''CAPACITY_UNSTATED''"
definition DeferredBehindHigherPriority :: string where "DeferredBehindHigherPriority = ''BEHIND_HIGHER_PRIORITY''"
definition DeferredGroupAtParallelism :: string where "DeferredGroupAtParallelism = ''GROUP_AT_PARALLELISM''"
definition RefusedDeadlineUnreachable :: string where "RefusedDeadlineUnreachable = ''DEADLINE_UNREACHABLE''"
definition RefusedQueueDelayExceeded :: string where "RefusedQueueDelayExceeded = ''QUEUE_DELAY_EXCEEDED''"

lemmas reason_defs = DeferredNoFeasibleOffer_def DeferredNoCapacityFits_def DeferredCapacityUnstated_def
  DeferredBehindHigherPriority_def DeferredGroupAtParallelism_def RefusedDeadlineUnreachable_def
  RefusedQueueDelayExceeded_def

record fleet_answer =
  fa_Weighed :: int
  fa_CouldHold :: int
  fa_Unstated :: int

definition fleet_HoldsNothing :: "fleet_answer \<Rightarrow> bool" where
  "fleet_HoldsNothing a \<longleftrightarrow> fa_CouldHold a = 0 \<and> fa_Unstated a = 0"

definition fleet_Reason :: "fleet_answer \<Rightarrow> string" where
  "fleet_Reason a =
     (if 0 < fa_CouldHold a then DeferredNoFeasibleOffer
      else if 0 < fa_Unstated a then DeferredCapacityUnstated
      else DeferredNoCapacityFits)"

record queued_ahead =
  qa_RunID :: string
  qa_Class :: service_class
  qa_EffectivePriority :: float64

record admission_deferral =
  df_Reason :: string
  df_Class :: service_class
  df_EffectivePriority :: float64
  df_BasePriority :: float64
  df_QueuedSeconds :: float64
  df_SelfImposedSeconds :: float64
  df_MaxQueueDelaySeconds :: float64
  df_ProjectedWaitSeconds :: float64
  df_Fleet :: "fleet_answer option"
  df_Behind :: "queued_ahead list"

definition deferral_SelfImposed :: "admission_deferral \<Rightarrow> bool" where
  "deferral_SelfImposed d \<longleftrightarrow> df_Reason d = DeferredGroupAtParallelism"

definition deferral_HoldsNoQueue :: "admission_deferral \<Rightarrow> bool" where
  "deferral_HoldsNoQueue d =
     (if deferral_SelfImposed d then True
      else (case df_Fleet d of None \<Rightarrow> False | Some a \<Rightarrow> fleet_HoldsNothing a))"

record wait =
  w_Seconds :: float64
  w_SelfImposedSeconds :: float64

definition ForCapacitySeconds :: "wait \<Rightarrow> float64" where
  "ForCapacitySeconds w = fsub (w_Seconds w) (w_SelfImposedSeconds w)"

definition BoundAlreadyBroken :: "admission \<Rightarrow> wait \<Rightarrow> string" where
  "BoundAlreadyBroken p w =
     (if Starved p (ForCapacitySeconds w) then RefusedQueueDelayExceeded
      else if DeadlinePassed p (w_Seconds w) then RefusedDeadlineUnreachable
      else empty_string)"

subsection \<open>Run groups\<close>

record run_group =
  rg_ID :: string
  rg_MaxParallel :: int

definition group_Declared :: "run_group \<Rightarrow> bool" where
  "group_Declared g \<longleftrightarrow> rg_ID g \<noteq> empty_string"

definition group_Full :: "run_group \<Rightarrow> int \<Rightarrow> bool" where
  "group_Full g holding \<longleftrightarrow> group_Declared g \<and> rg_MaxParallel g \<le> holding"

definition group_Stated :: "run_group \<Rightarrow> bool" where
  "group_Stated g \<longleftrightarrow> group_Declared g = (0 < rg_MaxParallel g)"

subsection \<open>Ageing\<close>

lemma known_classes_all:
  "class_Known c \<Longrightarrow> P ClassInteractive \<Longrightarrow> P ClassStandard \<Longrightarrow> P ClassBatch \<Longrightarrow>
     P ClassExperimental \<Longrightarrow> P ClassOpportunistic \<Longrightarrow> P c"
  by (auto simp: class_Known_def KnownServiceClasses_def)

lemma priority_bounds: "0 \<le> ad_Priority (class_Admission c) \<and> ad_Priority (class_Admission c) \<le> TopClassPriority"
  by (cases c) (simp_all add: class_Admission_def no_admission_def TopClassPriority_def)

lemma aging_nonneg: "0 \<le> AgingPerSecond (class_Admission c)"
  using priority_bounds[of c] by (auto simp: AgingPerSecond_def intro!: fdiv_nonneg fsub_nonneg)

lemma is_f64_priority: "is_f64 (ad_Priority (class_Admission c))"
  by (cases c) (simp_all add: class_Admission_def no_admission_def TopClassPriority_def is_f64_numeral)

lemma EffectivePriority_mono:
  assumes "q \<le> q'"
  shows "EffectivePriority (class_Admission c) q \<le> EffectivePriority (class_Admission c) q'"
  using assms aging_nonneg[of c] is_f64_priority[of c]
  by (auto simp: EffectivePriority_def intro!: fadd_mono fmul_mono fadd_ge fmul_nonneg)

text \<open>At half the bound of its class every Run is past the top priority, by evaluation.\<close>

definition half_bound :: "service_class \<Rightarrow> float64" where
  "half_bound c = fdiv (ad_MaxQueueDelaySeconds (class_Admission c)) 2"

lemma half_bound_overtakes:
  "class_Known c \<Longrightarrow> TopClassPriority < EffectivePriority (class_Admission c) (half_bound c)"
  by (erule known_classes_all) code_simp+

lemma half_bound_inside: "class_Known c \<Longrightarrow> \<not> Starved (class_Admission c) (half_bound c)"
  by (erule known_classes_all) code_simp+

subsection \<open>Properties\<close>

text \<open>C33: No class starves another: a Run of any known class that has waited half of the longest wait
  its class accepts, which is before it is refused, outranks every Run that has just arrived, whatever
  its class, and it keeps outranking newcomers for as long as it waits. The priorities are the
  rounded float64 values the code compares.\<close>

theorem waiting_overtakes_every_newcomer:
  assumes "class_Known c" "half_bound c \<le> q" "fresh \<le> 0"
  shows "EffectivePriority (class_Admission c') fresh < EffectivePriority (class_Admission c) q
    \<and> \<not> Starved (class_Admission c) (half_bound c)"
proof -
  have "EffectivePriority (class_Admission c') fresh \<le> TopClassPriority"
    using assms(3) priority_bounds[of c'] by (simp add: EffectivePriority_def)
  also have "\<dots> < EffectivePriority (class_Admission c) (half_bound c)" by (rule half_bound_overtakes[OF assms(1)])
  also have "\<dots> \<le> EffectivePriority (class_Admission c) q" by (rule EffectivePriority_mono[OF assms(2)])
  finally show ?thesis using half_bound_inside[OF assms(1)] by simp
qed

theorem waiting_overtakes_every_newcomer_witness:
  "EffectivePriority (class_Admission ClassInteractive) 0 < EffectivePriority (class_Admission ClassOpportunistic) 3600"
proof -
  have "half_bound ClassOpportunistic \<le> 3600" by code_simp
  then show ?thesis
    using waiting_overtakes_every_newcomer[of ClassOpportunistic 3600 0 ClassInteractive]
    by (simp add: class_Known_def KnownServiceClasses_def)
qed

text \<open>Waiting never costs a Run its place: within one class the effective priority of a Run never
  falls as it waits, it starts at the class's own priority, and so of two Runs of one class the one
  queued longer never ranks below the other.\<close>

theorem priority_never_falls:
  assumes "q \<le> q'"
  shows "ad_Priority (class_Admission c) \<le> EffectivePriority (class_Admission c) q
    \<and> EffectivePriority (class_Admission c) q \<le> EffectivePriority (class_Admission c) q'"
  using EffectivePriority_mono[OF assms] aging_nonneg[of c] is_f64_priority[of c]
  by (auto simp: EffectivePriority_def intro!: fadd_ge fmul_nonneg)

theorem priority_never_falls_witness:
  "EffectivePriority (class_Admission ClassBatch) 10 \<le> EffectivePriority (class_Admission ClassBatch) 20"
  using priority_never_falls[of 10 20 ClassBatch] by simp

text \<open>A broken bound stays broken and the reason never weakens. A wait that has exceeded the queue
  delay is named so even when the deadline has passed too; a longer wait of which no more was the
  Run's own doing is broken whenever the shorter one was; and every known class breaks a bound in the
  end, two hours of waiting for capacity at the latest.\<close>

theorem broken_bound_stays_broken:
  assumes "w_Seconds w \<le> w_Seconds w'" "w_SelfImposedSeconds w' \<le> w_SelfImposedSeconds w"
  shows "(BoundAlreadyBroken p w = RefusedQueueDelayExceeded \<longrightarrow> BoundAlreadyBroken p w' = RefusedQueueDelayExceeded)
    \<and> (BoundAlreadyBroken p w \<noteq> empty_string \<longrightarrow> BoundAlreadyBroken p w' \<noteq> empty_string)
    \<and> (class_Known c \<and> 2 * 60 * 60 < ForCapacitySeconds w \<longrightarrow>
         BoundAlreadyBroken (class_Admission c) w = RefusedQueueDelayExceeded)"
proof -
  have le: "ForCapacitySeconds w \<le> ForCapacitySeconds w'"
    using assms by (simp add: ForCapacitySeconds_def fsub_mono)
  have bound: "class_Known c \<Longrightarrow> 0 < ad_MaxQueueDelaySeconds (class_Admission c)
      \<and> ad_MaxQueueDelaySeconds (class_Admission c) \<le> 2 * 60 * 60"
    by (erule known_classes_all) (simp_all add: class_Admission_def no_admission_def)
  show ?thesis
    using le assms(1) bound by (auto simp: BoundAlreadyBroken_def Starved_def DeadlinePassed_def reason_defs)
qed

theorem broken_bound_stays_broken_witness:
  "BoundAlreadyBroken (class_Admission ClassInteractive) \<lparr>w_Seconds = 301, w_SelfImposedSeconds = 0\<rparr>
     = RefusedQueueDelayExceeded
   \<and> BoundAlreadyBroken (class_Admission ClassInteractive) \<lparr>w_Seconds = 900, w_SelfImposedSeconds = 0\<rparr>
     = RefusedQueueDelayExceeded"
proof -
  have "BoundAlreadyBroken (class_Admission ClassInteractive) \<lparr>w_Seconds = 301, w_SelfImposedSeconds = 0\<rparr>
      = RefusedQueueDelayExceeded" by code_simp
  then show ?thesis
    using broken_bound_stays_broken[of "\<lparr>w_Seconds = 301, w_SelfImposedSeconds = 0\<rparr>"
        "\<lparr>w_Seconds = 900, w_SelfImposedSeconds = 0\<rparr>" "class_Admission ClassInteractive"] by simp
qed

end
