(* ===== verification/Offers.thy ===== *)
theory Offers
  imports ServiceClass
begin

text \<open>
  What a provider publishes and what a workload asks for
  (\<^verbatim>\<open>internal/domain/types.go\<close>, \<^verbatim>\<open>artifact.go\<close>, \<^verbatim>\<open>cache.go\<close>,
  \<^verbatim>\<open>disk.go\<close>, \<^verbatim>\<open>host.go\<close>, \<^verbatim>\<open>candidate_identity.go\<close>,
  \<^verbatim>\<open>economics.go\<close>): the offer and workload records, the work a machine still has to do
  before an image, an artifact or a cache is there, the room that needs, the link it travels over, and
  the identity launches of the same kind are remembered under.

  Byte counts are int64 and their sums wrap, as in the code. Violations carry the code, the path, both
  sides of the comparison and the two flags; of the human-readable message only the name it
  interpolates is kept.
\<close>

subsection \<open>Names\<close>

record platform =
  pl_OS :: string
  pl_Architecture :: string

definition platform_String :: "platform \<Rightarrow> string" where
  "platform_String p =
     (if pl_OS p = empty_string \<or> pl_Architecture p = empty_string then empty_string
      else pl_OS p @ ''/'' @ pl_Architecture p)"

definition ParsePlatform :: "string \<Rightarrow> platform option" where
  "ParsePlatform value =
     (let os = takeWhile (\<lambda>c. c \<noteq> CHR ''/'') value;
          arch = drop (length os + 1) value in
      if CHR ''/'' \<notin> set value \<or> os = empty_string \<or> arch = empty_string then None
      else Some \<lparr>pl_OS = os, pl_Architecture = arch\<rparr>)"

datatype offer_kind = OfferKindStanding | OfferKindProvisionable | OfferKindOther string

datatype execution_lane = LaneReusable | LaneEphemeral | LaneOther string

definition lane_Valid :: "execution_lane \<Rightarrow> bool" where
  "lane_Valid l \<longleftrightarrow> l = LaneReusable \<or> l = LaneEphemeral"

definition lane_Reusable :: "execution_lane \<Rightarrow> bool" where
  "lane_Reusable l \<longleftrightarrow> l = LaneReusable"

definition lane_string :: "execution_lane \<Rightarrow> string" where
  "lane_string l = (case l of LaneReusable \<Rightarrow> ''reusable'' | LaneEphemeral \<Rightarrow> ''ephemeral'' | LaneOther s \<Rightarrow> s)"

datatype network_scope =
    NetworkScopeRegistry | NetworkScopeObjectStore | NetworkScopePublicInternet | NetworkScopeOther string

datatype inbound_mode = InboundNetworkNone | InboundNetworkPublicPort | InboundNetworkOther string

datatype port_exposure = PortExposureNone | PortExposurePublic | PortExposurePrivate | PortExposureOther string

datatype locality = LocalityHot | LocalityPartial | LocalityCold | LocalityUnknown

datatype host_fact = HostFactSSH | HostFactNvidiaDriver | HostFactOther string

definition host_fact_string :: "host_fact \<Rightarrow> string" where
  "host_fact_string f = (case f of
     HostFactSSH \<Rightarrow> ''ssh'' | HostFactNvidiaDriver \<Rightarrow> ''nvidia_driver'' | HostFactOther s \<Rightarrow> s)"

subsection \<open>What a workload asks for\<close>

record port_spec =
  ps_Name :: string
  ps_ContainerPort :: int
  ps_Protocol :: string
  ps_Exposure :: port_exposure

record container_spec =
  cs_Name :: string
  cs_Image :: string
  cs_Platform :: platform
  cs_Entrypoint :: "string list option"
  cs_Args :: "string list"
  cs_Env :: "(string \<times> string option) list"
  cs_Ports :: "port_spec list"

record accelerator_requirement =
  aq_Vendor :: string
  aq_ModelAnyOf :: "string list"
  aq_Count :: int
  aq_MemoryMinBytes :: int64

record host_requirements =
  hr_Facts :: "host_fact list"
  hr_MinDriverVersion :: string
  hr_MinDriverCapability :: string

record resource_requirements =
  rr_CPUMinMillis :: int64
  rr_MemoryMinBytes :: int64
  rr_Accelerators :: "accelerator_requirement list"
  rr_Host :: host_requirements
  rr_EphemeralDiskMinBytes :: int64

record download_requirement =
  dq_Scope :: network_scope
  dq_MinP10Mbps :: float64
  dq_MaxMeasurementAgeSeconds :: int64
  dq_AllowUnknown :: bool

record network_requirements =
  nr_Inbound :: inbound_mode
  nr_Download :: "download_requirement option"

record placement_policy =
  pp_Class :: service_class
  pp_Group :: run_group
  pp_MaxP90StartSeconds :: float64
  pp_ExpectedRuntimeSeconds :: float64
  pp_ExpectedReadySeconds :: float64
  pp_MaxExpectedCostUSD :: "float64 option"
  pp_AllowUnknownPricing :: bool

record execution_policy =
  ep_MaxRuntimeSeconds :: int64
  ep_MaxPreStartAttempts :: int

record artifact_requirements =
  art_Consumes :: "string list"
  art_Produces :: "string list"

record cache_requirement =
  cr_Name :: string
  cr_CompatibilityKey :: string
  cr_SizeBytes :: int64

record workload_spec =
  ws_Containers :: "container_spec list"
  ws_Resources :: resource_requirements
  ws_Network :: network_requirements
  ws_Placement :: placement_policy
  ws_Execution :: execution_policy
  ws_Artifacts :: artifact_requirements
  ws_Caches :: "cache_requirement list"
  ws_Raw :: "string list"

record workload_revision =
  wr_ID :: string
  wr_WorkloadID :: string
  wr_Digest :: string
  wr_Spec :: workload_spec

subsection \<open>Image content\<close>

record image_layer =
  il_Digest :: string
  il_DiffID :: string
  il_CompressedBytes :: int64

record image_manifest =
  im_Known :: bool
  im_Unreadable :: string
  im_Digest :: string
  im_Layers :: "image_layer list"

record image_inventory =
  ii_Known :: bool
  ii_ObservedAt :: time
  ii_ImageDigests :: "string list"
  ii_PulledImageDigests :: "string list"
  ii_UnknownImageDigests :: "string list"
  ii_LayerDigests :: "string list"
  ii_LayerDiffIDs :: "string list"

definition images_Holds :: "image_inventory \<Rightarrow> string \<Rightarrow> bool" where
  "images_Holds i d \<longleftrightarrow> d \<noteq> empty_string \<and> d \<in> set (ii_ImageDigests i)"

definition images_Pulled :: "image_inventory \<Rightarrow> string \<Rightarrow> bool" where
  "images_Pulled i d \<longleftrightarrow> d \<noteq> empty_string \<and> d \<in> set (ii_PulledImageDigests i)"

definition images_Undescribed :: "image_inventory \<Rightarrow> string \<Rightarrow> bool" where
  "images_Undescribed i d \<longleftrightarrow> d \<noteq> empty_string \<and> d \<in> set (ii_UnknownImageDigests i)"

definition images_HoldsLayer :: "image_inventory \<Rightarrow> image_layer \<Rightarrow> bool" where
  "images_HoldsLayer i l \<longleftrightarrow>
     il_Digest l \<noteq> empty_string \<and> il_Digest l \<in> set (ii_LayerDigests i)
   \<or> il_DiffID l \<noteq> empty_string \<and> il_DiffID l \<in> set (ii_LayerDiffIDs i)"

record image_work =
  iw_TransferBytes :: int64
  iw_UnpackBytes :: int64

definition no_image_work :: image_work where
  "no_image_work = \<lparr>iw_TransferBytes = 0, iw_UnpackBytes = 0\<rparr>"

definition image_work_None :: "image_work \<Rightarrow> bool" where
  "image_work_None w \<longleftrightarrow> iw_TransferBytes w = 0 \<and> iw_UnpackBytes w = 0"

definition sum_i64 :: "int64 list \<Rightarrow> int64" where
  "sum_i64 xs = foldl i64_add 0 xs"

definition compressedBytes :: "image_manifest \<Rightarrow> int64" where
  "compressedBytes m = sum_i64 (map il_CompressedBytes (im_Layers m))"

fun layer_work :: "image_inventory \<Rightarrow> bool \<Rightarrow> image_layer list \<Rightarrow> image_work \<times> nat \<Rightarrow> image_work \<times> nat" where
  "layer_work held pulled [] acc = acc"
| "layer_work held pulled (l # ls) (w, here) =
     layer_work held pulled ls
       (if images_HoldsLayer held l then (w, here + 1)
        else if pulled then (w\<lparr>iw_UnpackBytes := i64_add (iw_UnpackBytes w) (il_CompressedBytes l)\<rparr>, here + 1)
        else (w\<lparr>iw_TransferBytes := i64_add (iw_TransferBytes w) (il_CompressedBytes l),
                iw_UnpackBytes := i64_add (iw_UnpackBytes w) (il_CompressedBytes l)\<rparr>, here))"

definition StartWork :: "image_manifest \<Rightarrow> image_inventory \<Rightarrow> image_work \<times> locality" where
  "StartWork m held =
     (if \<not> im_Known m then (no_image_work, LocalityUnknown)
      else if ii_Known held \<and> images_Holds held (im_Digest m) then (no_image_work, LocalityHot)
      else if im_Layers m = [] then (no_image_work, LocalityUnknown)
      else if \<not> ii_Known held
        then (\<lparr>iw_TransferBytes = compressedBytes m, iw_UnpackBytes = compressedBytes m\<rparr>, LocalityUnknown)
      else case layer_work held (images_Pulled held (im_Digest m)) (im_Layers m) (no_image_work, 0) of
        (work, here) \<Rightarrow>
          if images_Undescribed held (im_Digest m) then (work, LocalityUnknown)
          else if image_work_None work then (work, LocalityHot)
          else if here = 0 then (work, LocalityCold)
          else (work, LocalityPartial))"

definition ResidentBytes :: "image_manifest \<Rightarrow> image_work \<Rightarrow> int64" where
  "ResidentBytes m w = i64_sub (compressedBytes m) (iw_TransferBytes w)"

subsection \<open>Artifacts\<close>

datatype replica_state = ArtifactReplicaVerified | ArtifactReplicaUnverified | ArtifactReplicaOther string

definition replica_Usable :: "replica_state \<Rightarrow> bool" where
  "replica_Usable s \<longleftrightarrow> s = ArtifactReplicaVerified"

record artifact_version =
  av_ID :: string
  av_ContentDigest :: string
  av_SizeBytes :: int64
  av_Location :: string
  av_ProducedByRunID :: string
  av_PublishedAt :: time

definition artifact_Durable :: "artifact_version \<Rightarrow> bool" where
  "artifact_Durable v \<longleftrightarrow> av_Location v \<noteq> empty_string \<and> \<not> time_is_zero (av_PublishedAt v)"

record artifact_replica =
  ap_ArtifactID :: string
  ap_ContentDigest :: string
  ap_SizeBytes :: int64
  ap_State :: replica_state
  ap_VerifiedAt :: time

record artifact_inventory =
  ai_Known :: bool
  ai_ObservedAt :: time
  ai_Replicas :: "artifact_replica list"

definition artifacts_Replica :: "artifact_inventory \<Rightarrow> string \<Rightarrow> artifact_replica option" where
  "artifacts_Replica i aid = find (\<lambda>r. ap_ArtifactID r = aid) (ai_Replicas i)"

definition artifacts_Holds :: "artifact_inventory \<Rightarrow> artifact_version \<Rightarrow> bool" where
  "artifacts_Holds i v = (case artifacts_Replica i (av_ID v) of
     None \<Rightarrow> False
   | Some r \<Rightarrow> replica_Usable (ap_State r) \<and> ap_ContentDigest r = av_ContentDigest v)"

record artifact_evidence =
  ae_ArtifactID :: string
  ae_Locality :: locality
  ae_FetchBytes :: int64

definition artifact_found :: "artifact_inventory \<Rightarrow> artifact_version \<Rightarrow> artifact_evidence" where
  "artifact_found i v =
     (if \<not> ai_Known i
        then \<lparr>ae_ArtifactID = av_ID v, ae_Locality = LocalityUnknown, ae_FetchBytes = av_SizeBytes v\<rparr>
      else if artifacts_Holds i v
        then \<lparr>ae_ArtifactID = av_ID v, ae_Locality = LocalityHot, ae_FetchBytes = 0\<rparr>
      else \<lparr>ae_ArtifactID = av_ID v, ae_Locality = LocalityCold, ae_FetchBytes = av_SizeBytes v\<rparr>)"

definition ArtifactFetchWork :: "artifact_version list \<Rightarrow> artifact_inventory \<Rightarrow> int64 \<times> artifact_evidence list" where
  "ArtifactFetchWork versions i =
     (let evidence = map (artifact_found i) versions in (sum_i64 (map ae_FetchBytes evidence), evidence))"

subsection \<open>Caches\<close>

record cache_mount =
  cm_Name :: string
  cm_CompatibilityKey :: string
  cm_CreatedAt :: time

record cache_inventory =
  ci_Known :: bool
  ci_ObservedAt :: time
  ci_Mounts :: "cache_mount list"

definition CacheIdentity :: "cache_requirement \<Rightarrow> string" where
  "CacheIdentity r = cr_Name r @ ''/'' @ cr_CompatibilityKey r"

fun newest_mount :: "string \<Rightarrow> cache_mount list \<Rightarrow> cache_mount option \<Rightarrow> cache_mount option" where
  "newest_mount name [] acc = acc"
| "newest_mount name (m # ms) acc =
     newest_mount name ms
       (if cm_Name m \<noteq> name then acc
        else case acc of
               None \<Rightarrow> Some m
             | Some n \<Rightarrow> if cm_CreatedAt n < cm_CreatedAt m then Some m else Some n)"

definition caches_Held :: "cache_inventory \<Rightarrow> string \<Rightarrow> cache_mount option" where
  "caches_Held i name = newest_mount name (ci_Mounts i) None"

definition caches_Holds :: "cache_inventory \<Rightarrow> cache_requirement \<Rightarrow> bool" where
  "caches_Holds i r \<longleftrightarrow>
     (\<exists>m \<in> set (ci_Mounts i). cm_Name m = cr_Name r \<and> cm_CompatibilityKey m = cr_CompatibilityKey r)"

record cache_evidence =
  ce_Name :: string
  ce_Locality :: locality
  ce_HeldCompatibilityKey :: string

definition cache_found :: "cache_inventory \<Rightarrow> cache_requirement \<Rightarrow> cache_evidence" where
  "cache_found i r =
     (let cold = \<lparr>ce_Name = cr_Name r, ce_Locality = LocalityCold, ce_HeldCompatibilityKey = empty_string\<rparr> in
      if \<not> ci_Known i then cold\<lparr>ce_Locality := LocalityUnknown\<rparr>
      else if caches_Holds i r
        then cold\<lparr>ce_Locality := LocalityHot, ce_HeldCompatibilityKey := cr_CompatibilityKey r\<rparr>
      else case caches_Held i (cr_Name r) of
             None \<Rightarrow> cold
           | Some held \<Rightarrow> cold\<lparr>ce_HeldCompatibilityKey := cm_CompatibilityKey held\<rparr>)"

definition CacheWarmth :: "cache_requirement list \<Rightarrow> cache_inventory \<Rightarrow> cache_evidence list" where
  "CacheWarmth required i = map (cache_found i) required"

definition CacheLandBytes :: "cache_requirement list \<Rightarrow> cache_inventory \<Rightarrow> int64" where
  "CacheLandBytes required i = sum_i64 (map cr_SizeBytes (filter (\<lambda>r. \<not> caches_Holds i r) required))"

subsection \<open>Disk\<close>

record disk_demand =
  dd_FreeBytes :: int64
  dd_FreeBytesKnown :: bool
  dd_ReservedBytes :: int64
  dd_LandBytes :: int64
  dd_EstablishedLandBytes :: int64

definition RequiredBytes :: "disk_demand \<Rightarrow> int64" where
  "RequiredBytes d = i64_add (dd_ReservedBytes d) (dd_EstablishedLandBytes d)"

definition disk_Fits :: "disk_demand \<Rightarrow> bool" where
  "disk_Fits d \<longleftrightarrow> RequiredBytes d \<le> dd_FreeBytes d"

subsection \<open>Links\<close>

record network_fact =
  nf_Scope :: network_scope
  nf_Statistic :: string
  nf_ValueMbps :: float64
  nf_Source :: string
  nf_SampleCount :: int
  nf_ObservedAt :: time
  nf_ValidUntil :: time
  nf_Confidence :: float64

definition fact_Answers :: "network_fact \<Rightarrow> time \<Rightarrow> bool" where
  "fact_Answers f moment =
     (if nf_Confidence f \<le> 0 \<or> 1 < nf_Confidence f then False
      else time_is_zero (nf_ValidUntil f) \<or> moment < nf_ValidUntil f)"

definition DownloadP10 :: "network_fact list \<Rightarrow> network_scope \<Rightarrow> time \<Rightarrow> network_fact option" where
  "DownloadP10 facts scope moment =
     find (\<lambda>f. \<not> (nf_Scope f \<noteq> scope \<or> nf_Statistic f \<noteq> ''p10'' \<or> nf_ValueMbps f \<le> 0)
             \<and> fact_Answers f moment) facts"

text \<open>\<^verbatim>\<open>time.Duration(n) * time.Second\<close> multiplies int64s and wraps.\<close>

definition download_Answer :: "download_requirement \<Rightarrow> network_fact list \<Rightarrow> time \<Rightarrow> network_fact option" where
  "download_Answer req facts moment =
     (case DownloadP10 facts (dq_Scope req) moment of
        None \<Rightarrow> None
      | Some f \<Rightarrow>
          if 0 < dq_MaxMeasurementAgeSeconds req
           \<and> i64_mul (dq_MaxMeasurementAgeSeconds req) nanos_per_second < time_sub moment (nf_ObservedAt f)
          then None else Some f)"

record link_speed =
  ls_Mbps :: float64
  ls_Confidence :: float64
  ls_Measurement :: string
  ls_Assumption :: string

definition link_Measured :: "link_speed \<Rightarrow> bool" where
  "link_Measured l \<longleftrightarrow> ls_Measurement l \<noteq> empty_string"

definition AssumedLinkConfidence :: float64 where "AssumedLinkConfidence = 1 / 2"
definition DefaultRegistryDownloadMbps :: float64 where "DefaultRegistryDownloadMbps = 500"
definition DefaultObjectStoreDownloadMbps :: float64 where "DefaultObjectStoreDownloadMbps = 500"
definition AssumedUnpackMbps :: float64 where "AssumedUnpackMbps = 2000"
definition AssumedContainerStartSeconds :: rat where "AssumedContainerStartSeconds = 1"

definition AssumedDownloadRate :: "network_scope \<Rightarrow> link_speed" where
  "AssumedDownloadRate scope = (case scope of
     NetworkScopeRegistry \<Rightarrow> \<lparr>ls_Mbps = DefaultRegistryDownloadMbps, ls_Confidence = AssumedLinkConfidence,
       ls_Measurement = empty_string, ls_Assumption = ''assumed_registry_rate''\<rparr>
   | NetworkScopeObjectStore \<Rightarrow> \<lparr>ls_Mbps = DefaultObjectStoreDownloadMbps, ls_Confidence = AssumedLinkConfidence,
       ls_Measurement = empty_string, ls_Assumption = ''assumed_object_store_rate''\<rparr>
   | _ \<Rightarrow> \<lparr>ls_Mbps = 0, ls_Confidence = 0, ls_Measurement = empty_string, ls_Assumption = empty_string\<rparr>)"

definition UnpackRate :: link_speed where
  "UnpackRate = \<lparr>ls_Mbps = AssumedUnpackMbps, ls_Confidence = AssumedLinkConfidence,
     ls_Measurement = empty_string, ls_Assumption = ''assumed_unpack_rate''\<rparr>"

text \<open>
  Both scopes the scheduler prices assume a positive rate and an answering fact has one, so the
  division by zero a scope without a rate would ask for never happens.
\<close>

definition TransferSeconds :: "link_speed \<Rightarrow> int64 \<Rightarrow> float64" where
  "TransferSeconds l bytes =
     (if bytes \<le> 0 then 0
      else fdiv (fdiv (f64_of_int (i64_mul bytes 8)) 1000000) (ls_Mbps l))"

subsection \<open>Prices and terms\<close>

record price_model =
  pm_Currency :: string
  pm_SetupFeeUSD :: float64
  pm_RatePerSecondUSD :: float64
  pm_MinimumChargeSeconds :: int64
  pm_GranularitySeconds :: int64
  pm_Known :: bool

definition CostUnpriced :: string where "CostUnpriced = ''unpriced''"

definition BilledSeconds :: "price_model \<Rightarrow> float64 \<Rightarrow> float64" where
  "BilledSeconds p secs =
     (if pm_GranularitySeconds p \<le> 0 \<or> secs \<le> 0 then max 0 secs
      else let increment = f64_of_int (pm_GranularitySeconds p) in
        fmul (fceil (fdiv secs increment)) increment)"

record capacity_terms =
  ct_CommittedUntil :: time
  ct_EligibleClasses :: "service_class list"
  ct_AvailableUntil :: time

definition terms_Admits :: "capacity_terms \<Rightarrow> service_class \<Rightarrow> bool" where
  "terms_Admits t c \<longleftrightarrow> ct_EligibleClasses t = [] \<or> c \<in> set (ct_EligibleClasses t)"

record occupancy =
  oc_At :: time
  oc_StartSeconds :: float64
  oc_RuntimeSeconds :: float64
  oc_MaxRuntimeSeconds :: float64

definition occupancy_Begins :: "occupancy \<Rightarrow> time" where
  "occupancy_Begins o1 = time_add (oc_At o1) (seconds_duration (oc_StartSeconds o1))"

definition occupancy_LatestEnd :: "occupancy \<Rightarrow> time" where
  "occupancy_LatestEnd o1 = time_add (occupancy_Begins o1) (seconds_duration (oc_MaxRuntimeSeconds o1))"

definition CommittedSeconds :: "capacity_terms \<Rightarrow> occupancy \<Rightarrow> float64" where
  "CommittedSeconds t o1 =
     (if time_is_zero (ct_CommittedUntil t) then 0
      else max 0 (min (oc_RuntimeSeconds o1) (seconds_between (ct_CommittedUntil t) (occupancy_Begins o1))))"

definition OutlivesWindow :: "capacity_terms \<Rightarrow> occupancy \<Rightarrow> bool" where
  "OutlivesWindow t o1 \<longleftrightarrow> \<not> time_is_zero (ct_AvailableUntil t) \<and> ct_AvailableUntil t < occupancy_LatestEnd o1"

subsection \<open>Estimates\<close>

datatype prediction_level =
    LevelExactCandidate | LevelProviderAndRegion | LevelProvider | LevelPrior | LevelUnset

record estimate =
  e_P50 :: float64
  e_P90 :: float64
  e_Expected :: float64
  e_Confidence :: float64
  e_Source :: string
  e_SampleCount :: int
  e_ModelVersion :: string
  e_Level :: prediction_level
  e_Key :: string

definition zero_estimate :: estimate where
  "zero_estimate = \<lparr>e_P50 = 0, e_P90 = 0, e_Expected = 0, e_Confidence = 0, e_Source = empty_string,
     e_SampleCount = 0, e_ModelVersion = empty_string, e_Level = LevelUnset, e_Key = empty_string\<rparr>"

subsection \<open>The offer\<close>

record accelerator_inventory =
  an_Vendor :: string
  an_Model :: string
  an_CanonicalModel :: string
  an_Count :: int64
  an_MemoryBytes :: int64

record resource_inventory =
  rv_CPUMillis :: int64
  rv_MemoryBytes :: int64
  rv_EphemeralDiskBytes :: int64
  rv_EphemeralDiskKnown :: bool
  rv_Accelerators :: "accelerator_inventory list"
  rv_AcceleratorsKnown :: bool

record accelerator_driver =
  dr_Vendor :: string
  dr_Version :: string
  dr_Capability :: string

record host_facts =
  hf_Attested :: "host_fact \<rightharpoonup> bool"
  hf_Driver :: accelerator_driver

text \<open>The capabilities the scheduler reads; the others are carried through untouched.\<close>

record capability_profile =
  cp_MaxContainers :: int
  cp_SupportsDigestRefs :: bool
  cp_SupportsEntrypointOverride :: bool
  cp_Inbound :: inbound_mode

record stated_rate =
  sr_Rate :: float64
  sr_Confidence :: float64

record reliability_evidence =
  rl_StartFailures :: stated_rate
  rl_Interruptions :: stated_rate

record offer_snapshot =
  o_ID :: string
  o_RentalID :: string
  o_MachineID :: string
  o_ConnectionID :: string
  o_AdapterType :: string
  o_Kind :: offer_kind
  o_Lane :: execution_lane
  o_NativeRef :: string
  o_Region :: string
  o_InstanceType :: string
  o_ObservedAt :: time
  o_ExpiresAt :: time
  o_Platform :: platform
  o_Resources :: resource_inventory
  o_Host :: host_facts
  o_Capabilities :: capability_profile
  o_Network :: "network_fact list"
  o_Pricing :: price_model
  o_Terms :: capacity_terms
  o_QueuedWorkSeconds :: "float64 option"
  o_Provisioning :: "estimate option"
  o_BootstrapDeadlineSeconds :: "float64 option"
  o_Images :: image_inventory
  o_Artifacts :: artifact_inventory
  o_Caches :: cache_inventory
  o_Available :: bool
  o_CapacityConfidence :: float64
  o_Reclaimable :: bool
  o_Reliability :: reliability_evidence

definition KeepsWhatItRuns :: "offer_snapshot \<Rightarrow> bool" where
  "KeepsWhatItRuns offer \<longleftrightarrow> o_Kind offer = OfferKindStanding \<and> lane_Reusable (o_Lane offer)"

definition HolderOfMachine :: "offer_snapshot list \<Rightarrow> offer_snapshot \<Rightarrow> string option" where
  "HolderOfMachine offers listing =
     (if o_Kind listing \<noteq> OfferKindProvisionable \<or> o_MachineID listing = empty_string then None
      else map_option o_RentalID
        (find (\<lambda>offer. o_Kind offer = OfferKindStanding \<and> o_MachineID offer = o_MachineID listing
                     \<and> o_RentalID offer \<noteq> empty_string) offers))"

definition DownloadRate :: "offer_snapshot \<Rightarrow> network_scope \<Rightarrow> time \<Rightarrow> link_speed" where
  "DownloadRate offer scope moment =
     (case DownloadP10 (o_Network offer) scope moment of
        Some f \<Rightarrow> \<lparr>ls_Mbps = nf_ValueMbps f, ls_Confidence = nf_Confidence f,
                   ls_Measurement = nf_Source f, ls_Assumption = empty_string\<rparr>
      | None \<Rightarrow> AssumedDownloadRate scope)"

definition AcceleratorCount :: "resource_inventory \<Rightarrow> int64" where
  "AcceleratorCount r = sum_i64 (map an_Count (rv_Accelerators r))"

definition requestedAcceleratorCount :: "resource_requirements \<Rightarrow> int64" where
  "requestedAcceleratorCount r = sum_i64 (map aq_Count (rr_Accelerators r))"

definition PublishedTo :: "offer_snapshot \<Rightarrow> resource_requirements \<Rightarrow> bool" where
  "PublishedTo offer r =
     (if o_Kind offer \<noteq> OfferKindProvisionable then True
      else if rv_EphemeralDiskKnown (o_Resources offer)
            \<and> rv_EphemeralDiskBytes (o_Resources offer) < rr_EphemeralDiskMinBytes r then False
      else requestedAcceleratorCount r \<le> AcceleratorCount (o_Resources offer))"

definition EnrolmentDeadline :: "float64 option \<Rightarrow> time \<Rightarrow> duration \<Rightarrow> time" where
  "EnrolmentDeadline bootstrap acceptedAt patience =
     time_add acceptedAt (case bootstrap of
       Some s \<Rightarrow> if 0 < s then seconds_duration s else patience
     | None \<Rightarrow> patience)"

datatype disposition = DispositionRelease | DispositionTerminate | DispositionOther string

definition CleanupDisposition :: "offer_snapshot \<Rightarrow> string + disposition" where
  "CleanupDisposition offer =
     (if \<not> lane_Valid (o_Lane offer) then Inl ''no execution lane''
      else if o_Kind offer \<noteq> OfferKindProvisionable \<and> o_Kind offer \<noteq> OfferKindStanding
        then Inl ''unknown offer kind''
      else if o_Kind offer = OfferKindProvisionable \<and> \<not> lane_Reusable (o_Lane offer)
        then Inr DispositionTerminate
      else Inr DispositionRelease)"

end
