(* ===== verification/RentalSchedule.thy ===== *)
theory RentalSchedule
  imports GoNum
begin

text \<open>
  The Rental Schedule (\<^verbatim>\<open>internal/domain/rental_schedule.go\<close>): the ordered Bookings of one
  Rental, at most one running and at most four queued behind it. The operations reserve a place,
  record that the work holding the Rental started, and complete a Booking; the projections say how
  long what is there still holds the machine.
\<close>

subsection \<open>Data\<close>

definition RentalScheduleQueueCapacity :: nat where
  "RentalScheduleQueueCapacity = 4"

datatype booking_state =
    BookingStateRunning
  | BookingStateQueued
  | BookingStateOther string

record booking =
  b_ID :: string
  b_RunID :: string
  b_RentalID :: string
  b_State :: booking_state
  b_AfterBookingID :: string
  b_ProjectedStartAt :: "time option"
  b_LatestStartAt :: "time option"
  b_ScheduleVersion :: uint64

record booking_request =
  br_BookingID :: string
  br_RunID :: string
  br_ExpectedRuntimeSeconds :: float64
  br_MaxRuntimeSeconds :: float64
  br_ReservedAt :: time

record scheduled_booking =
  sb_Booking :: booking
  sb_ExpectedRuntimeSeconds :: float64
  sb_MaxRuntimeSeconds :: float64
  sb_StartedAt :: time

record rental_schedule =
  rs_RentalID :: string
  rs_Version :: uint64
  rs_Bookings :: "scheduled_booking list"

datatype schedule_error =
    ScheduleNeedsIdentity
  | ScheduleNeedsPositiveRuntime
  | ExpectedExceedsMaximum
  | QueueCapacityReached
  | CannotPromiseBehind string float64
  | AlreadyContains
  | StartNeedsBookingAndTime
  | NotHolding string string
  | AlreadyRunning string time
  | CompletionNeedsBookingAndTime
  | DoesNotContain string

definition NewRentalSchedule :: "string \<Rightarrow> rental_schedule" where
  "NewRentalSchedule rentalID = \<lparr>rs_RentalID = rentalID, rs_Version = 0, rs_Bookings = []\<rparr>"

subsection \<open>Projections\<close>

definition remainingSeconds :: "float64 \<Rightarrow> time \<Rightarrow> time \<Rightarrow> float64" where
  "remainingSeconds declared startedAt now =
     (if time_is_zero startedAt then declared
      else max 0 (fsub declared (seconds_between now startedAt)))"

definition RemainingExpectedSeconds :: "scheduled_booking \<Rightarrow> time \<Rightarrow> float64" where
  "RemainingExpectedSeconds b now = remainingSeconds (sb_ExpectedRuntimeSeconds b) (sb_StartedAt b) now"

definition RemainingMaxSeconds :: "scheduled_booking \<Rightarrow> time \<Rightarrow> float64" where
  "RemainingMaxSeconds b now = remainingSeconds (sb_MaxRuntimeSeconds b) (sb_StartedAt b) now"

definition OverrunSeconds :: "scheduled_booking \<Rightarrow> time \<Rightarrow> float64" where
  "OverrunSeconds b now =
     (if time_is_zero (sb_StartedAt b) then 0
      else max 0 (fsub (seconds_between now (sb_StartedAt b)) (sb_MaxRuntimeSeconds b)))"

definition ExpectedWaitSeconds :: "rental_schedule \<Rightarrow> time \<Rightarrow> float64" where
  "ExpectedWaitSeconds s now =
     foldl (\<lambda>acc b. fadd acc (RemainingExpectedSeconds b now)) 0 (rs_Bookings s)"

definition schedule_Exhausted :: "rental_schedule \<Rightarrow> time \<Rightarrow> bool" where
  "schedule_Exhausted s now =
     (case rs_Bookings s of [] \<Rightarrow> False | b # _ \<Rightarrow> RemainingMaxSeconds b now \<le> 0)"

definition schedule_Holding :: "rental_schedule \<Rightarrow> scheduled_booking option" where
  "schedule_Holding s = (case rs_Bookings s of [] \<Rightarrow> None | b # _ \<Rightarrow> Some b)"

record running_evidence =
  re_BookingID :: string
  re_RunID :: string
  re_RemainingMaxRuntimeSeconds :: float64
  re_RemainingExpectedRuntimeSeconds :: float64
  re_OverrunSeconds :: float64

record waiting_evidence =
  we_BookingID :: string
  we_RunID :: string
  we_MaxRuntimeSeconds :: float64
  we_ExpectedRuntimeSeconds :: float64

record schedule_evidence =
  se_Version :: uint64
  se_Running :: "running_evidence option"
  se_Preceding :: "waiting_evidence list"
  se_ProjectedStartSeconds :: float64

definition running_of :: "scheduled_booking \<Rightarrow> time \<Rightarrow> running_evidence" where
  "running_of b now = \<lparr>re_BookingID = b_ID (sb_Booking b), re_RunID = b_RunID (sb_Booking b),
     re_RemainingMaxRuntimeSeconds = RemainingMaxSeconds b now,
     re_RemainingExpectedRuntimeSeconds = RemainingExpectedSeconds b now,
     re_OverrunSeconds = OverrunSeconds b now\<rparr>"

definition waiting_of :: "scheduled_booking \<Rightarrow> time \<Rightarrow> waiting_evidence" where
  "waiting_of b now = \<lparr>we_BookingID = b_ID (sb_Booking b), we_RunID = b_RunID (sb_Booking b),
     we_MaxRuntimeSeconds = RemainingMaxSeconds b now,
     we_ExpectedRuntimeSeconds = RemainingExpectedSeconds b now\<rparr>"

definition schedule_Evidence :: "rental_schedule \<Rightarrow> time \<Rightarrow> schedule_evidence" where
  "schedule_Evidence s now =
     \<lparr>se_Version = rs_Version s,
      se_Running = (case rs_Bookings s of [] \<Rightarrow> None | b # _ \<Rightarrow> Some (running_of b now)),
      se_Preceding = (case rs_Bookings s of [] \<Rightarrow> [] | _ # bs \<Rightarrow> map (\<lambda>b. waiting_of b now) bs),
      se_ProjectedStartSeconds = ExpectedWaitSeconds s now\<rparr>"

subsection \<open>Operations\<close>

fun startBounds_from :: "time \<Rightarrow> time \<Rightarrow> time \<Rightarrow> scheduled_booking list \<Rightarrow> time \<times> time" where
  "startBounds_from now projected latest [] = (projected, latest)"
| "startBounds_from now projected latest (b # bs) =
     startBounds_from now
       (time_add projected (seconds_duration (RemainingExpectedSeconds b now)))
       (time_add latest (seconds_duration (RemainingMaxSeconds b now))) bs"

definition schedule_startBounds :: "rental_schedule \<Rightarrow> time \<Rightarrow> time \<times> time" where
  "schedule_startBounds s now = startBounds_from now now now (rs_Bookings s)"

definition validBookingRequest :: "rental_schedule \<Rightarrow> booking_request \<Rightarrow> schedule_error option" where
  "validBookingRequest s req =
     (if rs_RentalID s = empty_string \<or> br_BookingID req = empty_string \<or> br_RunID req = empty_string
        then Some ScheduleNeedsIdentity
      else if time_is_zero (br_ReservedAt req) \<or> br_ExpectedRuntimeSeconds req \<le> 0 \<or> br_MaxRuntimeSeconds req \<le> 0
        then Some ScheduleNeedsPositiveRuntime
      else if br_MaxRuntimeSeconds req < br_ExpectedRuntimeSeconds req then Some ExpectedExceedsMaximum
      else if RentalScheduleQueueCapacity + 1 \<le> length (rs_Bookings s) then Some QueueCapacityReached
      else if schedule_Exhausted s (br_ReservedAt req)
        then Some (CannotPromiseBehind (b_ID (sb_Booking (hd (rs_Bookings s))))
                     (OverrunSeconds (hd (rs_Bookings s)) (br_ReservedAt req)))
      else if \<exists>b \<in> set (rs_Bookings s).
                b_ID (sb_Booking b) = br_BookingID req \<or> b_RunID (sb_Booking b) = br_RunID req
        then Some AlreadyContains
      else None)"

definition schedule_bookingFor :: "rental_schedule \<Rightarrow> booking_request \<Rightarrow> booking" where
  "schedule_bookingFor s req =
     (let first = \<lparr>b_ID = br_BookingID req, b_RunID = br_RunID req, b_RentalID = rs_RentalID s,
                   b_State = BookingStateRunning, b_AfterBookingID = empty_string,
                   b_ProjectedStartAt = None, b_LatestStartAt = None,
                   b_ScheduleVersion = rs_Version s + 1\<rparr> in
      if rs_Bookings s = [] then first
      else let (projected, latest) = schedule_startBounds s (br_ReservedAt req) in
        first\<lparr>b_State := BookingStateQueued,
              b_AfterBookingID := b_ID (sb_Booking (last (rs_Bookings s))),
              b_ProjectedStartAt := Some projected, b_LatestStartAt := Some latest\<rparr>)"

definition schedule_Reserve ::
    "rental_schedule \<Rightarrow> booking_request \<Rightarrow> schedule_error + (rental_schedule \<times> booking)" where
  "schedule_Reserve s req =
     checked (validBookingRequest s req)
      (let b = schedule_bookingFor s req in
       Inr (\<lparr>rs_RentalID = rs_RentalID s, rs_Version = b_ScheduleVersion b,
             rs_Bookings = rs_Bookings s @
               [\<lparr>sb_Booking = b, sb_ExpectedRuntimeSeconds = br_ExpectedRuntimeSeconds req,
                 sb_MaxRuntimeSeconds = br_MaxRuntimeSeconds req, sb_StartedAt = zero_time\<rparr>]\<rparr>, b))"

text \<open>The index of the first Booking with this identity; the source's -1 is \<open>None\<close>.\<close>

fun index_from :: "string \<Rightarrow> nat \<Rightarrow> scheduled_booking list \<Rightarrow> nat option" where
  "index_from bookingID i [] = None"
| "index_from bookingID i (b # bs) =
     (if b_ID (sb_Booking b) = bookingID then Some i else index_from bookingID (i + 1) bs)"

definition schedule_bookingIndex :: "rental_schedule \<Rightarrow> string \<Rightarrow> nat option" where
  "schedule_bookingIndex s bookingID = index_from bookingID 0 (rs_Bookings s)"

definition schedule_Started :: "rental_schedule \<Rightarrow> string \<Rightarrow> time \<Rightarrow> schedule_error + rental_schedule" where
  "schedule_Started s bookingID moment =
     (if bookingID = empty_string \<or> time_is_zero moment then Inl StartNeedsBookingAndTime
      else if schedule_bookingIndex s bookingID \<noteq> Some 0 then Inl (NotHolding (rs_RentalID s) bookingID)
      else if \<not> time_is_zero (sb_StartedAt (rs_Bookings s ! 0))
        then Inl (AlreadyRunning bookingID (sb_StartedAt (rs_Bookings s ! 0)))
      else Inr \<lparr>rs_RentalID = rs_RentalID s, rs_Version = rs_Version s + 1,
                rs_Bookings = (rs_Bookings s)[0 := (rs_Bookings s ! 0)\<lparr>sb_StartedAt := moment\<rparr>]\<rparr>)"

text \<open>
  One pass of the loop of \<^verbatim>\<open>reproject\<close>, and the loop: \<open>prev\<close> is the identity of
  the Booking before this one, absent at index 0, and the two moments accumulate what the Bookings
  ahead have left.
\<close>

definition reproject_booking ::
    "uint64 \<Rightarrow> time \<Rightarrow> time \<Rightarrow> string option \<Rightarrow> booking \<Rightarrow> booking" where
  "reproject_booking v projected latest prev b = (case prev of
     None \<Rightarrow> b\<lparr>b_ScheduleVersion := v, b_State := BookingStateRunning, b_AfterBookingID := empty_string,
               b_ProjectedStartAt := None, b_LatestStartAt := None\<rparr>
   | Some after \<Rightarrow> b\<lparr>b_ScheduleVersion := v, b_State := BookingStateQueued, b_AfterBookingID := after,
               b_ProjectedStartAt := Some projected, b_LatestStartAt := Some latest\<rparr>)"

fun reproject_from ::
    "uint64 \<Rightarrow> time \<Rightarrow> time \<Rightarrow> time \<Rightarrow> string option \<Rightarrow> scheduled_booking list \<Rightarrow> scheduled_booking list" where
  "reproject_from v now projected latest prev [] = []"
| "reproject_from v now projected latest prev (b # bs) =
     b\<lparr>sb_Booking := reproject_booking v projected latest prev (sb_Booking b)\<rparr> #
     reproject_from v now
       (time_add projected (seconds_duration (RemainingExpectedSeconds b now)))
       (time_add latest (seconds_duration (RemainingMaxSeconds b now)))
       (Some (b_ID (sb_Booking b))) bs"

definition schedule_reproject :: "rental_schedule \<Rightarrow> time \<Rightarrow> rental_schedule" where
  "schedule_reproject s now =
     s\<lparr>rs_Bookings := reproject_from (rs_Version s) now now now None (rs_Bookings s)\<rparr>"

definition schedule_Complete ::
    "rental_schedule \<Rightarrow> string \<Rightarrow> time \<Rightarrow> schedule_error + (rental_schedule \<times> booking option)" where
  "schedule_Complete s bookingID completedAt =
     (if bookingID = empty_string \<or> time_is_zero completedAt then Inl CompletionNeedsBookingAndTime
      else case schedule_bookingIndex s bookingID of
        None \<Rightarrow> Inl (DoesNotContain bookingID)
      | Some index \<Rightarrow>
          let remaining = take index (rs_Bookings s) @ drop (index + 1) (rs_Bookings s);
              next = schedule_reproject
                \<lparr>rs_RentalID = rs_RentalID s, rs_Version = rs_Version s + 1, rs_Bookings = remaining\<rparr> completedAt
          in if index \<noteq> 0 \<or> rs_Bookings next = [] then Inr (next, None)
             else Inr (next, Some (sb_Booking (rs_Bookings next ! 0))))"

subsection \<open>The shape of a schedule\<close>

abbreviation sb_id :: "scheduled_booking \<Rightarrow> string" where
  "sb_id b \<equiv> b_ID (sb_Booking b)"

abbreviation sb_run :: "scheduled_booking \<Rightarrow> string" where
  "sb_run b \<equiv> b_RunID (sb_Booking b)"

definition base_ok :: "string \<Rightarrow> scheduled_booking \<Rightarrow> bool" where
  "base_ok rid b \<longleftrightarrow> b_RentalID (sb_Booking b) = rid \<and> sb_id b \<noteq> empty_string \<and> sb_run b \<noteq> empty_string
     \<and> 0 < sb_ExpectedRuntimeSeconds b \<and> sb_ExpectedRuntimeSeconds b \<le> sb_MaxRuntimeSeconds b"

text \<open>What a Booking says about its own place: the head holds the Rental, every other one waits for
  the Booking before it and has not started.\<close>

definition place_ok :: "string option \<Rightarrow> scheduled_booking \<Rightarrow> bool" where
  "place_ok prev b = (case prev of
     None \<Rightarrow> b_State (sb_Booking b) = BookingStateRunning \<and> b_AfterBookingID (sb_Booking b) = empty_string
       \<and> b_ProjectedStartAt (sb_Booking b) = None \<and> b_LatestStartAt (sb_Booking b) = None
   | Some after \<Rightarrow> b_State (sb_Booking b) = BookingStateQueued \<and> b_AfterBookingID (sb_Booking b) = after
       \<and> b_ProjectedStartAt (sb_Booking b) \<noteq> None \<and> b_LatestStartAt (sb_Booking b) \<noteq> None
       \<and> sb_StartedAt b = 0)"

fun queue_shape :: "string option \<Rightarrow> scheduled_booking list \<Rightarrow> bool" where
  "queue_shape prev [] = True"
| "queue_shape prev (b # bs) = (place_ok prev b \<and> queue_shape (Some (sb_id b)) bs)"

definition schedule_inv :: "rental_schedule \<Rightarrow> bool" where
  "schedule_inv s \<longleftrightarrow> rs_RentalID s \<noteq> empty_string
     \<and> length (rs_Bookings s) \<le> RentalScheduleQueueCapacity + 1
     \<and> (\<forall>b \<in> set (rs_Bookings s). base_ok (rs_RentalID s) b
          \<and> unat (b_ScheduleVersion (sb_Booking b)) \<le> unat (rs_Version s))
     \<and> distinct (map sb_id (rs_Bookings s)) \<and> distinct (map sb_run (rs_Bookings s))
     \<and> queue_shape None (rs_Bookings s)"

lemma queue_shape_snoc:
  "queue_shape prev (bs @ [b]) \<longleftrightarrow>
     queue_shape prev bs \<and> place_ok (if bs = [] then prev else Some (sb_id (last bs))) b"
  by (induction bs arbitrary: prev) auto

lemma queue_shape_started:
  "queue_shape prev bs \<Longrightarrow> \<forall>b \<in> set (if prev = None then tl bs else bs). sb_StartedAt b = 0"
proof (induction bs arbitrary: prev)
  case (Cons b bs)
  then have "\<forall>c \<in> set bs. sb_StartedAt c = 0" by fastforce
  with Cons.prems show ?case by (auto simp: place_ok_def)
qed simp

lemma reproject_booking_fields [simp]:
  "b_ID (reproject_booking v p l prev b) = b_ID b"
  "b_RunID (reproject_booking v p l prev b) = b_RunID b"
  "b_RentalID (reproject_booking v p l prev b) = b_RentalID b"
  "b_ScheduleVersion (reproject_booking v p l prev b) = v"
  by (simp_all add: reproject_booking_def split: option.splits)

lemma reproject_from_ids [simp]:
  "map sb_id (reproject_from v now p l prev bs) = map sb_id bs"
  "map sb_run (reproject_from v now p l prev bs) = map sb_run bs"
  by (induction bs arbitrary: p l prev) simp_all

lemma length_reproject_from [simp]: "length (reproject_from v now p l prev bs) = length bs"
  by (metis length_map reproject_from_ids(1))

lemma reproject_from_base:
  "list_all (base_ok rid) bs \<Longrightarrow>
     list_all (\<lambda>b. base_ok rid b \<and> b_ScheduleVersion (sb_Booking b) = v) (reproject_from v now p l prev bs)"
  by (induction bs arbitrary: p l prev) (simp_all add: base_ok_def)

lemma reproject_from_shape:
  "\<forall>b \<in> set (if prev = None then tl bs else bs). sb_StartedAt b = 0 \<Longrightarrow>
     queue_shape prev (reproject_from v now p l prev bs)"
proof (induction bs arbitrary: p l prev)
  case (Cons b bs)
  then show ?case by (cases prev) (auto simp: reproject_booking_def place_ok_def)
qed simp

subsection \<open>Every operation keeps the shape\<close>

lemma index_from_Some:
  "index_from bid k bs = Some i \<Longrightarrow> k \<le> i \<and> i - k < length bs \<and> sb_id (bs ! (i - k)) = bid"
proof (induction bs arbitrary: k)
  case (Cons b bs)
  from Cons.prems show ?case
  proof (cases "sb_id b = bid")
    case False
    with Cons.prems Cons.IH[of "k + 1"] have "k + 1 \<le> i" "i - (k + 1) < length bs"
      "sb_id (bs ! (i - (k + 1))) = bid" by auto
    moreover from this have "i - k = Suc (i - (k + 1))" by simp
    ultimately show ?thesis by simp
  qed simp
qed simp

lemma index_from_None: "index_from bid k bs = None \<longleftrightarrow> bid \<notin> sb_id ` set bs"
  by (induction bs arbitrary: k) auto

lemma bookingIndex_Some:
  "schedule_bookingIndex s bid = Some i \<Longrightarrow> i < length (rs_Bookings s) \<and> sb_id (rs_Bookings s ! i) = bid"
  using index_from_Some[of bid 0 "rs_Bookings s" i] by (simp add: schedule_bookingIndex_def)

lemma NewRentalSchedule_inv: "rid \<noteq> empty_string \<Longrightarrow> schedule_inv (NewRentalSchedule rid)"
  by (simp add: schedule_inv_def NewRentalSchedule_def)

lemma validBookingRequest_None:
  "validBookingRequest s req = None \<longleftrightarrow>
     rs_RentalID s \<noteq> empty_string \<and> br_BookingID req \<noteq> empty_string \<and> br_RunID req \<noteq> empty_string
   \<and> br_ReservedAt req \<noteq> 0 \<and> 0 < br_ExpectedRuntimeSeconds req
   \<and> br_ExpectedRuntimeSeconds req \<le> br_MaxRuntimeSeconds req
   \<and> length (rs_Bookings s) \<le> RentalScheduleQueueCapacity
   \<and> \<not> schedule_Exhausted s (br_ReservedAt req)
   \<and> br_BookingID req \<notin> sb_id ` set (rs_Bookings s) \<and> br_RunID req \<notin> sb_run ` set (rs_Bookings s)"
  unfolding validBookingRequest_def time_is_zero_def
  by (auto simp: not_le not_less intro: rev_image_eqI)

lemma bookingFor_fields [simp]:
  "b_ID (schedule_bookingFor s req) = br_BookingID req"
  "b_RunID (schedule_bookingFor s req) = br_RunID req"
  "b_RentalID (schedule_bookingFor s req) = rs_RentalID s"
  "b_ScheduleVersion (schedule_bookingFor s req) = rs_Version s + 1"
  by (simp_all add: schedule_bookingFor_def Let_def split: prod.splits)

lemma bookingFor_place:
  "place_ok (if rs_Bookings s = [] then None else Some (sb_id (last (rs_Bookings s))))
     \<lparr>sb_Booking = schedule_bookingFor s req, sb_ExpectedRuntimeSeconds = e,
      sb_MaxRuntimeSeconds = m, sb_StartedAt = 0\<rparr>"
  by (simp add: place_ok_def schedule_bookingFor_def Let_def split: prod.splits)

lemma Reserve_inv:
  assumes "schedule_inv s" "unat (rs_Version s) < 2 ^ 64 - 1" "schedule_Reserve s req = Inr (t, b)"
  shows "schedule_inv t"
proof -
  have ok: "validBookingRequest s req = None" using assms(3) by (simp add: schedule_Reserve_def)
  note v = ok[unfolded validBookingRequest_None]
  have older: "\<forall>b \<in> set (rs_Bookings s). unat (b_ScheduleVersion (sb_Booking b)) \<le> unat (rs_Version s + 1)"
    using assms(1,2) by (auto simp: schedule_inv_def version_succ intro: le_SucI)
  show ?thesis using assms(1,3) v bookingFor_place[of s req] older
    by (auto simp: schedule_inv_def schedule_Reserve_def Let_def queue_shape_snoc base_ok_def)
qed

lemma Started_inv:
  assumes "schedule_inv s" "unat (rs_Version s) < 2 ^ 64 - 1" "schedule_Started s bid moment = Inr t"
  shows "schedule_inv t"
proof (cases "rs_Bookings s")
  case Nil
  then show ?thesis using assms(3)
    by (auto simp: schedule_Started_def schedule_bookingIndex_def split: if_splits)
next
  case (Cons b bs)
  have older: "\<forall>b \<in> set (rs_Bookings s). unat (b_ScheduleVersion (sb_Booking b)) \<le> unat (rs_Version s + 1)"
    using assms(1,2) by (auto simp: schedule_inv_def version_succ intro: le_SucI)
  show ?thesis using assms(1,3) Cons older
    by (auto simp: schedule_inv_def schedule_Started_def base_ok_def place_ok_def split: if_splits)
qed

lemma remove_at_subset: "set (take i xs @ drop (i + 1) xs) \<subseteq> set xs"
  by (auto dest: in_set_takeD in_set_dropD)

lemma in_set_tlD: "x \<in> set (tl xs) \<Longrightarrow> x \<in> set xs"
  by (cases xs) auto

lemma remove_at_tl: "set (tl (take i xs @ drop (i + 1) xs)) \<subseteq> set (tl xs)"
proof (cases xs)
  case (Cons x ys)
  then show ?thesis using remove_at_subset[of "i - 1" ys]
    by (cases i) (auto dest: in_set_takeD in_set_dropD in_set_tlD)
qed simp

lemma distinct_remove_at: "distinct xs \<Longrightarrow> distinct (take i xs @ drop (i + 1) xs)"
  by (simp add: set_take_disj_set_drop_if_distinct)

lemma Complete_inv:
  assumes "schedule_inv s" "unat (rs_Version s) < 2 ^ 64 - 1" "schedule_Complete s bid moment = Inr (t, d)"
  shows "schedule_inv t"
proof -
  obtain i where i: "schedule_bookingIndex s bid = Some i"
    and t: "t = schedule_reproject \<lparr>rs_RentalID = rs_RentalID s, rs_Version = rs_Version s + 1,
      rs_Bookings = take i (rs_Bookings s) @ drop (i + 1) (rs_Bookings s)\<rparr> moment"
    using assms(3) by (auto simp: schedule_Complete_def Let_def split: if_splits option.splits)
  let ?bs = "take i (rs_Bookings s) @ drop (i + 1) (rs_Bookings s)"
  have sub: "set ?bs \<subseteq> set (rs_Bookings s)" by (rule remove_at_subset)
  have "\<forall>b \<in> set (tl ?bs). sb_StartedAt b = 0"
    using queue_shape_started[of None "rs_Bookings s"] remove_at_tl[of i "rs_Bookings s"] assms(1)
    by (auto simp: schedule_inv_def)
  then have "queue_shape None (rs_Bookings t)"
    by (simp add: t schedule_reproject_def reproject_from_shape)
  moreover have "\<forall>b \<in> set (rs_Bookings t). base_ok (rs_RentalID s) b
      \<and> b_ScheduleVersion (sb_Booking b) = rs_Version s + 1"
  proof -
    have "list_all (base_ok (rs_RentalID s)) ?bs"
      using sub assms(1) by (auto simp: schedule_inv_def list_all_iff)
    from reproject_from_base[OF this] show ?thesis by (simp add: t schedule_reproject_def list_all_iff)
  qed
  moreover have "distinct (map sb_id ?bs)" "distinct (map sb_run ?bs)"
    using assms(1) distinct_remove_at[of "map sb_id (rs_Bookings s)" i]
      distinct_remove_at[of "map sb_run (rs_Bookings s)" i]
    by (simp_all add: schedule_inv_def take_map drop_map)
  moreover have "length ?bs \<le> RentalScheduleQueueCapacity + 1"
    using assms(1) bookingIndex_Some[OF i] by (auto simp: schedule_inv_def)
  ultimately show ?thesis using assms(1) unfolding schedule_inv_def t schedule_reproject_def
    by (simp del: map_append)
qed

subsection \<open>A schedule as a versioned object\<close>

datatype schedule_op =
    Reserve booking_request
  | Started string time
  | Complete string time

fun schedule_step :: "schedule_op \<Rightarrow> rental_schedule \<Rightarrow> schedule_error + rental_schedule" where
  "schedule_step (Reserve req) s = map_sum id fst (schedule_Reserve s req)"
| "schedule_step (Started bid moment) s = schedule_Started s bid moment"
| "schedule_step (Complete bid moment) s = map_sum id fst (schedule_Complete s bid moment)"

lemma map_sum_Inr: "map_sum id fst r = Inr x \<longleftrightarrow> (\<exists>y. r = Inr (x, y))"
  by (cases r) auto

lemma schedule_step_inv:
  "schedule_inv s \<Longrightarrow> unat (rs_Version s) < 2 ^ 64 - 1 \<Longrightarrow> schedule_step op s = Inr t \<Longrightarrow> schedule_inv t"
  by (cases op) (auto simp: map_sum_Inr intro: Reserve_inv Started_inv Complete_inv)

lemma schedule_step_version:
  "schedule_step op s = Inr t \<Longrightarrow> rs_Version t = rs_Version s + 1 \<and> rs_RentalID t = rs_RentalID s"
  by (cases op)
    (auto simp: map_sum_Inr schedule_Reserve_def schedule_Started_def schedule_Complete_def
      schedule_reproject_def Let_def split: if_splits option.splits)

interpretation schedule: versioned_object
  schedule_step "\<lambda>s. unat (rs_Version s)" "2 ^ 64 - 1" schedule_inv
  "\<lambda>s t. rs_RentalID t = rs_RentalID s"
proof (unfold_locales, goal_cases)
  case 1 then show ?case by (rule schedule_step_inv)
next
  case 2 then show ?case by (simp add: schedule_step_version version_succ)
next
  case 3 then show ?case by (simp add: schedule_step_version)
qed simp_all

subsection \<open>Arithmetic of the projections\<close>

lemma remainingSeconds_nonneg: "0 \<le> d \<Longrightarrow> 0 \<le> remainingSeconds d st now"
  by (simp add: remainingSeconds_def)

lemma remainingSeconds_mono: "d \<le> e \<Longrightarrow> remainingSeconds d st now \<le> remainingSeconds e st now"
  by (auto simp: remainingSeconds_def intro: max.coboundedI2 fsub_mono)

lemma remainingSeconds_le: "is_f64 d \<Longrightarrow> 0 \<le> d \<Longrightarrow> st \<le> now \<Longrightarrow> remainingSeconds d st now \<le> d"
  by (simp add: remainingSeconds_def fsub_le seconds_between_nonneg)

lemma remainingSeconds_antimono:
  "st \<le> now \<Longrightarrow> now \<le> now' \<Longrightarrow> remainingSeconds d st now' \<le> remainingSeconds d st now"
  by (auto simp: remainingSeconds_def intro: max.coboundedI2 fsub_mono seconds_between_mono)

lemma foldl_fadd_mono:
  "a \<le> a' \<Longrightarrow> (\<And>b. b \<in> set bs \<Longrightarrow> f b \<le> g b) \<Longrightarrow>
     foldl (\<lambda>acc b. fadd acc (f b)) a bs \<le> foldl (\<lambda>acc b. fadd acc (g b)) a' bs"
  by (induction bs arbitrary: a a') (simp_all add: fadd_mono)

lemma foldl_fadd_nonneg:
  "0 \<le> a \<Longrightarrow> (\<And>b. b \<in> set bs \<Longrightarrow> 0 \<le> f b) \<Longrightarrow> 0 \<le> foldl (\<lambda>acc b. fadd acc (f b)) a bs"
  by (induction bs arbitrary: a) (simp_all add: fadd_nonneg)

text \<open>The longest runtime whose nanoseconds are certain to fit an int64: 285 years.\<close>

definition max_exact_seconds :: float64 where
  "max_exact_seconds = 9000000000"

lemma rnd64_9e18: "rnd64 9000000000000000000 = 9000000000000000000"
  by code_simp

lemma seconds_duration_in_range:
  assumes "0 \<le> x" "x \<le> max_exact_seconds"
  shows "seconds_duration x = trunc_int (fmul x 1000000000)"
proof -
  have "fmul x 1000000000 \<le> fmul max_exact_seconds 1000000000"
    using assms(2) by (intro fmul_mono_left) simp_all
  also have "\<dots> = 9000000000000000000" by (simp add: fmul_def max_exact_seconds_def rnd64_9e18)
  finally have "trunc_int (fmul x 1000000000) \<le> trunc_int 9000000000000000000"
    by (rule trunc_int_mono)
  moreover have "0 \<le> trunc_int (fmul x 1000000000)"
    using assms(1) by (intro trunc_int_nonneg fmul_nonneg) simp_all
  ultimately have "in_int64 (trunc_int (fmul x 1000000000))"
    by (simp add: in_int64_def trunc_int_def)
  then show ?thesis by (simp add: seconds_duration_def int64_of_f64_def)
qed

lemma seconds_duration_mono:
  "0 \<le> x \<Longrightarrow> x \<le> y \<Longrightarrow> y \<le> max_exact_seconds \<Longrightarrow> 0 \<le> seconds_duration x \<and> seconds_duration x \<le> seconds_duration y"
  by (simp add: seconds_duration_in_range trunc_int_mono trunc_int_nonneg fmul_nonneg fmul_mono_left)

definition bounded_runtime :: "time \<Rightarrow> scheduled_booking \<Rightarrow> bool" where
  "bounded_runtime now b \<longleftrightarrow> sb_StartedAt b \<le> now \<and> is_f64 (sb_MaxRuntimeSeconds b)
     \<and> 0 \<le> sb_ExpectedRuntimeSeconds b \<and> sb_ExpectedRuntimeSeconds b \<le> sb_MaxRuntimeSeconds b
     \<and> sb_MaxRuntimeSeconds b \<le> max_exact_seconds"

lemma bounded_durations:
  assumes "bounded_runtime now b"
  shows "0 \<le> seconds_duration (RemainingExpectedSeconds b now)
    \<and> seconds_duration (RemainingExpectedSeconds b now) \<le> seconds_duration (RemainingMaxSeconds b now)"
proof (rule seconds_duration_mono)
  show "0 \<le> RemainingExpectedSeconds b now" "RemainingExpectedSeconds b now \<le> RemainingMaxSeconds b now"
    using assms by (simp_all add: bounded_runtime_def RemainingExpectedSeconds_def RemainingMaxSeconds_def
        remainingSeconds_nonneg remainingSeconds_mono)
  have "RemainingMaxSeconds b now \<le> sb_MaxRuntimeSeconds b"
    using assms by (simp add: bounded_runtime_def RemainingMaxSeconds_def remainingSeconds_le)
  then show "RemainingMaxSeconds b now \<le> max_exact_seconds"
    using assms by (simp add: bounded_runtime_def)
qed

lemma startBounds_from_ordered:
  assumes "\<forall>b \<in> set bs. bounded_runtime now b" "p \<le> l"
  shows "p \<le> fst (startBounds_from now p l bs)
    \<and> fst (startBounds_from now p l bs) \<le> snd (startBounds_from now p l bs)"
  using assms
proof (induction bs arbitrary: p l)
  case (Cons b bs)
  have "0 \<le> seconds_duration (RemainingExpectedSeconds b now)"
    "seconds_duration (RemainingExpectedSeconds b now) \<le> seconds_duration (RemainingMaxSeconds b now)"
    using bounded_durations[of now b] Cons.prems(1) by simp_all
  with Cons.IH[of "time_add p (seconds_duration (RemainingExpectedSeconds b now))"
      "time_add l (seconds_duration (RemainingMaxSeconds b now))"] Cons.prems
  show ?case by (auto simp: time_add_def)
qed simp

subsection \<open>What completing a Booking leaves\<close>

lemma remove_at_remove1:
  "distinct xs \<Longrightarrow> i < length xs \<Longrightarrow> take i xs @ drop (i + 1) xs = remove1 (xs ! i) xs"
proof (induction xs arbitrary: i)
  case (Cons x xs)
  then show ?case by (cases i) auto
qed simp

lemma Complete_Inr:
  assumes "schedule_Complete s bid moment = Inr (t, d)"
  obtains i where "schedule_bookingIndex s bid = Some i"
    "t = schedule_reproject \<lparr>rs_RentalID = rs_RentalID s, rs_Version = rs_Version s + 1,
      rs_Bookings = take i (rs_Bookings s) @ drop (i + 1) (rs_Bookings s)\<rparr> moment"
    "d = (if i = 0 \<and> rs_Bookings t \<noteq> [] then Some (sb_Booking (hd (rs_Bookings t))) else None)"
  using assms
  by (auto simp: schedule_Complete_def Let_def hd_conv_nth split: if_splits option.splits)

definition same_work :: "scheduled_booking \<Rightarrow> scheduled_booking \<Rightarrow> bool" where
  "same_work b c \<longleftrightarrow> sb_id c = sb_id b \<and> sb_run c = sb_run b
     \<and> sb_ExpectedRuntimeSeconds c = sb_ExpectedRuntimeSeconds b
     \<and> sb_MaxRuntimeSeconds c = sb_MaxRuntimeSeconds b \<and> sb_StartedAt c = sb_StartedAt b"

lemma reproject_same_work: "list_all2 same_work bs (reproject_from v now p l prev bs)"
  by (induction bs arbitrary: p l prev) (simp_all add: same_work_def)

lemma remove1_filter_ids:
  "distinct (map sb_id bs) \<Longrightarrow> i < length bs \<Longrightarrow>
     take i bs @ drop (i + 1) bs = filter (\<lambda>b. sb_id b \<noteq> sb_id (bs ! i)) bs"
proof (induction bs arbitrary: i)
  case (Cons b bs)
  have ne: "\<forall>c \<in> set bs. sb_id c \<noteq> sb_id b"
    using Cons.prems(1) by (simp add: image_iff, metis)
  then have keep: "filter (\<lambda>c. sb_id c \<noteq> sb_id b) bs = bs" by (rule filter_True)
  show ?case
  proof (cases i)
    case 0
    with keep show ?thesis by simp
  next
    case (Suc j)
    with Cons.prems(2) have "sb_id (bs ! j) \<noteq> sb_id b" using ne nth_mem by simp
    with Suc Cons show ?thesis by auto
  qed
qed simp

subsection \<open>Properties\<close>

definition sample_request :: "string \<Rightarrow> string \<Rightarrow> booking_request" where
  "sample_request bid run = \<lparr>br_BookingID = bid, br_RunID = run, br_ExpectedRuntimeSeconds = 60,
     br_MaxRuntimeSeconds = 120, br_ReservedAt = 1000\<rparr>"

definition sample_schedule_ops :: "schedule_op list" where
  "sample_schedule_ops = [Reserve (sample_request ''b1'' ''r1''), Reserve (sample_request ''b2'' ''r2''),
     Started ''b1'' 2000, Complete ''b1'' 3000]"

text \<open>C27: Whatever reservations, starts and completions a Rental Schedule goes through, refused ones
  included, it holds at most one running Booking followed by at most four queued ones, in a chain
  that names each predecessor, with no Booking or Run twice, and with nothing but the head ever
  marked as started.\<close>

theorem schedule_always_well_formed:
  assumes "rid \<noteq> empty_string" "length ops < 2 ^ 64"
  shows "schedule_inv (run_ops schedule_step ops (NewRentalSchedule rid))"
proof -
  have "unat (rs_Version (NewRentalSchedule rid)) = 0" by (simp add: NewRentalSchedule_def)
  then show ?thesis
    using schedule.run_ops_keeps[OF NewRentalSchedule_inv[OF assms(1)], of ops] assms(2) by simp
qed

theorem schedule_always_well_formed_witness:
  "schedule_inv (run_ops schedule_step sample_schedule_ops (NewRentalSchedule ''rnt''))"
  by (rule schedule_always_well_formed) (simp_all add: sample_schedule_ops_def)

text \<open>A reservation is granted exactly when the request is complete, its expected runtime is
  positive and within the enforced one, a place is free, the Booking at the head is not past the
  runtime Mercator enforces, and neither the Booking nor the Run is already there. A granted one
  takes the last place, leaves every Booking before it untouched and moves the version by one.\<close>

theorem reserve_granted_exactly_when:
  "(\<exists>t b. schedule_Reserve s req = Inr (t, sb_Booking b)
       \<and> rs_Bookings t = rs_Bookings s @ [b] \<and> rs_Version t = rs_Version s + 1
       \<and> sb_id b = br_BookingID req \<and> sb_run b = br_RunID req \<and> sb_StartedAt b = zero_time)
   \<longleftrightarrow>
     rs_RentalID s \<noteq> empty_string \<and> br_BookingID req \<noteq> empty_string \<and> br_RunID req \<noteq> empty_string
   \<and> br_ReservedAt req \<noteq> 0 \<and> 0 < br_ExpectedRuntimeSeconds req
   \<and> br_ExpectedRuntimeSeconds req \<le> br_MaxRuntimeSeconds req
   \<and> length (rs_Bookings s) \<le> RentalScheduleQueueCapacity
   \<and> \<not> schedule_Exhausted s (br_ReservedAt req)
   \<and> br_BookingID req \<notin> sb_id ` set (rs_Bookings s) \<and> br_RunID req \<notin> sb_run ` set (rs_Bookings s)"
  unfolding validBookingRequest_None[symmetric]
  by (auto simp: schedule_Reserve_def schedule_bookingFor_def Let_def split: prod.splits)

text \<open>The start a queued Booking is promised is never in the past, and the projected start never
  comes after the latest one, whatever runtimes up to 285 years the Bookings ahead declared and
  however far into them they are. The sums are the rounded float64 ones of the code.\<close>

theorem promised_start_is_ahead:
  assumes "schedule_Reserve s req = Inr (t, b)" "rs_Bookings s \<noteq> []"
    "\<forall>c \<in> set (rs_Bookings s). bounded_runtime (br_ReservedAt req) c"
  shows "\<exists>projected latest. b_ProjectedStartAt b = Some projected \<and> b_LatestStartAt b = Some latest
    \<and> br_ReservedAt req \<le> projected \<and> projected \<le> latest \<and> b_State b = BookingStateQueued
    \<and> b_AfterBookingID b = sb_id (last (rs_Bookings s))"
proof -
  have b: "b = schedule_bookingFor s req" using assms(1) by (simp add: schedule_Reserve_def Let_def)
  obtain p l where pl: "schedule_startBounds s (br_ReservedAt req) = (p, l)" by fastforce
  have "br_ReservedAt req \<le> p \<and> p \<le> l"
    using startBounds_from_ordered[OF assms(3) order_refl, of "br_ReservedAt req"] pl by (simp add: schedule_startBounds_def)
  then show ?thesis using assms(2) pl by (simp add: b schedule_bookingFor_def Let_def)
qed

definition sample_held :: rental_schedule where
  "sample_held = run_ops schedule_step (take 1 sample_schedule_ops) (NewRentalSchedule ''rnt'')"

lemma sample_held_eq:
  "sample_held = \<lparr>rs_RentalID = ''rnt'', rs_Version = 1,
     rs_Bookings = [\<lparr>sb_Booking = \<lparr>b_ID = ''b1'', b_RunID = ''r1'', b_RentalID = ''rnt'',
        b_State = BookingStateRunning, b_AfterBookingID = empty_string, b_ProjectedStartAt = None,
        b_LatestStartAt = None, b_ScheduleVersion = 1\<rparr>,
      sb_ExpectedRuntimeSeconds = 60, sb_MaxRuntimeSeconds = 120, sb_StartedAt = 0\<rparr>]\<rparr>"
  by (simp add: sample_held_def sample_schedule_ops_def NewRentalSchedule_def schedule_Reserve_def
      validBookingRequest_def sample_request_def time_is_zero_def RentalScheduleQueueCapacity_def
      schedule_Exhausted_def schedule_bookingFor_def Let_def)

theorem promised_start_is_ahead_witness:
  "\<exists>t b projected latest. schedule_Reserve sample_held (sample_request ''b2'' ''r2'') = Inr (t, b)
     \<and> b_ProjectedStartAt b = Some projected \<and> b_LatestStartAt b = Some latest
     \<and> 1000 \<le> projected \<and> projected \<le> latest"
proof -
  have "\<exists>t b. schedule_Reserve sample_held (sample_request ''b2'' ''r2'') = Inr (t, b)"
    by (simp add: schedule_Reserve_def validBookingRequest_None sample_held_eq sample_request_def
        RentalScheduleQueueCapacity_def schedule_Exhausted_def RemainingMaxSeconds_def
        remainingSeconds_def time_is_zero_def Let_def)
  then obtain t b where r: "schedule_Reserve sample_held (sample_request ''b2'' ''r2'') = Inr (t, b)" by blast
  show ?thesis
    using r promised_start_is_ahead[OF r]
    by (auto simp: sample_held_eq sample_request_def bounded_runtime_def max_exact_seconds_def is_f64_numeral)
qed

text \<open>C28: Completing a Booking removes that Booking and nothing else: the others keep their order,
  their runtimes and the moment they started. A Booking is dispatched exactly when the one that
  completed held the Rental and another was waiting, and it is the one that was next in line, now
  recorded as running.\<close>

theorem complete_dispatches_the_next_in_line:
  assumes "schedule_inv s" "schedule_Complete s bid moment = Inr (t, dispatched)"
  shows "list_all2 same_work (filter (\<lambda>b. sb_id b \<noteq> bid) (rs_Bookings s)) (rs_Bookings t)
    \<and> bid \<in> sb_id ` set (rs_Bookings s)
    \<and> rs_Version t = rs_Version s + 1
    \<and> (case dispatched of
         None \<Rightarrow> sb_id (hd (rs_Bookings s)) \<noteq> bid \<or> length (rs_Bookings s) = 1
       | Some b \<Rightarrow> sb_id (hd (rs_Bookings s)) = bid \<and> b_ID b = sb_id (rs_Bookings s ! 1)
           \<and> b_State b = BookingStateRunning \<and> b = sb_Booking (hd (rs_Bookings t)))"
  using assms(2)
proof (rule Complete_Inr)
  fix i
  assume i: "schedule_bookingIndex s bid = Some i"
    and t: "t = schedule_reproject \<lparr>rs_RentalID = rs_RentalID s, rs_Version = rs_Version s + 1,
      rs_Bookings = take i (rs_Bookings s) @ drop (i + 1) (rs_Bookings s)\<rparr> moment"
    and d: "dispatched = (if i = 0 \<and> rs_Bookings t \<noteq> [] then Some (sb_Booking (hd (rs_Bookings t))) else None)"
  note il = bookingIndex_Some[OF i]
  have dist: "distinct (map sb_id (rs_Bookings s))" using assms(1) by (simp add: schedule_inv_def)
  have rem: "take i (rs_Bookings s) @ drop (i + 1) (rs_Bookings s) = filter (\<lambda>b. sb_id b \<noteq> bid) (rs_Bookings s)"
    using remove1_filter_ids[OF dist, of i] il by simp
  have head: "i = 0 \<longleftrightarrow> sb_id (hd (rs_Bookings s)) = bid"
    using dist il by (metis (no_types, lifting) hd_conv_nth length_greater_0_conv length_map list.size(3)
        nth_eq_iff_index_eq nth_map not_less0)
  have "list_all2 same_work (filter (\<lambda>b. sb_id b \<noteq> bid) (rs_Bookings s)) (rs_Bookings t)"
    unfolding rem[symmetric] t schedule_reproject_def by (simp add: reproject_same_work)
  moreover have "bid \<in> sb_id ` set (rs_Bookings s)" using il by auto
  moreover have "rs_Version t = rs_Version s + 1" by (simp add: t schedule_reproject_def)
  moreover have "case dispatched of
         None \<Rightarrow> sb_id (hd (rs_Bookings s)) \<noteq> bid \<or> length (rs_Bookings s) = 1
       | Some b \<Rightarrow> sb_id (hd (rs_Bookings s)) = bid \<and> b_ID b = sb_id (rs_Bookings s ! 1)
           \<and> b_State b = BookingStateRunning \<and> b = sb_Booking (hd (rs_Bookings t))"
  proof (cases "i = 0")
    case True
    then obtain c cs where c: "rs_Bookings s = c # cs" using il by (cases "rs_Bookings s") auto
    show ?thesis using True head
      by (cases cs) (simp_all add: d t schedule_reproject_def c reproject_booking_def)
  next
    case False
    then show ?thesis using head by (simp add: d)
  qed
  ultimately show ?thesis by blast
qed

definition sample_queue :: rental_schedule where
  "sample_queue = run_ops schedule_step (take 2 sample_schedule_ops) (NewRentalSchedule ''rnt'')"

lemma sample_queue_completes:
  "\<exists>t d. schedule_Complete sample_queue ''b1'' 3000 = Inr (t, Some d)"
  by (simp add: sample_queue_def sample_schedule_ops_def NewRentalSchedule_def schedule_Reserve_def
      validBookingRequest_def sample_request_def time_is_zero_def RentalScheduleQueueCapacity_def
      schedule_Exhausted_def schedule_bookingFor_def Let_def RemainingMaxSeconds_def remainingSeconds_def
      schedule_startBounds_def schedule_Complete_def schedule_bookingIndex_def schedule_reproject_def)

theorem complete_dispatches_the_next_in_line_witness:
  "\<exists>t d. schedule_Complete sample_queue ''b1'' 3000 = Inr (t, Some d)
     \<and> b_State d = BookingStateRunning \<and> b_ID d = sb_id (rs_Bookings sample_queue ! 1)"
proof -
  obtain t d where c: "schedule_Complete sample_queue ''b1'' 3000 = Inr (t, Some d)"
    using sample_queue_completes by blast
  have "schedule_inv sample_queue"
    using schedule.run_ops_keeps[OF NewRentalSchedule_inv[of "''rnt''"], of "take 2 sample_schedule_ops"]
    by (simp add: sample_queue_def NewRentalSchedule_def sample_schedule_ops_def)
  from complete_dispatches_the_next_in_line[OF this c] c show ?thesis by auto
qed

text \<open>The wait a Rental Schedule projects is never negative and never grows while nothing is
  reserved: read at a later moment the same Bookings hold the machine no longer, in the rounded
  float64 arithmetic the code sums it with.\<close>

theorem projected_wait_only_shrinks:
  assumes "\<forall>b \<in> set (rs_Bookings s). 0 \<le> sb_ExpectedRuntimeSeconds b \<and> sb_StartedAt b \<le> now" "now \<le> now'"
  shows "0 \<le> ExpectedWaitSeconds s now' \<and> ExpectedWaitSeconds s now' \<le> ExpectedWaitSeconds s now"
  unfolding ExpectedWaitSeconds_def RemainingExpectedSeconds_def
  using assms by (auto intro!: foldl_fadd_nonneg foldl_fadd_mono remainingSeconds_nonneg remainingSeconds_antimono)

theorem projected_wait_only_shrinks_witness:
  "0 \<le> ExpectedWaitSeconds sample_held 5000 \<and> ExpectedWaitSeconds sample_held 5000 \<le> ExpectedWaitSeconds sample_held 2000"
  by (rule projected_wait_only_shrinks) (simp_all add: sample_held_eq)

definition century_request :: booking_request where
  "century_request = (sample_request ''b1'' ''r1'')\<lparr>br_MaxRuntimeSeconds := 10000000000\<rparr>"

text \<open>Nothing bounds the maximum runtime a reservation declares, and the conversion of seconds
  to a duration leaves the int64 range past about 292 years: behind a Booking declaring ten billion
  seconds, the latest start promised to the next one comes before its own projected start, and before
  the moment it was reserved.\<close>

theorem latest_start_overflows:
  "\<exists>s t b projected latest.
     schedule_Reserve (NewRentalSchedule ''rnt'') century_request = Inr (s, b)
   \<and> schedule_Reserve s (sample_request ''b2'' ''r2'') = Inr t
   \<and> b_ProjectedStartAt (snd t) = Some projected \<and> b_LatestStartAt (snd t) = Some latest
   \<and> latest < 1000 \<and> 1000 < projected"
proof -
  have m: "seconds_duration 10000000000 = - (2 ^ 63)" "seconds_duration 60 = 60000000000" by code_simp+
  show ?thesis
    by (simp add: century_request_def NewRentalSchedule_def schedule_Reserve_def
      validBookingRequest_def sample_request_def time_is_zero_def RentalScheduleQueueCapacity_def
      schedule_Exhausted_def schedule_bookingFor_def Let_def RemainingMaxSeconds_def remainingSeconds_def
      RemainingExpectedSeconds_def schedule_startBounds_def time_add_def m)
qed

end
