(* ===== verification/Candidates.thy ===== *)
theory Candidates
  imports Offers RentalSchedule
begin

text \<open>
  What a decision says about one offer (\<^verbatim>\<open>internal/domain/types.go\<close>,
  \<^verbatim>\<open>host.go\<close>, \<^verbatim>\<open>candidate_identity.go\<close>, \<^verbatim>\<open>placement.go\<close>): the
  violations that refuse it, the host facts behind some of them, the identity its launches are
  remembered under, its launch stages, its score and the order two candidates are preferred in.
\<close>

subsection \<open>Violations\<close>

datatype any_value =
    AnyNone
  | AnyBool bool
  | AnyInt int
  | AnyFloat float64
  | AnyString string
  | AnyStrings "string list"
  | AnyGroup run_group
  | AnyTime time
  | AnyInbound inbound_mode
  | AnyClass service_class
  | AnyClasses "service_class list"
  | AnyAcceleratorRequirements "accelerator_requirement list"
  | AnyAccelerators "accelerator_inventory list"

record violation =
  v_Code :: string
  v_Path :: string
  v_Required :: any_value
  v_Offered :: any_value
  v_Subject :: string  \<comment> \<open>the name the message interpolates, if any\<close>
  v_EndedByWaiting :: bool
  v_Unstated :: bool

definition violation_of :: "string \<Rightarrow> string \<Rightarrow> any_value \<Rightarrow> any_value \<Rightarrow> violation" where
  "violation_of code path required offered =
     \<lparr>v_Code = code, v_Path = path, v_Required = required, v_Offered = offered, v_Subject = empty_string,
      v_EndedByWaiting = False, v_Unstated = False\<rparr>"

datatype exclusion_reason = OfferRefusedTheLaunch | OfferCapacityReclaimed | ExclusionOther string

record offer_exclusion =
  ox_OfferSnapshotID :: string
  ox_Reason :: exclusion_reason

definition exclusion_Violation :: "exclusion_reason \<Rightarrow> string \<Rightarrow> violation" where
  "exclusion_Violation reason offerID = (case reason of
     OfferCapacityReclaimed \<Rightarrow>
       violation_of ''PREVIOUS_ATTEMPT_CAPACITY_RECLAIMED'' ''offer_snapshot_id''
         (AnyString ''offer not rejected by an earlier attempt'') (AnyString offerID)
   | _ \<Rightarrow>
       (violation_of ''PREVIOUS_ATTEMPT_CAPACITY_UNAVAILABLE'' ''offer_snapshot_id''
         (AnyString ''offer not rejected by an earlier attempt'') (AnyString offerID))\<lparr>v_EndedByWaiting := True\<rparr>)"

definition ExcludedOffer :: "offer_exclusion list \<Rightarrow> string \<Rightarrow> offer_exclusion option" where
  "ExcludedOffer exclusions offerID = find (\<lambda>x. ox_OfferSnapshotID x = offerID) exclusions"

subsection \<open>Dotted versions\<close>

text \<open>
  \<^verbatim>\<open>strings.TrimSpace\<close>, \<^verbatim>\<open>strings.Split\<close> and \<^verbatim>\<open>strconv.Atoi\<close>
  on ASCII strings, which is what a driver states its version in. \<^verbatim>\<open>Atoi\<close> reads an
  optional sign and at least one digit, and fails outside the range of int.
\<close>

definition is_space :: "char \<Rightarrow> bool" where
  "is_space c \<longleftrightarrow> of_char c \<in> {9, 10, 11, 12, 13, 32 :: nat}"

definition TrimSpace :: "string \<Rightarrow> string" where
  "TrimSpace s = rev (dropWhile is_space (rev (dropWhile is_space s)))"

fun split_on :: "char \<Rightarrow> string \<Rightarrow> string list" where
  "split_on sep [] = [[]]"
| "split_on sep (c # cs) =
     (if c = sep then [] # split_on sep cs
      else case split_on sep cs of [] \<Rightarrow> [[c]] | p # ps \<Rightarrow> (c # p) # ps)"

definition digit_value :: "char \<Rightarrow> nat option" where
  "digit_value c = (let n = of_char c in if 48 \<le> n \<and> n \<le> 57 then Some (n - 48) else None)"

fun digits_value :: "nat \<Rightarrow> string \<Rightarrow> nat option" where
  "digits_value acc [] = Some acc"
| "digits_value acc (c # cs) =
     (case digit_value c of None \<Rightarrow> None | Some d \<Rightarrow> digits_value (10 * acc + d) cs)"

definition Atoi :: "string \<Rightarrow> int option" where
  "Atoi s =
     (let (neg, ds) = (case s of
            [] \<Rightarrow> (False, [])
          | c # cs \<Rightarrow> if c = CHR ''-'' then (True, cs) else if c = CHR ''+'' then (False, cs) else (False, s)) in
      if ds = [] then None
      else case digits_value 0 ds of
             None \<Rightarrow> None
           | Some n \<Rightarrow> let v = (if neg then - int n else int n) in if in_int64 v then Some v else None)"

definition dottedComponent :: "string \<Rightarrow> int option" where
  "dottedComponent part = (case Atoi part of None \<Rightarrow> None | Some v \<Rightarrow> if v < 0 then None else Some v)"

text \<open>A part past the end of the shorter version reads as 0; \<open>None\<close> is not comparable.\<close>

definition part_value :: "string list \<Rightarrow> int option" where
  "part_value parts = (case parts of [] \<Rightarrow> Some 0 | p # _ \<Rightarrow> dottedComponent p)"

function compare_parts :: "string list \<Rightarrow> string list \<Rightarrow> int option" where
  "compare_parts ls rs =
     (if ls = [] \<and> rs = [] then Some 0
      else case (part_value ls, part_value rs) of
        (Some x, Some y) \<Rightarrow> if x \<noteq> y then Some (x - y) else compare_parts (tl ls) (tl rs)
      | _ \<Rightarrow> None)"
  by auto
termination
  by (relation "measure (\<lambda>(ls, rs). length ls + length rs)") (auto simp: neq_Nil_conv)

definition CompareDottedVersions :: "string \<Rightarrow> string \<Rightarrow> int option" where
  "CompareDottedVersions left right =
     compare_parts (split_on (CHR ''.'') (TrimSpace left)) (split_on (CHR ''.'') (TrimSpace right))"

subsection \<open>Host facts\<close>

definition fact_violation :: "host_facts \<Rightarrow> host_fact \<Rightarrow> violation list" where
  "fact_violation facts f = (case hf_Attested facts f of
     None \<Rightarrow> [(violation_of ''UNKNOWN_FACT'' (''facts.'' @ host_fact_string f) (AnyBool True)
               (AnyString ''unstated''))\<lparr>v_Unstated := True\<rparr>]
   | Some stated \<Rightarrow>
       finding (\<not> stated) (violation_of ''CAPABILITY_MISMATCH'' (''facts.'' @ host_fact_string f)
         (AnyBool True) (AnyBool False)))"

definition floor_violation :: "string \<Rightarrow> string \<Rightarrow> string \<Rightarrow> violation list" where
  "floor_violation path required stated =
     (if required = empty_string then []
      else if stated = empty_string
        then [(violation_of ''UNKNOWN_FACT'' path (AnyString required) (AnyString ''unstated''))\<lparr>v_Unstated := True\<rparr>]
      else case CompareDottedVersions stated required of
        None \<Rightarrow> [(violation_of ''UNKNOWN_FACT'' path (AnyString required) (AnyString stated))\<lparr>v_Unstated := True\<rparr>]
      | Some order \<Rightarrow>
          finding (order < 0) (violation_of ''CAPABILITY_MISMATCH'' path (AnyString required) (AnyString stated)))"

definition driver_violations :: "accelerator_driver \<Rightarrow> host_requirements \<Rightarrow> violation list" where
  "driver_violations d req =
     floor_violation ''host.driver_version'' (hr_MinDriverVersion req) (dr_Version d)
   @ floor_violation ''host.driver_capability'' (hr_MinDriverCapability req) (dr_Capability d)"

definition host_Violations :: "host_facts \<Rightarrow> host_requirements \<Rightarrow> violation list" where
  "host_Violations facts req =
     concat (map (fact_violation facts) (hr_Facts req)) @ driver_violations (hf_Driver facts) req"

subsection \<open>The identity launches are remembered under\<close>

fun nat_digits :: "nat \<Rightarrow> string" where
  "nat_digits n = (if n < 10 then [char_of (48 + n)] else nat_digits (n div 10) @ [char_of (48 + n mod 10)])"

definition Itoa :: "int \<Rightarrow> string" where
  "Itoa i = (if i < 0 then CHR ''-'' # nat_digits (nat (- i)) else nat_digits (nat i))"

fun join :: "string \<Rightarrow> string list \<Rightarrow> string" where
  "join sep [] = []"
| "join sep [x] = x"
| "join sep (x # y # ys) = x @ sep @ join sep (y # ys)"

definition acceleratorProduct :: "accelerator_inventory \<Rightarrow> string" where
  "acceleratorProduct a =
     (let model = (if an_CanonicalModel a = empty_string then an_Model a else an_CanonicalModel a) in
      if an_MemoryBytes a \<le> 0 then model else model @ ''@'' @ Itoa (an_MemoryBytes a))"

text \<open>The Go map from product to count has no order of its own; the parts are sorted before they are joined.\<close>

definition acceleratorKey :: "accelerator_inventory list \<Rightarrow> string" where
  "acceleratorKey inventory =
     (if inventory = [] then empty_string
      else join '','' (sort (map
        (\<lambda>p. p @ ''x'' @ Itoa (sum_i64 (map an_Count (filter (\<lambda>a. acceleratorProduct a = p) inventory))))
        (remdups (map acceleratorProduct inventory)))))"

record candidate_identity =
  id_Lane :: execution_lane
  id_Machine :: string
  id_Provider :: string
  id_Region :: string
  id_InstanceType :: string
  id_Accelerator :: string
  id_ImageDigest :: string

definition CandidateIdentityOf :: "offer_snapshot \<Rightarrow> string \<Rightarrow> candidate_identity" where
  "CandidateIdentityOf offer imageDigest =
     \<lparr>id_Lane = o_Lane offer, id_Machine = o_MachineID offer, id_Provider = o_AdapterType offer,
      id_Region = o_Region offer, id_InstanceType = o_InstanceType offer,
      id_Accelerator = acceleratorKey (rv_Accelerators (o_Resources offer)), id_ImageDigest = imageDigest\<rparr>"

definition keyForContent :: "string \<Rightarrow> string \<Rightarrow> bool \<Rightarrow> string" where
  "keyForContent key imageDigest includeImage =
     (if \<not> includeImage then key
      else if key = empty_string \<or> imageDigest = empty_string then empty_string
      else key @ '';image='' @ imageDigest)"

definition identity_Recurs :: "candidate_identity \<Rightarrow> bool" where
  "identity_Recurs i =
     (if lane_string (id_Lane i) = empty_string then False
      else if id_Machine i \<noteq> empty_string then True
      else id_Provider i \<noteq> empty_string
         \<and> (id_Region i \<noteq> empty_string \<or> id_InstanceType i \<noteq> empty_string \<or> id_Accelerator i \<noteq> empty_string))"

definition identity_Candidate :: "candidate_identity \<Rightarrow> bool \<Rightarrow> string" where
  "identity_Candidate i includeImage =
     (if \<not> identity_Recurs i then empty_string
      else keyForContent (join '';''
        ([''lane='' @ lane_string (id_Lane i), ''provider='' @ id_Provider i] @
         (if id_Machine i \<noteq> empty_string then [''machine='' @ id_Machine i]
          else [''region='' @ id_Region i, ''instance='' @ id_InstanceType i,
                ''accelerator='' @ id_Accelerator i]))) (id_ImageDigest i) includeImage)"

definition identity_ProviderAndRegion :: "candidate_identity \<Rightarrow> bool \<Rightarrow> string" where
  "identity_ProviderAndRegion i includeImage =
     (if lane_string (id_Lane i) = empty_string \<or> id_Provider i = empty_string \<or> id_Region i = empty_string
      then empty_string
      else keyForContent (''lane='' @ lane_string (id_Lane i) @ '';provider='' @ id_Provider i
        @ '';region='' @ id_Region i) (id_ImageDigest i) includeImage)"

definition identity_ProviderKey :: "candidate_identity \<Rightarrow> bool \<Rightarrow> string" where
  "identity_ProviderKey i includeImage =
     (if lane_string (id_Lane i) = empty_string \<or> id_Provider i = empty_string then empty_string
      else keyForContent (''lane='' @ lane_string (id_Lane i) @ '';provider='' @ id_Provider i)
        (id_ImageDigest i) includeImage)"

subsection \<open>Launch stages\<close>

datatype launch_stage =
    StageAcquisition | StageBoot | StageAgentReady | StageImageFetch
  | StageUnpack | StageArtifactFetch | StageContainerStart | StageApplicationReady

definition LaunchStages :: "launch_stage list" where
  "LaunchStages = [StageAcquisition, StageBoot, StageAgentReady, StageImageFetch, StageUnpack,
     StageArtifactFetch, StageContainerStart, StageApplicationReady]"

definition stage_string :: "launch_stage \<Rightarrow> string" where
  "stage_string s = (case s of
     StageAcquisition \<Rightarrow> ''acquisition'' | StageBoot \<Rightarrow> ''boot'' | StageAgentReady \<Rightarrow> ''agent_ready''
   | StageImageFetch \<Rightarrow> ''image_fetch'' | StageUnpack \<Rightarrow> ''unpack'' | StageArtifactFetch \<Rightarrow> ''artifact_fetch''
   | StageContainerStart \<Rightarrow> ''container_start'' | StageApplicationReady \<Rightarrow> ''application_ready'')"

definition ConfidenceAnswer :: "launch_stage \<Rightarrow> string" where
  "ConfidenceAnswer s = stage_string s @ ''_seconds''"

record stage_estimates =
  st_Acquisition :: estimate
  st_Boot :: estimate
  st_AgentReady :: estimate
  st_ImageFetch :: estimate
  st_Unpack :: estimate
  st_ArtifactFetch :: estimate
  st_ContainerStart :: estimate
  st_ApplicationReady :: estimate

definition stages_Answered :: "(launch_stage \<Rightarrow> estimate \<Rightarrow> estimate) \<Rightarrow> stage_estimates \<Rightarrow> stage_estimates" where
  "stages_Answered answer s =
     \<lparr>st_Acquisition = answer StageAcquisition (st_Acquisition s),
      st_Boot = answer StageBoot (st_Boot s),
      st_AgentReady = answer StageAgentReady (st_AgentReady s),
      st_ImageFetch = answer StageImageFetch (st_ImageFetch s),
      st_Unpack = answer StageUnpack (st_Unpack s),
      st_ArtifactFetch = answer StageArtifactFetch (st_ArtifactFetch s),
      st_ContainerStart = answer StageContainerStart (st_ContainerStart s),
      st_ApplicationReady = answer StageApplicationReady (st_ApplicationReady s)\<rparr>"

definition stages_Stage :: "stage_estimates \<Rightarrow> launch_stage \<Rightarrow> estimate" where
  "stages_Stage s stage = (case stage of
     StageAcquisition \<Rightarrow> st_Acquisition s | StageBoot \<Rightarrow> st_Boot s | StageAgentReady \<Rightarrow> st_AgentReady s
   | StageImageFetch \<Rightarrow> st_ImageFetch s | StageUnpack \<Rightarrow> st_Unpack s | StageArtifactFetch \<Rightarrow> st_ArtifactFetch s
   | StageContainerStart \<Rightarrow> st_ContainerStart s | StageApplicationReady \<Rightarrow> st_ApplicationReady s)"

subsection \<open>The candidate\<close>

record cost_term =
  te_Name :: string
  te_USD :: float64

record committed_interval =
  cv_Until :: time
  cv_FromSeconds :: float64
  cv_Seconds :: float64

record candidate_estimates =
  es_QueueSeconds :: estimate
  es_Stages :: stage_estimates
  es_StartSeconds :: estimate
  es_EstablishedStartSeconds :: estimate
  es_CostUSD :: estimate
  es_CostTerms :: "cost_term list"
  es_Committed :: committed_interval

record transfer_rate =
  tr_Stage :: launch_stage
  tr_Scope :: network_scope
  tr_Mbps :: float64
  tr_Bytes :: int64
  tr_Confidence :: float64
  tr_Measurement :: string
  tr_Assumption :: string

record confidence =
  cf_Answer :: string
  cf_Value :: float64

datatype candidate_disposition =
    CandidateDispositionRunNow | CandidateDispositionQueue
  | CandidateDispositionProvision | CandidateDispositionEphemeral

record candidate_decision =
  cd_OfferSnapshotID :: string
  cd_ConnectionID :: string
  cd_AdapterType :: string
  cd_NativeRef :: string
  cd_Candidate :: candidate_identity
  cd_Disposition :: candidate_disposition
  cd_Feasible :: bool
  cd_Rejections :: "violation list"
  cd_ImageLocality :: locality
  cd_ArtifactEvidence :: "artifact_evidence list"
  cd_CacheEvidence :: "cache_evidence list"
  cd_Disk :: disk_demand
  cd_Reliability :: reliability_evidence
  cd_RentalSchedule :: "schedule_evidence option"
  cd_Estimates :: candidate_estimates
  cd_TransferRates :: "transfer_rate list"
  cd_Confidences :: "confidence list"
  cd_ScoreUSD :: float64

definition TransferRateFor :: "launch_stage \<Rightarrow> network_scope \<Rightarrow> int64 \<Rightarrow> link_speed \<Rightarrow> transfer_rate" where
  "TransferRateFor stage scope bytes speed =
     \<lparr>tr_Stage = stage, tr_Scope = scope, tr_Mbps = ls_Mbps speed, tr_Bytes = bytes,
      tr_Confidence = ls_Confidence speed, tr_Measurement = ls_Measurement speed,
      tr_Assumption = ls_Assumption speed\<rparr>"

definition CostTermTotalUSD :: "candidate_estimates \<Rightarrow> float64" where
  "CostTermTotalUSD es = foldl (\<lambda>acc t. fadd acc (te_USD t)) 0 (es_CostTerms es)"

subsection \<open>Scoring and preferring\<close>

definition round6 :: "float64 \<Rightarrow> float64" where
  "round6 value = fdiv (fround (fmul value 1000000)) 1000000"

definition candidate_Uncertainty :: "candidate_decision \<Rightarrow> float64" where
  "candidate_Uncertainty c =
     foldl (\<lambda>shortfall f. if 0 < cf_Value f \<and> cf_Value f < 1 then fadd shortfall (fsub 1 (cf_Value f)) else shortfall)
       0 (cd_Confidences c)"

definition ScoreUSD :: "score_weights \<Rightarrow> candidate_decision \<Rightarrow> float64 \<Rightarrow> float64" where
  "ScoreUSD w c expectedRuntimeSeconds =
     (if \<not> cd_Feasible c then 0
      else let start = e_Expected (es_StartSeconds (cd_Estimates c)) in
        round6 (fadd (fadd (fadd (e_Expected (es_CostUSD (cd_Estimates c)))
                               (fmul (sw_StartLatencyUSDPerSecond w) start))
                         (fmul (sw_CompletionLatencyUSDPerSecond w) (fadd start expectedRuntimeSeconds)))
                   (fmul (sw_UncertaintyPenaltyUSD w) (candidate_Uncertainty c))))"

definition candidate_Priced :: "candidate_decision \<Rightarrow> bool" where
  "candidate_Priced c \<longleftrightarrow> e_Source (es_CostUSD (cd_Estimates c)) \<noteq> CostUnpriced"

datatype fleet_standing = StandingCouldHold | StandingUnstated | StandingNeverHolds

fun standing_from :: "fleet_standing \<Rightarrow> violation list \<Rightarrow> fleet_standing" where
  "standing_from s [] = s"
| "standing_from s (v # vs) =
     (if v_EndedByWaiting v then standing_from s vs
      else if v_Unstated v then standing_from StandingUnstated vs
      else StandingNeverHolds)"

definition candidate_Standing :: "candidate_decision \<Rightarrow> fleet_standing" where
  "candidate_Standing c = standing_from StandingCouldHold (cd_Rejections c)"

definition candidate_Preferred :: "candidate_decision \<Rightarrow> candidate_decision \<Rightarrow> bool" where
  "candidate_Preferred c over =
     (if candidate_Priced c \<noteq> candidate_Priced over then candidate_Priced c
      else if cd_ScoreUSD c \<noteq> cd_ScoreUSD over then cd_ScoreUSD c < cd_ScoreUSD over
      else if e_Expected (es_StartSeconds (cd_Estimates c)) \<noteq> e_Expected (es_StartSeconds (cd_Estimates over))
        then e_Expected (es_StartSeconds (cd_Estimates c)) < e_Expected (es_StartSeconds (cd_Estimates over))
      else cd_OfferSnapshotID c < cd_OfferSnapshotID over)"

end
