(* ===== verification/Prediction.thy ===== *)
theory Prediction
  imports Candidates
begin

text \<open>
  Launch history (\<^verbatim>\<open>internal/prediction\<close>): the seconds earlier launches took, grouped by
  how specifically they resemble the candidate, and the answer a stage is given from them.

  The Go map from key and stage to samples is a function; the samples under a key are in the order
  \<^verbatim>\<open>slices.Sort\<close> leaves them. A key is appended once per observation and level that has it.
\<close>

subsection \<open>Observations\<close>

record observation =
  ob_Candidate :: candidate_identity
  ob_Stage :: launch_stage
  ob_Seconds :: float64
  ob_ObservedAt :: time

record launch =
  la_Candidate :: candidate_identity
  la_StartedAt :: time
  la_ReadyAt :: time

definition launch_Observations :: "launch \<Rightarrow> observation list" where
  "launch_Observations l =
     (if time_is_zero (la_StartedAt l) \<or> time_is_zero (la_ReadyAt l) \<or> la_ReadyAt l < la_StartedAt l then []
      else [\<lparr>ob_Candidate = la_Candidate l, ob_Stage = StageApplicationReady,
             ob_Seconds = seconds_between (la_ReadyAt l) (la_StartedAt l), ob_ObservedAt = la_ReadyAt l\<rparr>])"

definition Observations :: "launch list \<Rightarrow> observation list" where
  "Observations launches = concat (map launch_Observations launches)"

subsection \<open>Levels\<close>

definition pricedFromBytes :: "launch_stage \<Rightarrow> bool" where
  "pricedFromBytes s \<longleftrightarrow> s = StageImageFetch \<or> s = StageUnpack \<or> s = StageArtifactFetch"

definition contentStage :: "launch_stage \<Rightarrow> bool" where
  "contentStage s \<longleftrightarrow> s = StageApplicationReady"

definition levelKeys :: "candidate_identity \<Rightarrow> launch_stage \<Rightarrow> (string \<times> launch_stage) list" where
  "levelKeys i stage =
     (if pricedFromBytes stage then []
      else let content = contentStage stage in
        [(identity_Candidate i content, stage),
         (identity_ProviderAndRegion i content, stage),
         (identity_ProviderKey i content, stage)])"

definition prediction_levels :: "prediction_level list" where
  "prediction_levels = [LevelExactCandidate, LevelProviderAndRegion, LevelProvider]"

type_synonym history = "string \<times> launch_stage \<Rightarrow> float64 list"

definition NewHistory :: "observation list \<Rightarrow> history" where
  "NewHistory obs key =
     sort (concat (map (\<lambda>o1. map (\<lambda>k. ob_Seconds o1)
       (filter (\<lambda>k. fst k \<noteq> empty_string \<and> k = key) (levelKeys (ob_Candidate o1) (ob_Stage o1)))) obs))"

subsection \<open>Answers\<close>

record answer =
  aw_Level :: prediction_level
  aw_Key :: string
  aw_SampleCount :: int
  aw_P50 :: float64
  aw_P90 :: float64
  aw_Confidence :: float64

definition quantile :: "float64 list \<Rightarrow> float64 \<Rightarrow> float64" where
  "quantile sorted1 q =
     (if sorted1 = [] then 0
      else if length sorted1 = 1 then sorted1 ! 0
      else let position = fmul q (f64_of_int (int (length sorted1) - 1));
               lower = \<lfloor>position\<rfloor>; upper = \<lceil>position\<rceil> in
        fadd (sorted1 ! nat lower)
             (fmul (fsub position (f64_of_int lower)) (fsub (sorted1 ! nat upper) (sorted1 ! nat lower))))"

definition prediction_confidence :: "prediction_level \<Rightarrow> nat \<Rightarrow> float64" where
  "prediction_confidence level samples =
     (let base = (case level of
          LevelExactCandidate \<Rightarrow> rnd64 (9 / 10)
        | LevelProviderAndRegion \<Rightarrow> rnd64 (6 / 10)
        | _ \<Rightarrow> rnd64 (4 / 10)) in
      fdiv (fmul base (f64_of_int (int samples))) (f64_of_int (int samples + 1)))"

definition answer_at :: "history \<Rightarrow> prediction_level \<Rightarrow> string \<times> launch_stage \<Rightarrow> answer" where
  "answer_at h level key =
     \<lparr>aw_Level = level, aw_Key = fst key, aw_SampleCount = int (length (h key)),
      aw_P50 = quantile (h key) (1 / 2), aw_P90 = quantile (h key) (rnd64 (9 / 10)),
      aw_Confidence = prediction_confidence level (length (h key))\<rparr>"

fun predict_from :: "history \<Rightarrow> (prediction_level \<times> string \<times> launch_stage) list \<Rightarrow> answer" where
  "predict_from h [] = \<lparr>aw_Level = LevelPrior, aw_Key = empty_string, aw_SampleCount = 0,
     aw_P50 = 0, aw_P90 = 0, aw_Confidence = 0\<rparr>"
| "predict_from h ((level, key) # rest) =
     (if fst key = empty_string \<or> h key = [] then predict_from h rest else answer_at h level key)"

definition Predict :: "history \<Rightarrow> candidate_identity \<Rightarrow> launch_stage \<Rightarrow> answer" where
  "Predict h i stage = predict_from h (zip prediction_levels (levelKeys i stage))"

definition answer_Answered :: "answer \<Rightarrow> bool" where
  "answer_Answered a \<longleftrightarrow> 0 < aw_SampleCount a"

definition answer_Estimate :: "answer \<Rightarrow> string \<Rightarrow> estimate" where
  "answer_Estimate a modelVersion =
     \<lparr>e_P50 = aw_P50 a, e_P90 = aw_P90 a, e_Expected = aw_P50 a, e_Confidence = aw_Confidence a,
      e_Source = ''history'', e_SampleCount = aw_SampleCount a, e_ModelVersion = modelVersion,
      e_Level = aw_Level a, e_Key = aw_Key a\<rparr>"

subsection \<open>Facts\<close>

lemma sort_nonneg: "\<forall>x \<in> set xs. 0 \<le> x \<Longrightarrow> i < length xs \<Longrightarrow> 0 \<le> sort xs ! i"
  for xs :: "float64 list"
  by (metis length_sort nth_mem set_sort)

lemma quantile_position:
  assumes "0 \<le> q" "q \<le> 1" "is_f64 (of_int (int n - 1))" "1 < n"
  shows "0 \<le> fmul q (f64_of_int (int n - 1))" "fmul q (f64_of_int (int n - 1)) \<le> of_int (int n - 1)"
proof -
  have e: "f64_of_int (int n - 1) = of_int (int n - 1)" using assms(3) by (simp add: f64_of_int_def is_f64_def)
  show "0 \<le> fmul q (f64_of_int (int n - 1))" using assms by (simp add: e fmul_nonneg)
  have "fmul q (of_int (int n - 1)) \<le> fmul 1 (of_int (int n - 1))"
    using assms by (intro fmul_mono_left) simp_all
  also have "\<dots> = of_int (int n - 1)" using assms(3) by (simp add: fmul_def is_f64_def)
  finally show "fmul q (f64_of_int (int n - 1)) \<le> of_int (int n - 1)" by (simp add: e)
qed

lemma predict_from_first:
  assumes "answer_Answered (predict_from h ks)"
  shows "\<exists>j < length ks. predict_from h ks = answer_at h (fst (ks ! j)) (snd (ks ! j))
    \<and> fst (snd (ks ! j)) \<noteq> empty_string \<and> h (snd (ks ! j)) \<noteq> []
    \<and> (\<forall>i < j. fst (snd (ks ! i)) = empty_string \<or> h (snd (ks ! i)) = [])"
  using assms
proof (induction ks)
  case (Cons k ks)
  obtain level key where k: "k = (level, key)" by (cases k)
  show ?case
  proof (cases "fst key = empty_string \<or> h key = []")
    case True
    with Cons k obtain j where "j < length ks" "predict_from h ks = answer_at h (fst (ks ! j)) (snd (ks ! j))"
      "fst (snd (ks ! j)) \<noteq> empty_string" "h (snd (ks ! j)) \<noteq> []"
      "\<forall>i < j. fst (snd (ks ! i)) = empty_string \<or> h (snd (ks ! i)) = []" by auto
    with True k show ?thesis by (intro exI[of _ "Suc j"]) (auto simp: less_Suc_eq_0_disj)
  next
    case False
    with k show ?thesis by (intro exI[of _ 0]) simp
  qed
qed (simp add: answer_Answered_def)

subsection \<open>Properties\<close>

text \<open>An answer from history is the one of the closest kin: its level is the most specific of exact
  candidate, provider and region, and provider whose key exists and has launches under it, and it
  counts exactly those launches. A stage priced from bytes is never answered from history.\<close>

theorem history_answers_from_the_closest_kin:
  "(pricedFromBytes stage \<longrightarrow> \<not> answer_Answered (Predict h i stage))
   \<and> (answer_Answered (Predict h i stage) \<longrightarrow>
       (\<exists>j < 3. let key = levelKeys i stage ! j in
          aw_Level (Predict h i stage) = prediction_levels ! j \<and> aw_Key (Predict h i stage) = fst key
        \<and> fst key \<noteq> empty_string \<and> 0 < length (h key)
        \<and> aw_SampleCount (Predict h i stage) = int (length (h key))
        \<and> (\<forall>k < j. fst (levelKeys i stage ! k) = empty_string \<or> h (levelKeys i stage ! k) = [])))"
proof (cases "pricedFromBytes stage")
  case True
  then show ?thesis by (simp add: Predict_def levelKeys_def answer_Answered_def)
next
  case False
  let ?ks = "zip prediction_levels (levelKeys i stage)"
  have len: "length (levelKeys i stage) = 3" "length prediction_levels = 3"
    using False by (simp_all add: levelKeys_def prediction_levels_def Let_def)
  show ?thesis
    using False predict_from_first[of h ?ks] len
    by (fastforce simp: Predict_def answer_at_def Let_def)
qed

definition sample_candidate :: candidate_identity where
  "sample_candidate = \<lparr>id_Lane = LaneReusable, id_Machine = ''m1'', id_Provider = ''p'', id_Region = ''r'',
     id_InstanceType = [], id_Accelerator = [], id_ImageDigest = ''sha''\<rparr>"

theorem history_answers_from_the_closest_kin_witness:
  "aw_Level (Predict (NewHistory [\<lparr>ob_Candidate = sample_candidate, ob_Stage = StageApplicationReady,
     ob_Seconds = 30, ob_ObservedAt = 7\<rparr>]) sample_candidate StageApplicationReady) = LevelExactCandidate
   \<and> \<not> answer_Answered (Predict (NewHistory []) sample_candidate StageUnpack)"
proof -
  have "aw_Level (Predict (NewHistory [\<lparr>ob_Candidate = sample_candidate, ob_Stage = StageApplicationReady,
     ob_Seconds = 30, ob_ObservedAt = 7\<rparr>]) sample_candidate StageApplicationReady) = LevelExactCandidate"
    by code_simp
  then show ?thesis
    using history_answers_from_the_closest_kin[of StageUnpack "NewHistory []" sample_candidate]
    by (simp add: pricedFromBytes_def)
qed

text \<open>A quantile of recorded launches never reads outside them and is never below the fastest one,
  for any number of launches a float64 counts exactly.\<close>

theorem quantile_reads_inside:
  assumes "sorted xs" "\<forall>x \<in> set xs. is_f64 x" "0 \<le> q" "q \<le> 1" "1 < length xs" "length xs \<le> 2 ^ 53"
  shows "nat \<lceil>fmul q (f64_of_int (int (length xs) - 1))\<rceil> < length xs \<and> xs ! 0 \<le> quantile xs q"
proof -
  have len: "int (length xs) \<le> 2 ^ 53" using assms(6) by (metis of_nat_le_iff of_nat_numeral of_nat_power)
  then have "\<bar>int (length xs) - 1\<bar> < 2 ^ 53" using assms(5) by linarith
  then have f: "is_f64 (of_int (int (length xs) - 1))" by (rule is_f64_of_int)
  define p where "p = fmul q (f64_of_int (int (length xs) - 1))"
  have p: "0 \<le> p" "p \<le> of_int (int (length xs) - 1)"
    unfolding p_def using quantile_position[OF assms(3,4) f assms(5)] by blast+
  have u: "\<lceil>p\<rceil> \<le> int (length xs) - 1" using p(2) by (subst ceiling_le_iff)
  have l: "0 \<le> \<lfloor>p\<rfloor>" "\<lfloor>p\<rfloor> \<le> \<lceil>p\<rceil>" using p(1) by (simp_all add: floor_le_ceiling)
  have idx: "nat \<lceil>p\<rceil> < length xs" "nat \<lfloor>p\<rfloor> \<le> nat \<lceil>p\<rceil>" using u l assms(5) by linarith+
  have "\<lfloor>p\<rfloor> = 0 \<or> \<bar>\<lfloor>p\<rfloor>\<bar> < 2 ^ 53" using u l len by linarith
  then have "f64_of_int \<lfloor>p\<rfloor> = of_int \<lfloor>p\<rfloor>"
    by (metis f64_of_int_def is_f64_def is_f64_of_int abs_zero zero_less_numeral zero_less_power)
  then have frac: "0 \<le> fsub p (f64_of_int \<lfloor>p\<rfloor>)" by (simp add: fsub_nonneg)
  have gap: "0 \<le> fsub (xs ! nat \<lceil>p\<rceil>) (xs ! nat \<lfloor>p\<rfloor>)"
    using sorted_nth_mono[OF assms(1) idx(2,1)] by (rule fsub_nonneg)
  have "xs ! 0 \<le> xs ! nat \<lfloor>p\<rfloor>" using idx by (intro sorted_nth_mono[OF assms(1)]) simp_all
  also have "\<dots> \<le> fadd (xs ! nat \<lfloor>p\<rfloor>) (fmul (fsub p (f64_of_int \<lfloor>p\<rfloor>)) (fsub (xs ! nat \<lceil>p\<rceil>) (xs ! nat \<lfloor>p\<rfloor>)))"
    using assms(2) idx by (intro fadd_ge fmul_nonneg frac gap) simp
  also have "\<dots> = quantile xs q" using assms(5) by (auto simp: quantile_def p_def Let_def)
  finally show ?thesis using idx(1) by (simp add: p_def)
qed

theorem quantile_reads_inside_witness: "10 \<le> quantile [10, 20, 40] (1 / 2)"
  using quantile_reads_inside[of "[10, 20, 40]" "1 / 2"] by (simp add: is_f64_numeral)

end
