(* ===== verification/Scheduler.thy ===== *)
theory Scheduler
  imports Prediction
begin

text \<open>
  The deterministic scheduler (\<^verbatim>\<open>internal/scheduler/scheduler.go\<close>): what it costs and
  takes to run a workload on each offer, why an offer is refused, which feasible one is selected, and
  the Booking the decision asks for.

  Three things come from outside this file and are parameters: \<open>gpu_names\<close> is the GPU name
  normalisation of \<^verbatim>\<open>internal/gpunorm\<close>, and \<open>hashes\<close> the canonical hash of a
  decision, of a Booking and of a Rental (\<^verbatim>\<open>domain.CanonicalHash\<close>, a SHA-256 of canonical
  JSON, which cannot fail on values without NaN).
\<close>

subsection \<open>Input and output\<close>

record scheduling_input =
  in_RunID :: string
  in_Workload :: workload_revision
  in_Offers :: "offer_snapshot list"
  in_Collection :: "string list \<times> string list \<times> string list"
  in_Schedules :: "string \<rightharpoonup> rental_schedule"
  in_Excluded :: "offer_exclusion list"
  in_ModelVersion :: string
  in_EvaluatedAt :: time
  in_Image :: image_manifest
  in_Artifacts :: "artifact_version list"
  in_Supersedes :: string
  in_SupersedesReason :: string
  in_History :: history

record booking_decision =
  bd_ID :: string
  bd_RunID :: string
  bd_WorkloadRevisionDigest :: string
  bd_EvaluatedAt :: time
  bd_ModelVersion :: string
  bd_Policy :: placement_policy
  bd_Weights :: score_weights
  bd_CollectionReport :: "string list \<times> string list \<times> string list"
  bd_Candidates :: "candidate_decision list"
  bd_SelectedOfferSnapshotID :: string
  bd_Booking :: "booking option"
  bd_SelectionReasonCodes :: "string list"
  bd_Supersedes :: string
  bd_SupersedesReason :: string

record decision_identity =
  di_RunID :: string
  di_Revision :: string
  di_EvaluatedAt :: time
  di_Model :: string
  di_Candidates :: "candidate_decision list"
  di_SelectedID :: string
  di_Supersedes :: string
  di_SupersedesReason :: string

record hashes =
  h_Decision :: "decision_identity \<Rightarrow> string"
  h_Booking :: "string \<Rightarrow> string \<Rightarrow> string"
  h_Rental :: "string \<Rightarrow> string \<Rightarrow> string"

record gpu_names =
  gn_NormalizeVendor :: "string \<Rightarrow> string"
  gn_Canonical :: "string \<Rightarrow> string \<Rightarrow> string"

datatype evaluate_error =
    EvaluatedAtRequired
  | ClassNotPriced service_class
  | IndexOutOfRange  \<comment> \<open>the panic of indexing the first container of a workload without any\<close>
  | StandingNeedsRental string
  | UnknownOfferKind string offer_kind
  | ReserveRefused schedule_error

definition DefaultMaxRuntimeSeconds :: int64 where
  "DefaultMaxRuntimeSeconds = 3600"

definition runtimeBounds :: "workload_revision \<Rightarrow> float64 \<times> float64" where
  "runtimeBounds w =
     (let declared = f64_of_int (ep_MaxRuntimeSeconds (ws_Execution (wr_Spec w)));
          maxRuntime = (if declared \<le> 0 then f64_of_int DefaultMaxRuntimeSeconds else declared);
          expected = pp_ExpectedRuntimeSeconds (ws_Placement (wr_Spec w)) in
      (if expected \<le> 0 then maxRuntime else expected, maxRuntime))"

subsection \<open>What the machine still has to do\<close>

record content_work =
  kw_predicted :: estimate
  kw_established :: estimate

record candidate_content =
  cc_image :: image_work
  cc_locality :: locality
  cc_fetch :: int64
  cc_evidence :: "artifact_evidence list"
  cc_disk :: disk_demand

definition enumerated :: "int64 \<Rightarrow> bool \<Rightarrow> int64" where
  "enumerated bytes known = (if \<not> known then 0 else bytes)"

definition establishedFetchBytes :: "artifact_evidence list \<Rightarrow> int64" where
  "establishedFetchBytes evidence =
     sum_i64 (map ae_FetchBytes (filter (\<lambda>e. ae_Locality e \<noteq> LocalityUnknown) evidence))"

definition contentFor :: "scheduling_input \<Rightarrow> offer_snapshot \<Rightarrow> candidate_content" where
  "contentFor inp offer =
     (let (work, locality) = StartWork (in_Image inp) (o_Images offer);
          (fetch, evidence) = ArtifactFetchWork (in_Artifacts inp) (o_Artifacts offer);
          caches = CacheLandBytes (ws_Caches (wr_Spec (in_Workload inp))) (o_Caches offer) in
      \<lparr>cc_image = work, cc_locality = locality, cc_fetch = fetch, cc_evidence = evidence,
       cc_disk = \<lparr>dd_FreeBytes = rv_EphemeralDiskBytes (o_Resources offer),
         dd_FreeBytesKnown = rv_EphemeralDiskKnown (o_Resources offer),
         dd_ReservedBytes = rr_EphemeralDiskMinBytes (ws_Resources (wr_Spec (in_Workload inp))),
         dd_LandBytes = i64_add (i64_add (iw_TransferBytes work) fetch) caches,
         dd_EstablishedLandBytes =
           i64_add (i64_add (enumerated (iw_TransferBytes work) (locality \<noteq> LocalityUnknown))
                            (establishedFetchBytes evidence))
                   (enumerated caches (ci_Known (o_Caches offer)))\<rparr>\<rparr>)"

definition transferSeconds :: "int64 \<Rightarrow> link_speed \<Rightarrow> float64" where
  "transferSeconds bytes link = (if bytes = 0 then 0 else fadd (TransferSeconds link bytes) (1 / 2))"

definition establishedOverAMeasuredPath :: "estimate \<Rightarrow> link_speed \<Rightarrow> estimate" where
  "establishedOverAMeasuredPath e rate =
     (if 0 < e_Expected e \<and> \<not> link_Measured rate then zero_estimate else e)"

definition establishedIfDescribed :: "estimate \<Rightarrow> locality \<Rightarrow> link_speed \<Rightarrow> content_work" where
  "establishedIfDescribed e locality rate =
     (if locality = LocalityUnknown then \<lparr>kw_predicted = e, kw_established = zero_estimate\<rparr>
      else \<lparr>kw_predicted = e, kw_established = establishedOverAMeasuredPath e rate\<rparr>)"

definition imageStage ::
    "float64 \<Rightarrow> int64 \<Rightarrow> link_speed \<Rightarrow> string \<Rightarrow> locality \<Rightarrow> string \<Rightarrow> content_work" where
  "imageStage secs bytes rate source locality modelVersion =
     (let e = zero_estimate\<lparr>e_Source := source, e_ModelVersion := modelVersion\<rparr> in
      if bytes = 0
      then establishedIfDescribed
             (if locality \<noteq> LocalityUnknown then e\<lparr>e_Confidence := 1\<rparr> else e) locality rate
      else establishedIfDescribed
             (e\<lparr>e_Expected := secs, e_P50 := secs, e_P90 := fmul secs (3 / 2),
                e_Confidence := (if locality = LocalityUnknown
                                 then min (ls_Confidence rate) AssumedLinkConfidence
                                 else ls_Confidence rate)\<rparr>) locality rate)"

definition pullSource :: "locality \<Rightarrow> image_manifest \<Rightarrow> image_inventory \<Rightarrow> string" where
  "pullSource locality m i =
     (if locality \<noteq> LocalityUnknown then ''image_inventory''
      else if \<not> im_Known m \<and> im_Unreadable m \<noteq> empty_string then im_Unreadable m
      else if \<not> im_Known m then ''manifest_unresolved''
      else if \<not> ii_Known i then ''inventory_unknown''
      else if images_Undescribed i (im_Digest m) then ''image_undescribed''
      else ''manifest_without_layers'')"

definition imageEstimates ::
    "image_manifest \<Rightarrow> offer_snapshot \<Rightarrow> candidate_content \<Rightarrow> link_speed \<Rightarrow> link_speed \<Rightarrow> string \<Rightarrow>
     content_work \<times> content_work" where
  "imageEstimates m offer content registry storage modelVersion =
     (let work = cc_image content; locality = cc_locality content;
          source = pullSource locality m (o_Images offer) in
      (imageStage (transferSeconds (iw_TransferBytes work) registry) (iw_TransferBytes work)
         registry source locality modelVersion,
       imageStage (TransferSeconds storage (iw_UnpackBytes work)) (iw_UnpackBytes work)
         storage source locality modelVersion))"

definition objectStoreRead :: "int64 \<Rightarrow> link_speed \<Rightarrow> string \<Rightarrow> string \<Rightarrow> estimate" where
  "objectStoreRead bytes store source modelVersion =
     (let secs = TransferSeconds store bytes in
      zero_estimate\<lparr>e_Expected := secs, e_P50 := secs, e_P90 := fmul secs (3 / 2),
        e_Confidence := (if bytes = 0 then 1 else ls_Confidence store),
        e_Source := source, e_ModelVersion := modelVersion\<rparr>)"

definition artifactSource :: "artifact_inventory \<Rightarrow> artifact_evidence list \<Rightarrow> string" where
  "artifactSource i evidence =
     (if evidence = [] then ''workload_reads_nothing''
      else if ai_Known i then ''artifact_inventory'' else ''inventory_unknown'')"

definition artifactEstimate ::
    "artifact_inventory \<Rightarrow> candidate_content \<Rightarrow> link_speed \<Rightarrow> string \<Rightarrow> content_work" where
  "artifactEstimate i content store modelVersion =
     (let source = artifactSource i (cc_evidence content) in
      if cc_evidence content = []
      then \<lparr>kw_predicted = zero_estimate\<lparr>e_Source := source, e_ModelVersion := modelVersion\<rparr>,
            kw_established = zero_estimate\<rparr>
      else \<lparr>kw_predicted = objectStoreRead (cc_fetch content) store source modelVersion,
            kw_established = establishedOverAMeasuredPath
              (objectStoreRead (establishedFetchBytes (cc_evidence content)) store source modelVersion) store\<rparr>)"

definition transferRates ::
    "candidate_content \<Rightarrow> link_speed \<Rightarrow> link_speed \<Rightarrow> link_speed \<Rightarrow> transfer_rate list" where
  "transferRates content registry storage store =
     filter (\<lambda>r. tr_Bytes r \<noteq> 0)
       [TransferRateFor StageImageFetch NetworkScopeRegistry (iw_TransferBytes (cc_image content)) registry,
        TransferRateFor StageUnpack (NetworkScopeOther empty_string) (iw_UnpackBytes (cc_image content)) storage,
        TransferRateFor StageArtifactFetch NetworkScopeObjectStore (cc_fetch content) store]"

subsection \<open>How long until it starts\<close>

definition containerStartEstimate :: "string \<Rightarrow> estimate" where
  "containerStartEstimate modelVersion =
     zero_estimate\<lparr>e_Expected := AssumedContainerStartSeconds, e_P50 := AssumedContainerStartSeconds,
       e_P90 := AssumedContainerStartSeconds * (5 / 4), e_Source := ''scheduler'', e_ModelVersion := modelVersion\<rparr>"

definition applicationReadyEstimate :: "scheduling_input \<Rightarrow> estimate" where
  "applicationReadyEstimate inp =
     (let secs = pp_ExpectedReadySeconds (ws_Placement (wr_Spec (in_Workload inp))) in
      zero_estimate\<lparr>e_Expected := secs, e_P50 := secs, e_P90 := secs,
        e_Source := (if secs \<le> 0 then ''workload_states_none'' else ''workload.expected_ready''),
        e_ModelVersion := in_ModelVersion inp\<rparr>)"

definition queueEstimate :: "scheduling_input \<Rightarrow> offer_snapshot \<Rightarrow> estimate" where
  "queueEstimate inp offer =
     (let secs = (case in_Schedules inp (o_RentalID offer) of
          Some s \<Rightarrow> ExpectedWaitSeconds s (in_EvaluatedAt inp)
        | None \<Rightarrow> (case o_QueuedWorkSeconds offer of Some q \<Rightarrow> q | None \<Rightarrow> 0)) in
      zero_estimate\<lparr>e_Expected := secs, e_P50 := secs, e_P90 := secs, e_Source := ''offer'',
        e_ModelVersion := in_ModelVersion inp\<rparr>)"

definition orExpected :: "float64 \<Rightarrow> float64 \<Rightarrow> float64" where
  "orExpected quantile1 expected = (if quantile1 \<le> 0 then expected else quantile1)"

record machine_estimates =
  me_acquisition :: estimate
  me_boot :: estimate
  me_agentReady :: estimate

definition provisionEstimate :: "scheduling_input \<Rightarrow> offer_snapshot \<Rightarrow> machine_estimates" where
  "provisionEstimate inp offer =
     (let source = (if o_Kind offer \<noteq> OfferKindProvisionable then ''machine_exists'' else ''unpublished'');
          e = zero_estimate\<lparr>e_Source := source, e_ModelVersion := in_ModelVersion inp\<rparr>;
          machine = \<lparr>me_acquisition = e, me_boot = e, me_agentReady = e\<rparr> in
      if o_Kind offer \<noteq> OfferKindProvisionable then machine
      else case o_Provisioning offer of
        None \<Rightarrow> machine
      | Some published \<Rightarrow>
          machine\<lparr>me_boot := zero_estimate\<lparr>e_Expected := e_Expected published,
            e_P50 := orExpected (e_P50 published) (e_Expected published),
            e_P90 := orExpected (e_P90 published) (e_Expected published),
            e_Source := ''offer'', e_ModelVersion := in_ModelVersion inp\<rparr>\<rparr>)"

definition stagePredictor :: "scheduling_input \<Rightarrow> offer_snapshot \<Rightarrow> launch_stage \<Rightarrow> estimate \<Rightarrow> estimate" where
  "stagePredictor inp offer stage prior =
     (let a = Predict (in_History inp) (CandidateIdentityOf offer (im_Digest (in_Image inp))) stage in
      if answer_Answered a then answer_Estimate a (in_ModelVersion inp)
      else prior\<lparr>e_Level := LevelPrior\<rparr>)"

definition startingStages :: "stage_estimates \<Rightarrow> estimate list" where
  "startingStages s = map (stages_Stage s) (filter (\<lambda>g. g \<noteq> StageApplicationReady) LaunchStages)"

definition startEstimate :: "scheduling_input \<Rightarrow> estimate \<Rightarrow> stage_estimates \<Rightarrow> estimate" where
  "startEstimate inp queue s =
     foldl (\<lambda>acc part. acc\<lparr>e_Expected := fadd (e_Expected acc) (e_Expected part),
                          e_P50 := fadd (e_P50 acc) (e_P50 part),
                          e_P90 := fadd (e_P90 acc) (e_P90 part)\<rparr>)
       (zero_estimate\<lparr>e_Source := ''scheduler'', e_ModelVersion := in_ModelVersion inp\<rparr>)
       (queue # startingStages s)"

definition occupancy_of :: "scheduling_input \<Rightarrow> estimate \<Rightarrow> occupancy" where
  "occupancy_of inp start =
     (let (expected, maximum) = runtimeBounds (in_Workload inp) in
      \<lparr>oc_At = in_EvaluatedAt inp, oc_StartSeconds = e_Expected start,
       oc_RuntimeSeconds = expected, oc_MaxRuntimeSeconds = maximum\<rparr>)"

subsection \<open>What it costs\<close>

definition no_interval :: committed_interval where
  "no_interval = \<lparr>cv_Until = zero_time, cv_FromSeconds = 0, cv_Seconds = 0\<rparr>"

definition committedInterval :: "capacity_terms \<Rightarrow> occupancy \<Rightarrow> committed_interval" where
  "committedInterval t held =
     (if time_is_zero (ct_CommittedUntil t) then no_interval
      else \<lparr>cv_Until = ct_CommittedUntil t, cv_FromSeconds = oc_StartSeconds held,
            cv_Seconds = CommittedSeconds t held\<rparr>)"

definition acquisitionFee :: "offer_snapshot \<Rightarrow> float64" where
  "acquisitionFee offer = (if o_Kind offer \<noteq> OfferKindProvisionable then 0 else pm_SetupFeeUSD (o_Pricing offer))"

definition minimumChargeSeconds :: "offer_snapshot \<Rightarrow> int64" where
  "minimumChargeSeconds offer =
     (if o_Kind offer \<noteq> OfferKindProvisionable then 0 else pm_MinimumChargeSeconds (o_Pricing offer))"

definition costEstimate ::
    "scheduling_input \<Rightarrow> offer_snapshot \<Rightarrow> occupancy \<Rightarrow> estimate \<times> cost_term list \<times> committed_interval" where
  "costEstimate inp offer held =
     (if \<not> pm_Known (o_Pricing offer)
      then (zero_estimate\<lparr>e_Source := CostUnpriced, e_ModelVersion := in_ModelVersion inp\<rparr>, [], no_interval)
      else let committed = committedInterval (o_Terms offer) held;
               rate = pm_RatePerSecondUSD (o_Pricing offer);
               keepAlive = fsub (oc_RuntimeSeconds held) (cv_Seconds committed);
               billed = BilledSeconds (o_Pricing offer)
                          (max keepAlive (f64_of_int (minimumChargeSeconds offer)));
               terms = [\<lparr>te_Name = ''setup_fee'', te_USD = acquisitionFee offer\<rparr>,
                        \<lparr>te_Name = ''committed_rent'', te_USD = fmul rate (cv_Seconds committed)\<rparr>,
                        \<lparr>te_Name = ''keep_alive'', te_USD = fmul rate keepAlive\<rparr>,
                        \<lparr>te_Name = ''idle_tail'', te_USD = fmul rate (fsub billed keepAlive)\<rparr>] in
        (zero_estimate\<lparr>e_Expected := foldl (\<lambda>total t. fadd total (te_USD t)) 0 terms,
           e_Source := ''price_model'', e_ModelVersion := in_ModelVersion inp\<rparr>, terms, committed))"

subsection \<open>One candidate\<close>

record candidate_work =
  wk_estimates :: candidate_estimates
  wk_image :: locality
  wk_artifacts :: "artifact_evidence list"
  wk_rates :: "transfer_rate list"
  wk_disk :: disk_demand
  wk_occupancy :: occupancy

definition estimateCandidate :: "scheduling_input \<Rightarrow> offer_snapshot \<Rightarrow> candidate_work" where
  "estimateCandidate inp offer =
     (let queue = queueEstimate inp offer;
          machine = provisionEstimate inp offer;
          content = contentFor inp offer;
          registry = DownloadRate offer NetworkScopeRegistry (in_EvaluatedAt inp);
          store = DownloadRate offer NetworkScopeObjectStore (in_EvaluatedAt inp);
          (fetch, unpack) = imageEstimates (in_Image inp) offer content registry UnpackRate (in_ModelVersion inp);
          inputs = artifactEstimate (o_Artifacts offer) content store (in_ModelVersion inp);
          stages = \<lparr>st_Acquisition = me_acquisition machine, st_Boot = me_boot machine,
                    st_AgentReady = me_agentReady machine, st_ImageFetch = kw_predicted fetch,
                    st_Unpack = kw_predicted unpack, st_ArtifactFetch = kw_predicted inputs,
                    st_ContainerStart = containerStartEstimate (in_ModelVersion inp),
                    st_ApplicationReady = applicationReadyEstimate inp\<rparr>;
          established = stages\<lparr>st_ImageFetch := kw_established fetch, st_Unpack := kw_established unpack,
                               st_ArtifactFetch := kw_established inputs\<rparr>;
          stages' = stages_Answered (stagePredictor inp offer) stages;
          established' = stages_Answered (stagePredictor inp offer) established;
          start = startEstimate inp queue stages';
          held = occupancy_of inp start;
          (cost, terms, committed) = costEstimate inp offer held in
      \<lparr>wk_estimates = \<lparr>es_QueueSeconds = queue, es_Stages = stages', es_StartSeconds = start,
         es_EstablishedStartSeconds = startEstimate inp queue established',
         es_CostUSD = cost, es_CostTerms = terms, es_Committed = committed\<rparr>,
       wk_image = cc_locality content, wk_artifacts = cc_evidence content,
       wk_rates = transferRates content registry UnpackRate store,
       wk_disk = cc_disk content, wk_occupancy = held\<rparr>)"

subsection \<open>Why an offer is refused\<close>

definition queueable :: "scheduling_input \<Rightarrow> offer_snapshot \<Rightarrow> bool" where
  "queueable inp offer =
     (if \<not> lane_Reusable (o_Lane offer) \<or> o_Kind offer \<noteq> OfferKindStanding then False
      else case in_Schedules inp (o_RentalID offer) of
        None \<Rightarrow> False
      | Some s \<Rightarrow>
          if rs_Bookings s = [] \<or> RentalScheduleQueueCapacity < length (rs_Bookings s) then False
          else \<not> schedule_Exhausted s (in_EvaluatedAt inp))"

definition requiresPublicInbound :: "container_spec \<Rightarrow> bool" where
  "requiresPublicInbound c \<longleftrightarrow> (\<exists>p \<in> set (cs_Ports c). ps_Exposure p = PortExposurePublic)"

definition requiresAccelerators :: "accelerator_requirement list \<Rightarrow> bool" where
  "requiresAccelerators reqs \<longleftrightarrow> (\<exists>r \<in> set reqs. 0 < aq_Count r)"

definition accelerator_matches :: "gpu_names \<Rightarrow> accelerator_requirement \<Rightarrow> accelerator_inventory \<Rightarrow> bool" where
  "accelerator_matches gpu req a \<longleftrightarrow>
     \<not> (aq_Vendor req \<noteq> empty_string
        \<and> gn_NormalizeVendor gpu (an_Vendor a) \<noteq> gn_NormalizeVendor gpu (aq_Vendor req))
   \<and> \<not> (aq_ModelAnyOf req \<noteq> []
        \<and> \<not> (\<exists>m \<in> set (aq_ModelAnyOf req). gn_Canonical gpu (an_Vendor a) m = an_CanonicalModel a))
   \<and> \<not> (0 < aq_MemoryMinBytes req \<and> an_MemoryBytes a < aq_MemoryMinBytes req)"

definition acceleratorRequirementsSatisfied ::
    "gpu_names \<Rightarrow> accelerator_requirement list \<Rightarrow> offer_snapshot \<Rightarrow> bool" where
  "acceleratorRequirementsSatisfied gpu reqs offer \<longleftrightarrow>
     (\<forall>req \<in> set reqs. aq_Count req \<le> 0
        \<or> aq_Count req \<le> sum_i64 (map an_Count
            (filter (accelerator_matches gpu req) (rv_Accelerators (o_Resources offer)))))"

definition downloadFloorViolations :: "time \<Rightarrow> download_requirement \<Rightarrow> network_fact list \<Rightarrow> violation list" where
  "downloadFloorViolations now req facts =
     (case download_Answer req facts now of
        None \<Rightarrow> finding (\<not> dq_AllowUnknown req)
          (violation_of ''UNKNOWN_FACT'' ''network.download'' (AnyFloat (dq_MinP10Mbps req)) (AnyString ''unknown''))
      | Some f \<Rightarrow> finding (nf_ValueMbps f < dq_MinP10Mbps req)
          (violation_of ''NETWORK_FACT_UNSATISFIED'' ''network.download'' (AnyFloat (dq_MinP10Mbps req))
            (AnyFloat (nf_ValueMbps f))))"

definition exceedsStartSLO :: "float64 \<Rightarrow> estimate \<Rightarrow> bool" where
  "exceedsStartSLO limit established \<longleftrightarrow> 0 < limit \<and> limit < e_P90 established"

text \<open>
  The checks in the order of the source, in four runs of consecutive ones. The first reads the first
  container, which the caller has checked exists.
\<close>

definition standing_violations :: "scheduling_input \<Rightarrow> offer_snapshot \<Rightarrow> violation list" where
  "standing_violations inp offer =
     (let spec = wr_Spec (in_Workload inp); container = hd (ws_Containers spec);
          n = int (length (ws_Containers spec)); now = in_EvaluatedAt inp;
          schedule = in_Schedules inp (o_RentalID offer) in
      (case ExcludedOffer (in_Excluded inp) (o_ID offer) of
         None \<Rightarrow> [] | Some x \<Rightarrow> [exclusion_Violation (ox_Reason x) (o_ID offer)])
    @ finding (\<not> lane_Valid (o_Lane offer))
        (violation_of ''UNKNOWN_FACT'' ''lane'' (AnyString ''reusable or ephemeral'') (AnyString (lane_string (o_Lane offer))))
    @ finding (\<not> time_is_zero (o_ExpiresAt offer) \<and> \<not> now < o_ExpiresAt offer)
        (violation_of ''OFFER_EXPIRED'' ''expires_at'' (AnyString ''future'') (AnyTime (o_ExpiresAt offer)))
    @ finding (o_Platform offer \<noteq> cs_Platform container)
        (violation_of ''CAPABILITY_MISMATCH'' ''platform'' (AnyString (platform_String (cs_Platform container)))
          (AnyString (platform_String (o_Platform offer))))
    @ finding (cp_MaxContainers (o_Capabilities offer) = 0)
        (violation_of ''UNKNOWN_FACT'' ''container.max_containers'' (AnyInt n) (AnyInt 0))
    @ finding (0 < cp_MaxContainers (o_Capabilities offer) \<and> cp_MaxContainers (o_Capabilities offer) < n)
        (violation_of ''CAPABILITY_MISMATCH'' ''container.max_containers'' (AnyInt n)
          (AnyInt (cp_MaxContainers (o_Capabilities offer))))
    @ finding (\<not> o_Available offer \<and> \<not> queueable inp offer)
        ((violation_of ''CAPACITY_UNAVAILABLE'' ''capacity.available'' (AnyBool True) (AnyBool False))
          \<lparr>v_EndedByWaiting := True\<rparr>)
    @ (case HolderOfMachine (in_Offers inp) offer of
         None \<Rightarrow> []
       | Some holder \<Rightarrow> [(violation_of ''CAPACITY_ALREADY_HELD'' ''machine_id''
            (AnyString ''a machine this fleet does not already hold'') (AnyString (o_MachineID offer)))
            \<lparr>v_Subject := holder\<rparr>])
    @ (case schedule of
         None \<Rightarrow> []
       | Some s \<Rightarrow>
           finding (RentalScheduleQueueCapacity + 1 \<le> length (rs_Bookings s))
             ((violation_of ''QUEUE_CAPACITY_EXCEEDED'' ''rental_schedule.bookings''
               (AnyInt (int RentalScheduleQueueCapacity + 1)) (AnyInt (int (length (rs_Bookings s)))))
               \<lparr>v_EndedByWaiting := True\<rparr>)
         @ finding (KeepsWhatItRuns offer \<and> schedule_Exhausted s now)
             (violation_of ''RENTAL_SCHEDULE_EXHAUSTED'' ''rental_schedule.bookings'' (AnyInt 0)
               (AnyFloat (OverrunSeconds (hd (rs_Bookings s)) now)))))"

definition resource_violations :: "gpu_names \<Rightarrow> scheduling_input \<Rightarrow> offer_snapshot \<Rightarrow> candidate_work \<Rightarrow> violation list" where
  "resource_violations gpu inp offer work =
     (let spec = wr_Spec (in_Workload inp); container = hd (ws_Containers spec);
          need = ws_Resources spec; has = o_Resources offer in
      finding (\<not> cp_SupportsDigestRefs (o_Capabilities offer))
        (violation_of ''CAPABILITY_MISMATCH'' ''container.supports_digest_refs'' (AnyBool True) (AnyBool False))
    @ finding (cs_Entrypoint container \<noteq> None \<and> \<not> cp_SupportsEntrypointOverride (o_Capabilities offer))
        (violation_of ''CAPABILITY_MISMATCH'' ''container.supports_entrypoint_override'' (AnyBool True) (AnyBool False))
    @ finding (rv_CPUMillis has < rr_CPUMinMillis need)
        (violation_of ''RESOURCE_INSUFFICIENT'' ''resources.cpu'' (AnyInt (rr_CPUMinMillis need)) (AnyInt (rv_CPUMillis has)))
    @ finding (rv_MemoryBytes has < rr_MemoryMinBytes need)
        (violation_of ''RESOURCE_INSUFFICIENT'' ''resources.memory'' (AnyInt (rr_MemoryMinBytes need)) (AnyInt (rv_MemoryBytes has)))
    @ (if \<not> dd_FreeBytesKnown (wk_disk work)
       then [(violation_of ''UNKNOWN_FACT'' ''resources.ephemeral_disk'' (AnyInt (RequiredBytes (wk_disk work)))
               (AnyString ''unknown''))\<lparr>v_Unstated := True\<rparr>]
       else finding (\<not> disk_Fits (wk_disk work))
              (violation_of ''RESOURCE_INSUFFICIENT'' ''resources.ephemeral_disk'' (AnyInt (RequiredBytes (wk_disk work)))
                (AnyInt (dd_FreeBytes (wk_disk work)))))
    @ host_Violations (o_Host offer) (rr_Host need)
    @ (if requiresAccelerators (rr_Accelerators need) \<and> \<not> rv_AcceleratorsKnown has
       then [(violation_of ''UNKNOWN_FACT'' ''resources.accelerators'' (AnyAcceleratorRequirements (rr_Accelerators need))
               (AnyString ''unknown''))\<lparr>v_Unstated := True\<rparr>]
       else finding (\<not> acceleratorRequirementsSatisfied gpu (rr_Accelerators need) offer)
              (violation_of ''RESOURCE_INSUFFICIENT'' ''resources.accelerators''
                (AnyAcceleratorRequirements (rr_Accelerators need)) (AnyAccelerators (rv_Accelerators has)))))"

definition policy_violations :: "scheduling_input \<Rightarrow> offer_snapshot \<Rightarrow> candidate_work \<Rightarrow> violation list" where
  "policy_violations inp offer work =
     (let spec = wr_Spec (in_Workload inp); container = hd (ws_Containers spec); policy = ws_Placement spec in
      finding (requiresPublicInbound container \<and> cp_Inbound (o_Capabilities offer) \<noteq> InboundNetworkPublicPort)
        (violation_of ''CAPABILITY_MISMATCH'' ''network.inbound'' (AnyInbound InboundNetworkPublicPort)
          (AnyInbound (cp_Inbound (o_Capabilities offer))))
    @ (case nr_Download (ws_Network spec) of
         None \<Rightarrow> [] | Some req \<Rightarrow> downloadFloorViolations (in_EvaluatedAt inp) req (o_Network offer))
    @ finding (\<not> pm_Known (o_Pricing offer) \<and> \<not> pp_AllowUnknownPricing policy)
        (violation_of ''UNKNOWN_FACT'' ''pricing'' (AnyString ''known'') (AnyString ''unknown''))
    @ finding (o_Reclaimable offer \<and> \<not> ad_PermitsInterruption (class_Admission (pp_Class policy)))
        (violation_of ''INTERRUPTION_NOT_PERMITTED'' ''reclaimable'' (AnyBool False) (AnyBool True))
    @ finding (\<not> terms_Admits (o_Terms offer) (pp_Class policy))
        (violation_of ''CLASS_NOT_ELIGIBLE'' ''capacity_terms.eligible_classes''
          (AnyClasses (ct_EligibleClasses (o_Terms offer))) (AnyClass (pp_Class policy)))
    @ finding (OutlivesWindow (o_Terms offer) (wk_occupancy work))
        (violation_of ''AVAILABILITY_WINDOW_CLOSES'' ''capacity_terms.available_until''
          (AnyTime (ct_AvailableUntil (o_Terms offer))) (AnyTime (occupancy_LatestEnd (wk_occupancy work)))))"

definition estimate_violations :: "scheduling_input \<Rightarrow> candidate_work \<Rightarrow> violation list" where
  "estimate_violations inp work =
     (let policy = ws_Placement (wr_Spec (in_Workload inp)); es = wk_estimates work;
          unpriced = (e_Source (es_CostUSD es) = CostUnpriced) in
      finding (exceedsStartSLO (pp_MaxP90StartSeconds policy) (es_EstablishedStartSeconds es))
        (violation_of ''LATENCY_SLO_EXCEEDED'' ''placement.max_p90_start_seconds''
          (AnyFloat (pp_MaxP90StartSeconds policy)) (AnyFloat (e_P90 (es_EstablishedStartSeconds es))))
    @ (case pp_MaxExpectedCostUSD policy of
         None \<Rightarrow> []
       | Some maximum \<Rightarrow>
           finding (unpriced \<or> maximum < e_Expected (es_CostUSD es))
             (violation_of ''COST_LIMIT_EXCEEDED'' ''placement.max_expected_cost_usd'' (AnyFloat maximum)
               (if unpriced then AnyString CostUnpriced else AnyFloat (e_Expected (es_CostUSD es))))))"

definition feasibilityViolations ::
    "gpu_names \<Rightarrow> scheduling_input \<Rightarrow> offer_snapshot \<Rightarrow> candidate_work \<Rightarrow> violation list" where
  "feasibilityViolations gpu inp offer work =
     standing_violations inp offer @ resource_violations gpu inp offer work
   @ policy_violations inp offer work @ estimate_violations inp work"

subsection \<open>Evaluating\<close>

definition candidateDisposition :: "scheduling_input \<Rightarrow> offer_snapshot \<Rightarrow> candidate_disposition" where
  "candidateDisposition inp offer =
     (if \<not> lane_Reusable (o_Lane offer) then CandidateDispositionEphemeral
      else if o_Kind offer = OfferKindProvisionable then CandidateDispositionProvision
      else case in_Schedules inp (o_RentalID offer) of
        Some s \<Rightarrow> if rs_Bookings s \<noteq> [] then CandidateDispositionQueue else CandidateDispositionRunNow
      | None \<Rightarrow> CandidateDispositionRunNow)"

definition confidences :: "offer_snapshot \<Rightarrow> candidate_estimates \<Rightarrow> confidence list" where
  "confidences offer es =
     filter (\<lambda>c. 0 < cf_Value c)
       [\<lparr>cf_Answer = ''capacity'', cf_Value = o_CapacityConfidence offer\<rparr>,
        \<lparr>cf_Answer = ConfidenceAnswer StageImageFetch, cf_Value = e_Confidence (st_ImageFetch (es_Stages es))\<rparr>,
        \<lparr>cf_Answer = ConfidenceAnswer StageUnpack, cf_Value = e_Confidence (st_Unpack (es_Stages es))\<rparr>,
        \<lparr>cf_Answer = ConfidenceAnswer StageArtifactFetch, cf_Value = e_Confidence (st_ArtifactFetch (es_Stages es))\<rparr>]"

definition scheduleEvidence :: "scheduling_input \<Rightarrow> offer_snapshot \<Rightarrow> schedule_evidence option" where
  "scheduleEvidence inp offer = (case in_Schedules inp (o_RentalID offer) of
     None \<Rightarrow> None
   | Some s \<Rightarrow> if rs_Bookings s = [] then None else Some (schedule_Evidence s (in_EvaluatedAt inp)))"

definition evaluateOffer ::
    "gpu_names \<Rightarrow> scheduling_input \<Rightarrow> score_weights \<Rightarrow> offer_snapshot \<Rightarrow> candidate_decision" where
  "evaluateOffer gpu inp weights offer =
     (let work = estimateCandidate inp offer;
          rejections = feasibilityViolations gpu inp offer work;
          candidate = \<lparr>cd_OfferSnapshotID = o_ID offer, cd_ConnectionID = o_ConnectionID offer,
            cd_AdapterType = o_AdapterType offer, cd_NativeRef = o_NativeRef offer,
            cd_Candidate = CandidateIdentityOf offer (im_Digest (in_Image inp)),
            cd_Disposition = candidateDisposition inp offer,
            cd_Feasible = (rejections = []), cd_Rejections = rejections,
            cd_ImageLocality = wk_image work, cd_ArtifactEvidence = wk_artifacts work,
            cd_CacheEvidence = CacheWarmth (ws_Caches (wr_Spec (in_Workload inp))) (o_Caches offer),
            cd_Disk = wk_disk work, cd_Reliability = o_Reliability offer,
            cd_RentalSchedule = scheduleEvidence inp offer, cd_Estimates = wk_estimates work,
            cd_TransferRates = wk_rates work, cd_Confidences = confidences offer (wk_estimates work),
            cd_ScoreUSD = 0\<rparr> in
      candidate\<lparr>cd_ScoreUSD := ScoreUSD weights candidate
        (pp_ExpectedRuntimeSeconds (ws_Placement (wr_Spec (in_Workload inp))))\<rparr>)"

text \<open>The comparison of four strings in turn is the order of the lists of the four.\<close>

definition offer_key :: "offer_snapshot \<Rightarrow> string list" where
  "offer_key offer = [o_ConnectionID offer, o_AdapterType offer, o_NativeRef offer, o_ID offer]"

definition sortedOffers :: "offer_snapshot list \<Rightarrow> offer_snapshot list" where
  "sortedOffers offers = sort_key offer_key offers"

definition best_from ::
    "(offer_snapshot \<times> candidate_decision) option \<Rightarrow> (offer_snapshot \<times> candidate_decision) list \<Rightarrow>
     (offer_snapshot \<times> candidate_decision) option" where
  "best_from = pick_best (\<lambda>(offer, c). cd_Feasible c) (\<lambda>(offer, c) (offer', b). candidate_Preferred c b)"

definition selectionReason :: "candidate_disposition \<Rightarrow> string" where
  "selectionReason d = (case d of
     CandidateDispositionRunNow \<Rightarrow> ''REUSE_EXISTING_RENTAL''
   | CandidateDispositionQueue \<Rightarrow> ''QUEUE_EXISTING_RENTAL''
   | CandidateDispositionProvision \<Rightarrow> ''PROVISION_FRESH_RENTAL''
   | CandidateDispositionEphemeral \<Rightarrow> ''LAUNCH_EPHEMERAL'')"

definition pricedRankingReason :: "candidate_decision list \<Rightarrow> candidate_decision \<Rightarrow> string list" where
  "pricedRankingReason candidates best =
     (if \<not> candidate_Priced best then [''UNPRICED_LAST_RESORT'']
      else finding (\<exists>c \<in> set candidates. cd_Feasible c \<and> \<not> candidate_Priced c) ''PRICED_BEFORE_UNPRICED'')"

definition startSLOReason :: "float64 \<Rightarrow> candidate_decision \<Rightarrow> string list" where
  "startSLOReason limit selected =
     (if limit \<le> 0 then []
      else if e_P90 (es_StartSeconds (cd_Estimates selected)) \<le> limit then [''WITHIN_START_SLO'']
      else [''START_SLO_UNVERIFIED''])"

definition class_SelectionReason :: "service_class \<Rightarrow> string" where
  "class_SelectionReason c = ''SERVICE_CLASS_'' @ (case c of
     ClassInteractive \<Rightarrow> ''INTERACTIVE'' | ClassStandard \<Rightarrow> ''STANDARD'' | ClassBatch \<Rightarrow> ''BATCH''
   | ClassExperimental \<Rightarrow> ''EXPERIMENTAL'' | ClassOpportunistic \<Rightarrow> ''OPPORTUNISTIC''
   | ClassOther s \<Rightarrow> map (\<lambda>ch. if 97 \<le> (of_char ch :: nat) \<and> (of_char ch :: nat) \<le> 122
                              then char_of (of_char ch - 32 :: nat) else ch) s)"

text \<open>Characters 7 to 23 of the hash: what follows its prefix \<^verbatim>\<open>sha256:\<close>.\<close>

definition short_hash :: "string \<Rightarrow> string" where
  "short_hash h = take (24 - 7) (drop 7 h)"

definition decision_Identity :: "hashes \<Rightarrow> booking_decision \<Rightarrow> string" where
  "decision_Identity hs d = ''dec_'' @ short_hash (h_Decision hs
     \<lparr>di_RunID = bd_RunID d, di_Revision = bd_WorkloadRevisionDigest d, di_EvaluatedAt = bd_EvaluatedAt d,
      di_Model = bd_ModelVersion d, di_Candidates = bd_Candidates d,
      di_SelectedID = bd_SelectedOfferSnapshotID d, di_Supersedes = bd_Supersedes d,
      di_SupersedesReason = bd_SupersedesReason d\<rparr>)"

definition bookingForDecision ::
    "hashes \<Rightarrow> scheduling_input \<Rightarrow> string \<Rightarrow> offer_snapshot \<Rightarrow> evaluate_error + booking" where
  "bookingForDecision hs inp decisionID offer =
     (let bookingID = ''bkg_'' @ short_hash (h_Booking hs decisionID (o_ID offer));
          kind = (if \<not> lane_Reusable (o_Lane offer) then OfferKindProvisionable else o_Kind offer);
          (expected, maximum) = runtimeBounds (in_Workload inp);
          reserve = (\<lambda>schedule. case schedule_Reserve schedule
            \<lparr>br_BookingID = bookingID, br_RunID = in_RunID inp, br_ExpectedRuntimeSeconds = expected,
             br_MaxRuntimeSeconds = maximum, br_ReservedAt = in_EvaluatedAt inp\<rparr> of
              Inl err \<Rightarrow> Inl (ReserveRefused err) | Inr (_, b) \<Rightarrow> Inr b) in
      case kind of
        OfferKindStanding \<Rightarrow>
          if o_RentalID offer = empty_string then Inl (StandingNeedsRental (o_ID offer))
          else reserve (case in_Schedules inp (o_RentalID offer) of
                 None \<Rightarrow> NewRentalSchedule (o_RentalID offer)
               | Some s \<Rightarrow> if rs_RentalID s = empty_string then NewRentalSchedule (o_RentalID offer) else s)
      | OfferKindProvisionable \<Rightarrow>
          reserve (NewRentalSchedule (''rnt_'' @ short_hash (h_Rental hs bookingID (o_ID offer))))
      | OfferKindOther k \<Rightarrow> Inl (UnknownOfferKind (o_ID offer) (o_Kind offer)))"

definition defaulted_input :: "scheduling_input \<Rightarrow> scheduling_input" where
  "defaulted_input inp =
     (if in_ModelVersion inp = empty_string then inp\<lparr>in_ModelVersion := ''latency-v1''\<rparr> else inp)"

abbreviation input_policy :: "scheduling_input \<Rightarrow> placement_policy" where
  "input_policy inp \<equiv> ws_Placement (wr_Spec (in_Workload inp))"

definition evaluated_offers ::
    "gpu_names \<Rightarrow> scheduling_input \<Rightarrow> (offer_snapshot \<times> candidate_decision) list" where
  "evaluated_offers gpu inp =
     map (\<lambda>offer. (offer, evaluateOffer gpu inp (class_Weights (pp_Class (input_policy inp))) offer))
       (sortedOffers (in_Offers inp))"

text \<open>The decision before it has an identity and a Booking.\<close>

definition decision_draft ::
    "scheduling_input \<Rightarrow> candidate_decision list \<Rightarrow> candidate_decision option \<Rightarrow> booking_decision" where
  "decision_draft inp candidates best =
     \<lparr>bd_ID = empty_string, bd_RunID = in_RunID inp,
      bd_WorkloadRevisionDigest = wr_Digest (in_Workload inp),
      bd_EvaluatedAt = in_EvaluatedAt inp, bd_ModelVersion = in_ModelVersion inp,
      bd_Policy = input_policy inp, bd_Weights = class_Weights (pp_Class (input_policy inp)),
      bd_CollectionReport = in_Collection inp, bd_Candidates = candidates,
      bd_SelectedOfferSnapshotID = (case best of None \<Rightarrow> empty_string | Some c \<Rightarrow> cd_OfferSnapshotID c),
      bd_Booking = None,
      bd_SelectionReasonCodes = (case best of
          None \<Rightarrow> [''NO_FEASIBLE_OFFERS'']
        | Some c \<Rightarrow> [''FEASIBLE'', class_SelectionReason (pp_Class (input_policy inp)), selectionReason (cd_Disposition c)]
            @ pricedRankingReason candidates c @ startSLOReason (pp_MaxP90StartSeconds (input_policy inp)) c),
      bd_Supersedes = in_Supersedes inp, bd_SupersedesReason = in_SupersedesReason inp\<rparr>"

definition Evaluate ::
    "gpu_names \<Rightarrow> hashes \<Rightarrow> scheduling_input \<Rightarrow> evaluate_error + booking_decision" where
  "Evaluate gpu hs input1 =
     (let inp = defaulted_input input1 in
      if time_is_zero (in_EvaluatedAt inp) then Inl EvaluatedAtRequired
      else if \<not> class_Known (pp_Class (input_policy inp)) then Inl (ClassNotPriced (pp_Class (input_policy inp)))
      else if ws_Containers (wr_Spec (in_Workload inp)) = [] \<and> in_Offers inp \<noteq> [] then Inl IndexOutOfRange
      else let evaluated = evaluated_offers gpu inp;
               best = best_from None evaluated;
               draft = decision_draft inp (map snd evaluated) (map_option snd best);
               decision = draft\<lparr>bd_ID := decision_Identity hs draft\<rparr> in
        case best of
          None \<Rightarrow> Inr decision
        | Some (offer, _) \<Rightarrow>
            (case bookingForDecision hs inp (bd_ID decision) offer of
               Inl err \<Rightarrow> Inl err
             | Inr b \<Rightarrow> Inr (decision\<lparr>bd_Booking := Some b\<rparr>)))"

subsection \<open>Preferring one candidate over another\<close>

lemma Preferred_irrefl: "\<not> candidate_Preferred c c"
  by (simp add: candidate_Preferred_def)

lemma Preferred_trans: "candidate_Preferred a b \<Longrightarrow> candidate_Preferred b c \<Longrightarrow> candidate_Preferred a c"
  by (auto simp: candidate_Preferred_def split: if_splits)

lemma Preferred_total: "cd_OfferSnapshotID a \<noteq> cd_OfferSnapshotID b \<Longrightarrow> candidate_Preferred a b \<or> candidate_Preferred b a"
  by (auto simp: candidate_Preferred_def)

interpretation ranking: preference "\<lambda>(offer, c) (offer', b). candidate_Preferred c b"
  by unfold_locales (auto simp: Preferred_irrefl intro: Preferred_trans)

lemma evaluated_snd: "p \<in> set (evaluated_offers gpu inp) \<Longrightarrow>
    snd p = evaluateOffer gpu inp (class_Weights (pp_Class (input_policy inp))) (fst p) \<and> fst p \<in> set (in_Offers inp)"
  by (auto simp: evaluated_offers_def sortedOffers_def)

lemma best_unbeaten:
  "case best_from None xs of
     None \<Rightarrow> \<forall>p \<in> set xs. \<not> cd_Feasible (snd p)
   | Some b \<Rightarrow> b \<in> set xs \<and> cd_Feasible (snd b)
       \<and> (\<forall>p \<in> set xs. cd_Feasible (snd p) \<longrightarrow> \<not> candidate_Preferred (snd p) (snd b))"
  using ranking.pick_best_correct[of "\<lambda>(offer, c). cd_Feasible c" xs]
  by (auto simp: best_from_def ranking.unbeaten_def case_prod_beta split: option.splits)

lemma evaluateOffer_fields [simp]:
  "cd_OfferSnapshotID (evaluateOffer gpu inp w offer) = o_ID offer"
  "cd_Rejections (evaluateOffer gpu inp w offer) = feasibilityViolations gpu inp offer (estimateCandidate inp offer)"
  "cd_Feasible (evaluateOffer gpu inp w offer) \<longleftrightarrow> feasibilityViolations gpu inp offer (estimateCandidate inp offer) = []"
  "cd_Estimates (evaluateOffer gpu inp w offer) = wk_estimates (estimateCandidate inp offer)"
  by (simp_all add: evaluateOffer_def Let_def)

text \<open>What a granted evaluation is made of.\<close>

lemma Evaluate_Inr:
  assumes "Evaluate gpu hs inp = Inr d"
  obtains (nothing) "best_from None (evaluated_offers gpu (defaulted_input inp)) = None" "bd_Booking d = None"
      "bd_Candidates d = map snd (evaluated_offers gpu (defaulted_input inp))"
      "bd_SelectedOfferSnapshotID d = empty_string" "bd_SelectionReasonCodes d = [''NO_FEASIBLE_OFFERS'']"
  | (selected) offer c b where "best_from None (evaluated_offers gpu (defaulted_input inp)) = Some (offer, c)"
      "bd_Booking d = Some b" "bd_Candidates d = map snd (evaluated_offers gpu (defaulted_input inp))"
      "bd_SelectedOfferSnapshotID d = cd_OfferSnapshotID c"
      "bookingForDecision hs (defaulted_input inp) (bd_ID d) offer = Inr b"
proof (cases "best_from None (evaluated_offers gpu (defaulted_input inp))")
  case None
  show ?thesis
    by (rule nothing) (use assms None in \<open>auto simp: Evaluate_def Let_def decision_draft_def split: if_splits\<close>)
next
  case (Some p)
  obtain offer c where p: "p = (offer, c)" by (cases p)
  show ?thesis
    by (rule selected[of offer c "the (bd_Booking d)"])
      (use assms Some p in \<open>auto simp: Evaluate_def Let_def decision_draft_def split: if_splits sum.splits\<close>)
qed

lemma feasible_parts:
  "feasibilityViolations gpu inp offer work = [] \<longleftrightarrow>
     standing_violations inp offer = [] \<and> resource_violations gpu inp offer work = []
   \<and> policy_violations inp offer work = [] \<and> estimate_violations inp work = []"
  by (simp add: feasibilityViolations_def)

lemma defaulted_fields [simp]:
  "in_Workload (defaulted_input inp) = in_Workload inp"
  "in_Offers (defaulted_input inp) = in_Offers inp"
  "in_EvaluatedAt (defaulted_input inp) = in_EvaluatedAt inp"
  "in_Schedules (defaulted_input inp) = in_Schedules inp"
  "in_Excluded (defaulted_input inp) = in_Excluded inp"
  "in_RunID (defaulted_input inp) = in_RunID inp"
  by (simp_all add: defaulted_input_def)

subsection \<open>What an estimate is made of\<close>

lemma estimateCandidate_disk: "wk_disk (estimateCandidate inp offer) = cc_disk (contentFor inp offer)"
  by (simp add: estimateCandidate_def Let_def case_prod_beta)

lemma estimateCandidate_occupancy:
  "wk_occupancy (estimateCandidate inp offer) =
     occupancy_of inp (es_StartSeconds (wk_estimates (estimateCandidate inp offer)))"
  by (simp add: estimateCandidate_def Let_def case_prod_beta)

lemma estimateCandidate_cost:
  "es_CostUSD (wk_estimates (estimateCandidate inp offer)) =
     fst (costEstimate inp offer (wk_occupancy (estimateCandidate inp offer)))"
  "es_CostTerms (wk_estimates (estimateCandidate inp offer)) =
     fst (snd (costEstimate inp offer (wk_occupancy (estimateCandidate inp offer))))"
  by (simp_all add: estimateCandidate_def Let_def case_prod_beta)

lemma estimateCandidate_committed:
  "es_Committed (wk_estimates (estimateCandidate inp offer)) =
     snd (snd (costEstimate inp offer (wk_occupancy (estimateCandidate inp offer))))"
  by (simp add: estimateCandidate_def Let_def case_prod_beta)

lemma default_runtime: "f64_of_int 3600 = 3600"
  by code_simp

lemma runtimeBounds_positive:
  "runtimeBounds w = (expected, maximum) \<Longrightarrow> 0 < expected \<and> 0 < maximum"
  by (auto simp: runtimeBounds_def Let_def DefaultMaxRuntimeSeconds_def default_runtime split: if_splits)

lemma Reserve_Inl: "schedule_Reserve s req = Inl err \<longleftrightarrow> validBookingRequest s req = Some err"
  by (cases "validBookingRequest s req") (auto simp: schedule_Reserve_def Let_def)

subsection \<open>Arrival order\<close>

lemma with_offers_fields:
  "contentFor (inp\<lparr>in_Offers := os\<rparr>) offer = contentFor inp offer"
  "queueEstimate (inp\<lparr>in_Offers := os\<rparr>) offer = queueEstimate inp offer"
  "provisionEstimate (inp\<lparr>in_Offers := os\<rparr>) offer = provisionEstimate inp offer"
  "applicationReadyEstimate (inp\<lparr>in_Offers := os\<rparr>) = applicationReadyEstimate inp"
  "startEstimate (inp\<lparr>in_Offers := os\<rparr>) = startEstimate inp"
  "occupancy_of (inp\<lparr>in_Offers := os\<rparr>) start = occupancy_of inp start"
  "costEstimate (inp\<lparr>in_Offers := os\<rparr>) offer held = costEstimate inp offer held"
  "stagePredictor (inp\<lparr>in_Offers := os\<rparr>) offer = stagePredictor inp offer"
  "queueable (inp\<lparr>in_Offers := os\<rparr>) offer = queueable inp offer"
  "candidateDisposition (inp\<lparr>in_Offers := os\<rparr>) offer = candidateDisposition inp offer"
  "scheduleEvidence (inp\<lparr>in_Offers := os\<rparr>) offer = scheduleEvidence inp offer"
  "bookingForDecision hs (inp\<lparr>in_Offers := os\<rparr>) did offer = bookingForDecision hs inp did offer"
  by (simp_all add: contentFor_def queueEstimate_def provisionEstimate_def applicationReadyEstimate_def
      startEstimate_def occupancy_of_def costEstimate_def stagePredictor_def queueable_def
      candidateDisposition_def scheduleEvidence_def bookingForDecision_def fun_eq_iff Let_def
      cong: option.case_cong offer_kind.case_cong if_cong)

lemma estimateCandidate_with_offers:
  "estimateCandidate (inp\<lparr>in_Offers := os\<rparr>) offer = estimateCandidate inp offer"
  by (simp add: estimateCandidate_def with_offers_fields)

definition one_holder :: "offer_snapshot list \<Rightarrow> bool" where
  "one_holder offers \<longleftrightarrow> (\<forall>a \<in> set offers. \<forall>b \<in> set offers.
     o_Kind a = OfferKindStanding \<and> o_Kind b = OfferKindStanding \<and> o_MachineID a = o_MachineID b
     \<and> o_RentalID a \<noteq> empty_string \<and> o_RentalID b \<noteq> empty_string \<longrightarrow> o_RentalID a = o_RentalID b)"

lemma find_SomeD: "find P xs = Some a \<Longrightarrow> a \<in> set xs \<and> P a"
  by (induction xs) (auto split: if_splits)

lemma find_map_perm:
  assumes "set xs = set ys" "\<And>a b. a \<in> set xs \<Longrightarrow> b \<in> set xs \<Longrightarrow> P a \<Longrightarrow> P b \<Longrightarrow> f a = f b"
  shows "map_option f (find P xs) = map_option f (find P ys)"
proof (cases "find P xs")
  case None
  then have "find P ys = None" using assms(1) by (simp add: find_None_iff)
  with None show ?thesis by simp
next
  case (Some a)
  note a = find_SomeD[OF Some]
  show ?thesis
  proof (cases "find P ys")
    case None
    with a assms(1) show ?thesis by (auto simp: find_None_iff)
  next
    case (Some b)
    from find_SomeD[OF Some] a assms \<open>find P xs = Some a\<close> Some show ?thesis by simp
  qed
qed

lemma HolderOfMachine_perm:
  assumes "one_holder os" "set os = set os'"
  shows "HolderOfMachine os' listing = HolderOfMachine os listing"
proof -
  have "map_option o_RentalID (find (\<lambda>offer. o_Kind offer = OfferKindStanding
        \<and> o_MachineID offer = o_MachineID listing \<and> o_RentalID offer \<noteq> empty_string) os') =
      map_option o_RentalID (find (\<lambda>offer. o_Kind offer = OfferKindStanding
        \<and> o_MachineID offer = o_MachineID listing \<and> o_RentalID offer \<noteq> empty_string) os)"
    using assms by (intro find_map_perm) (auto simp: one_holder_def)
  then show ?thesis by (simp add: HolderOfMachine_def)
qed

lemma evaluateOffer_with_offers:
  assumes "one_holder (in_Offers inp)" "set (in_Offers inp) = set os'"
  shows "evaluateOffer gpu (inp\<lparr>in_Offers := os'\<rparr>) w offer = evaluateOffer gpu inp w offer"
  unfolding evaluateOffer_def estimateCandidate_with_offers feasibilityViolations_def
    standing_violations_def resource_violations_def policy_violations_def estimate_violations_def
    with_offers_fields
  by (simp add: HolderOfMachine_perm[OF assms] Let_def cong: option.case_cong)

subsection \<open>Sample input\<close>

definition sample_gpu :: gpu_names where
  "sample_gpu = \<lparr>gn_NormalizeVendor = (\<lambda>v. v), gn_Canonical = (\<lambda>v m. v @ ''-'' @ m)\<rparr>"

definition sample_hashes :: hashes where
  "sample_hashes = \<lparr>h_Decision = (\<lambda>d. ''sha256:d'' @ di_SelectedID d),
     h_Booking = (\<lambda>d o1. ''sha256:b'' @ d @ o1), h_Rental = (\<lambda>b o1. ''sha256:r'' @ b @ o1)\<rparr>"

definition sample_platform :: platform where
  "sample_platform = \<lparr>pl_OS = ''linux'', pl_Architecture = ''amd64''\<rparr>"

definition sample_offer :: "string \<Rightarrow> float64 \<Rightarrow> offer_snapshot" where
  "sample_offer oid rate =
     \<lparr>o_ID = oid, o_RentalID = [], o_MachineID = [], o_ConnectionID = ''c'', o_AdapterType = ''fake'',
      o_Kind = OfferKindProvisionable, o_Lane = LaneReusable, o_NativeRef = oid, o_Region = ''r'',
      o_InstanceType = ''i'', o_ObservedAt = 1, o_ExpiresAt = 0, o_Platform = sample_platform,
      o_Resources = \<lparr>rv_CPUMillis = 4000, rv_MemoryBytes = 4000, rv_EphemeralDiskBytes = 9000,
        rv_EphemeralDiskKnown = True, rv_Accelerators = [], rv_AcceleratorsKnown = True\<rparr>,
      o_Host = \<lparr>hf_Attested = Map.empty, hf_Driver = \<lparr>dr_Vendor = [], dr_Version = [], dr_Capability = []\<rparr>\<rparr>,
      o_Capabilities = \<lparr>cp_MaxContainers = 1, cp_SupportsDigestRefs = True,
        cp_SupportsEntrypointOverride = True, cp_Inbound = InboundNetworkNone\<rparr>,
      o_Network = [],
      o_Pricing = \<lparr>pm_Currency = ''USD'', pm_SetupFeeUSD = 0, pm_RatePerSecondUSD = rate,
        pm_MinimumChargeSeconds = 0, pm_GranularitySeconds = 0, pm_Known = True\<rparr>,
      o_Terms = \<lparr>ct_CommittedUntil = 0, ct_EligibleClasses = [], ct_AvailableUntil = 0\<rparr>,
      o_QueuedWorkSeconds = None, o_Provisioning = None, o_BootstrapDeadlineSeconds = None,
      o_Images = \<lparr>ii_Known = True, ii_ObservedAt = 1, ii_ImageDigests = [''sha''], ii_PulledImageDigests = [],
        ii_UnknownImageDigests = [], ii_LayerDigests = [], ii_LayerDiffIDs = []\<rparr>,
      o_Artifacts = \<lparr>ai_Known = True, ai_ObservedAt = 1, ai_Replicas = []\<rparr>,
      o_Caches = \<lparr>ci_Known = True, ci_ObservedAt = 1, ci_Mounts = []\<rparr>,
      o_Available = True, o_CapacityConfidence = 1, o_Reclaimable = False,
      o_Reliability = \<lparr>rl_StartFailures = \<lparr>sr_Rate = 0, sr_Confidence = 0\<rparr>,
        rl_Interruptions = \<lparr>sr_Rate = 0, sr_Confidence = 0\<rparr>\<rparr>\<rparr>"

definition sample_workload :: workload_revision where
  "sample_workload = \<lparr>wr_ID = ''w'', wr_WorkloadID = ''w'', wr_Digest = ''wd'', wr_Spec =
     \<lparr>ws_Containers = [\<lparr>cs_Name = ''main'', cs_Image = ''img'', cs_Platform = sample_platform,
        cs_Entrypoint = None, cs_Args = [], cs_Env = [], cs_Ports = []\<rparr>],
      ws_Resources = \<lparr>rr_CPUMinMillis = 1000, rr_MemoryMinBytes = 1000, rr_Accelerators = [],
        rr_Host = \<lparr>hr_Facts = [], hr_MinDriverVersion = [], hr_MinDriverCapability = []\<rparr>,
        rr_EphemeralDiskMinBytes = 1000\<rparr>,
      ws_Network = \<lparr>nr_Inbound = InboundNetworkNone, nr_Download = None\<rparr>,
      ws_Placement = \<lparr>pp_Class = ClassOpportunistic, pp_Group = \<lparr>rg_ID = [], rg_MaxParallel = 0\<rparr>,
        pp_MaxP90StartSeconds = 0, pp_ExpectedRuntimeSeconds = 60, pp_ExpectedReadySeconds = 0,
        pp_MaxExpectedCostUSD = Some 1000, pp_AllowUnknownPricing = False\<rparr>,
      ws_Execution = \<lparr>ep_MaxRuntimeSeconds = 120, ep_MaxPreStartAttempts = 1\<rparr>,
      ws_Artifacts = \<lparr>art_Consumes = [], art_Produces = []\<rparr>, ws_Caches = [], ws_Raw = []\<rparr>\<rparr>"

definition sample_run_input :: "string \<Rightarrow> scheduling_input" where
  "sample_run_input run = \<lparr>in_RunID = run, in_Workload = sample_workload,
     in_Offers = [sample_offer ''dear'' 4, sample_offer ''cheap'' 2], in_Collection = ([], [], []),
     in_Schedules = Map.empty, in_Excluded = [], in_ModelVersion = [], in_EvaluatedAt = 1000,
     in_Image = \<lparr>im_Known = True, im_Unreadable = [], im_Digest = ''sha'', im_Layers = []\<rparr>,
     in_Artifacts = [], in_Supersedes = [], in_SupersedesReason = [], in_History = (\<lambda>_. [])\<rparr>"

abbreviation sample_input :: scheduling_input where
  "sample_input \<equiv> sample_run_input ''run''"

lemma sample_sorted: "sortedOffers (in_Offers (sample_run_input run)) = [sample_offer ''cheap'' 2, sample_offer ''dear'' 4]"
proof -
  have "[''c'', ''fake'', ''cheap'', ''cheap''] < [''c'', ''fake'', ''dear'', ''dear'']" by code_simp
  then show ?thesis
    by (simp add: sortedOffers_def sample_run_input_def offer_key_def sample_offer_def not_le)
qed

lemma sample_standing: "standing_violations (defaulted_input (sample_run_input run)) (sample_offer oid rate) = []"
  by (simp add: standing_violations_def sample_run_input_def sample_offer_def sample_workload_def defaulted_input_def
      ExcludedOffer_def lane_Valid_def time_is_zero_def HolderOfMachine_def Let_def)

lemma sample_disk:
  "wk_disk (estimateCandidate (defaulted_input (sample_run_input run)) (sample_offer oid rate)) =
     \<lparr>dd_FreeBytes = 9000, dd_FreeBytesKnown = True, dd_ReservedBytes = 1000, dd_LandBytes = 0,
      dd_EstablishedLandBytes = 0\<rparr>"
  by (simp add: estimateCandidate_disk contentFor_def sample_run_input_def sample_offer_def sample_workload_def
      defaulted_input_def StartWork_def images_Holds_def ArtifactFetchWork_def CacheLandBytes_def
      no_image_work_def sum_i64_def establishedFetchBytes_def enumerated_def i64_add_def wrap64_def Let_def)

lemma sample_resource:
  "resource_violations gpu (defaulted_input (sample_run_input run)) (sample_offer oid rate)
     (estimateCandidate (defaulted_input (sample_run_input run)) (sample_offer oid rate)) = []"
  unfolding resource_violations_def Let_def sample_disk
  by (simp add: sample_run_input_def sample_offer_def sample_workload_def defaulted_input_def disk_Fits_def
      RequiredBytes_def i64_add_def wrap64_def host_Violations_def driver_violations_def floor_violation_def
      requiresAccelerators_def acceleratorRequirementsSatisfied_def)

lemma sample_policy: "policy_violations (defaulted_input (sample_run_input run)) (sample_offer oid rate) work = []"
  by (simp add: policy_violations_def Let_def sample_run_input_def sample_offer_def sample_workload_def
      defaulted_input_def requiresPublicInbound_def terms_Admits_def OutlivesWindow_def time_is_zero_def)

lemma sample_runtime: "runtimeBounds sample_workload = (60, 120)"
  by code_simp

lemma sample_cost:
  "es_CostUSD (wk_estimates (estimateCandidate (defaulted_input (sample_run_input run)) (sample_offer oid rate))) =
     zero_estimate\<lparr>e_Expected := fmul rate 60, e_Source := ''price_model'', e_ModelVersion := ''latency-v1''\<rparr>"
proof -
  have "oc_RuntimeSeconds (wk_occupancy (estimateCandidate (defaulted_input (sample_run_input run)) (sample_offer oid rate))) = 60"
    by (simp add: estimateCandidate_occupancy occupancy_of_def sample_runtime sample_run_input_def defaulted_input_def)
  then show ?thesis
    unfolding estimateCandidate_cost
    by (simp add: costEstimate_def sample_offer_def committedInterval_def no_interval_def time_is_zero_def
        acquisitionFee_def minimumChargeSeconds_def BilledSeconds_def f64_of_int_def is_f64_numeral
        sample_run_input_def defaulted_input_def fsub_def[of 60 60] Let_def)
qed

lemma sample_estimates_ok:
  assumes "fmul rate 60 \<le> 1000"
  shows "estimate_violations (defaulted_input (sample_run_input run))
    (estimateCandidate (defaulted_input (sample_run_input run)) (sample_offer oid rate)) = []"
  using assms unfolding estimate_violations_def Let_def sample_cost
  by (simp add: exceedsStartSLO_def CostUnpriced_def sample_run_input_def defaulted_input_def sample_workload_def)

lemma sample_feasible:
  "fmul rate 60 \<le> 1000 \<Longrightarrow> cd_Feasible (evaluateOffer gpu (defaulted_input (sample_run_input run)) w (sample_offer oid rate))"
  by (simp add: feasible_parts sample_standing sample_resource sample_policy sample_estimates_ok)

lemma sample_score:
  assumes "fmul rate 60 \<le> 1000"
  shows "cd_ScoreUSD (evaluateOffer gpu (defaulted_input (sample_run_input run)) no_weights (sample_offer oid rate)) =
    round6 (fmul rate 60)"
  using sample_feasible[OF assms, where gpu = gpu and w = no_weights and oid = oid] sample_cost[of run oid rate]
  by (simp add: evaluateOffer_def ScoreUSD_def no_weights_def Let_def)

lemma sample_prices: "fmul 2 60 = 120" "fmul 4 60 = 240" "round6 120 = 120" "round6 240 = 240"
  by code_simp+

lemma sample_best:
  "best_from None (evaluated_offers sample_gpu (defaulted_input (sample_run_input run))) =
     Some (sample_offer ''cheap'' 2,
       evaluateOffer sample_gpu (defaulted_input (sample_run_input run)) no_weights (sample_offer ''cheap'' 2))"
proof -
  have w: "class_Weights (pp_Class (input_policy (sample_run_input run))) = no_weights"
    by (simp add: sample_run_input_def sample_workload_def class_Weights_def)
  have sc: "cd_ScoreUSD (evaluateOffer sample_gpu (defaulted_input (sample_run_input run)) no_weights (sample_offer ''cheap'' 2)) = 120"
    "cd_ScoreUSD (evaluateOffer sample_gpu (defaulted_input (sample_run_input run)) no_weights (sample_offer ''dear'' 4)) = 240"
    using sample_score[of 2] sample_score[of 4] by (simp_all add: sample_prices)
  have pr: "candidate_Priced (evaluateOffer sample_gpu (defaulted_input (sample_run_input run)) no_weights (sample_offer oid rate))" for oid rate
    by (simp add: candidate_Priced_def sample_cost CostUnpriced_def)
  have "\<not> candidate_Preferred (evaluateOffer sample_gpu (defaulted_input (sample_run_input run)) no_weights (sample_offer ''dear'' 4))
      (evaluateOffer sample_gpu (defaulted_input (sample_run_input run)) no_weights (sample_offer ''cheap'' 2))"
    unfolding candidate_Preferred_def by (simp only: sc pr) simp
  then show ?thesis
    using sample_feasible[of 2 sample_gpu run no_weights "''cheap''"] sample_feasible[of 4 sample_gpu run no_weights "''dear''"]
    by (simp add: evaluated_offers_def sample_sorted w best_from_def sample_prices del: evaluateOffer_fields)
qed

lemma sample_booked: "\<exists>b. bookingForDecision sample_hashes (defaulted_input sample_input) did (sample_offer oid rate) = Inr b"
  by (simp add: bookingForDecision_def sample_offer_def lane_Reusable_def sample_runtime schedule_Reserve_def
      validBookingRequest_def NewRentalSchedule_def RentalScheduleQueueCapacity_def schedule_Exhausted_def
      time_is_zero_def sample_run_input_def defaulted_input_def Let_def)

lemma sample_evaluates:
  "\<exists>d b. Evaluate sample_gpu sample_hashes sample_input = Inr d \<and> bd_Booking d = Some b
     \<and> bd_SelectedOfferSnapshotID d = ''cheap''"
proof -
  have ok: "\<not> time_is_zero (in_EvaluatedAt sample_input)" "class_Known (pp_Class (input_policy sample_input))"
    "ws_Containers (wr_Spec (in_Workload sample_input)) \<noteq> []"
    by (simp_all add: sample_run_input_def time_is_zero_def sample_workload_def class_Known_def KnownServiceClasses_def)
  let ?inp = "defaulted_input sample_input"
  define c where "c = evaluateOffer sample_gpu ?inp no_weights (sample_offer ''cheap'' 2)"
  define draft where "draft = decision_draft ?inp (map snd (evaluated_offers sample_gpu ?inp)) (Some c)"
  obtain b where b: "bookingForDecision sample_hashes ?inp (decision_Identity sample_hashes draft) (sample_offer ''cheap'' 2) = Inr b"
    using sample_booked by blast
  have "Evaluate sample_gpu sample_hashes sample_input =
      Inr (draft\<lparr>bd_ID := decision_Identity sample_hashes draft, bd_Booking := Some b\<rparr>)"
    using ok b sample_best by (simp add: Evaluate_def Let_def draft_def c_def)
  moreover have "bd_SelectedOfferSnapshotID draft = ''cheap''"
    by (simp add: draft_def decision_draft_def c_def sample_offer_def)
  ultimately show ?thesis by simp
qed

subsection \<open>Properties\<close>

text \<open>C18: A decision answers every offer it was given and selects the best feasible one: no other feasible
  candidate is preferred to it, every feasible candidate of another offer is strictly worse, an
  unpriced offer is selected only when no priced one is feasible, and nothing is selected only when
  nothing is feasible.\<close>

theorem evaluate_selects_the_best:
  assumes "Evaluate gpu hs inp = Inr d"
  shows "mset (map cd_OfferSnapshotID (bd_Candidates d)) = mset (map o_ID (in_Offers inp))
    \<and> (bd_Booking d = None \<longrightarrow> (\<forall>c \<in> set (bd_Candidates d). \<not> cd_Feasible c)
         \<and> bd_SelectionReasonCodes d = [''NO_FEASIBLE_OFFERS''])
    \<and> (bd_Booking d \<noteq> None \<longrightarrow> (\<exists>best \<in> set (bd_Candidates d).
         cd_Feasible best \<and> cd_OfferSnapshotID best = bd_SelectedOfferSnapshotID d
       \<and> (\<forall>c \<in> set (bd_Candidates d). cd_Feasible c \<longrightarrow> \<not> candidate_Preferred c best
            \<and> (cd_OfferSnapshotID c \<noteq> cd_OfferSnapshotID best \<longrightarrow> candidate_Preferred best c)
            \<and> (candidate_Priced c \<longrightarrow> candidate_Priced best))))"
proof -
  let ?evs = "evaluated_offers gpu (defaulted_input inp)"
  note best = best_unbeaten[of ?evs]
  have cands: "bd_Candidates d = map snd ?evs" using assms by (rule Evaluate_Inr) simp_all
  have ids: "mset (map cd_OfferSnapshotID (map snd ?evs)) = mset (map o_ID (in_Offers inp))"
    by (simp add: evaluated_offers_def sortedOffers_def comp_def)
  show ?thesis
    using assms
  proof (rule Evaluate_Inr)
    assume "best_from None ?evs = None" "bd_Booking d = None" "bd_SelectionReasonCodes d = [''NO_FEASIBLE_OFFERS'']"
    with best show ?thesis unfolding cands ids by auto
  next
    fix offer c b
    assume sel: "best_from None ?evs = Some (offer, c)" "bd_Booking d = Some b"
      "bd_SelectedOfferSnapshotID d = cd_OfferSnapshotID c"
    have "\<not> candidate_Preferred x c \<and> (cd_OfferSnapshotID x \<noteq> cd_OfferSnapshotID c \<longrightarrow> candidate_Preferred c x)
        \<and> (candidate_Priced x \<longrightarrow> candidate_Priced c)"
      if "x \<in> set (map snd ?evs)" "cd_Feasible x" for x
    proof -
      have nb: "\<not> candidate_Preferred x c" using best sel(1) that by auto
      with Preferred_total[of x c] show ?thesis by (auto simp: candidate_Preferred_def split: if_splits)
    qed
    moreover have "c \<in> set (map snd ?evs)" "cd_Feasible c" using best sel(1) by force+
    ultimately show ?thesis using sel(2,3) unfolding cands ids by auto
  qed
qed

theorem evaluate_selects_the_best_witness:
  "\<exists>d best. Evaluate sample_gpu sample_hashes sample_input = Inr d \<and> best \<in> set (bd_Candidates d)
     \<and> cd_OfferSnapshotID best = ''cheap'' \<and> cd_Feasible best"
proof -
  obtain d b where d: "Evaluate sample_gpu sample_hashes sample_input = Inr d" "bd_Booking d = Some b"
    "bd_SelectedOfferSnapshotID d = ''cheap''" using sample_evaluates by blast
  from evaluate_selects_the_best[OF d(1)] d show ?thesis by auto
qed

text \<open>C19: A selected offer is fit for the Run. It is one of the offers given, no earlier attempt struck it,
  it has not expired, its platform is the container's, it is available or can be queued on, no lease
  of the fleet holds its machine already, it has the CPU, the memory, the accelerators and the known
  disk the Run asks for, its capacity admits the Run's class, it is taken back by its provider only
  if the class permits interruption, its price is known unless the policy allows otherwise, and where
  the policy caps the expected cost, it is priced and within the cap.\<close>

theorem selected_offer_is_fit:
  assumes "Evaluate gpu hs inp = Inr d" "bd_Booking d = Some b"
  shows "\<exists>offer \<in> set (in_Offers inp). o_ID offer = bd_SelectedOfferSnapshotID d
    \<and> ExcludedOffer (in_Excluded inp) (o_ID offer) = None \<and> lane_Valid (o_Lane offer)
    \<and> (o_ExpiresAt offer = 0 \<or> in_EvaluatedAt inp < o_ExpiresAt offer)
    \<and> o_Platform offer = cs_Platform (hd (ws_Containers (wr_Spec (in_Workload inp))))
    \<and> (o_Available offer \<or> queueable (defaulted_input inp) offer)
    \<and> HolderOfMachine (in_Offers inp) offer = None
    \<and> rr_CPUMinMillis (ws_Resources (wr_Spec (in_Workload inp))) \<le> rv_CPUMillis (o_Resources offer)
    \<and> rr_MemoryMinBytes (ws_Resources (wr_Spec (in_Workload inp))) \<le> rv_MemoryBytes (o_Resources offer)
    \<and> acceleratorRequirementsSatisfied gpu (rr_Accelerators (ws_Resources (wr_Spec (in_Workload inp)))) offer
    \<and> rv_EphemeralDiskKnown (o_Resources offer) \<and> disk_Fits (cc_disk (contentFor (defaulted_input inp) offer))
    \<and> terms_Admits (o_Terms offer) (pp_Class (input_policy inp))
    \<and> (o_Reclaimable offer \<longrightarrow> ad_PermitsInterruption (class_Admission (pp_Class (input_policy inp))))
    \<and> (pm_Known (o_Pricing offer) \<or> pp_AllowUnknownPricing (input_policy inp))
    \<and> (\<forall>cap. pp_MaxExpectedCostUSD (input_policy inp) = Some cap \<longrightarrow>
         pm_Known (o_Pricing offer)
       \<and> e_Expected (es_CostUSD (wk_estimates (estimateCandidate (defaulted_input inp) offer))) \<le> cap)"
  using assms(1)
proof (rule Evaluate_Inr)
  assume "bd_Booking d = None"
  with assms(2) show ?thesis by simp
next
  fix offer c b'
  assume best: "best_from None (evaluated_offers gpu (defaulted_input inp)) = Some (offer, c)"
    and sel: "bd_SelectedOfferSnapshotID d = cd_OfferSnapshotID c"
  have mem: "(offer, c) \<in> set (evaluated_offers gpu (defaulted_input inp))" "cd_Feasible c"
    using best_unbeaten[of "evaluated_offers gpu (defaulted_input inp)"] best by auto
  from evaluated_snd[OF mem(1)] have c: "c = evaluateOffer gpu (defaulted_input inp)
      (class_Weights (pp_Class (input_policy inp))) offer" and in_offers: "offer \<in> set (in_Offers inp)" by simp_all
  let ?work = "estimateCandidate (defaulted_input inp) offer"
  have feas: "standing_violations (defaulted_input inp) offer = []"
    "resource_violations gpu (defaulted_input inp) offer ?work = []"
    "policy_violations (defaulted_input inp) offer ?work = []"
    "estimate_violations (defaulted_input inp) ?work = []"
    using mem(2) by (simp_all add: c feasible_parts)
  have unpriced: "e_Source (es_CostUSD (wk_estimates ?work)) = CostUnpriced \<longleftrightarrow> \<not> pm_Known (o_Pricing offer)"
    by (simp add: estimateCandidate_cost costEstimate_def Let_def CostUnpriced_def)
  have 1: "ExcludedOffer (in_Excluded inp) (o_ID offer) = None \<and> lane_Valid (o_Lane offer)
    \<and> (o_ExpiresAt offer = 0 \<or> in_EvaluatedAt inp < o_ExpiresAt offer)
    \<and> o_Platform offer = cs_Platform (hd (ws_Containers (wr_Spec (in_Workload inp))))
    \<and> (o_Available offer \<or> queueable (defaulted_input inp) offer) \<and> HolderOfMachine (in_Offers inp) offer = None"
    using feas(1) by (auto simp: standing_violations_def Let_def time_is_zero_def split: option.splits)
  have 2: "rr_CPUMinMillis (ws_Resources (wr_Spec (in_Workload inp))) \<le> rv_CPUMillis (o_Resources offer)
    \<and> rr_MemoryMinBytes (ws_Resources (wr_Spec (in_Workload inp))) \<le> rv_MemoryBytes (o_Resources offer)
    \<and> acceleratorRequirementsSatisfied gpu (rr_Accelerators (ws_Resources (wr_Spec (in_Workload inp)))) offer
    \<and> dd_FreeBytesKnown (wk_disk ?work) \<and> disk_Fits (wk_disk ?work)"
    using feas(2) by (auto simp: resource_violations_def Let_def split: if_splits)
  have 3: "terms_Admits (o_Terms offer) (pp_Class (input_policy inp))
    \<and> (o_Reclaimable offer \<longrightarrow> ad_PermitsInterruption (class_Admission (pp_Class (input_policy inp))))
    \<and> (pm_Known (o_Pricing offer) \<or> pp_AllowUnknownPricing (input_policy inp))"
    using feas(3) by (auto simp: policy_violations_def Let_def)
  have 4: "\<forall>cap. pp_MaxExpectedCostUSD (input_policy inp) = Some cap \<longrightarrow> pm_Known (o_Pricing offer)
       \<and> e_Expected (es_CostUSD (wk_estimates ?work)) \<le> cap"
    using feas(4) by (auto simp: estimate_violations_def Let_def unpriced not_less)
  have disk: "dd_FreeBytesKnown (wk_disk ?work) = rv_EphemeralDiskKnown (o_Resources offer)"
    by (simp add: estimateCandidate_disk contentFor_def Let_def case_prod_beta)
  show ?thesis
    using in_offers 1 2 3 4 sel c disk unfolding estimateCandidate_disk by (intro bexI[of _ offer]) simp_all
qed

theorem selected_offer_is_fit_witness:
  "\<exists>d b. Evaluate sample_gpu sample_hashes sample_input = Inr d \<and> bd_Booking d = Some b
     \<and> (\<exists>offer \<in> set (in_Offers sample_input). o_ID offer = bd_SelectedOfferSnapshotID d \<and> lane_Valid (o_Lane offer))"
proof -
  obtain d b where d: "Evaluate sample_gpu sample_hashes sample_input = Inr d" "bd_Booking d = Some b"
    using sample_evaluates by blast
  from selected_offer_is_fit[OF d] d show ?thesis by auto
qed

text \<open>C20: The decision does not depend on the order offers arrived in: any permutation of offers that are
  told apart by connection, adapter, native reference and identity gives the same decision, the same
  candidates in the same order and the same Booking, as long as no machine is published as standing
  under two Rentals.\<close>

theorem decision_ignores_arrival_order:
  assumes "mset os' = mset (in_Offers inp)" "inj_on offer_key (set (in_Offers inp))" "one_holder (in_Offers inp)"
  shows "Evaluate gpu hs (inp\<lparr>in_Offers := os'\<rparr>) = Evaluate gpu hs inp"
proof -
  let ?inp = "defaulted_input inp"
  have d: "defaulted_input (inp\<lparr>in_Offers := os'\<rparr>) = ?inp\<lparr>in_Offers := os'\<rparr>" by (simp add: defaulted_input_def)
  have S: "set (in_Offers ?inp) = set os'" using assms(1) by (metis defaulted_fields(2) set_mset_mset)
  have sorted1: "sortedOffers os' = sortedOffers (in_Offers inp)"
    using sort_key_perm[OF assms(1)[symmetric] assms(2)] by (simp add: sortedOffers_def)
  have evs: "evaluated_offers gpu (?inp\<lparr>in_Offers := os'\<rparr>) = evaluated_offers gpu ?inp"
    using assms(3) S by (simp add: evaluated_offers_def sorted1 evaluateOffer_with_offers)
  have draft: "decision_draft (?inp\<lparr>in_Offers := os'\<rparr>) = decision_draft ?inp"
    by (simp add: decision_draft_def fun_eq_iff cong: option.case_cong)
  have "os' = [] \<longleftrightarrow> in_Offers inp = []" using assms(1) by auto
  then show ?thesis
    unfolding Evaluate_def d Let_def evs draft with_offers_fields by simp
qed

theorem decision_ignores_arrival_order_witness:
  "Evaluate sample_gpu sample_hashes (sample_input\<lparr>in_Offers := [sample_offer ''cheap'' 2, sample_offer ''dear'' 4]\<rparr>) =
     Evaluate sample_gpu sample_hashes sample_input"
  by (rule decision_ignores_arrival_order)
    (simp_all add: sample_run_input_def one_holder_def sample_offer_def offer_key_def)

text \<open>The expected cost of a priced offer is exactly the sum of the four terms it is explained by, in
  the rounded arithmetic the total is computed with. The committed part never exceeds the expected
  runtime, and neither the fee, the committed rent nor the keep-alive is ever negative.\<close>

theorem cost_is_the_sum_of_its_terms:
  assumes "pm_Known (o_Pricing offer)" "0 \<le> pm_RatePerSecondUSD (o_Pricing offer)" "0 \<le> pm_SetupFeeUSD (o_Pricing offer)"
  shows "let es = wk_estimates (estimateCandidate inp offer);
             (expected, maximum) = runtimeBounds (in_Workload inp) in
      e_Expected (es_CostUSD es) = CostTermTotalUSD es
    \<and> map te_Name (es_CostTerms es) = [''setup_fee'', ''committed_rent'', ''keep_alive'', ''idle_tail'']
    \<and> (\<forall>t \<in> set (take 3 (es_CostTerms es)). 0 \<le> te_USD t)
    \<and> 0 \<le> cv_Seconds (es_Committed es) \<and> cv_Seconds (es_Committed es) \<le> expected \<and> 0 < expected"
proof -
  obtain expected maximum where rb: "runtimeBounds (in_Workload inp) = (expected, maximum)" by (cases "runtimeBounds (in_Workload inp)")
  have pos: "0 < expected" using runtimeBounds_positive[OF rb] by simp
  let ?held = "wk_occupancy (estimateCandidate inp offer)"
  have run: "oc_RuntimeSeconds ?held = expected" by (simp add: estimateCandidate_occupancy occupancy_of_def rb)
  have com: "es_Committed (wk_estimates (estimateCandidate inp offer)) = committedInterval (o_Terms offer) ?held"
    using assms(1) by (simp add: estimateCandidate_committed costEstimate_def Let_def)
  have c: "0 \<le> cv_Seconds (committedInterval (o_Terms offer) ?held)"
    "cv_Seconds (committedInterval (o_Terms offer) ?held) \<le> expected"
    using pos run by (auto simp: committedInterval_def no_interval_def CommittedSeconds_def)
  have keep: "0 \<le> fsub expected (cv_Seconds (committedInterval (o_Terms offer) ?held))"
    using c(2) by (rule fsub_nonneg)
  show ?thesis
    using assms c keep pos
    by (simp add: rb com CostTermTotalUSD_def estimateCandidate_cost costEstimate_def run acquisitionFee_def
        fmul_nonneg Let_def)
qed

theorem cost_is_the_sum_of_its_terms_witness:
  "e_Expected (es_CostUSD (wk_estimates (estimateCandidate sample_input (sample_offer ''cheap'' 2)))) =
     CostTermTotalUSD (wk_estimates (estimateCandidate sample_input (sample_offer ''cheap'' 2)))"
  using cost_is_the_sum_of_its_terms[of "sample_offer ''cheap'' 2" sample_input]
  by (simp add: sample_offer_def Let_def case_prod_beta)

text \<open>Feasibility anticipates the reservation: an evaluation fails on the selected offer's Rental
  Schedule only when the Run has no identity, when the policy expects a longer runtime than the
  execution policy enforces, or when the Run is already booked there. A full queue, an exhausted
  Booking or a missing runtime never gets that far.\<close>

theorem reservation_refused_only_when:
  assumes "Evaluate gpu hs inp = Inl (ReserveRefused err)"
  shows "(err = ScheduleNeedsIdentity \<and> in_RunID inp = empty_string)
    \<or> (err = ExpectedExceedsMaximum \<and> snd (runtimeBounds (in_Workload inp)) < fst (runtimeBounds (in_Workload inp)))
    \<or> (err = AlreadyContains \<and> (\<exists>offer \<in> set (in_Offers inp). \<exists>s. in_Schedules inp (o_RentalID offer) = Some s
         \<and> rs_Bookings s \<noteq> []))"
proof -
  let ?inp = "defaulted_input inp"
  from assms obtain offer c did where best: "best_from None (evaluated_offers gpu ?inp) = Some (offer, c)"
    and bk: "bookingForDecision hs ?inp did offer = Inl (ReserveRefused err)" and now: "in_EvaluatedAt inp \<noteq> 0"
    by (auto simp: Evaluate_def Let_def time_is_zero_def split: if_splits option.splits sum.splits)
  have mem: "(offer, c) \<in> set (evaluated_offers gpu ?inp)" "cd_Feasible c"
    using best_unbeaten[of "evaluated_offers gpu ?inp"] best by auto
  have feas: "standing_violations ?inp offer = []" and in_offers: "offer \<in> set (in_Offers inp)"
    using evaluated_snd[OF mem(1)] mem(2) by (auto simp: feasible_parts)
  obtain expected maximum where rb: "runtimeBounds (in_Workload inp) = (expected, maximum)" by (cases "runtimeBounds (in_Workload inp)")
  note pos = runtimeBounds_positive[OF rb]
  define req where "req = \<lparr>br_BookingID = ''bkg_'' @ short_hash (h_Booking hs did (o_ID offer)), br_RunID = in_RunID inp,
     br_ExpectedRuntimeSeconds = expected, br_MaxRuntimeSeconds = maximum, br_ReservedAt = in_EvaluatedAt inp\<rparr>"
  consider (fresh) rid where "schedule_Reserve (NewRentalSchedule rid) req = Inl err" "rid \<noteq> empty_string"
    | (queued) s where "in_Schedules inp (o_RentalID offer) = Some s" "schedule_Reserve s req = Inl err"
        "KeepsWhatItRuns offer" "rs_RentalID s \<noteq> empty_string"
    using bk
    by (auto simp: bookingForDecision_def Let_def rb req_def KeepsWhatItRuns_def
        split: if_splits option.splits sum.splits offer_kind.splits)
  then show ?thesis
  proof cases
    case fresh
    then show ?thesis using pos now
      by (auto simp: Reserve_Inl validBookingRequest_def NewRentalSchedule_def req_def rb time_is_zero_def
          RentalScheduleQueueCapacity_def schedule_Exhausted_def split: if_splits)
  next
    case queued
    have "\<not> RentalScheduleQueueCapacity + 1 \<le> length (rs_Bookings s)" "\<not> schedule_Exhausted s (in_EvaluatedAt inp)"
      using feas queued by (auto simp: standing_violations_def Let_def)
    then have "(err = ScheduleNeedsIdentity \<and> in_RunID inp = empty_string)
      \<or> (err = ExpectedExceedsMaximum \<and> maximum < expected) \<or> (err = AlreadyContains \<and> rs_Bookings s \<noteq> [])"
      using pos now queued
      by (auto simp: Reserve_Inl validBookingRequest_def req_def time_is_zero_def split: if_splits)
    then show ?thesis using queued(1) in_offers unfolding rb fst_conv snd_conv by blast
  qed
qed

lemma sample_unnamed_run:
  "Evaluate sample_gpu sample_hashes (sample_run_input []) = Inl (ReserveRefused ScheduleNeedsIdentity)"
proof -
  have ok: "\<not> time_is_zero (in_EvaluatedAt (sample_run_input []))"
    "class_Known (pp_Class (input_policy (sample_run_input [])))"
    "ws_Containers (wr_Spec (in_Workload (sample_run_input []))) \<noteq> []"
    by (simp_all add: sample_run_input_def time_is_zero_def sample_workload_def class_Known_def KnownServiceClasses_def)
  have "bookingForDecision sample_hashes (defaulted_input (sample_run_input [])) did (sample_offer oid rate) =
      Inl (ReserveRefused ScheduleNeedsIdentity)" for did oid rate
    by (simp add: bookingForDecision_def sample_offer_def lane_Reusable_def sample_runtime schedule_Reserve_def
        validBookingRequest_def sample_run_input_def defaulted_input_def Let_def)
  with ok sample_best show ?thesis by (simp add: Evaluate_def Let_def)
qed

theorem reservation_refused_only_when_witness:
  "Evaluate sample_gpu sample_hashes (sample_run_input []) = Inl (ReserveRefused ScheduleNeedsIdentity)
   \<and> in_RunID (sample_run_input []) = empty_string"
  using sample_unnamed_run reservation_refused_only_when[OF sample_unnamed_run] by simp

text \<open>The window check trusts a conversion that leaves the int64 range: for a Run allowed to run ten
  billion seconds on capacity that closes a moment later, the latest end is computed in the past and
  the capacity is judged to outlast the Run.\<close>

theorem window_check_overflows:
  "\<not> OutlivesWindow \<lparr>ct_CommittedUntil = 0, ct_EligibleClasses = [], ct_AvailableUntil = 2000\<rparr>
     \<lparr>oc_At = 1000, oc_StartSeconds = 0, oc_RuntimeSeconds = 60, oc_MaxRuntimeSeconds = 10000000000\<rparr>
   \<and> occupancy_LatestEnd \<lparr>oc_At = 1000, oc_StartSeconds = 0, oc_RuntimeSeconds = 60,
       oc_MaxRuntimeSeconds = 10000000000\<rparr> < 1000"
  by code_simp

end
