(* ===== verification/EventLog.thy ===== *)
theory EventLog
  imports GoNum
begin

text \<open>
  The event log (\<^verbatim>\<open>internal/eventlog\<close>): append requests with optimistic concurrency on
  the stream version and idempotency on the command key, the reads over it, and the paged scans the
  rest of the program replays histories with.

  The SQLite tables are the state: \<open>el_Events\<close> is the events table in rowid order,
  \<open>el_Sequence\<close> the AUTOINCREMENT counter, \<open>el_Commands\<close> and \<open>el_Offsets\<close> the
  other two tables by primary key. A transaction is a function from tables to tables; one that
  returns an error has no tables to return, which is the rollback. Failures of the database itself
  (disk, cancelled context) return before the commit and are not modelled. Payloads are a type
  parameter: the log stores and returns them without reading them. Versions and positions are
  naturals, as SQLite's 63-bit integers are not exhausted one event at a time.
\<close>

subsection \<open>Data\<close>

record stream_key =
  sk_Type :: string
  sk_ID :: string

record 'd new_event =
  ne_ID :: string
  ne_Type :: string
  ne_SchemaVersion :: int
  ne_OccurredAt :: time
  ne_Visibility :: string
  ne_Data :: 'd
  ne_PrivateData :: string

record 'd append_request =
  ar_Stream :: stream_key
  ar_ExpectedStreamVersion :: nat
  ar_CommandKey :: string
  ar_RequestHash :: string
  ar_Actor :: string
  ar_CorrelationID :: string
  ar_CausationID :: string
  ar_Events :: "'d new_event list"

record 'd stored_event =
  ev_GlobalPosition :: nat
  ev_ID :: string
  ev_StreamType :: string
  ev_StreamID :: string
  ev_StreamVersion :: nat
  ev_Type :: string
  ev_SchemaVersion :: int
  ev_OccurredAt :: time
  ev_Actor :: string
  ev_CorrelationID :: string
  ev_CausationID :: string
  ev_CommandKey :: string
  ev_RequestHash :: string
  ev_Visibility :: string
  ev_Data :: 'd
  ev_PrivateData :: string

record 'd append_result =
  res_FirstPosition :: nat
  res_LastPosition :: nat
  res_NextStreamVersion :: nat
  res_Duplicate :: bool
  res_Events :: "'d stored_event list"

record event_filter =
  ef_StreamTypes :: "string list"
  ef_EventTypes :: "string list"
  ef_Visibility :: string

record command_append =
  ca_RequestHash :: string
  ca_First :: nat
  ca_Last :: nat

record 'd event_log =
  el_Events :: "'d stored_event list"
  el_Sequence :: nat
  el_Commands :: "string \<rightharpoonup> command_append"
  el_Offsets :: "string \<rightharpoonup> nat"

datatype log_error =
    StreamKeyRequired
  | CommandKeyRequired
  | EventsRequired
  | EventFieldsRequired
  | MutationRequired
  | MutationFailed string
  | ErrConcurrencyConflict
  | ErrIdempotencyConflict
  | SubscriptionIDRequired

definition VisibilityPublic :: string where
  "VisibilityPublic = ''public''"

definition empty_log :: "'d event_log" where
  "empty_log = \<lparr>el_Events = [], el_Sequence = 0, el_Commands = Map.empty, el_Offsets = Map.empty\<rparr>"

definition stored_stream :: "'d stored_event \<Rightarrow> stream_key" where
  "stored_stream e = \<lparr>sk_Type = ev_StreamType e, sk_ID = ev_StreamID e\<rparr>"

subsection \<open>Appending\<close>

definition stream_validate :: "stream_key \<Rightarrow> log_error option" where
  "stream_validate s =
     (if sk_Type s = empty_string \<or> sk_ID s = empty_string then Some StreamKeyRequired else None)"

definition appendResult :: "'d stored_event list \<Rightarrow> bool \<Rightarrow> 'd append_result" where
  "appendResult events duplicate =
     (if events = [] then \<lparr>res_FirstPosition = 0, res_LastPosition = 0, res_NextStreamVersion = 0,
                           res_Duplicate = duplicate, res_Events = []\<rparr>
      else \<lparr>res_FirstPosition = ev_GlobalPosition (hd events),
            res_LastPosition = ev_GlobalPosition (last events),
            res_NextStreamVersion = ev_StreamVersion (last events),
            res_Duplicate = duplicate, res_Events = events\<rparr>)"

definition readCommand :: "'d event_log \<Rightarrow> string \<Rightarrow> 'd stored_event list" where
  "readCommand lg commandKey =
     (case el_Commands lg commandKey of
        None \<Rightarrow> []
      | Some c \<Rightarrow> sort_key ev_GlobalPosition
          (filter (\<lambda>e. ev_CommandKey e = commandKey \<and> ca_First c \<le> ev_GlobalPosition e
                      \<and> ev_GlobalPosition e \<le> ca_Last c) (el_Events lg)))"

definition currentStreamVersion :: "'d event_log \<Rightarrow> stream_key \<Rightarrow> nat" where
  "currentStreamVersion lg s =
     foldr max (map ev_StreamVersion (filter (\<lambda>e. stored_stream e = s) (el_Events lg))) 0"

text \<open>The row one new event becomes, and the table's own UNIQUE constraints.\<close>

definition stored_of :: "time \<Rightarrow> 'd append_request \<Rightarrow> nat \<Rightarrow> nat \<Rightarrow> 'd new_event \<Rightarrow> 'd stored_event" where
  "stored_of now req pos i e =
     \<lparr>ev_GlobalPosition = pos, ev_ID = ne_ID e,
      ev_StreamType = sk_Type (ar_Stream req), ev_StreamID = sk_ID (ar_Stream req),
      ev_StreamVersion = ar_ExpectedStreamVersion req + i + 1,
      ev_Type = ne_Type e, ev_SchemaVersion = ne_SchemaVersion e,
      ev_OccurredAt = (if time_is_zero (ne_OccurredAt e) then now else ne_OccurredAt e),
      ev_Actor = ar_Actor req, ev_CorrelationID = ar_CorrelationID req,
      ev_CausationID = ar_CausationID req, ev_CommandKey = ar_CommandKey req,
      ev_RequestHash = ar_RequestHash req,
      ev_Visibility = (if ne_Visibility e = empty_string then VisibilityPublic else ne_Visibility e),
      ev_Data = ne_Data e, ev_PrivateData = ne_PrivateData e\<rparr>"

definition violates_unique :: "'d event_log \<Rightarrow> 'd stored_event \<Rightarrow> bool" where
  "violates_unique lg e \<longleftrightarrow>
     (\<exists>f \<in> set (el_Events lg). ev_ID f = ev_ID e
        \<or> stored_stream f = stored_stream e \<and> ev_StreamVersion f = ev_StreamVersion e)"

fun insert_events ::
    "time \<Rightarrow> 'd append_request \<Rightarrow> nat \<Rightarrow> 'd new_event list \<Rightarrow> 'd event_log \<Rightarrow>
     log_error + ('d event_log \<times> 'd stored_event list)" where
  "insert_events now req i [] lg = Inr (lg, [])"
| "insert_events now req i (e # es) lg =
     (let row = stored_of now req (el_Sequence lg + 1) i e in
      if violates_unique lg row then Inl ErrIdempotencyConflict
      else (case insert_events now req (i + 1) es
                   (lg\<lparr>el_Events := el_Events lg @ [row], el_Sequence := el_Sequence lg + 1\<rparr>) of
              Inl err \<Rightarrow> Inl err
            | Inr (lg', stored) \<Rightarrow> Inr (lg', row # stored)))"

definition append_request_error :: "'d append_request \<Rightarrow> log_error option" where
  "append_request_error req =
     (case stream_validate (ar_Stream req) of
        Some err \<Rightarrow> Some err
      | None \<Rightarrow>
          if ar_CommandKey req = empty_string \<or> ar_RequestHash req = empty_string then Some CommandKeyRequired
          else if ar_Events req = [] then Some EventsRequired
          else if \<exists>e \<in> set (ar_Events req). ne_ID e = empty_string \<or> ne_Type e = empty_string \<or> ne_SchemaVersion e = 0
            then Some EventFieldsRequired
          else None)"

text \<open>
  \<open>mutation\<close> is what \<^verbatim>\<open>AppendAtomic\<close> runs on the other tables inside the same
  transaction; plain \<^verbatim>\<open>Append\<close> passes none.
\<close>

definition log_append ::
    "time \<Rightarrow> ('s \<Rightarrow> log_error + 's) option \<Rightarrow> 'd append_request \<Rightarrow> 'd event_log \<times> 's \<Rightarrow>
     log_error + (('d event_log \<times> 's) \<times> 'd append_result)" where
  "log_append now mutation req = (\<lambda>(lg, tables).
     checked (append_request_error req)
      (let existing = readCommand lg (ar_CommandKey req) in
       if existing \<noteq> [] then
         (if ev_RequestHash (hd existing) \<noteq> ar_RequestHash req then Inl ErrIdempotencyConflict
          else Inr ((lg, tables), appendResult existing True))
       else if currentStreamVersion lg (ar_Stream req) \<noteq> ar_ExpectedStreamVersion req
         then Inl ErrConcurrencyConflict
       else case insert_events now req 0 (ar_Events req) lg of
           Inl err \<Rightarrow> Inl err
         | Inr (lg', stored) \<Rightarrow>
             (case (case mutation of None \<Rightarrow> Inr tables | Some f \<Rightarrow> f tables) of
                Inl err \<Rightarrow> Inl err
              | Inr tables' \<Rightarrow>
                  if el_Commands lg' (ar_CommandKey req) \<noteq> None then Inl ErrIdempotencyConflict
                  else Inr ((lg'\<lparr>el_Commands := (el_Commands lg')(ar_CommandKey req \<mapsto>
                               \<lparr>ca_RequestHash = ar_RequestHash req,
                                ca_First = ev_GlobalPosition (hd stored),
                                ca_Last = ev_GlobalPosition (last stored)\<rparr>)\<rparr>, tables'),
                            appendResult stored False))))"

definition Append ::
    "time \<Rightarrow> 'd append_request \<Rightarrow> 'd event_log \<Rightarrow> log_error + ('d event_log \<times> 'd append_result)" where
  "Append now req lg =
     (case log_append now None req (lg, ()) of
        Inl err \<Rightarrow> Inl err
      | Inr ((lg', _), res) \<Rightarrow> Inr (lg', res))"

definition AppendAtomic ::
    "time \<Rightarrow> 'd append_request \<Rightarrow> ('s \<Rightarrow> log_error + 's) option \<Rightarrow> 'd event_log \<times> 's \<Rightarrow>
     log_error + (('d event_log \<times> 's) \<times> 'd append_result)" where
  "AppendAtomic now req mutation st =
     (if mutation = None then Inl MutationRequired else log_append now mutation req st)"

subsection \<open>Reading\<close>

definition page_limit :: "int \<Rightarrow> nat" where
  "page_limit limit = (if limit \<le> 0 then 100 else nat limit)"

definition ReadStream ::
    "'d event_log \<Rightarrow> stream_key \<Rightarrow> nat \<Rightarrow> int \<Rightarrow> log_error + 'd stored_event list" where
  "ReadStream lg s afterVersion limit =
     checked (stream_validate s)
      (Inr (take (page_limit limit) (sort_key ev_StreamVersion
         (filter (\<lambda>e. stored_stream e = s \<and> afterVersion < ev_StreamVersion e) (el_Events lg)))))"

definition eventFilterSQL :: "event_filter \<Rightarrow> 'd stored_event \<Rightarrow> bool" where
  "eventFilterSQL f e \<longleftrightarrow>
     (ef_StreamTypes f = [] \<or> ev_StreamType e \<in> set (ef_StreamTypes f))
   \<and> (ef_EventTypes f = [] \<or> ev_Type e \<in> set (ef_EventTypes f))
   \<and> (ef_Visibility f = empty_string \<or> ev_Visibility e = ef_Visibility f)"

definition ReadAll ::
    "'d event_log \<Rightarrow> nat \<Rightarrow> int \<Rightarrow> event_filter \<Rightarrow> log_error + 'd stored_event list" where
  "ReadAll lg after limit f =
     Inr (take (page_limit limit) (sort_key ev_GlobalPosition
       (filter (\<lambda>e. after < ev_GlobalPosition e \<and> eventFilterSQL f e) (el_Events lg))))"

definition LatestPosition :: "'d event_log \<Rightarrow> event_filter \<Rightarrow> nat" where
  "LatestPosition lg f = foldr max (map ev_GlobalPosition (filter (eventFilterSQL f) (el_Events lg))) 0"

definition Offset :: "'d event_log \<Rightarrow> string \<Rightarrow> log_error + nat option" where
  "Offset lg sid = (if sid = empty_string then Inl SubscriptionIDRequired else Inr (el_Offsets lg sid))"

definition Ack :: "string \<Rightarrow> nat \<Rightarrow> 'd event_log \<Rightarrow> 'd event_log" where
  "Ack sid position lg = lg\<lparr>el_Offsets := (el_Offsets lg)(sid \<mapsto>
     (case el_Offsets lg sid of None \<Rightarrow> position | Some p \<Rightarrow> max p position))\<rparr>"

subsection \<open>Scanning a whole history\<close>

definition historyPageSize :: int where
  "historyPageSize = 1000"

datatype 'e scan_error = ReadFailed 'e | ScanDidNotAdvance nat

text \<open>
  One page of a scan: the events it yields, how far it got, and the error that ended it. \<open>key\<close>
  is the stream version for \<^verbatim>\<open>ScanStream\<close> and the global position for
  \<^verbatim>\<open>ScanAll\<close>; \<open>through\<close> is the bound only the latter has, and the flag says
  the bound was passed.
\<close>

fun scan_page ::
    "('a \<Rightarrow> nat) \<Rightarrow> nat option \<Rightarrow> nat \<Rightarrow> 'a list \<Rightarrow> 'a list \<times> nat \<times> bool \<times> 'e scan_error option" where
  "scan_page key through after [] = ([], after, False, None)"
| "scan_page key through after (e # es) =
     (if (case through of None \<Rightarrow> False | Some t \<Rightarrow> t < key e) then ([], after, True, None)
      else if key e \<le> after then ([], after, False, Some (ScanDidNotAdvance after))
      else case scan_page key through (key e) es of (ys, rest) \<Rightarrow> (e # ys, rest))"

text \<open>
  The scans themselves loop until a page is empty, so for an arbitrary reader they may run forever:
  \<open>None\<close> is a scan that never ends. A scan is the events it yields and the error it ends with.
\<close>

partial_function (option) ScanStream_from ::
    "(nat \<Rightarrow> int \<Rightarrow> 'e + 'd stored_event list) \<Rightarrow> nat \<Rightarrow>
     ('d stored_event list \<times> 'e scan_error option) option" where
  "ScanStream_from reader after =
     (case reader after historyPageSize of
        Inl err \<Rightarrow> Some ([], Some (ReadFailed err))
      | Inr page \<Rightarrow>
          if page = [] then Some ([], None)
          else (case scan_page ev_StreamVersion None after page of (ys, after', _, err) \<Rightarrow>
                  if err \<noteq> None then Some (ys, err)
                  else Option.bind (ScanStream_from reader after')
                         (\<lambda>(zs, end). Some (ys @ zs, end))))"

definition ScanStream ::
    "(stream_key \<Rightarrow> nat \<Rightarrow> int \<Rightarrow> 'e + 'd stored_event list) \<Rightarrow> stream_key \<Rightarrow>
     ('d stored_event list \<times> 'e scan_error option) option" where
  "ScanStream reader s = ScanStream_from (reader s) 0"

record 'd stream_history =
  sh_Events :: "'d stored_event list"
  sh_LastVersion :: nat

definition ReadFullStream ::
    "(stream_key \<Rightarrow> nat \<Rightarrow> int \<Rightarrow> 'e + 'd stored_event list) \<Rightarrow> stream_key \<Rightarrow>
     ('e scan_error + 'd stream_history) option" where
  "ReadFullStream reader s =
     (case ScanStream reader s of
        None \<Rightarrow> None
      | Some (events, Some err) \<Rightarrow> Some (Inl err)
      | Some (events, None) \<Rightarrow>
          Some (Inr \<lparr>sh_Events = events,
                     sh_LastVersion = (if events = [] then 0 else ev_StreamVersion (last events))\<rparr>))"

partial_function (option) ScanAll_from ::
    "(nat \<Rightarrow> int \<Rightarrow> event_filter \<Rightarrow> 'e + 'd stored_event list) \<Rightarrow> nat \<Rightarrow> event_filter \<Rightarrow> nat \<Rightarrow>
     ('d stored_event list \<times> 'e scan_error option) option" where
  "ScanAll_from reader through f after =
     (if \<not> after < through then Some ([], None)
      else case reader after historyPageSize f of
        Inl err \<Rightarrow> Some ([], Some (ReadFailed err))
      | Inr page \<Rightarrow>
          if page = [] then Some ([], None)
          else (case scan_page ev_GlobalPosition (Some through) after page of (ys, after', passed, err) \<Rightarrow>
                  if passed \<or> err \<noteq> None then Some (ys, err)
                  else Option.bind (ScanAll_from reader through f after')
                         (\<lambda>(zs, end). Some (ys @ zs, end))))"

definition ScanAll ::
    "(nat \<Rightarrow> int \<Rightarrow> event_filter \<Rightarrow> 'e + 'd stored_event list) \<Rightarrow> nat \<Rightarrow> event_filter \<Rightarrow>
     ('d stored_event list \<times> 'e scan_error option) option" where
  "ScanAll reader through f = ScanAll_from reader through f 0"

subsection \<open>What the tables hold\<close>

definition stream_of :: "'d event_log \<Rightarrow> stream_key \<Rightarrow> 'd stored_event list" where
  "stream_of lg s = filter (\<lambda>e. stored_stream e = s) (el_Events lg)"

definition command_events :: "'d event_log \<Rightarrow> string \<Rightarrow> 'd stored_event list" where
  "command_events lg k = filter (\<lambda>e. ev_CommandKey e = k) (el_Events lg)"

definition command_recorded :: "'d event_log \<Rightarrow> 'd stored_event \<Rightarrow> bool" where
  "command_recorded lg e \<longleftrightarrow> (\<exists>c. el_Commands lg (ev_CommandKey e) = Some c
     \<and> ca_RequestHash c = ev_RequestHash e
     \<and> ca_First c \<le> ev_GlobalPosition e \<and> ev_GlobalPosition e \<le> ca_Last c)"

definition log_inv :: "'d event_log \<Rightarrow> bool" where
  "log_inv lg \<longleftrightarrow>
     sorted_wrt (<) (map ev_GlobalPosition (el_Events lg))
   \<and> (\<forall>e \<in> set (el_Events lg). 0 < ev_GlobalPosition e \<and> ev_GlobalPosition e \<le> el_Sequence lg)
   \<and> distinct (map ev_ID (el_Events lg))
   \<and> (\<forall>s. map ev_StreamVersion (stream_of lg s) = [1..<Suc (length (stream_of lg s))])
   \<and> (\<forall>e \<in> set (el_Events lg). command_recorded lg e)
   \<and> (\<forall>k. el_Commands lg k \<noteq> None \<longrightarrow> command_events lg k \<noteq> [])"

lemma log_invD:
  assumes "log_inv lg"
  shows "sorted_wrt (<) (map ev_GlobalPosition (el_Events lg))"
    "e \<in> set (el_Events lg) \<Longrightarrow> 0 < ev_GlobalPosition e \<and> ev_GlobalPosition e \<le> el_Sequence lg"
    "distinct (map ev_ID (el_Events lg))"
    "map ev_StreamVersion (stream_of lg s) = [1..<Suc (length (stream_of lg s))]"
    "e \<in> set (el_Events lg) \<Longrightarrow> command_recorded lg e"
    "el_Commands lg k \<noteq> None \<Longrightarrow> command_events lg k \<noteq> []"
  using assms unfolding log_inv_def by blast+

lemma empty_log_inv: "log_inv empty_log"
  by (simp add: log_inv_def empty_log_def stream_of_def)

lemma readCommand_eq:
  assumes "log_inv lg"
  shows "readCommand lg k = command_events lg k"
proof (cases "el_Commands lg k")
  case None
  then have "command_events lg k = []"
    using log_invD(5)[OF assms] by (fastforce simp: command_events_def filter_empty_conv command_recorded_def)
  with None show ?thesis by (simp add: readCommand_def)
next
  case (Some c)
  have "filter (\<lambda>e. ev_CommandKey e = k \<and> ca_First c \<le> ev_GlobalPosition e \<and> ev_GlobalPosition e \<le> ca_Last c)
          (el_Events lg) = command_events lg k"
    unfolding command_events_def
    using log_invD(5)[OF assms] Some by (intro filter_cong) (fastforce simp: command_recorded_def)+
  moreover have "sorted (map ev_GlobalPosition (command_events lg k))"
    unfolding command_events_def
    by (intro strict_sorted_imp_sorted sorted_wrt_less_filter log_invD(1)[OF assms])
  ultimately show ?thesis using Some by (simp add: readCommand_def sort_key_id)
qed

lemma currentStreamVersion_eq: "log_inv lg \<Longrightarrow> currentStreamVersion lg s = length (stream_of lg s)"
  using log_invD(4)[of lg s]
  by (simp add: currentStreamVersion_def stream_of_def[symmetric] foldr_max_upt del: upt_Suc)

subsection \<open>The rows an append adds\<close>

fun rows_of :: "time \<Rightarrow> 'd append_request \<Rightarrow> nat \<Rightarrow> nat \<Rightarrow> 'd new_event list \<Rightarrow> 'd stored_event list" where
  "rows_of now req pos i [] = []"
| "rows_of now req pos i (e # es) = stored_of now req pos i e # rows_of now req (pos + 1) (i + 1) es"

lemma stored_of_fields [simp]:
  "ev_GlobalPosition (stored_of now req pos i e) = pos"
  "ev_StreamVersion (stored_of now req pos i e) = ar_ExpectedStreamVersion req + i + 1"
  "ev_CommandKey (stored_of now req pos i e) = ar_CommandKey req"
  "ev_RequestHash (stored_of now req pos i e) = ar_RequestHash req"
  "stored_stream (stored_of now req pos i e) = ar_Stream req"
  "ev_ID (stored_of now req pos i e) = ne_ID e"
  "ev_Data (stored_of now req pos i e) = ne_Data e"
  by (simp_all add: stored_of_def stored_stream_def)

lemma rows_of_length [simp]: "length (rows_of now req pos i es) = length es"
  by (induction es arbitrary: pos i) simp_all

lemma rows_of_eq_Nil [simp]: "rows_of now req pos i es = [] \<longleftrightarrow> es = []"
  by (cases es) simp_all

lemma rows_of_positions_eq: "map ev_GlobalPosition (rows_of now req pos i es) = [pos..<pos + length es]"
  by (induction es arbitrary: pos i) (simp_all add: upt_conv_Cons del: upt_Suc)

lemma rows_of_versions_eq:
  "map ev_StreamVersion (rows_of now req pos i es) =
     [ar_ExpectedStreamVersion req + i + 1..<ar_ExpectedStreamVersion req + i + 1 + length es]"
  by (induction es arbitrary: pos i) (simp_all add: upt_conv_Cons del: upt_Suc)

lemma rows_of_data: "map ev_Data (rows_of now req pos i es) = map ne_Data es"
  by (induction es arbitrary: pos i) simp_all

lemma rows_of_member:
  "x \<in> set (rows_of now req pos i es) \<Longrightarrow> stored_stream x = ar_Stream req
     \<and> ev_CommandKey x = ar_CommandKey req \<and> ev_RequestHash x = ar_RequestHash req"
  by (induction es arbitrary: pos i) auto

lemmas rows_of_shape = rows_of_length rows_of_positions_eq rows_of_versions_eq rows_of_data

lemma rows_of_positions: "x \<in> set (rows_of now req pos i es) \<Longrightarrow> pos \<le> ev_GlobalPosition x
     \<and> ev_GlobalPosition x < pos + length es"
  using arg_cong[OF rows_of_positions_eq, of set now req pos i es] by force

lemma insert_events_Inr:
  assumes "insert_events now req i es lg = Inr (lg', stored)" "distinct (map ev_ID (el_Events lg))"
  shows "stored = rows_of now req (el_Sequence lg + 1) i es
    \<and> lg' = lg\<lparr>el_Events := el_Events lg @ stored, el_Sequence := el_Sequence lg + length es\<rparr>
    \<and> distinct (map ev_ID (el_Events lg'))"
  using assms
proof (induction es arbitrary: i lg lg' stored)
  case (Cons e es)
  let ?row = "stored_of now req (el_Sequence lg + 1) i e"
  let ?lg = "lg\<lparr>el_Events := el_Events lg @ [?row], el_Sequence := el_Sequence lg + 1\<rparr>"
  from Cons.prems(1) obtain rest where rest: "\<not> violates_unique lg ?row"
      "insert_events now req (i + 1) es ?lg = Inr (lg', rest)" "stored = ?row # rest"
    by (auto simp: Let_def split: if_splits sum.splits)
  have "distinct (map ev_ID (el_Events ?lg))"
    using Cons.prems(2) rest(1) by (auto simp: violates_unique_def)
  note ih = Cons.IH[OF rest(2) this]
  show ?case
  proof (intro conjI)
    show "distinct (map ev_ID (el_Events lg'))" using ih by blast
  qed (use ih rest(3) in simp_all)
qed auto

lemma sorted_upt_snoc_block:
  "sorted_wrt (<) (map f xs) \<Longrightarrow> (\<forall>x \<in> set xs. f x \<le> n) \<Longrightarrow> map f ys = [n + 1..<n + 1 + m] \<Longrightarrow>
     sorted_wrt (<) (map f (xs @ ys) :: nat list)"
  by (auto simp: sorted_wrt_append)

subsection \<open>What an append does\<close>

text \<open>A granted append is either a repeat, which changes nothing, or new rows at the end.\<close>

definition appended :: "time \<Rightarrow> 'd append_request \<Rightarrow> 'd event_log \<Rightarrow> 'd event_log" where
  "appended now req lg =
     (let rows = rows_of now req (el_Sequence lg + 1) 0 (ar_Events req) in
      lg\<lparr>el_Events := el_Events lg @ rows, el_Sequence := el_Sequence lg + length (ar_Events req),
         el_Commands := (el_Commands lg)(ar_CommandKey req \<mapsto>
           \<lparr>ca_RequestHash = ar_RequestHash req, ca_First = el_Sequence lg + 1,
            ca_Last = el_Sequence lg + length (ar_Events req)\<rparr>)\<rparr>)"

lemma last_upt_block: "0 < m \<Longrightarrow> last [Suc k..<Suc (k + m)] = k + m"
  by (cases m) (simp_all add: last_append)

lemma upt_Suc_append_block: "[Suc 0..<Suc n] @ [Suc n..<Suc (n + m)] = [Suc 0..<Suc (n + m)]"
  using upt_add_eq_append[of "Suc 0" "Suc n" m] by simp

lemma rows_of_ends:
  assumes "es \<noteq> []"
  shows "ev_GlobalPosition (hd (rows_of now req pos i es)) = pos"
    "ev_GlobalPosition (last (rows_of now req pos i es)) = pos + length es - 1"
    "ev_StreamVersion (last (rows_of now req pos i es)) = ar_ExpectedStreamVersion req + i + length es"
proof -
  have ne: "rows_of now req pos i es \<noteq> []" using assms by (cases es) auto
  show "ev_GlobalPosition (hd (rows_of now req pos i es)) = pos" using assms by (cases es) auto
  show "ev_GlobalPosition (last (rows_of now req pos i es)) = pos + length es - 1"
    using last_map[OF ne, of ev_GlobalPosition] assms by (simp add: rows_of_positions_eq)
  show "ev_StreamVersion (last (rows_of now req pos i es)) = ar_ExpectedStreamVersion req + i + length es"
    using last_map[OF ne, of ev_StreamVersion] assms by (simp add: rows_of_versions_eq last_upt_block del: upt_Suc)
qed

lemma log_append_Inr:
  assumes inv: "log_inv lg" and ok: "log_append now mutation req (lg, tables) = Inr ((lg', tables'), res)"
  shows "append_request_error req = None"
    and "(lg' = lg \<and> command_events lg (ar_CommandKey req) \<noteq> []
          \<and> ev_RequestHash (hd (command_events lg (ar_CommandKey req))) = ar_RequestHash req
          \<and> res = appendResult (command_events lg (ar_CommandKey req)) True)
      \<or> (lg' = appended now req lg \<and> command_events lg (ar_CommandKey req) = []
          \<and> length (stream_of lg (ar_Stream req)) = ar_ExpectedStreamVersion req
          \<and> distinct (map ev_ID (el_Events lg'))
          \<and> res = appendResult (rows_of now req (el_Sequence lg + 1) 0 (ar_Events req)) False)"
proof -
  show err: "append_request_error req = None" using ok by (simp add: log_append_def)
  then have ne: "ar_Events req \<noteq> []"
    by (auto simp: append_request_error_def split: if_splits option.splits)
  show "(lg' = lg \<and> command_events lg (ar_CommandKey req) \<noteq> []
          \<and> ev_RequestHash (hd (command_events lg (ar_CommandKey req))) = ar_RequestHash req
          \<and> res = appendResult (command_events lg (ar_CommandKey req)) True)
      \<or> (lg' = appended now req lg \<and> command_events lg (ar_CommandKey req) = []
          \<and> length (stream_of lg (ar_Stream req)) = ar_ExpectedStreamVersion req
          \<and> distinct (map ev_ID (el_Events lg'))
          \<and> res = appendResult (rows_of now req (el_Sequence lg + 1) 0 (ar_Events req)) False)"
  proof (cases "command_events lg (ar_CommandKey req) = []")
    case False
    with ok show ?thesis
      by (auto simp: log_append_def Let_def readCommand_eq[OF inv] err split: if_splits)
  next
    case True
    with ok obtain lg1 stored where st: "insert_events now req 0 (ar_Events req) lg = Inr (lg1, stored)"
      and v: "length (stream_of lg (ar_Stream req)) = ar_ExpectedStreamVersion req"
      and res: "res = appendResult stored False"
      and lg': "lg' = lg1\<lparr>el_Commands := (el_Commands lg1)(ar_CommandKey req \<mapsto>
          \<lparr>ca_RequestHash = ar_RequestHash req, ca_First = ev_GlobalPosition (hd stored),
           ca_Last = ev_GlobalPosition (last stored)\<rparr>)\<rparr>"
      by (auto simp: log_append_def Let_def readCommand_eq[OF inv] currentStreamVersion_eq[OF inv] err
          split: if_splits sum.splits)
    note ins = insert_events_Inr[OF st log_invD(3)[OF inv]]
    have "el_Events lg' = el_Events lg1" by (simp add: lg')
    with ins have "distinct (map ev_ID (el_Events lg'))" by metis
    moreover from ins have "lg' = appended now req lg"
      by (simp add: lg' appended_def Let_def rows_of_ends[OF ne])
    ultimately show ?thesis using ins True v res by blast
  qed
qed

lemma appended_commands:
  "el_Commands (appended now req lg) k \<noteq> None \<longleftrightarrow> k = ar_CommandKey req \<or> el_Commands lg k \<noteq> None"
  by (simp add: appended_def Let_def)

lemma stream_of_appended:
  "stream_of (appended now req lg) s =
     stream_of lg s @ (if s = ar_Stream req then rows_of now req (el_Sequence lg + 1) 0 (ar_Events req) else [])"
proof -
  have "filter (\<lambda>e. stored_stream e = s) (rows_of now req p i es) =
      (if s = ar_Stream req then rows_of now req p i es else [])" for p i and es :: "'a new_event list"
    by (induction es arbitrary: p i) auto
  then show ?thesis by (simp add: stream_of_def appended_def Let_def)
qed

lemma command_events_appended:
  "command_events (appended now req lg) k =
     command_events lg k @ (if k = ar_CommandKey req then rows_of now req (el_Sequence lg + 1) 0 (ar_Events req) else [])"
proof -
  have "filter (\<lambda>e. ev_CommandKey e = k) (rows_of now req p i es) =
      (if k = ar_CommandKey req then rows_of now req p i es else [])" for p i and es :: "'a new_event list"
    by (induction es arbitrary: p i) auto
  then show ?thesis by (simp add: command_events_def appended_def Let_def)
qed

lemma appended_recorded:
  assumes inv: "log_inv lg" and fresh: "command_events lg (ar_CommandKey req) = []"
    and e: "e \<in> set (el_Events (appended now req lg))"
  shows "command_recorded (appended now req lg) e"
proof (cases "e \<in> set (el_Events lg)")
  case True
  then have "ev_CommandKey e \<noteq> ar_CommandKey req"
    using fresh by (auto simp: command_events_def filter_empty_conv)
  with log_invD(5)[OF inv True] show ?thesis by (simp add: command_recorded_def appended_def Let_def)
next
  case False
  with e have "e \<in> set (rows_of now req (el_Sequence lg + 1) 0 (ar_Events req))"
    by (simp add: appended_def Let_def)
  from rows_of_member[OF this] rows_of_positions[OF this] show ?thesis
    by (simp add: command_recorded_def appended_def Let_def)
qed

lemma appended_inv:
  assumes inv: "log_inv lg" and fresh: "command_events lg (ar_CommandKey req) = []"
    and v: "length (stream_of lg (ar_Stream req)) = ar_ExpectedStreamVersion req"
    and d: "distinct (map ev_ID (el_Events (appended now req lg)))" and ne: "ar_Events req \<noteq> []"
  shows "log_inv (appended now req lg)"
  unfolding log_inv_def
proof (intro conjI)
  let ?rows = "rows_of now req (el_Sequence lg + 1) 0 (ar_Events req)"
  have ev: "el_Events (appended now req lg) = el_Events lg @ ?rows" by (simp add: appended_def Let_def)
  show "sorted_wrt (<) (map ev_GlobalPosition (el_Events (appended now req lg)))"
    unfolding ev using log_invD(1,2)[OF inv] rows_of_positions_eq[of now req "el_Sequence lg + 1" 0 "ar_Events req"]
    by (intro sorted_upt_snoc_block[where n = "el_Sequence lg" and m = "length (ar_Events req)"]) auto
  show "\<forall>e \<in> set (el_Events (appended now req lg)). 0 < ev_GlobalPosition e
      \<and> ev_GlobalPosition e \<le> el_Sequence (appended now req lg)"
    unfolding ev using log_invD(2)[OF inv] rows_of_positions[of _ now req "el_Sequence lg + 1" 0 "ar_Events req"]
    by (fastforce simp: appended_def Let_def)
  show "distinct (map ev_ID (el_Events (appended now req lg)))" by (rule d)
  show "\<forall>s. map ev_StreamVersion (stream_of (appended now req lg) s) =
      [1..<Suc (length (stream_of (appended now req lg) s))]"
    using log_invD(4)[OF inv] v
    by (simp add: stream_of_appended rows_of_versions_eq upt_Suc_append_block del: upt_Suc)
  show "\<forall>e \<in> set (el_Events (appended now req lg)). command_recorded (appended now req lg) e"
    using appended_recorded[OF inv fresh] by blast
  show "\<forall>k. el_Commands (appended now req lg) k \<noteq> None \<longrightarrow> command_events (appended now req lg) k \<noteq> []"
    unfolding appended_commands command_events_appended
    using log_invD(6)[OF inv] ne by simp
qed

subsection \<open>How a log grows\<close>

definition log_grows :: "'d event_log \<Rightarrow> 'd event_log \<Rightarrow> bool" where
  "log_grows lg lg' \<longleftrightarrow> (\<exists>xs. el_Events lg' = el_Events lg @ xs)
     \<and> (\<forall>k. command_events lg k \<noteq> [] \<longrightarrow> command_events lg' k = command_events lg k)
     \<and> (\<forall>sid p. el_Offsets lg sid = Some p \<longrightarrow> (\<exists>p' \<ge> p. el_Offsets lg' sid = Some p'))"

lemma log_grows_refl: "log_grows lg lg"
  by (simp add: log_grows_def)

lemma log_grows_trans: "log_grows a b \<Longrightarrow> log_grows b c \<Longrightarrow> log_grows a c"
  unfolding log_grows_def by (metis append.assoc order_trans)

lemma log_grows_stream:
  assumes "log_grows lg lg'"
  obtains xs where "stream_of lg' s = stream_of lg s @ xs"
  using assms by (auto simp: log_grows_def stream_of_def)

lemma append_request_events: "append_request_error req = None \<Longrightarrow> ar_Events req \<noteq> []"
  by (auto simp: append_request_error_def split: if_splits option.splits)

lemma log_append_keeps:
  assumes "log_inv lg" "log_append now mutation req (lg, tables) = Inr ((lg', tables'), res)"
  shows "log_inv lg' \<and> log_grows lg lg'"
proof -
  note r = log_append_Inr[OF assms]
  from r(2) show ?thesis
  proof (elim disjE conjE)
    assume "lg' = lg"
    then show ?thesis using assms(1) by (simp add: log_grows_refl)
  next
    assume a: "lg' = appended now req lg" "command_events lg (ar_CommandKey req) = []"
      "length (stream_of lg (ar_Stream req)) = ar_ExpectedStreamVersion req"
      "distinct (map ev_ID (el_Events lg'))"
    have "log_grows lg lg'"
      using a(2) unfolding log_grows_def a(1) command_events_appended
      by (auto simp: appended_def Let_def)
    moreover have "log_inv lg'"
      using appended_inv[OF assms(1) a(2,3) _ append_request_events[OF r(1)]] a(1,4) by simp
    ultimately show ?thesis by simp
  qed
qed

lemma Append_Inr:
  "Append now req lg = Inr (lg', res) \<longleftrightarrow> log_append now None req (lg, ()) = Inr ((lg', ()), res)"
  by (auto simp: Append_def split: sum.splits)

datatype 'd log_op = OpAppend time "'d append_request" | OpAck string nat

definition log_step :: "'d log_op \<Rightarrow> 'd event_log \<Rightarrow> log_error + 'd event_log" where
  "log_step op lg = (case op of
     OpAppend now req \<Rightarrow> (case Append now req lg of Inl err \<Rightarrow> Inl err | Inr (lg', _) \<Rightarrow> Inr lg')
   | OpAck sid position \<Rightarrow> Inr (Ack sid position lg))"

lemma Ack_inv: "log_inv (Ack sid position lg) = log_inv lg"
  by (simp add: log_inv_def Ack_def stream_of_def command_events_def command_recorded_def)

lemma Ack_grows: "log_grows lg (Ack sid position lg)"
  by (auto simp: log_grows_def Ack_def command_events_def split: option.splits)

lemma log_step_keeps: "log_inv lg \<Longrightarrow> log_step op lg = Inr lg' \<Longrightarrow> log_inv lg' \<and> log_grows lg lg'"
  by (cases op) (auto simp: log_step_def Ack_inv Ack_grows Append_Inr split: sum.splits
      dest: log_append_keeps)

interpretation elog: evolving_object log_step log_inv log_grows
  by unfold_locales (use log_step_keeps in \<open>blast intro: log_grows_refl log_grows_trans\<close>)+

subsection \<open>Reading a history in pages\<close>

text \<open>
  What the scans rely on: a reader returns, in order of a strictly increasing key, the first items
  past a point.
\<close>

locale paged_source =
  fixes reader :: "'s \<Rightarrow> nat \<Rightarrow> int \<Rightarrow> 'e + 'a list"
    and key :: "'a \<Rightarrow> nat"
    and items :: "'s \<Rightarrow> 'a list"
    and ok :: "'s \<Rightarrow> bool"
  assumes ordered: "ok s \<Longrightarrow> sorted_wrt (<) (map key (items s))"
    and positive: "ok s \<Longrightarrow> x \<in> set (items s) \<Longrightarrow> 0 < key x"
    and page: "ok s \<Longrightarrow> 0 < limit \<Longrightarrow>
      reader s after limit = Inr (take (nat limit) (filter (\<lambda>x. after < key x) (items s)))"
begin

definition rest :: "'s \<Rightarrow> nat \<Rightarrow> 'a list" where
  "rest s after = filter (\<lambda>x. after < key x) (items s)"

lemma rest_ordered: "ok s \<Longrightarrow> sorted_wrt (<) (map key (rest s after))"
  unfolding rest_def by (rule sorted_wrt_less_filter[OF ordered])

lemma rest_0: "ok s \<Longrightarrow> rest s 0 = items s"
  unfolding rest_def using positive by (intro filter_True) blast

lemma reader_eq: "ok s \<Longrightarrow> reader s after historyPageSize = Inr (take 1000 (rest s after))"
  by (simp add: page historyPageSize_def rest_def)

lemma rest_step:
  assumes "ok s" "rest s after = xs @ y # ys"
  shows "rest s (key y) = ys"
proof -
  have after: "after < key y" using arg_cong[OF assms(2), of set] by (auto simp: rest_def)
  have "rest s (key y) = filter (\<lambda>x. key y < key x) (rest s after)"
    unfolding rest_def filter_filter using after by (intro filter_cong) auto
  also have "\<dots> = ys"
    using rest_ordered[OF assms(1), of after]
    by (auto simp: assms(2) sorted_wrt_append filter_empty_conv intro: filter_True)
  finally show ?thesis .
qed

lemma scan_page_all:
  "sorted_wrt (<) (map key xs) \<Longrightarrow> \<forall>x \<in> set xs. after < key x \<Longrightarrow>
     scan_page key None after xs = (xs, if xs = [] then after else key (last xs), False, None)"
proof (induction xs arbitrary: after)
  case (Cons x xs)
  with Cons.IH[of "key x"] show ?case by simp
qed simp

lemma scan_page_through:
  "sorted_wrt (<) (map key xs) \<Longrightarrow> \<forall>x \<in> set xs. after < key x \<Longrightarrow>
     scan_page key (Some t) after xs =
       (filter (\<lambda>x. key x \<le> t) xs,
        if filter (\<lambda>x. key x \<le> t) xs = [] then after else key (last (filter (\<lambda>x. key x \<le> t) xs)),
        \<exists>x \<in> set xs. t < key x, None)"
proof (induction xs arbitrary: after)
  case (Cons x xs)
  show ?case
  proof (cases "t < key x")
    case True
    with Cons.prems(1) have "filter (\<lambda>x. key x \<le> t) (x # xs) = []"
      by (auto simp: filter_empty_conv)
    with True show ?thesis by auto
  next
    case False
    with Cons.IH[of "key x"] Cons.prems show ?thesis by auto
  qed
qed simp

lemma page_ordered: "ok s \<Longrightarrow> sorted_wrt (<) (map key (take n (rest s after)))"
  using rest_ordered[of s after] by (metis append_take_drop_id map_append sorted_wrt_append)

lemma page_ahead: "\<forall>x \<in> set (take n (rest s after)). after < key x"
  by (auto simp: rest_def dest: in_set_takeD)

lemma rest_after_page:
  assumes "ok s" "take 1000 (rest s after) \<noteq> []"
  shows "rest s (key (last (take 1000 (rest s after)))) = drop 1000 (rest s after)"
proof (rule rest_step[OF assms(1)])
  show "rest s after = butlast (take 1000 (rest s after)) @ last (take 1000 (rest s after)) # drop 1000 (rest s after)"
    using append_butlast_last_id[OF assms(2)] append_take_drop_id[of 1000 "rest s after"]
    by (metis append.assoc append_Cons append_Nil)
qed

end

locale stream_source = paged_source reader ev_StreamVersion items ok
  for reader :: "'s \<Rightarrow> nat \<Rightarrow> int \<Rightarrow> 'e + 'd stored_event list"
    and items :: "'s \<Rightarrow> 'd stored_event list" and ok :: "'s \<Rightarrow> bool"
begin

lemma ScanStream_from_rest: "ok s \<Longrightarrow> ScanStream_from (reader s) after = Some (rest s after, None)"
proof (induction "length (rest s after)" arbitrary: after rule: less_induct)
  case less
  note ok = less.prems
  show ?case
  proof (cases "rest s after = []")
    case True
    then show ?thesis by (subst ScanStream_from.simps) (simp add: reader_eq[OF ok])
  next
    case False
    then have ne: "take 1000 (rest s after) \<noteq> []" by simp
    note next_rest = rest_after_page[OF ok ne]
    have "ScanStream_from (reader s) (ev_StreamVersion (last (take 1000 (rest s after)))) =
        Some (drop 1000 (rest s after), None)"
      using less.hyps[OF _ ok, of "ev_StreamVersion (last (take 1000 (rest s after)))"] False
      by (simp add: next_rest)
    then show ?thesis
      by (subst ScanStream_from.simps)
        (use ne in \<open>simp add: reader_eq[OF ok] scan_page_all[OF page_ordered[OF ok] page_ahead]\<close>)
  qed
qed

lemma scan_yields_everything: "ok s \<Longrightarrow> ScanStream_from (reader s) 0 = Some (items s, None)"
  by (simp add: ScanStream_from_rest rest_0)

end

locale global_source = paged_source reader ev_GlobalPosition items ok
  for reader :: "'s \<Rightarrow> nat \<Rightarrow> int \<Rightarrow> 'e + 'd stored_event list"
    and items :: "'s \<Rightarrow> 'd stored_event list" and ok :: "'s \<Rightarrow> bool"
begin

definition reached :: "nat \<Rightarrow> 'd stored_event list \<Rightarrow> 'd stored_event list" where
  "reached t xs = filter (\<lambda>e. ev_GlobalPosition e \<le> t) xs"

lemma reached_passed:
  assumes "ok s" "\<exists>x \<in> set (take n (rest s after)). t < ev_GlobalPosition x"
  shows "reached t (drop n (rest s after)) = []"
proof -
  obtain x where x: "x \<in> set (take n (rest s after))" "t < ev_GlobalPosition x" using assms(2) by blast
  have "sorted_wrt (<) (map ev_GlobalPosition (take n (rest s after)) @ map ev_GlobalPosition (drop n (rest s after)))"
    unfolding map_append[symmetric] append_take_drop_id by (rule rest_ordered[OF assms(1)])
  then have "\<forall>y \<in> set (drop n (rest s after)). ev_GlobalPosition x < ev_GlobalPosition y"
    using x(1) by (simp add: sorted_wrt_append)
  with x(2) show ?thesis by (auto simp: reached_def filter_empty_conv)
qed

lemma ScanAll_from_rest:
  assumes ok: "ok s" and rd: "\<And>a l. rd a l f = reader s a l"
  shows "ScanAll_from rd t f after = Some (reached t (rest s after), None)"
proof (induction "length (rest s after)" arbitrary: after rule: less_induct)
  case less
  let ?page = "take 1000 (rest s after)"
  note page_simps = rd reader_eq[OF ok] scan_page_through[OF page_ordered[OF ok] page_ahead]
  show ?case
  proof (cases "rest s after = [] \<or> t \<le> after")
    case True
    then have "reached t (rest s after) = []" by (auto simp: reached_def rest_def filter_empty_conv)
    with True show ?thesis by (subst ScanAll_from.simps) (auto simp: rd reader_eq[OF ok])
  next
    case False
    then have ne: "?page \<noteq> []" by simp
    have split: "reached t (rest s after) = reached t ?page @ reached t (drop 1000 (rest s after))"
      unfolding reached_def by (metis append_take_drop_id filter_append)
    show ?thesis
    proof (cases "\<exists>x \<in> set ?page. t < ev_GlobalPosition x")
      case True
      with False ne show ?thesis
        by (subst ScanAll_from.simps)
          (simp add: page_simps split reached_passed[OF ok True] reached_def[symmetric])
    next
      case notpassed: False
      then have all: "reached t ?page = ?page" by (auto simp: reached_def not_less intro: filter_True)
      have "ScanAll_from rd t f (ev_GlobalPosition (last ?page)) =
          Some (reached t (drop 1000 (rest s after)), None)"
        using less[of "ev_GlobalPosition (last ?page)"] False by (simp add: rest_after_page[OF ok ne])
      with False ne notpassed all show ?thesis
        by (subst ScanAll_from.simps) (simp add: page_simps split reached_def[symmetric])
    qed
  qed
qed

lemma scan_yields_reached:
  "ok s \<Longrightarrow> (\<And>a l. rd a l f = reader s a l) \<Longrightarrow> ScanAll_from rd t f 0 =
     Some (filter (\<lambda>e. ev_GlobalPosition e \<le> t) (items s), None)"
  by (simp add: ScanAll_from_rest rest_0 reached_def)

end

subsection \<open>The log provides both\<close>

lemma stream_versions_ordered:
  assumes "log_inv lg"
  shows "sorted_wrt (<) (map ev_StreamVersion (stream_of lg s))"
    "x \<in> set (stream_of lg s) \<Longrightarrow> 0 < ev_StreamVersion x"
proof -
  show "sorted_wrt (<) (map ev_StreamVersion (stream_of lg s))"
    unfolding log_invD(4)[OF assms, of s] by (rule sorted_wrt_upt)
  assume "x \<in> set (stream_of lg s)"
  then have "ev_StreamVersion x \<in> set [1..<Suc (length (stream_of lg s))]"
    unfolding log_invD(4)[OF assms, of s, symmetric] by simp
  then show "0 < ev_StreamVersion x" by auto
qed

lemma ReadStream_page:
  assumes "log_inv lg" "stream_validate s = None" "0 < limit"
  shows "ReadStream lg s after limit =
    Inr (take (nat limit) (filter (\<lambda>x. after < ev_StreamVersion x) (stream_of lg s)))"
proof -
  have "sorted (map ev_StreamVersion (filter (\<lambda>x. after < ev_StreamVersion x) (stream_of lg s)))"
    by (intro strict_sorted_imp_sorted sorted_wrt_less_filter stream_versions_ordered assms(1))
  with assms(2,3) show ?thesis
    by (simp add: ReadStream_def page_limit_def stream_of_def sort_key_id conj_commute)
qed

lemma ReadAll_page:
  assumes "log_inv lg" "0 < limit"
  shows "ReadAll lg after limit f =
    Inr (take (nat limit) (filter (\<lambda>x. after < ev_GlobalPosition x) (filter (eventFilterSQL f) (el_Events lg))))"
proof -
  have "sorted (map ev_GlobalPosition (filter (\<lambda>x. after < ev_GlobalPosition x)
      (filter (eventFilterSQL f) (el_Events lg))))"
    by (intro strict_sorted_imp_sorted sorted_wrt_less_filter log_invD(1)[OF assms(1)])
  with assms(2) show ?thesis by (simp add: ReadAll_def page_limit_def sort_key_id conj_commute)
qed

interpretation log_streams: stream_source "\<lambda>(lg, s). ReadStream lg s" "\<lambda>(lg, s). stream_of lg s"
    "\<lambda>(lg, s). log_inv lg \<and> stream_validate s = None"
  by unfold_locales (auto simp: stream_versions_ordered ReadStream_page)

interpretation log_positions: global_source "\<lambda>(lg, f) a l. ReadAll lg a l f"
    "\<lambda>(lg, f). filter (eventFilterSQL f) (el_Events lg)" "\<lambda>(lg, f). log_inv lg"
  by unfold_locales (auto simp: sorted_wrt_less_filter log_invD(1) log_invD(2) ReadAll_page)

lemma ReadFullStream_eq:
  assumes "log_inv lg" "stream_validate s = None"
  shows "ReadFullStream (ReadStream lg) s =
    Some (Inr \<lparr>sh_Events = stream_of lg s, sh_LastVersion = length (stream_of lg s)\<rparr>)"
proof -
  have scan: "ScanStream (ReadStream lg) s = Some (stream_of lg s, None)"
    using log_streams.scan_yields_everything[of "(lg, s)"] assms by (simp add: ScanStream_def)
  have "ev_StreamVersion (last (stream_of lg s)) = length (stream_of lg s)" if "stream_of lg s \<noteq> []"
    using last_map[OF that, of ev_StreamVersion] that last_upt_block[of "length (stream_of lg s)" 0]
    by (simp add: log_invD(4)[OF assms(1), of s] del: upt_Suc)
  then show ?thesis by (auto simp: ReadFullStream_def scan)
qed

subsection \<open>Properties\<close>

definition sample_append :: "string \<Rightarrow> nat \<Rightarrow> string append_request" where
  "sample_append k v = \<lparr>ar_Stream = \<lparr>sk_Type = ''run'', sk_ID = ''r1''\<rparr>, ar_ExpectedStreamVersion = v,
     ar_CommandKey = k, ar_RequestHash = ''h'', ar_Actor = [], ar_CorrelationID = [], ar_CausationID = [],
     ar_Events = [\<lparr>ne_ID = k, ne_Type = ''t'', ne_SchemaVersion = 1, ne_OccurredAt = 5,
       ne_Visibility = [], ne_Data = ''d'', ne_PrivateData = []\<rparr>]\<rparr>"

definition sample_log :: "string event_log" where
  "sample_log = appended 1 (sample_append ''c1'' 0) empty_log"

lemma sample_log_append: "Append 1 (sample_append ''c1'' 0) empty_log =
    Inr (sample_log, appendResult (el_Events sample_log) False)"
  by (simp add: Append_def log_append_def append_request_error_def stream_validate_def sample_append_def
      readCommand_def empty_log_def currentStreamVersion_def violates_unique_def Let_def sample_log_def
      appended_def)

text \<open>C29: Whatever appends and acknowledgements the log goes through, global positions are strictly
  increasing, no event identity is stored twice, the versions of every stream are exactly 1 to its
  length with no gap, and nothing already stored is changed or removed.\<close>

theorem log_is_ordered_and_append_only:
  "let lg = run_ops log_step ops empty_log in
     sorted_wrt (<) (map ev_GlobalPosition (el_Events lg))
   \<and> distinct (map ev_ID (el_Events lg))
   \<and> map ev_StreamVersion (stream_of lg s) = [1..<Suc (length (stream_of lg s))]
   \<and> (\<exists>later. el_Events (run_ops log_step ops' lg) = el_Events lg @ later)"
proof -
  let ?lg = "run_ops log_step ops empty_log"
  have inv: "log_inv ?lg" using elog.run_ops_evolves[OF empty_log_inv] by blast
  have "log_grows ?lg (run_ops log_step ops' ?lg)" using elog.run_ops_evolves[OF inv] by blast
  then show ?thesis unfolding Let_def using log_invD(1,3,4)[OF inv] by (simp add: log_grows_def del: upt_Suc)
qed

text \<open>C30: A command is recorded once. However much is appended after it, repeating a granted request
  returns the events it stored the first time, marked as a duplicate, and writes nothing; the same
  command key with another request hash is refused.\<close>

theorem append_is_idempotent:
  assumes "log_inv lg" "Append now req lg = Inr (lg1, res)" "lg2 = run_ops log_step ops lg1"
  shows "Append now' req lg2 = Inr (lg2, res\<lparr>res_Duplicate := True\<rparr>)
    \<and> (h \<noteq> ar_RequestHash req \<and> h \<noteq> empty_string
        \<longrightarrow> Append now' (req\<lparr>ar_RequestHash := h\<rparr>) lg2 = Inl ErrIdempotencyConflict)"
proof -
  note ap = assms(2)[unfolded Append_Inr]
  note r = log_append_Inr[OF assms(1) ap]
  note k = log_append_keeps[OF assms(1) ap]
  have inv2: "log_inv lg2" and gr: "log_grows lg1 lg2"
    using elog.run_ops_evolves[of lg1 ops] k assms(3) by auto
  let ?evs = "command_events lg1 (ar_CommandKey req)"
  have new: "?evs \<noteq> [] \<and> ev_RequestHash (hd ?evs) = ar_RequestHash req
      \<and> res = appendResult ?evs (res_Duplicate res)"
    using r(2) append_request_events[OF r(1)]
      rows_of_member[OF hd_in_set, of now req "el_Sequence lg + 1" 0 "ar_Events req"]
    by (auto simp: command_events_appended appendResult_def)
  have same: "readCommand lg2 (ar_CommandKey req) = ?evs"
    using gr new by (simp add: readCommand_eq[OF inv2] log_grows_def)
  have dup: "appendResult ?evs True = res\<lparr>res_Duplicate := True\<rparr>"
    using new by (metis appendResult_def append_result.update_convs(4))
  have "append_request_error (req\<lparr>ar_RequestHash := h\<rparr>) = None" if "h \<noteq> empty_string"
    using r(1) that by (simp add: append_request_error_def split: option.splits if_splits)
  with same new r(1) dup show ?thesis
    by (auto simp: Append_def log_append_def Let_def)
qed

theorem append_is_idempotent_witness:
  "\<exists>res. Append 1 (sample_append ''c1'' 0) empty_log = Inr (sample_log, res)
     \<and> Append 9 (sample_append ''c1'' 0) sample_log = Inr (sample_log, res\<lparr>res_Duplicate := True\<rparr>)
     \<and> Append 9 ((sample_append ''c1'' 0)\<lparr>ar_RequestHash := ''other''\<rparr>) sample_log = Inl ErrIdempotencyConflict"
  using sample_log_append append_is_idempotent[OF empty_log_inv sample_log_append, of sample_log "[]" 9 "''other''"]
  by (simp add: sample_append_def)

text \<open>Of two commands that both read a stream at the same version, at most one appends: once the
  first is stored, the other is refused with a concurrency conflict, whatever happens in between.\<close>

theorem one_append_per_stream_version:
  assumes "log_inv lg" "Append now req lg = Inr (lg1, res)" "\<not> res_Duplicate res"
    "lg2 = run_ops log_step ops lg1" "append_request_error req' = None"
    "ar_Stream req' = ar_Stream req" "ar_ExpectedStreamVersion req' = ar_ExpectedStreamVersion req"
    "command_events lg2 (ar_CommandKey req') = []"
  shows "Append now' req' lg2 = Inl ErrConcurrencyConflict"
proof -
  note ap = assms(2)[unfolded Append_Inr]
  note r = log_append_Inr[OF assms(1) ap]
  note k = log_append_keeps[OF assms(1) ap]
  have inv2: "log_inv lg2" and gr: "log_grows lg1 lg2"
    using elog.run_ops_evolves[of lg1 ops] k assms(4) by auto
  have "lg1 = appended now req lg" "length (stream_of lg (ar_Stream req)) = ar_ExpectedStreamVersion req"
    using r(2) assms(3) by (auto simp: appendResult_def split: if_splits)
  then have "ar_ExpectedStreamVersion req < length (stream_of lg1 (ar_Stream req))"
    using append_request_events[OF r(1)] by (simp add: stream_of_appended)
  also obtain xs where "stream_of lg2 (ar_Stream req) = stream_of lg1 (ar_Stream req) @ xs"
    using log_grows_stream[OF gr] by blast
  then have "length (stream_of lg1 (ar_Stream req)) \<le> length (stream_of lg2 (ar_Stream req))" by simp
  finally show ?thesis
    using assms(5-8) by (simp add: Append_def log_append_def Let_def readCommand_eq[OF inv2]
        currentStreamVersion_eq[OF inv2])
qed

theorem one_append_per_stream_version_witness:
  "Append 9 (sample_append ''c2'' 0) sample_log = Inl ErrConcurrencyConflict"
proof (rule one_append_per_stream_version[OF empty_log_inv sample_log_append, where ops = "[]"])
  show "\<not> res_Duplicate (appendResult (el_Events sample_log) False)" by (simp add: appendResult_def)
  show "sample_log = run_ops log_step [] sample_log" by simp
  show "append_request_error (sample_append ''c2'' 0) = None"
    by (simp add: append_request_error_def stream_validate_def sample_append_def)
  show "command_events sample_log (ar_CommandKey (sample_append ''c2'' 0)) = []"
    by (simp add: sample_log_def command_events_appended) (simp add: command_events_def empty_log_def sample_append_def)
qed (simp_all add: sample_append_def)

text \<open>C31: Reading a full stream always ends, however many pages of a thousand it takes, and returns
  exactly the events of that stream in version order, with the version the next append has to name.\<close>

theorem full_stream_is_complete:
  assumes "log_inv lg" "stream_validate s = None"
  shows "ReadFullStream (ReadStream lg) s =
    Some (Inr \<lparr>sh_Events = stream_of lg s, sh_LastVersion = length (stream_of lg s)\<rparr>)"
  by (rule ReadFullStream_eq[OF assms])

theorem full_stream_is_complete_witness:
  "ReadFullStream (ReadStream sample_log) \<lparr>sk_Type = ''run'', sk_ID = ''r1''\<rparr> =
     Some (Inr \<lparr>sh_Events = el_Events sample_log, sh_LastVersion = 1\<rparr>)"
proof -
  have inv: "log_inv sample_log"
    using log_append_keeps[OF empty_log_inv sample_log_append[unfolded Append_Inr]] by blast
  have "stream_of sample_log \<lparr>sk_Type = ''run'', sk_ID = ''r1''\<rparr> = el_Events sample_log"
    by (simp add: stream_of_def sample_log_def appended_def empty_log_def sample_append_def Let_def)
  moreover have "length (el_Events sample_log) = 1"
    by (simp add: sample_log_def appended_def empty_log_def sample_append_def Let_def)
  ultimately show ?thesis using full_stream_is_complete[OF inv, of "\<lparr>sk_Type = ''run'', sk_ID = ''r1''\<rparr>"]
    by (simp add: stream_validate_def)
qed

text \<open>Scanning the whole log through a position always ends and yields, in order, exactly the
  events the filter selects up to that position, each once.\<close>

theorem scan_all_is_complete:
  assumes "log_inv lg"
  shows "ScanAll (ReadAll lg) through f =
    Some (filter (\<lambda>e. eventFilterSQL f e \<and> ev_GlobalPosition e \<le> through) (el_Events lg), None)"
  using log_positions.scan_yields_reached[of "(lg, f)" "ReadAll lg" f through] assms
  by (simp add: ScanAll_def conj_commute)

theorem scan_all_is_complete_witness:
  "ScanAll (ReadAll sample_log) 7 \<lparr>ef_StreamTypes = [''run''], ef_EventTypes = [], ef_Visibility = []\<rparr> =
     Some (el_Events sample_log, None)"
proof -
  have inv: "log_inv sample_log"
    using log_append_keeps[OF empty_log_inv sample_log_append[unfolded Append_Inr]] by blast
  show ?thesis using scan_all_is_complete[OF inv]
    by (simp add: sample_log_def appended_def empty_log_def sample_append_def Let_def eventFilterSQL_def stored_of_def)
qed

end
