(* ===== verification/RunEvents.thy ===== *)
theory RunEvents
  imports Scheduler EventLog "HOL-Library.Sublist"
begin

text \<open>
  A Run's own record (\<^verbatim>\<open>internal/orchestrator/run_event.go\<close>, \<^verbatim>\<open>run_event_payload.go\<close>,
  \<^verbatim>\<open>launch_failure.go\<close>, \<^verbatim>\<open>redact.go\<close> and the types they decode): the facts a Run's stream
  holds, the state they reduce to, and the record an operator reads.

  A stored event carries its payload decoded: the type of the event and the struct
  \<^verbatim>\<open>json.Unmarshal\<close> fills are one constructor of \<open>run_fact\<close>; a payload that is not a JSON object
  or does not decode is \<open>FactUndecodable\<close> and a type the reducer does not know is \<open>FactUnknown\<close>,
  each with the type it was stored under.
  The actor of an event stays a string, and reading the subject out of its JSON is the argument
  \<open>json_subject\<close>.
\<close>

subsection \<open>Provider failures\<close>

datatype failure_kind =
    FailureKindNone
  | ProviderFailureCapacityUnavailable
  | ProviderFailureInvalidRequest
  | ProviderFailureAuthentication
  | ProviderFailureRateLimited
  | ProviderFailureTransport
  | ProviderFailureInternal
  | FailureKindOther string

datatype side_effect =
    SideEffectUnstated
  | SideEffectNone
  | SideEffectIndeterminate
  | SideEffectOther string

record provider_failure =
  pf_Kind :: failure_kind
  pf_Retryable :: bool
  pf_SideEffect :: side_effect

datatype sentinel =
    SentinelIdempotencyConflict
  | SentinelLaunchTimeout
  | SentinelLaunchIndeterminate
  | SentinelRetryableFailure
  | SentinelRegistryAuthentication

text \<open>An adapter's error as the two questions asked of it: \<^verbatim>\<open>errors.As\<close> a provider failure,
  and \<^verbatim>\<open>errors.Is\<close> one of the sentinels.\<close>

record adapter_error =
  ae_Provider :: "provider_failure option"
  ae_Is :: "sentinel list"

record launch_failure_data =
  lf_ProviderKind :: failure_kind
  lf_Code :: string
  lf_Message :: string
  lf_Retryable :: bool
  lf_SideEffect :: side_effect
  lf_LaunchKey :: string

record provider_error =
  pe_Code :: string
  pe_Message :: string
  pe_Retryable :: bool
  pe_SideEffect :: side_effect
  pe_LaunchKey :: string

definition provider_error_Validate :: "provider_error \<Rightarrow> string option" where
  "provider_error_Validate e = first_case
     [(pe_Code e = empty_string, ''code is required''),
      (pe_Message e = empty_string, ''message is required''),
      (pe_LaunchKey e = empty_string, ''launch_key is required''),
      (pe_SideEffect e \<notin> {SideEffectUnstated, SideEffectNone, SideEffectIndeterminate},
         ''unknown side effect certainty'')]"

definition publicProviderFailure :: "failure_kind \<Rightarrow> string \<times> string" where
  "publicProviderFailure kind = (case kind of
     ProviderFailureCapacityUnavailable \<Rightarrow> (''PROVIDER_CAPACITY_UNAVAILABLE'', ''Provider capacity is unavailable.'')
   | ProviderFailureInvalidRequest \<Rightarrow> (''PROVIDER_INVALID_REQUEST'', ''Provider rejected the launch request.'')
   | ProviderFailureAuthentication \<Rightarrow> (''PROVIDER_AUTHENTICATION_FAILED'', ''Provider authentication failed.'')
   | ProviderFailureRateLimited \<Rightarrow> (''PROVIDER_RATE_LIMITED'', ''Provider rate limit was exhausted.'')
   | ProviderFailureTransport \<Rightarrow> (''PROVIDER_TRANSPORT_FAILURE'', ''Provider transport failed.'')
   | _ \<Rightarrow> (''PROVIDER_INTERNAL_ERROR'', ''Provider operation failed.''))"

definition launchFailureFrom :: "adapter_error \<Rightarrow> string \<Rightarrow> launch_failure_data" where
  "launchFailureFrom err launchKey = (case ae_Provider err of
     Some f \<Rightarrow> \<lparr>lf_ProviderKind = pf_Kind f, lf_Code = empty_string, lf_Message = empty_string,
                lf_Retryable = pf_Retryable f, lf_SideEffect = pf_SideEffect f, lf_LaunchKey = launchKey\<rparr>
   | None \<Rightarrow>
       (let failure = \<lparr>lf_ProviderKind = FailureKindNone, lf_Code = ''ADAPTER_ERROR'',
              lf_Message = ''Adapter operation failed.'', lf_Retryable = True,
              lf_SideEffect = SideEffectUnstated, lf_LaunchKey = launchKey\<rparr> in
        if SentinelIdempotencyConflict \<in> set (ae_Is err)
          then failure\<lparr>lf_Code := ''ADAPTER_IDEMPOTENCY_CONFLICT'', lf_Retryable := False\<rparr>
        else if SentinelLaunchTimeout \<in> set (ae_Is err)
          then failure\<lparr>lf_Code := ''ADAPTER_LAUNCH_TIMEOUT'', lf_SideEffect := SideEffectIndeterminate\<rparr>
        else if SentinelLaunchIndeterminate \<in> set (ae_Is err)
          then failure\<lparr>lf_Code := ''ADAPTER_LAUNCH_INDETERMINATE'', lf_SideEffect := SideEffectIndeterminate\<rparr>
        else if SentinelRetryableFailure \<in> set (ae_Is err)
          then failure\<lparr>lf_Code := ''ADAPTER_RETRYABLE_FAILURE''\<rparr>
        else if SentinelRegistryAuthentication \<in> set (ae_Is err)
          then failure\<lparr>lf_Code := ''ADAPTER_REGISTRY_AUTHENTICATION_FAILED'',
                       lf_Message := ''Registry authentication failed.'', lf_Retryable := False\<rparr>
        else failure))"

definition failure_publicData :: "launch_failure_data \<Rightarrow> provider_error" where
  "failure_publicData f =
     (let (code, message) = (if lf_ProviderKind f \<noteq> FailureKindNone
                             then publicProviderFailure (lf_ProviderKind f)
                             else (lf_Code f, lf_Message f))
      in \<lparr>pe_Code = code, pe_Message = message, pe_Retryable = lf_Retryable f,
          pe_SideEffect = lf_SideEffect f, pe_LaunchKey = lf_LaunchKey f\<rparr>)"

definition failure_replacementEligible :: "launch_failure_data \<Rightarrow> bool" where
  "failure_replacementEligible f \<longleftrightarrow>
     lf_ProviderKind f = ProviderFailureCapacityUnavailable \<and> lf_Retryable f
     \<and> lf_SideEffect f = SideEffectNone"

definition failure_indeterminate :: "launch_failure_data \<Rightarrow> bool" where
  "failure_indeterminate f \<longleftrightarrow> lf_SideEffect f = SideEffectIndeterminate"

definition validProviderFailureKind :: "failure_kind \<Rightarrow> bool" where
  "validProviderFailureKind kind = (case kind of FailureKindOther _ \<Rightarrow> False | _ \<Rightarrow> True)"

definition publicAdapterError :: "adapter_error \<Rightarrow> string \<Rightarrow> provider_error" where
  "publicAdapterError err launchKey = (case ae_Provider err of
     Some f \<Rightarrow> (let (code, message) = publicProviderFailure (pf_Kind f)
                in \<lparr>pe_Code = code, pe_Message = message, pe_Retryable = pf_Retryable f,
                    pe_SideEffect = pf_SideEffect f, pe_LaunchKey = launchKey\<rparr>)
   | None \<Rightarrow>
       (let public = \<lparr>pe_Code = ''ADAPTER_ERROR'', pe_Message = ''Adapter operation failed.'',
              pe_Retryable = True, pe_SideEffect = SideEffectUnstated, pe_LaunchKey = launchKey\<rparr> in
        if SentinelIdempotencyConflict \<in> set (ae_Is err)
          then public\<lparr>pe_Code := ''ADAPTER_IDEMPOTENCY_CONFLICT'', pe_Retryable := False\<rparr>
        else if SentinelLaunchTimeout \<in> set (ae_Is err)
          then public\<lparr>pe_Code := ''ADAPTER_LAUNCH_TIMEOUT'', pe_SideEffect := SideEffectIndeterminate\<rparr>
        else if SentinelLaunchIndeterminate \<in> set (ae_Is err)
          then public\<lparr>pe_Code := ''ADAPTER_LAUNCH_INDETERMINATE'', pe_SideEffect := SideEffectIndeterminate\<rparr>
        else if SentinelRetryableFailure \<in> set (ae_Is err)
          then public\<lparr>pe_Code := ''ADAPTER_RETRYABLE_FAILURE''\<rparr>
        else if SentinelRegistryAuthentication \<in> set (ae_Is err)
          then public\<lparr>pe_Code := ''ADAPTER_REGISTRY_AUTHENTICATION_FAILED'',
                      pe_Message := ''Registry authentication failed.'', pe_Retryable := False\<rparr>
        else public))"

subsection \<open>Launches and observations\<close>

datatype external_phase =
    ExternalPhaseQueued
  | ExternalPhaseRunning
  | ExternalPhaseSucceeded
  | ExternalPhaseFailed
  | ExternalPhaseCancelled
  | ExternalPhaseReleased
  | ExternalPhaseOther string

definition phase_Exited :: "external_phase \<Rightarrow> bool" where
  "phase_Exited p \<longleftrightarrow> p = ExternalPhaseSucceeded \<or> p = ExternalPhaseFailed"

definition phase_Valid :: "external_phase \<Rightarrow> bool" where
  "phase_Valid p = (case p of ExternalPhaseOther _ \<Rightarrow> False | _ \<Rightarrow> True)"

definition disposition_Valid :: "disposition \<Rightarrow> bool" where
  "disposition_Valid d \<longleftrightarrow> d = DispositionRelease \<or> d = DispositionTerminate"

record environment_binding =
  eb_Name :: string
  eb_Value :: "string option"

record launch_request =
  lq_OperationKey :: string
  lq_RequestHash :: string
  lq_RunID :: string
  lq_AttemptID :: string
  lq_WorkloadID :: string
  lq_WorkloadRevisionID :: string
  lq_OwnershipToken :: string
  lq_LaunchKey :: string
  lq_CleanupLocator :: string
  lq_Image :: string
  lq_Platform :: platform
  lq_Entrypoint :: "string list option"
  lq_Args :: "string list"
  lq_Environment :: "environment_binding list"
  lq_Ports :: "port_spec list"
  lq_Resources :: resource_requirements
  lq_CacheMounts :: "cache_requirement list"
  lq_MaxRuntimeSeconds :: int64
  lq_SelectedOfferSnapshotID :: string
  lq_SelectedOfferConnectionID :: string
  lq_SelectedOfferAdapterType :: string
  lq_SelectedOfferNativeRef :: string
  lq_SelectedOfferLane :: execution_lane
  lq_Disposition :: disposition

record launch_receipt =
  lr_ExternalID :: string
  lr_LaunchKey :: string
  lr_OwnershipToken :: string
  lr_CleanupLocator :: string
  lr_Phase :: external_phase
  lr_AcceptedAt :: time
  lr_Duplicate :: bool

record external_observation =
  eo_ExternalID :: string
  eo_LaunchKey :: string
  eo_Phase :: external_phase
  eo_ObservedAt :: time
  eo_StartedAt :: "time option"
  eo_ExitCode :: "int option"

definition EstablishedStart :: "external_observation \<Rightarrow> time option" where
  "EstablishedStart o' = (case eo_StartedAt o' of
     None \<Rightarrow> None
   | Some s \<Rightarrow>
       if time_is_zero s \<or> eo_ObservedAt o' < s then None
       else if eo_Phase o' \<noteq> ExternalPhaseRunning \<and> \<not> phase_Exited (eo_Phase o') then None
       else Some s)"

definition EnvKind :: "string option \<Rightarrow> string" where
  "EnvKind v = (case v of Some _ \<Rightarrow> ''literal'' | None \<Rightarrow> ''empty'')"

definition publicLaunchRequest :: "launch_request \<Rightarrow> launch_request" where
  "publicLaunchRequest req =
     req\<lparr>lq_Environment :=
       map (\<lambda>b. \<lparr>eb_Name = eb_Name b, eb_Value = Some (EnvKind (eb_Value b))\<rparr>) (lq_Environment req)\<rparr>"

definition isTerminal :: "external_phase \<Rightarrow> bool" where
  "isTerminal p \<longleftrightarrow> p = ExternalPhaseSucceeded \<or> p = ExternalPhaseFailed
     \<or> p = ExternalPhaseCancelled \<or> p = ExternalPhaseReleased"

datatype run_outcome =
    RunOutcomeSucceeded
  | RunOutcomeFailed
  | RunOutcomeCancelled
  | RunOutcomeOther string

definition outcome_Valid :: "run_outcome \<Rightarrow> bool" where
  "outcome_Valid r = (case r of RunOutcomeOther _ \<Rightarrow> False | _ \<Rightarrow> True)"

definition outcomeForPhase :: "external_phase \<Rightarrow> run_outcome" where
  "outcomeForPhase p = (case p of
     ExternalPhaseSucceeded \<Rightarrow> RunOutcomeSucceeded
   | ExternalPhaseCancelled \<Rightarrow> RunOutcomeCancelled
   | _ \<Rightarrow> RunOutcomeFailed)"

subsection \<open>The facts of a Run's stream\<close>

record run_requested_data =
  rq_RunID :: string
  rq_Workload :: workload_revision

record attempt_data =
  at_AttemptID :: string
  at_LaunchKey :: string
  at_OwnershipToken :: string
  at_CleanupLocator :: string

record cancel_requested_data =
  cn_Reason :: string
  cn_LaunchKey :: string

record execution_started_data =
  xs_LaunchKey :: string
  xs_StartedAt :: time

record cleanup_confirmed_data =
  cf_LaunchKey :: string
  cf_Disposition :: disposition

record cleanup_error =
  ce_Provider :: provider_error
  ce_Disposition :: disposition

text \<open>\<open>rp_ReadyAt\<close> is what decoding the report's body as a readiness moment gives: \<open>None\<close> when it
  does not decode, the zero time when it states no moment.\<close>

record run_reported_data =
  rp_Type :: string
  rp_ReadyAt :: "time option"
  rp_ExitCode :: "int option"

record capacity_requested_data =
  cq_RentalID :: string
  cq_NodeID :: string
  cq_Generation :: uint64
  cq_ConnectionID :: string
  cq_OfferSnapshotID :: string
  cq_NativeRef :: string
  cq_RatePerHourUSD :: float64
  cq_EnrolmentDeadlineAt :: time
  cq_RequestedAt :: time

datatype capacity_state =
    CapacityStateRequested
  | CapacityStateStarting
  | CapacityStateActive
  | CapacityStateStopping
  | CapacityStateStopped
  | CapacityStateTerminated
  | CapacityStateUnknown
  | CapacityStateOther string

definition capacity_state_Valid :: "capacity_state \<Rightarrow> bool" where
  "capacity_state_Valid s = (case s of CapacityStateOther _ \<Rightarrow> False | _ \<Rightarrow> True)"

record capacity_accepted_data =
  cp_NativeRef :: string
  cp_State :: capacity_state
  cp_AcceptedAt :: time
  cp_Duplicate :: bool
  cp_Adopted :: bool

text \<open>\<open>co_Stage\<close> is \<open>None\<close> for a string that names no launch stage.\<close>

record capacity_stage_data =
  co_Stage :: "launch_stage option"
  co_FinishedAt :: time
  co_Seconds :: float64
  co_Bounded :: bool

record capacity_reclaimed_data =
  rc_RentalID :: string
  rc_NodeID :: string
  rc_OfferSnapshotID :: string
  rc_Policy :: string
  rc_DeadlineSeconds :: float64
  rc_WaitedSeconds :: float64
  rc_Disposition :: disposition

datatype run_fact =
    FactRunRequested run_requested_data
  | FactBookingDecided booking_decision
  | FactAdmissionDeferred admission_deferral
  | FactAdmissionRefused admission_deferral
  | FactBookingDispatched booking
  | FactAttemptCreated attempt_data
  | FactCapacityRequested capacity_requested_data
  | FactCapacityAccepted capacity_accepted_data
  | FactCapacityStageObserved capacity_stage_data
  | FactCapacityReclaimed capacity_reclaimed_data
  | FactLaunchIntentRecorded launch_request
  | FactLaunchAccepted launch_receipt
  | FactLaunchIndeterminate launch_failure_data
  | FactLaunchFailed launch_failure_data
  | FactCancelRequested cancel_requested_data
  | FactCancelAccepted string
  | FactExternalStateObserved external_observation
  | FactExecutionStarted execution_started_data
  | FactRunReported run_reported_data
  | FactRunOutcomeRecorded run_outcome
  | FactCleanupRequested string
  | FactCleanupFailed cleanup_error
  | FactCleanupConfirmed cleanup_confirmed_data
  | FactRunClosed bool
  | FactUnknown string
  | FactUndecodable string

subsection \<open>Event types\<close>

definition EventRunRequested :: string where "EventRunRequested = ''compute.run.requested.v1''"
definition EventBookingDecided :: string where "EventBookingDecided = ''compute.run.booking_decided.v1''"
definition EventAdmissionDeferred :: string where "EventAdmissionDeferred = ''compute.run.admission_deferred.v1''"
definition EventAdmissionRefused :: string where "EventAdmissionRefused = ''compute.run.admission_refused.v1''"
definition EventLaunchFailed :: string where "EventLaunchFailed = ''compute.run.launch_failed.v1''"
definition EventRunClosed :: string where "EventRunClosed = ''compute.run.closed.v1''"

lemmas event_type_defs = EventRunRequested_def EventBookingDecided_def EventAdmissionDeferred_def
  EventAdmissionRefused_def EventLaunchFailed_def EventRunClosed_def

fun fact_type :: "run_fact \<Rightarrow> string" where
  "fact_type (FactRunRequested _) = EventRunRequested"
| "fact_type (FactBookingDecided _) = EventBookingDecided"
| "fact_type (FactAdmissionDeferred _) = EventAdmissionDeferred"
| "fact_type (FactAdmissionRefused _) = EventAdmissionRefused"
| "fact_type (FactBookingDispatched _) = ''compute.run.booking_dispatched.v1''"
| "fact_type (FactAttemptCreated _) = ''compute.run.attempt_created.v1''"
| "fact_type (FactCapacityRequested _) = ''compute.run.capacity_requested.v1''"
| "fact_type (FactCapacityAccepted _) = ''compute.run.capacity_accepted.v1''"
| "fact_type (FactCapacityStageObserved _) = ''compute.run.capacity_stage_observed.v1''"
| "fact_type (FactCapacityReclaimed _) = ''compute.run.capacity_reclaimed.v1''"
| "fact_type (FactLaunchIntentRecorded _) = ''compute.run.launch_intent_recorded.v1''"
| "fact_type (FactLaunchAccepted _) = ''compute.run.launch_accepted.v1''"
| "fact_type (FactLaunchIndeterminate _) = ''compute.run.launch_indeterminate.v1''"
| "fact_type (FactLaunchFailed _) = EventLaunchFailed"
| "fact_type (FactCancelRequested _) = ''compute.run.cancel_requested.v1''"
| "fact_type (FactCancelAccepted _) = ''compute.run.cancel_accepted.v1''"
| "fact_type (FactExternalStateObserved _) = ''compute.run.external_state_observed.v1''"
| "fact_type (FactExecutionStarted _) = ''compute.run.execution_started.v1''"
| "fact_type (FactRunReported _) = ''compute.run.reported.v1''"
| "fact_type (FactRunOutcomeRecorded _) = ''compute.run.outcome_recorded.v1''"
| "fact_type (FactCleanupRequested _) = ''compute.run.cleanup_requested.v1''"
| "fact_type (FactCleanupFailed _) = ''compute.run.cleanup_failed.v1''"
| "fact_type (FactCleanupConfirmed _) = ''compute.run.cleanup_confirmed.v1''"
| "fact_type (FactRunClosed _) = EventRunClosed"
| "fact_type (FactUnknown t) = t"
| "fact_type (FactUndecodable t) = t"

datatype run_error =
    InvalidRunEvent string
  | RunRequestedNotFound
  | AttemptWithoutLaunchIntent
  | ClosedWithoutOutcome

subsection \<open>What a payload has to say\<close>

definition invalidRunRequested :: "run_requested_data \<Rightarrow> string option" where
  "invalidRunRequested d = first_case [(rq_RunID d = empty_string, ''run_id is required'')]"

definition booking_is :: "(booking \<Rightarrow> bool) \<Rightarrow> booking option \<Rightarrow> bool" where
  "booking_is P b = (case b of None \<Rightarrow> False | Some b \<Rightarrow> P b)"

definition invalidBookingDecision :: "booking_decision \<Rightarrow> string option" where
  "invalidBookingDecision d =
     (let selected = bd_SelectedOfferSnapshotID d; b = bd_Booking d in
      first_case
       [(bd_ID d = empty_string, ''decision.id is required''),
        (bd_RunID d = empty_string, ''decision.run_id is required''),
        (time_is_zero (bd_EvaluatedAt d), ''decision.evaluated_at is required''),
        (bd_ModelVersion d = empty_string, ''decision.model_version is required''),
        (selected = empty_string \<and> ''NO_FEASIBLE_OFFERS'' \<notin> set (bd_SelectionReasonCodes d),
           ''decision.selected_offer_snapshot_id is required''),
        (selected \<noteq> empty_string \<and> b = None, ''decision.booking is required''),
        (selected = empty_string \<and> b \<noteq> None, ''decision.booking requires a selected offer''),
        (booking_is (\<lambda>b. b_ID b = empty_string) b, ''decision.booking.id is required''),
        (booking_is (\<lambda>b. b_RentalID b = empty_string) b, ''decision.booking.rental_id is required''),
        (booking_is (\<lambda>b. b_State b \<noteq> BookingStateRunning \<and> b_State b \<noteq> BookingStateQueued) b,
           ''decision.booking.state is invalid''),
        (booking_is (\<lambda>b. b_ScheduleVersion b = 0) b, ''decision.booking.schedule_version is required''),
        ((bd_Supersedes d = empty_string) \<noteq> (bd_SupersedesReason d = empty_string),
           ''decision.supersedes and decision.supersedes_reason are stated together'')])"

definition invalidAdmissionDeferral :: "admission_deferral \<Rightarrow> string option" where
  "invalidAdmissionDeferral d = first_case
     [(df_Reason d = empty_string, ''deferral.reason is required''),
      (\<not> class_Known (df_Class d), ''deferral names a service class Mercator cannot price'')]"

definition invalidAttempt :: "attempt_data \<Rightarrow> string option" where
  "invalidAttempt d = first_case
     [(at_AttemptID d = empty_string, ''attempt_id is required''),
      (at_LaunchKey d = empty_string, ''launch_key is required''),
      (at_OwnershipToken d = empty_string, ''ownership_token is required''),
      (at_CleanupLocator d = empty_string, ''cleanup_locator is required'')]"

definition invalidLaunchRequest :: "launch_request \<Rightarrow> string option" where
  "invalidLaunchRequest d = first_case
     [(lq_OperationKey d = empty_string, ''operation_key is required''),
      (lq_RequestHash d = empty_string, ''request_hash is required''),
      (lq_RunID d = empty_string, ''run_id is required''),
      (lq_AttemptID d = empty_string, ''attempt_id is required''),
      (lq_LaunchKey d = empty_string, ''launch_key is required''),
      (lq_OwnershipToken d = empty_string, ''ownership_token is required''),
      (lq_CleanupLocator d = empty_string, ''cleanup_locator is required''),
      (lq_Image d = empty_string, ''image is required''),
      (lq_SelectedOfferSnapshotID d = empty_string, ''selected_offer_snapshot_id is required''),
      (lq_SelectedOfferConnectionID d = empty_string, ''selected_offer_connection_id is required''),
      (\<not> disposition_Valid (lq_Disposition d), ''unknown disposition'')]"

definition invalidLaunchReceipt :: "launch_receipt \<Rightarrow> string option" where
  "invalidLaunchReceipt d = first_case
     [(lr_ExternalID d = empty_string, ''external_id is required''),
      (lr_LaunchKey d = empty_string, ''launch_key is required''),
      (lr_OwnershipToken d = empty_string, ''ownership_token is required''),
      (lr_CleanupLocator d = empty_string, ''cleanup_locator is required''),
      (\<not> phase_Valid (lr_Phase d), ''unknown external phase''),
      (time_is_zero (lr_AcceptedAt d), ''accepted_at is required'')]"

definition invalidLaunchFailure :: "launch_failure_data \<Rightarrow> string option" where
  "invalidLaunchFailure d = (case provider_error_Validate (failure_publicData d) of
     Some reason \<Rightarrow> Some reason
   | None \<Rightarrow> first_case [(\<not> validProviderFailureKind (lf_ProviderKind d), ''unknown provider failure kind'')])"

definition invalidExecutionStarted :: "execution_started_data \<Rightarrow> string option" where
  "invalidExecutionStarted d = first_case
     [(xs_LaunchKey d = empty_string, ''launch_key is required''),
      (time_is_zero (xs_StartedAt d), ''started_at is required'')]"

definition invalidExternalObservation :: "external_observation \<Rightarrow> string option" where
  "invalidExternalObservation d = first_case
     [(eo_LaunchKey d = empty_string, ''launch_key is required''),
      (\<not> phase_Valid (eo_Phase d), ''unknown external phase''),
      (time_is_zero (eo_ObservedAt d), ''observed_at is required'')]"

definition cleanup_error_Validate :: "cleanup_error \<Rightarrow> string option" where
  "cleanup_error_Validate e = (case provider_error_Validate (ce_Provider e) of
     Some reason \<Rightarrow> Some reason
   | None \<Rightarrow> first_case [(\<not> disposition_Valid (ce_Disposition e), ''unknown disposition'')])"

definition RunReportReady :: string where
  "RunReportReady = ''ready''"

definition report_terminal :: "run_reported_data \<Rightarrow> bool" where
  "report_terminal r \<longleftrightarrow> rp_Type r = ''exit''"

definition report_readyAt :: "run_reported_data \<Rightarrow> time option" where
  "report_readyAt r =
     (if rp_Type r \<noteq> RunReportReady then None
      else case rp_ReadyAt r of
        None \<Rightarrow> None
      | Some t \<Rightarrow> if time_is_zero t then None else Some t)"

definition report_establishedReady :: "run_reported_data \<Rightarrow> time \<Rightarrow> time option \<Rightarrow> time option" where
  "report_establishedReady r reportedAt startedAt = (case report_readyAt r of
     None \<Rightarrow> None
   | Some moment \<Rightarrow>
       if reportedAt < moment then None
       else if (case startedAt of None \<Rightarrow> False | Some s \<Rightarrow> moment < s) then None
       else Some moment)"

definition report_validate :: "run_reported_data \<Rightarrow> string option" where
  "report_validate r = first_case
     [(rp_Type r = empty_string, ''type is required''),
      (report_terminal r \<and> rp_ExitCode r = None, ''exit reports require exit_code''),
      (\<not> report_terminal r \<and> rp_ExitCode r \<noteq> None, ''reports cannot include exit_code''),
      (rp_Type r = RunReportReady \<and> report_readyAt r = None, ''ready reports require data.ready_at'')]"

datatype run_report =
    NonterminalRunReport string "time option"
  | TerminalRunReport "time option" int

definition report_payload :: "run_report \<Rightarrow> run_reported_data" where
  "report_payload r = (case r of
     NonterminalRunReport t d \<Rightarrow> \<lparr>rp_Type = t, rp_ReadyAt = d, rp_ExitCode = None\<rparr>
   | TerminalRunReport d code \<Rightarrow> \<lparr>rp_Type = ''exit'', rp_ReadyAt = d, rp_ExitCode = Some code\<rparr>)"

definition NewRunReport :: "string \<Rightarrow> time option \<Rightarrow> int option \<Rightarrow> string + run_report" where
  "NewRunReport reportType data exitCode =
     (let payload = \<lparr>rp_Type = reportType, rp_ReadyAt = data, rp_ExitCode = exitCode\<rparr> in
      checked (report_validate payload)
        (if report_terminal payload then Inr (TerminalRunReport data (the exitCode))
         else Inr (NonterminalRunReport reportType data)))"

definition NewApplicationReadyReport :: "time \<Rightarrow> string + run_report" where
  "NewApplicationReadyReport readyAt = NewRunReport RunReportReady (Some readyAt) None"

subsection \<open>The state a Run's facts reduce to\<close>

record run_state =
  requested :: "run_requested_data option"
  bookingDecision :: "booking_decision option"
  attempt :: "attempt_data option"
  launchIntent :: "launch_request option"
  launchAccepted :: bool
  launchAcceptedAt :: time
  startedAt :: "time option"
  readyAt :: "time option"
  launchFailure :: "launch_failure_data option"
  deferral :: "admission_deferral option"
  deferredAt :: time
  queuedSince :: time
  selfImposedWait :: duration
  deferralCount :: int
  attemptCount :: int
  excluded :: "offer_exclusion list"
  capacity :: "capacity_requested_data option"
  capacityAccepted :: "capacity_accepted_data option"
  capacityStages :: "launch_stage set"
  lastCapacityStageAt :: time
  nodeEnrolled :: bool
  capacityReclaimed :: "capacity_reclaimed_data option"
  cancelRequested :: bool
  firstTerminal :: "run_outcome option"
  outcomeRecorded :: bool
  outcome :: run_outcome
  cleanupRequested :: bool
  cleanupFailure :: "cleanup_error option"
  cleanupConfirmed :: bool
  closed :: bool
  exitCode :: "int option"
  lastObservedPhase :: external_phase
  createdBy :: string
  cancelledBy :: string

definition no_state :: run_state where
  "no_state =
     \<lparr>requested = None, bookingDecision = None, attempt = None, launchIntent = None,
      launchAccepted = False, launchAcceptedAt = zero_time, startedAt = None, readyAt = None,
      launchFailure = None, deferral = None, deferredAt = zero_time, queuedSince = zero_time,
      selfImposedWait = 0, deferralCount = 0, attemptCount = 0, excluded = [], capacity = None,
      capacityAccepted = None, capacityStages = {}, lastCapacityStageAt = zero_time,
      nodeEnrolled = False, capacityReclaimed = None, cancelRequested = False, firstTerminal = None,
      outcomeRecorded = False, outcome = RunOutcomeOther empty_string, cleanupRequested = False,
      cleanupFailure = None, cleanupConfirmed = False, closed = False, exitCode = None,
      lastObservedPhase = ExternalPhaseOther empty_string, createdBy = empty_string,
      cancelledBy = empty_string\<rparr>"

definition externalObjectPossible :: "run_state \<Rightarrow> bool" where
  "externalObjectPossible st =
     (if launchIntent st = None then False
      else case launchFailure st of None \<Rightarrow> True | Some f \<Rightarrow> lf_SideEffect f \<noteq> SideEffectNone)"

definition state_replacementEligible :: "run_state \<Rightarrow> bool" where
  "state_replacementEligible st =
     (if capacityReclaimed st \<noteq> None then True
      else case launchFailure st of None \<Rightarrow> False | Some f \<Rightarrow> failure_replacementEligible f)"

definition exclude :: "string \<Rightarrow> exclusion_reason \<Rightarrow> run_state \<Rightarrow> run_state" where
  "exclude offerID reason st =
     (if offerID = empty_string then st
      else if ExcludedOffer (excluded st) offerID \<noteq> None then st
      else st\<lparr>excluded := excluded st @ [\<lparr>ox_OfferSnapshotID = offerID, ox_Reason = reason\<rparr>]\<rparr>)"

definition selfImposedSince :: "run_state \<Rightarrow> time \<Rightarrow> duration" where
  "selfImposedSince st now = (case deferral st of
     None \<Rightarrow> 0
   | Some d \<Rightarrow> if time_is_zero (deferredAt st) \<or> \<not> deferral_SelfImposed d then 0
              else time_sub now (deferredAt st))"

definition state_wait :: "run_state \<Rightarrow> time \<Rightarrow> wait" where
  "state_wait st now =
     (if time_is_zero (queuedSince st) then \<lparr>w_Seconds = 0, w_SelfImposedSeconds = 0\<rparr>
      else \<lparr>w_Seconds = duration_seconds (time_sub now (queuedSince st)),
            w_SelfImposedSeconds = duration_seconds (i64_add (selfImposedWait st) (selfImposedSince st now))\<rparr>)"

definition SupersededLaunchFailed :: string where
  "SupersededLaunchFailed = ''PREVIOUS_LAUNCH_FAILED''"
definition SupersededSelectedNothing :: string where
  "SupersededSelectedNothing = ''PREVIOUS_DECISION_SELECTED_NOTHING''"
definition SupersededCapacityReclaimed :: string where
  "SupersededCapacityReclaimed = ''PREVIOUS_CAPACITY_RECLAIMED''"

definition supersession :: "run_state \<Rightarrow> string \<times> string" where
  "supersession st = (case bookingDecision st of
     None \<Rightarrow> (empty_string, empty_string)
   | Some d \<Rightarrow>
       if capacityReclaimed st \<noteq> None then (bd_ID d, SupersededCapacityReclaimed)
       else if state_replacementEligible st then (bd_ID d, SupersededLaunchFailed)
       else (bd_ID d, SupersededSelectedNothing))"

definition placed :: "run_state \<Rightarrow> bool" where
  "placed st = (case bookingDecision st of
     None \<Rightarrow> False | Some d \<Rightarrow> bd_SelectedOfferSnapshotID d \<noteq> empty_string)"

definition bookingQueued :: "run_state \<Rightarrow> bool" where
  "bookingQueued st = (case bookingDecision st of
     None \<Rightarrow> False | Some d \<Rightarrow> booking_is (\<lambda>b. b_State b = BookingStateQueued) (bd_Booking d))"

definition launchIndeterminate :: "run_state \<Rightarrow> bool" where
  "launchIndeterminate st = (case launchFailure st of None \<Rightarrow> False | Some f \<Rightarrow> failure_indeterminate f)"

subsection \<open>Applying one fact\<close>

definition actorSubject :: "(string \<Rightarrow> string option) \<Rightarrow> string \<Rightarrow> string" where
  "actorSubject json_subject raw =
     (if raw = empty_string then empty_string
      else case json_subject raw of None \<Rightarrow> empty_string | Some subject \<Rightarrow> subject)"

definition ProvisioningStages :: "launch_stage list" where
  "ProvisioningStages = [StageAcquisition, StageBoot, StageAgentReady]"

definition valid_event :: "string option \<Rightarrow> run_state \<Rightarrow> run_error + run_state" where
  "valid_event reason st = (case reason of Some r \<Rightarrow> Inl (InvalidRunEvent r) | None \<Rightarrow> Inr st)"

definition close_self_imposed :: "time \<Rightarrow> run_state \<Rightarrow> run_state" where
  "close_self_imposed now st =
     st\<lparr>selfImposedWait := i64_add (selfImposedWait st) (selfImposedSince st now)\<rparr>"

definition new_attempt :: "attempt_data \<Rightarrow> run_state \<Rightarrow> run_state" where
  "new_attempt d st =
     st\<lparr>attempt := Some d, attemptCount := attemptCount st + 1, launchIntent := None,
        launchAccepted := False, launchAcceptedAt := zero_time, startedAt := None, readyAt := None,
        launchFailure := None, capacity := None, capacityAccepted := None, capacityStages := {},
        lastCapacityStageAt := zero_time, nodeEnrolled := False, capacityReclaimed := None\<rparr>"

definition dispatch_booking :: "booking \<Rightarrow> run_state \<Rightarrow> run_error + run_state" where
  "dispatch_booking b st = (case bookingDecision st of
     None \<Rightarrow> Inl (InvalidRunEvent ''Booking dispatch requires a Booking Decision'')
   | Some d \<Rightarrow> (case bd_Booking d of
       None \<Rightarrow> Inl (InvalidRunEvent ''Booking dispatch requires a Booking Decision'')
     | Some decided \<Rightarrow>
         if b_ID b \<noteq> b_ID decided \<or> b_RunID b \<noteq> bd_RunID d \<or> b_State b \<noteq> BookingStateRunning
         then Inl (InvalidRunEvent ''dispatched Booking does not match its Booking Decision'')
         else Inr (st\<lparr>bookingDecision := Some (d\<lparr>bd_Booking := Some b\<rparr>)\<rparr>)))"

definition accept_capacity :: "capacity_accepted_data \<Rightarrow> run_state \<Rightarrow> run_error + run_state" where
  "accept_capacity d st = (case capacity st of
     None \<Rightarrow> Inl (InvalidRunEvent ''accepted capacity requires a recorded capacity request'')
   | Some c \<Rightarrow>
       if \<not> capacity_state_Valid (cp_State d)
       then Inl (InvalidRunEvent ''accepted capacity states a lifecycle state Mercator knows'')
       else Inr (st\<lparr>capacityAccepted := Some d, capacity := Some (c\<lparr>cq_NativeRef := cp_NativeRef d\<rparr>)\<rparr>))"

definition observe_stage :: "capacity_stage_data \<Rightarrow> run_state \<Rightarrow> run_error + run_state" where
  "observe_stage d st = (case co_Stage d of
     None \<Rightarrow> Inl (InvalidRunEvent ''observed stage is one a machine being built goes through'')
   | Some stage \<Rightarrow>
       if stage \<notin> set ProvisioningStages
       then Inl (InvalidRunEvent ''observed stage is one a machine being built goes through'')
       else Inr (st\<lparr>capacityStages := insert stage (capacityStages st),
                    lastCapacityStageAt := co_FinishedAt d,
                    nodeEnrolled := (stage = StageAgentReady \<or> nodeEnrolled st)\<rparr>))"

definition fail_launch :: "launch_failure_data \<Rightarrow> run_state \<Rightarrow> run_state" where
  "fail_launch d st =
     (let st' = st\<lparr>launchFailure := Some d\<rparr> in
      case launchIntent st of
        None \<Rightarrow> st'
      | Some i \<Rightarrow> if failure_replacementEligible d
                  then exclude (lq_SelectedOfferSnapshotID i) OfferRefusedTheLaunch st' else st')"

definition end_first :: "run_outcome \<Rightarrow> run_state \<Rightarrow> run_state" where
  "end_first result st = (if firstTerminal st = None then st\<lparr>firstTerminal := Some result\<rparr> else st)"

definition observe_external :: "external_observation \<Rightarrow> run_state \<Rightarrow> run_state" where
  "observe_external d st =
     (let st1 = st\<lparr>lastObservedPhase := eo_Phase d\<rparr>;
          st2 = (if eo_ExitCode d \<noteq> None \<and> phase_Exited (eo_Phase d) \<and> firstTerminal st1 = None
                 then st1\<lparr>exitCode := eo_ExitCode d\<rparr> else st1)
      in if isTerminal (eo_Phase d) then end_first (outcomeForPhase (eo_Phase d)) st2 else st2)"

definition start_execution :: "time \<Rightarrow> run_state \<Rightarrow> run_state" where
  "start_execution moment st =
     (let st' = st\<lparr>startedAt := Some moment\<rparr> in
      case readyAt st of
        None \<Rightarrow> st'
      | Some r \<Rightarrow> if r < moment then st'\<lparr>readyAt := None\<rparr> else st')"

definition report_run :: "time \<Rightarrow> run_reported_data \<Rightarrow> run_state \<Rightarrow> run_state" where
  "report_run occurredAt d st =
     (let st' = (case report_establishedReady d occurredAt (startedAt st) of
                   None \<Rightarrow> st
                 | Some ready \<Rightarrow> if readyAt st = None then st\<lparr>readyAt := Some ready\<rparr> else st)
      in if report_terminal d \<and> firstTerminal st' = None
         then st'\<lparr>exitCode := rp_ExitCode d,
                  firstTerminal := Some (if rp_ExitCode d = Some 0 then RunOutcomeSucceeded else RunOutcomeFailed)\<rparr>
         else st')"

definition apply_fact ::
  "(string \<Rightarrow> string option) \<Rightarrow> time \<Rightarrow> string \<Rightarrow> run_fact \<Rightarrow> run_state \<Rightarrow> run_error + run_state" where
  "apply_fact json_subject occurredAt actor f st = (case f of
     FactRunRequested d \<Rightarrow>
       valid_event (invalidRunRequested d)
         (st\<lparr>requested := Some d, createdBy := actorSubject json_subject actor\<rparr>)
   | FactBookingDecided d \<Rightarrow>
       valid_event (invalidBookingDecision d)
         (let st' = st\<lparr>bookingDecision := Some d\<rparr> in
          if bd_SelectedOfferSnapshotID d \<noteq> empty_string
          then (close_self_imposed occurredAt st')\<lparr>deferral := None\<rparr> else st')
   | FactAdmissionDeferred d \<Rightarrow>
       valid_event (invalidAdmissionDeferral d)
         ((close_self_imposed occurredAt st)\<lparr>deferral := Some d, deferredAt := occurredAt,
            deferralCount := deferralCount st + 1,
            queuedSince := (if time_is_zero (queuedSince st) then occurredAt else queuedSince st)\<rparr>)
   | FactAdmissionRefused d \<Rightarrow>
       valid_event (invalidAdmissionDeferral d)
         (st\<lparr>deferral := Some d, deferralCount := deferralCount st + 1\<rparr>)
   | FactBookingDispatched b \<Rightarrow> dispatch_booking b st
   | FactAttemptCreated d \<Rightarrow> valid_event (invalidAttempt d) (new_attempt d st)
   | FactCapacityRequested d \<Rightarrow>
       valid_event (first_case
           [(cq_RentalID d = empty_string \<or> cq_NodeID d = empty_string \<or> cq_OfferSnapshotID d = empty_string,
             ''requested capacity names its Rental, its node, and the offer it comes from'')])
         (st\<lparr>capacity := Some d\<rparr>)
   | FactCapacityAccepted d \<Rightarrow> accept_capacity d st
   | FactCapacityStageObserved d \<Rightarrow> observe_stage d st
   | FactCapacityReclaimed d \<Rightarrow>
       valid_event (first_case
           [(rc_RentalID d = empty_string \<or> rc_Policy d = empty_string,
             ''reclaimed capacity names its Rental and the policy that decided it'')])
         (exclude (rc_OfferSnapshotID d) OfferCapacityReclaimed (st\<lparr>capacityReclaimed := Some d\<rparr>))
   | FactLaunchIntentRecorded d \<Rightarrow> valid_event (invalidLaunchRequest d) (st\<lparr>launchIntent := Some d\<rparr>)
   | FactLaunchAccepted d \<Rightarrow>
       valid_event (invalidLaunchReceipt d) (st\<lparr>launchAccepted := True, launchAcceptedAt := occurredAt\<rparr>)
   | FactLaunchIndeterminate d \<Rightarrow> valid_event (invalidLaunchFailure d) (fail_launch d st)
   | FactLaunchFailed d \<Rightarrow> valid_event (invalidLaunchFailure d) (fail_launch d st)
   | FactCancelRequested d \<Rightarrow>
       valid_event (first_case
           [(cn_Reason d = empty_string \<and> cn_LaunchKey d = empty_string, ''reason or launch_key is required'')])
         (end_first RunOutcomeCancelled
           (st\<lparr>cancelRequested := True, cancelledBy := actorSubject json_subject actor\<rparr>))
   | FactCancelAccepted launchKey \<Rightarrow>
       valid_event (first_case [(launchKey = empty_string, ''launch_key is required'')]) st
   | FactExternalStateObserved d \<Rightarrow> valid_event (invalidExternalObservation d) (observe_external d st)
   | FactExecutionStarted d \<Rightarrow>
       valid_event (invalidExecutionStarted d) (start_execution (xs_StartedAt d) st)
   | FactRunReported d \<Rightarrow> valid_event (report_validate d) (report_run occurredAt d st)
   | FactRunOutcomeRecorded r \<Rightarrow>
       valid_event (first_case [(\<not> outcome_Valid r, ''unknown run outcome'')])
         (st\<lparr>outcomeRecorded := True, outcome := r\<rparr>)
   | FactCleanupRequested launchKey \<Rightarrow>
       valid_event (first_case [(launchKey = empty_string, ''launch_key is required'')])
         (st\<lparr>cleanupRequested := True\<rparr>)
   | FactCleanupFailed e \<Rightarrow> valid_event (cleanup_error_Validate e) (st\<lparr>cleanupFailure := Some e\<rparr>)
   | FactCleanupConfirmed d \<Rightarrow>
       valid_event (first_case
           [(cf_LaunchKey d = empty_string, ''launch_key is required''),
            (\<not> disposition_Valid (cf_Disposition d), ''unknown disposition'')])
         (st\<lparr>cleanupConfirmed := True\<rparr>)
   | FactRunClosed isClosed \<Rightarrow>
       valid_event (first_case [(\<not> isClosed, ''closed must be true'')]) (st\<lparr>closed := True\<rparr>)
   | FactUnknown _ \<Rightarrow> Inl (InvalidRunEvent ''unknown event type'')
   | FactUndecodable _ \<Rightarrow> Inl (InvalidRunEvent ''payload must be a JSON object''))"

definition applyStoredEvent ::
  "(string \<Rightarrow> string option) \<Rightarrow> run_fact stored_event \<Rightarrow> run_state \<Rightarrow> run_error + run_state" where
  "applyStoredEvent json_subject stored st =
     (if ev_SchemaVersion stored \<noteq> 1 then Inl (InvalidRunEvent ''unsupported schema version'')
      else apply_fact json_subject (ev_OccurredAt stored) (ev_Actor stored) (ev_Data stored) st)"

subsection \<open>Reducing a stream, and the record read from it\<close>

definition state_validate :: "run_state \<Rightarrow> run_error option" where
  "state_validate st = first_case
     [(requested st = None, RunRequestedNotFound),
      (launchIntent st = None \<and> attempt st \<noteq> None, AttemptWithoutLaunchIntent),
      (closed st \<and> \<not> outcomeRecorded st, ClosedWithoutOutcome)]"

definition reduceRun ::
  "(string \<Rightarrow> string option) \<Rightarrow> run_fact stored_event list \<Rightarrow> run_error + run_state" where
  "reduceRun json_subject events = (case reduce_facts (applyStoredEvent json_subject) events no_state of
     Inl e \<Rightarrow> Inl e
   | Inr st \<Rightarrow> checked (state_validate st) (Inr st))"

datatype cleanup_state = CleanupNotRequired | CleanupPending | CleanupConfirmed | CleanupBlocked

record run_record =
  rec_ID :: string
  rec_WorkloadRevisionID :: string
  rec_Phase :: string
  rec_Outcome :: run_outcome
  rec_ExitCode :: "int option"
  rec_Cleanup :: cleanup_state
  rec_Disposition :: disposition
  rec_CleanupError :: "cleanup_error option"
  rec_StartedAt :: "time option"
  rec_ReadyAt :: "time option"
  rec_ServiceClass :: service_class
  rec_QueuedSince :: "time option"
  rec_Admission :: "admission_deferral option"
  rec_Closed :: bool
  rec_CreatedBy :: string
  rec_CancelledBy :: string

text \<open>The record of a state nothing requested is the nil dereference of \<open>state.requested\<close>.\<close>

definition runRecordFromState :: "string \<Rightarrow> run_state \<Rightarrow> run_record option" where
  "runRecordFromState runID st = (case requested st of
     None \<Rightarrow> None
   | Some r \<Rightarrow>
      (let running = (launchAccepted st \<or> launchIndeterminate st);
           blocked = (cleanupFailure st \<noteq> None \<and> \<not> cleanupConfirmed st) in
       Some
        \<lparr>rec_ID = runID,
         rec_WorkloadRevisionID = wr_ID (rq_Workload r),
         rec_Phase =
           (if closed st then ''closed''
            else if cleanupRequested st then ''cleaning_up''
            else if running then ''running''
            else if launchIntent st \<noteq> None then ''launching''
            else if deferral st \<noteq> None \<and> \<not> placed st then ''queued''
            else ''requested''),
         rec_Outcome = (if outcomeRecorded st then outcome st else RunOutcomeOther empty_string),
         rec_ExitCode = exitCode st,
         rec_Cleanup =
           (if cleanupConfirmed st then CleanupConfirmed
            else if blocked then CleanupBlocked
            else if running \<or> cleanupRequested st then CleanupPending
            else CleanupNotRequired),
         rec_Disposition =
           (case launchIntent st of
              None \<Rightarrow> DispositionOther empty_string
            | Some i \<Rightarrow> if lq_Disposition i = DispositionOther empty_string then DispositionRelease
                        else lq_Disposition i),
         rec_CleanupError = (if blocked then cleanupFailure st else None),
         rec_StartedAt = startedAt st,
         rec_ReadyAt = readyAt st,
         rec_ServiceClass = pp_Class (ws_Placement (wr_Spec (rq_Workload r))),
         rec_QueuedSince = (if time_is_zero (queuedSince st) then None else Some (queuedSince st)),
         rec_Admission = deferral st,
         rec_Closed = closed st,
         rec_CreatedBy = createdBy st,
         rec_CancelledBy = cancelledBy st\<rparr>))"

subsection \<open>What one fact may change\<close>

lemma valid_event_Inr [simp]: "valid_event r st = Inr st' \<longleftrightarrow> r = None \<and> st' = st"
  by (auto simp: valid_event_def split: option.splits)

text \<open>The helpers of the reducer change only the fields they are about.\<close>

lemma exclude_fields [simp]:
  "firstTerminal (exclude i r st) = firstTerminal st" "exitCode (exclude i r st) = exitCode st"
  "queuedSince (exclude i r st) = queuedSince st" "deferral (exclude i r st) = deferral st"
  "deferredAt (exclude i r st) = deferredAt st" "selfImposedWait (exclude i r st) = selfImposedWait st"
  "startedAt (exclude i r st) = startedAt st" "readyAt (exclude i r st) = readyAt st"
  "closed (exclude i r st) = closed st" "outcomeRecorded (exclude i r st) = outcomeRecorded st"
  "outcome (exclude i r st) = outcome st" "cancelRequested (exclude i r st) = cancelRequested st"
  "cleanupConfirmed (exclude i r st) = cleanupConfirmed st" "attemptCount (exclude i r st) = attemptCount st"
  "attempt (exclude i r st) = attempt st" "bookingDecision (exclude i r st) = bookingDecision st"
  "capacity (exclude i r st) = capacity st" "capacityAccepted (exclude i r st) = capacityAccepted st"
  "capacityStages (exclude i r st) = capacityStages st" "nodeEnrolled (exclude i r st) = nodeEnrolled st"
  "capacityReclaimed (exclude i r st) = capacityReclaimed st"
  by (simp_all add: exclude_def)

lemma ExcludedOffer_None:
  "ExcludedOffer xs i = None \<longleftrightarrow> i \<notin> ox_OfferSnapshotID ` set xs"
  by (induction xs) (auto simp: ExcludedOffer_def)

lemma exclude_prefix: "excluded st = xs \<Longrightarrow> prefix xs (excluded (exclude i r st))"
  by (auto simp: exclude_def)

lemma exclude_ids:
  "ox_OfferSnapshotID ` set (excluded (exclude i r st)) =
     ox_OfferSnapshotID ` set (excluded st) \<union> (if i = empty_string then {} else {i})"
  by (auto simp: exclude_def ExcludedOffer_None)

lemma exclude_distinct:
  "distinct (map ox_OfferSnapshotID (excluded st)) \<Longrightarrow>
   distinct (map ox_OfferSnapshotID (excluded (exclude i r st)))"
  by (auto simp: exclude_def ExcludedOffer_None)

lemmas fact_effects = apply_fact_def close_self_imposed_def new_attempt_def dispatch_booking_def
  accept_capacity_def observe_stage_def fail_launch_def end_first_def observe_external_def
  start_execution_def report_run_def Let_def

definition run_before :: "run_state \<Rightarrow> run_state \<Rightarrow> bool" where
  "run_before st st' \<longleftrightarrow>
     (firstTerminal st \<noteq> None \<longrightarrow> firstTerminal st' = firstTerminal st \<and> exitCode st' = exitCode st)
   \<and> (queuedSince st \<noteq> zero_time \<longrightarrow> queuedSince st' = queuedSince st)
   \<and> prefix (excluded st) (excluded st')
   \<and> (closed st \<longrightarrow> closed st') \<and> (outcomeRecorded st \<longrightarrow> outcomeRecorded st')
   \<and> (cancelRequested st \<longrightarrow> cancelRequested st') \<and> (cleanupConfirmed st \<longrightarrow> cleanupConfirmed st')
   \<and> attemptCount st \<le> attemptCount st'"

lemma apply_fact_before:
  assumes "apply_fact js t a f st = Inr st'"
  shows "run_before st st'"
  using assms by (cases f) (auto simp: run_before_def fact_effects exclude_prefix time_is_zero_def
      split: if_splits option.splits)

lemma run_before_trans:
  assumes "run_before st st'" "run_before st' st''"
  shows "run_before st st''"
proof -
  note le = assms[unfolded run_before_def]
  have "firstTerminal st \<noteq> None \<longrightarrow> firstTerminal st'' = firstTerminal st \<and> exitCode st'' = exitCode st"
    using le by metis
  moreover have "queuedSince st \<noteq> zero_time \<longrightarrow> queuedSince st'' = queuedSince st" using le by metis
  moreover have "prefix (excluded st) (excluded st'')" using le by (blast intro: prefix_order.trans)
  moreover have "attemptCount st \<le> attemptCount st''" using le by linarith
  ultimately show ?thesis unfolding run_before_def using le by blast
qed

interpretation run_order: replay_order "applyStoredEvent js" run_before
  for js
proof
  show "applyStoredEvent js e st = Inr st' \<Longrightarrow> run_before st st'" for e st st'
    by (auto simp: applyStoredEvent_def intro: apply_fact_before split: if_splits)
  show "run_before st st" for st by (simp add: run_before_def)
qed (rule run_before_trans)

subsection \<open>What every reduced state keeps\<close>

definition exclusions_ok :: "run_state \<Rightarrow> bool" where
  "exclusions_ok st \<longleftrightarrow>
     distinct (map ox_OfferSnapshotID (excluded st)) \<and> empty_string \<notin> ox_OfferSnapshotID ` set (excluded st)
   \<and> (\<forall>d. capacityReclaimed st = Some d \<longrightarrow> rc_OfferSnapshotID d \<noteq> empty_string \<longrightarrow>
        rc_OfferSnapshotID d \<in> ox_OfferSnapshotID ` set (excluded st))"

definition moments_ok :: "run_state \<Rightarrow> bool" where
  "moments_ok st \<longleftrightarrow> (\<forall>s r. startedAt st = Some s \<longrightarrow> readyAt st = Some r \<longrightarrow> s \<le> r)"

definition terminal_ok :: "run_state \<Rightarrow> bool" where
  "terminal_ok st \<longleftrightarrow>
     (exitCode st \<noteq> None \<longrightarrow> firstTerminal st \<noteq> None) \<and> (cancelRequested st \<longrightarrow> firstTerminal st \<noteq> None)
   \<and> (outcomeRecorded st \<longrightarrow> outcome_Valid (outcome st))"

definition capacity_ok :: "run_state \<Rightarrow> bool" where
  "capacity_ok st \<longleftrightarrow>
     capacityStages st \<subseteq> set ProvisioningStages
   \<and> (nodeEnrolled st \<longleftrightarrow> StageAgentReady \<in> capacityStages st)
   \<and> (capacityAccepted st \<noteq> None \<longrightarrow> capacity st \<noteq> None)"

definition answers_ok :: "run_state \<Rightarrow> bool" where
  "answers_ok st \<longleftrightarrow>
     (\<forall>d. deferral st = Some d \<longrightarrow> df_Reason d \<noteq> empty_string \<and> class_Known (df_Class d))
   \<and> (\<forall>d. bookingDecision st = Some d \<longrightarrow>
        (bd_SelectedOfferSnapshotID d \<noteq> empty_string \<longleftrightarrow> bd_Booking d \<noteq> None))"

definition run_sound :: "run_state \<Rightarrow> bool" where
  "run_sound st \<longleftrightarrow> exclusions_ok st \<and> moments_ok st \<and> terminal_ok st \<and> capacity_ok st \<and> answers_ok st"

lemma report_establishedReady_after:
  "report_establishedReady d t (Some s) = Some r \<Longrightarrow> s \<le> r"
  by (auto simp: report_establishedReady_def split: option.splits if_splits)

lemma invalidBookingDecision_booking:
  "invalidBookingDecision d = None \<Longrightarrow> bd_SelectedOfferSnapshotID d \<noteq> empty_string \<longleftrightarrow> bd_Booking d \<noteq> None"
  by (auto simp: invalidBookingDecision_def Let_def)

lemma invalidAdmissionDeferral_None:
  "invalidAdmissionDeferral d = None \<longleftrightarrow> df_Reason d \<noteq> empty_string \<and> class_Known (df_Class d)"
  by (simp add: invalidAdmissionDeferral_def)

lemma exited_is_terminal: "phase_Exited p \<Longrightarrow> isTerminal p"
  by (auto simp: phase_Exited_def isTerminal_def)

lemma exclude_exclusions:
  assumes "exclusions_ok st"
  shows "exclusions_ok (exclude i r st)"
    "exclusions_ok (exclude (rc_OfferSnapshotID d) r (st\<lparr>capacityReclaimed := Some d\<rparr>))"
  using assms by (auto simp: exclusions_ok_def exclude_ids exclude_distinct simp del: set_map)

lemma apply_fact_exclusions:
  assumes "exclusions_ok st" "apply_fact js t a f st = Inr st'"
  shows "exclusions_ok st'"
proof -
  have same: "exclusions_ok s" if "excluded s = excluded st" "capacityReclaimed s = None \<or> capacityReclaimed s = capacityReclaimed st" for s
    using assms(1) that by (auto simp: exclusions_ok_def)
  show ?thesis
    using assms(2) by (cases f)
      (auto simp: fact_effects assms(1) exclude_exclusions(2) intro!: exclude_exclusions(1) same
        split: if_splits option.splits)
qed

lemma apply_fact_moments: "moments_ok st \<Longrightarrow> apply_fact js t a f st = Inr st' \<Longrightarrow> moments_ok st'"
  by (cases f) (auto simp: moments_ok_def fact_effects dest: report_establishedReady_after
      split: if_splits option.splits)

lemma apply_fact_terminal: "terminal_ok st \<Longrightarrow> apply_fact js t a f st = Inr st' \<Longrightarrow> terminal_ok st'"
  by (cases f) (auto simp: terminal_ok_def fact_effects exited_is_terminal split: if_splits option.splits)

lemma apply_fact_capacity: "capacity_ok st \<Longrightarrow> apply_fact js t a f st = Inr st' \<Longrightarrow> capacity_ok st'"
  by (cases f) (auto simp: capacity_ok_def fact_effects split: if_splits option.splits)

lemma apply_fact_answers: "answers_ok st \<Longrightarrow> apply_fact js t a f st = Inr st' \<Longrightarrow> answers_ok st'"
  by (cases f) (auto simp: answers_ok_def fact_effects invalidAdmissionDeferral_None
      dest: invalidBookingDecision_booking split: if_splits option.splits)

lemmas apply_fact_sound = apply_fact_exclusions apply_fact_moments apply_fact_terminal
  apply_fact_capacity apply_fact_answers

interpretation run_facts: replay_invariant "applyStoredEvent js" run_sound
  for js
  by unfold_locales (auto simp: applyStoredEvent_def run_sound_def intro: apply_fact_sound split: if_splits)

lemma no_state_sound: "run_sound no_state"
  by (simp add: run_sound_def exclusions_ok_def moments_ok_def terminal_ok_def capacity_ok_def
      answers_ok_def no_state_def)

lemma reduceRun_Inr:
  "reduceRun js es = Inr st \<longleftrightarrow>
     reduce_facts (applyStoredEvent js) es no_state = Inr st \<and> state_validate st = None"
  by (auto simp: reduceRun_def split: sum.splits)

lemma reduceRun_sound: "reduceRun js es = Inr st \<Longrightarrow> run_sound st"
  using run_facts.replay_sound[OF no_state_sound] by (auto simp: reduceRun_Inr)

subsection \<open>Waiting\<close>

text \<open>What one fact does to the four fields the wait is read from.\<close>

definition same_wait :: "run_state \<Rightarrow> run_state \<Rightarrow> bool" where
  "same_wait st st' \<longleftrightarrow> deferral st' = deferral st \<and> deferredAt st' = deferredAt st
     \<and> queuedSince st' = queuedSince st \<and> selfImposedWait st' = selfImposedWait st"

lemma selfImposedSince_decided [simp]:
  "selfImposedSince (st\<lparr>bookingDecision := d\<rparr>) t = selfImposedSince st t"
  by (cases "deferral st") (simp_all add: selfImposedSince_def)

lemma apply_fact_wait:
  assumes "apply_fact js t a f st = Inr st'"
  shows "same_wait st st'
    \<or> (same_wait ((close_self_imposed t st)\<lparr>deferral := None\<rparr>) st')
    \<or> (\<exists>d. same_wait ((close_self_imposed t st)\<lparr>deferral := Some d, deferredAt := t,
         queuedSince := (if queuedSince st = 0 then t else queuedSince st)\<rparr>) st')
    \<or> (\<exists>d. f = FactAdmissionRefused d \<and> same_wait (st\<lparr>deferral := Some d\<rparr>) st')"
  using assms by (cases f) (auto simp: same_wait_def fact_effects time_is_zero_def split: if_splits option.splits)

definition self_imposed_open :: "run_state \<Rightarrow> bool" where
  "self_imposed_open st \<longleftrightarrow> (case deferral st of None \<Rightarrow> False | Some d \<Rightarrow> deferral_SelfImposed d)"

definition wait_ok :: "time \<Rightarrow> time \<Rightarrow> run_state \<Rightarrow> bool" where
  "wait_ok lo t st \<longleftrightarrow>
     (if queuedSince st = 0 then deferredAt st = 0 \<and> selfImposedWait st = 0
      else lo \<le> queuedSince st \<and> queuedSince st \<le> deferredAt st \<and> deferredAt st \<le> t
         \<and> 0 \<le> selfImposedWait st
         \<and> selfImposedWait st \<le> (if self_imposed_open st then deferredAt st else t) - queuedSince st)"

lemma wait_ok_later: "wait_ok lo t st \<Longrightarrow> t \<le> t' \<Longrightarrow> wait_ok lo t' st"
  by (auto simp: wait_ok_def split: if_splits)

lemma wait_ok_same: "same_wait st st' \<Longrightarrow> wait_ok lo t st' = wait_ok lo t st"
  by (simp add: same_wait_def wait_ok_def self_imposed_open_def)

text \<open>The accumulated part and the open interval add up without overflow, to no more than the wait.\<close>

lemma self_imposed_total:
  assumes "wait_ok lo t st" "t \<le> t'" "0 < lo" "t' - lo < 2 ^ 63"
  shows "i64_add (selfImposedWait st) (selfImposedSince st t') = selfImposedWait st + selfImposedSince st t'"
    "0 \<le> selfImposedWait st + selfImposedSince st t'"
    "queuedSince st = 0 \<Longrightarrow> selfImposedWait st + selfImposedSince st t' = 0"
    "queuedSince st \<noteq> 0 \<Longrightarrow> selfImposedWait st + selfImposedSince st t' \<le> t' - queuedSince st"
proof -
  have since: "selfImposedSince st t' =
      (if self_imposed_open st \<and> queuedSince st \<noteq> 0 then t' - deferredAt st else 0)"
    using assms by (auto simp: selfImposedSince_def self_imposed_open_def wait_ok_def time_is_zero_def
        time_sub_exact in_int64_def split: option.splits if_splits)
  show bounds: "0 \<le> selfImposedWait st + selfImposedSince st t'"
    "queuedSince st = 0 \<Longrightarrow> selfImposedWait st + selfImposedSince st t' = 0"
    "queuedSince st \<noteq> 0 \<Longrightarrow> selfImposedWait st + selfImposedSince st t' \<le> t' - queuedSince st"
    using assms by (auto simp: since wait_ok_def split: if_splits)
  have "in_int64 (selfImposedWait st + selfImposedSince st t')"
    using bounds assms by (cases "queuedSince st = 0") (auto simp: in_int64_def wait_ok_def)
  then show "i64_add (selfImposedWait st) (selfImposedSince st t') = selfImposedWait st + selfImposedSince st t'"
    by (simp add: i64_add_def wrap64_id)
qed

lemma apply_fact_wait_ok:
  assumes "apply_fact js t' a f st = Inr st'" "wait_ok lo t st" "t \<le> t'" "0 < lo" "lo \<le> t'" "t' - lo < 2 ^ 63"
    and "\<And>d. f = FactAdmissionRefused d \<Longrightarrow> \<not> deferral_SelfImposed d"
  shows "wait_ok lo t' st'"
proof -
  note total = self_imposed_total[OF assms(2,3,4,6)]
  note later = wait_ok_later[OF assms(2,3)]
  have closed: "wait_ok lo t' ((close_self_imposed t' st)\<lparr>deferral := None\<rparr>)"
    using total later by (auto simp: wait_ok_def close_self_imposed_def self_imposed_open_def split: if_splits)
  have deferred: "wait_ok lo t' ((close_self_imposed t' st)\<lparr>deferral := Some d, deferredAt := t',
       queuedSince := (if queuedSince st = 0 then t' else queuedSince st)\<rparr>)" for d
    using total later assms(3-5) by (auto simp: wait_ok_def close_self_imposed_def self_imposed_open_def split: if_splits)
  have refused: "wait_ok lo t' (st\<lparr>deferral := Some d\<rparr>)" if "\<not> deferral_SelfImposed d" for d
    using later that by (auto simp: wait_ok_def self_imposed_open_def split: if_splits option.splits)
  from apply_fact_wait[OF assms(1)] show ?thesis
    using later closed deferred refused assms(7) by (auto simp: wait_ok_same)
qed

definition plain_refusal :: "run_fact stored_event \<Rightarrow> bool" where
  "plain_refusal e = (case ev_Data e of FactAdmissionRefused d \<Rightarrow> \<not> deferral_SelfImposed d | _ \<Rightarrow> True)"

lemma replay_wait_ok:
  assumes "reduce_facts (applyStoredEvent js) es st = Inr st'" "wait_ok lo t st" "0 < lo"
    "sorted (t # map ev_OccurredAt es)" "\<forall>e \<in> set es. lo \<le> ev_OccurredAt e \<and> ev_OccurredAt e - lo < 2 ^ 63 \<and> plain_refusal e"
  shows "wait_ok lo (last (t # map ev_OccurredAt es)) st'"
  using assms
proof (induction es arbitrary: st t)
  case Nil
  then show ?case by simp
next
  case (Cons e es)
  from Cons.prems(1) obtain st1 where st1: "applyStoredEvent js e st = Inr st1"
    "reduce_facts (applyStoredEvent js) es st1 = Inr st'" by (auto split: sum.splits)
  from st1(1) have "apply_fact js (ev_OccurredAt e) (ev_Actor e) (ev_Data e) st = Inr st1"
    by (auto simp: applyStoredEvent_def split: if_splits)
  then have "wait_ok lo (ev_OccurredAt e) st1"
    using Cons.prems by (elim apply_fact_wait_ok) (auto simp: plain_refusal_def)
  from Cons.IH[OF st1(2) this] Cons.prems show ?case by simp
qed

subsection \<open>Properties\<close>

definition sample_fact :: "nat \<Rightarrow> time \<Rightarrow> run_fact \<Rightarrow> run_fact stored_event" where
  "sample_fact n t f =
     \<lparr>ev_GlobalPosition = n, ev_ID = ''e'', ev_StreamType = ''run'', ev_StreamID = ''r1'', ev_StreamVersion = n,
      ev_Type = ''run'', ev_SchemaVersion = 1, ev_OccurredAt = t, ev_Actor = empty_string,
      ev_CorrelationID = empty_string, ev_CausationID = empty_string, ev_CommandKey = ''c'',
      ev_RequestHash = ''h'', ev_Visibility = VisibilityPublic, ev_Data = f, ev_PrivateData = empty_string\<rparr>"

definition sample_deferral :: "string \<Rightarrow> admission_deferral" where
  "sample_deferral reason =
     \<lparr>df_Reason = reason, df_Class = ClassBatch, df_EffectivePriority = 0, df_BasePriority = 0,
      df_QueuedSeconds = 0, df_SelfImposedSeconds = 0, df_MaxQueueDelaySeconds = 0,
      df_ProjectedWaitSeconds = 0, df_Fleet = None, df_Behind = []\<rparr>"

definition sample_requested :: run_requested_data where
  "sample_requested = \<lparr>rq_RunID = ''r1'', rq_Workload = in_Workload sample_input\<rparr>"

definition sample_reclaimed :: capacity_reclaimed_data where
  "sample_reclaimed = \<lparr>rc_RentalID = ''rnt_1'', rc_NodeID = ''nod_1'', rc_OfferSnapshotID = ''cheap'',
     rc_Policy = ''ENROLMENT_DEADLINE_EXCEEDED'', rc_DeadlineSeconds = 600, rc_WaitedSeconds = 601,
     rc_Disposition = DispositionTerminate\<rparr>"

definition sample_exit :: "int \<Rightarrow> run_reported_data" where
  "sample_exit code = \<lparr>rp_Type = ''exit'', rp_ReadyAt = None, rp_ExitCode = Some code\<rparr>"

definition sample_stream :: "run_fact stored_event list" where
  "sample_stream =
     [sample_fact 1 1000000000 (FactRunRequested sample_requested),
      sample_fact 2 2000000000 (FactAdmissionDeferred (sample_deferral DeferredGroupAtParallelism)),
      sample_fact 3 5000000000 (FactAdmissionDeferred (sample_deferral DeferredNoCapacityFits)),
      sample_fact 4 6000000000 (FactCapacityReclaimed sample_reclaimed),
      sample_fact 5 7000000000 (FactRunReported (sample_exit 0))]"

definition sample_after :: run_state where
  "sample_after = no_state\<lparr>requested := Some sample_requested, createdBy := empty_string,
     deferral := Some (sample_deferral DeferredNoCapacityFits), deferredAt := 5000000000,
     queuedSince := 2000000000, selfImposedWait := 3000000000, deferralCount := 2,
     capacityReclaimed := Some sample_reclaimed,
     excluded := [\<lparr>ox_OfferSnapshotID = ''cheap'', ox_Reason = OfferCapacityReclaimed\<rparr>],
     exitCode := Some 0, firstTerminal := Some RunOutcomeSucceeded\<rparr>"

lemmas sample_run_defs = sample_stream_def sample_fact_def sample_deferral_def sample_requested_def
  sample_reclaimed_def sample_exit_def

lemma sample_reduces: "reduceRun (\<lambda>_. None) sample_stream = Inr sample_after"
  by (simp add: sample_run_defs sample_after_def reduceRun_def applyStoredEvent_def fact_effects no_state_def
      valid_event_def invalidRunRequested_def invalidAdmissionDeferral_def first_case.simps class_Known_def
      KnownServiceClasses_def selfImposedSince_def time_is_zero_def deferral_SelfImposed_def reason_defs
      i64_add_def wrap64_def time_sub_def exclude_def ExcludedOffer_def report_validate_def report_terminal_def
      report_establishedReady_def report_readyAt_def RunReportReady_def state_validate_def actorSubject_def)

text \<open>C34: Every stream that reduces, reduces to a consistent Run: it was requested; a closed Run has a
  recorded outcome that is one of the three; no offer is struck out twice; an application is never
  ready before its container started; an exit code or a cancellation comes with the first terminal
  fact; a node is enrolled exactly when its last provisioning stage has an actual; a provider accepted
  only capacity that was requested; and a placed Run holds a Booking.\<close>

theorem run_state_is_consistent:
  assumes "reduceRun js es = Inr st"
  shows "requested st \<noteq> None \<and> (closed st \<longrightarrow> outcomeRecorded st \<and> outcome_Valid (outcome st))
    \<and> distinct (map ox_OfferSnapshotID (excluded st))
    \<and> (\<forall>s r. startedAt st = Some s \<longrightarrow> readyAt st = Some r \<longrightarrow> s \<le> r)
    \<and> (exitCode st \<noteq> None \<longrightarrow> firstTerminal st \<noteq> None) \<and> (cancelRequested st \<longrightarrow> firstTerminal st \<noteq> None)
    \<and> (nodeEnrolled st \<longleftrightarrow> StageAgentReady \<in> capacityStages st)
    \<and> (capacityAccepted st \<noteq> None \<longrightarrow> capacity st \<noteq> None)
    \<and> (placed st \<longrightarrow> (\<exists>d b. bookingDecision st = Some d \<and> bd_Booking d = Some b))"
  using reduceRun_sound[OF assms] assms
  by (auto simp: run_sound_def exclusions_ok_def moments_ok_def terminal_ok_def capacity_ok_def answers_ok_def
      reduceRun_Inr state_validate_def placed_def split: option.splits)

theorem run_state_is_consistent_witness:
  "reduceRun (\<lambda>_. None) sample_stream = Inr sample_after \<and> requested sample_after \<noteq> None
     \<and> firstTerminal sample_after \<noteq> None"
  using run_state_is_consistent[OF sample_reduces] sample_reduces by (simp add: sample_after_def)


lemma sample_reduces_more:
  "reduceRun (\<lambda>_. None) (sample_stream @ [sample_fact 6 8000000000 (FactRunReported (sample_exit 7))])
     = Inr sample_after"
proof -
  have "reduce_facts (applyStoredEvent (\<lambda>_. None)) sample_stream no_state = Inr sample_after"
    using sample_reduces by (simp add: reduceRun_Inr)
  moreover have "applyStoredEvent (\<lambda>_. None) (sample_fact 6 8000000000 (FactRunReported (sample_exit 7))) sample_after
      = Inr sample_after"
    by (simp add: sample_run_defs sample_after_def applyStoredEvent_def fact_effects no_state_def
      valid_event_def first_case.simps report_validate_def report_terminal_def
      report_establishedReady_def report_readyAt_def RunReportReady_def)
  ultimately have "reduce_facts (applyStoredEvent (\<lambda>_. None))
      (sample_stream @ [sample_fact 6 8000000000 (FactRunReported (sample_exit 7))]) no_state = Inr sample_after"
    by (simp add: reduce_facts_append_Inr)
  then show ?thesis using sample_reduces by (simp add: reduceRun_Inr)
qed


text \<open>The part of a wait charged to the caller's own declaration is between nothing and the whole wait,
  however deferrals, refusals and placements alternate, when the facts are in order of time, span less
  than 2^63 nanoseconds and no refusal gives the family's parallelism as its reason.\<close>

theorem self_imposed_wait_is_a_part:
  assumes "reduceRun js es = Inr st" "sorted (map ev_OccurredAt es @ [now])"
    "\<forall>e \<in> set es. 0 < ev_OccurredAt e \<and> now - ev_OccurredAt e < 2 ^ 63 \<and> plain_refusal e"
  shows "0 \<le> w_SelfImposedSeconds (state_wait st now)
    \<and> w_SelfImposedSeconds (state_wait st now) \<le> w_Seconds (state_wait st now)"
proof (cases es)
  case Nil
  with assms(1) have "st = no_state" by (simp add: reduceRun_Inr)
  then show ?thesis by (simp add: state_wait_def no_state_def time_is_zero_def)
next
  case (Cons e0 es0)
  let ?lo = "ev_OccurredAt e0" let ?t = "last (?lo # map ev_OccurredAt es)"
  have t: "?lo \<le> ev_OccurredAt e \<and> ev_OccurredAt e \<le> now" if "e \<in> set es" for e
    using assms(2) that Cons by (auto simp: sorted_append)
  have red: "reduce_facts (applyStoredEvent js) es no_state = Inr st" using assms(1) by (simp add: reduceRun_Inr)
  have "wait_ok ?lo ?t st"
  proof (rule replay_wait_ok[OF red])
    show "wait_ok ?lo ?lo no_state" by (simp add: wait_ok_def no_state_def)
    show "sorted (?lo # map ev_OccurredAt es)" using assms(2) Cons by (auto simp: sorted_append)
    show "\<forall>e \<in> set es. ?lo \<le> ev_OccurredAt e \<and> ev_OccurredAt e - ?lo < 2 ^ 63 \<and> plain_refusal e"
      using assms(3) t Cons by fastforce
  qed (use assms(3) Cons in simp)
  moreover have "?t \<le> now" using t Cons last_in_set[of "map ev_OccurredAt es"] by auto
  moreover have lo: "0 < ?lo" "now - ?lo < 2 ^ 63" using assms(3) Cons by auto
  ultimately have total: "wait_ok ?lo now st" and sum:
    "i64_add (selfImposedWait st) (selfImposedSince st now) = selfImposedWait st + selfImposedSince st now"
    "0 \<le> selfImposedWait st + selfImposedSince st now"
    "queuedSince st \<noteq> 0 \<Longrightarrow> selfImposedWait st + selfImposedSince st now \<le> now - queuedSince st"
    using self_imposed_total[of ?lo ?t st now] wait_ok_later by blast+
  show ?thesis
  proof (cases "queuedSince st = 0")
    case True
    then show ?thesis by (simp add: state_wait_def time_is_zero_def)
  next
    case False
    have q: "time_sub now (queuedSince st) = now - queuedSince st" "in_int64 (now - queuedSince st)"
      using total False lo by (auto simp: wait_ok_def in_int64_def time_sub_def)
    then show ?thesis using False sum
      by (auto simp: state_wait_def time_is_zero_def intro!: duration_seconds_mono_pos duration_seconds_nonneg
          simp: in_int64_def)
  qed
qed

theorem self_imposed_wait_is_a_part_witness:
  "0 \<le> w_SelfImposedSeconds (state_wait sample_after 9000000000)
     \<and> w_SelfImposedSeconds (state_wait sample_after 9000000000) \<le> w_Seconds (state_wait sample_after 9000000000)"
  by (rule self_imposed_wait_is_a_part[OF sample_reduces])
    (simp_all add: sample_run_defs plain_refusal_def)

text \<open>The public copy of a launch request does not depend on any environment value: two environments
  that bind the same names, and leave the same ones unset, have the same public copy.\<close>

theorem public_launch_hides_environment:
  assumes "map (\<lambda>b. (eb_Name b, eb_Value b = None)) env = map (\<lambda>b. (eb_Name b, eb_Value b = None)) env'"
  shows "publicLaunchRequest (req\<lparr>lq_Environment := env\<rparr>) = publicLaunchRequest (req\<lparr>lq_Environment := env'\<rparr>)"
proof -
  let ?g = "\<lambda>(n, absent). \<lparr>eb_Name = n, eb_Value = Some (if absent then ''empty'' else ''literal'')\<rparr>"
  have public: "map (\<lambda>b. \<lparr>eb_Name = eb_Name b, eb_Value = Some (EnvKind (eb_Value b))\<rparr>) bs
      = map ?g (map (\<lambda>b. (eb_Name b, eb_Value b = None)) bs)" for bs :: "environment_binding list"
    by (auto simp: EnvKind_def split: option.splits)
  show ?thesis by (simp add: publicLaunchRequest_def public assms del: map_map)
qed

theorem public_launch_hides_environment_witness:
  "\<forall>req. publicLaunchRequest (req\<lparr>lq_Environment := [\<lparr>eb_Name = ''KEY'', eb_Value = Some ''one''\<rparr>]\<rparr>)
     = publicLaunchRequest (req\<lparr>lq_Environment := [\<lparr>eb_Name = ''KEY'', eb_Value = Some ''two''\<rparr>]\<rparr>)"
  by (intro allI public_launch_hides_environment) simp

text \<open>A report that is built carries exactly what it was built from, and what it carries is a payload
  the reducer accepts.\<close>

theorem report_round_trip:
  "NewRunReport t d c = Inr r \<Longrightarrow> report_payload r = \<lparr>rp_Type = t, rp_ReadyAt = d, rp_ExitCode = c\<rparr>
     \<and> report_validate (report_payload r) = None"
  by (auto simp: NewRunReport_def Let_def report_payload_def report_terminal_def report_validate_def split: if_splits)

theorem report_round_trip_witness:
  "report_payload (TerminalRunReport None 3) = \<lparr>rp_Type = ''exit'', rp_ReadyAt = None, rp_ExitCode = Some 3\<rparr>"
  using report_round_trip[of "''exit''" None "Some 3" "TerminalRunReport None 3"]
  by (simp add: NewRunReport_def report_validate_def report_terminal_def first_case.simps RunReportReady_def)

end
