(* ===== verification/AdmissionQueue.thy ===== *)
theory AdmissionQueue
  imports RunEvents "HOL-Library.AList"
begin

text \<open>
  Admission (\<^verbatim>\<open>internal/orchestrator/admission.go\<close>): the queue replayed from the log, what a
  Run may not be admitted past, the width of a family, and the answer recorded when a Run has to wait
  or is refused.

  The maps of the replay are association lists with one entry per key; the code reads them only by
  key or in the order of their keys. \<^verbatim>\<open>strconv.FormatFloat\<close>, which a fleet verdict is spelled with,
  is the argument \<open>format_float\<close>. The steps that append are functions to the facts they append;
  \<open>Orchestrator\<close> commits them.
\<close>

subsection \<open>Replaying the queue\<close>

record waiting_run =
  wt_runID :: string
  wt_class :: service_class
  wt_since :: time
  wt_holdsNoQueue :: bool

record queue_replay =
  qr_waiting :: "(string \<times> waiting_run) list"
  qr_began :: "(string \<times> time) list"
  qr_holding :: "(string \<times> run_group) list"

definition empty_replay :: queue_replay where
  "empty_replay = \<lparr>qr_waiting = [], qr_began = [], qr_holding = []\<rparr>"

definition replay_deferred :: "string \<Rightarrow> time \<Rightarrow> admission_deferral \<Rightarrow> queue_replay \<Rightarrow> queue_replay" where
  "replay_deferred runID occurredAt d q =
     (let began = (case map_of (qr_began q) runID of
                     None \<Rightarrow> AList.update runID occurredAt (qr_began q)
                   | Some _ \<Rightarrow> qr_began q)
      in q\<lparr>qr_began := began,
           qr_waiting := AList.update runID
             \<lparr>wt_runID = runID, wt_class = df_Class d, wt_since = the (map_of began runID),
              wt_holdsNoQueue = deferral_HoldsNoQueue d\<rparr> (qr_waiting q)\<rparr>)"

definition replay_launch_failed :: "string \<Rightarrow> queue_replay \<Rightarrow> queue_replay" where
  "replay_launch_failed runID q = q\<lparr>qr_holding := AList.delete runID (qr_holding q)\<rparr>"

definition replay_over :: "string \<Rightarrow> queue_replay \<Rightarrow> queue_replay" where
  "replay_over runID q =
     q\<lparr>qr_waiting := AList.delete runID (qr_waiting q), qr_began := AList.delete runID (qr_began q),
       qr_holding := AList.delete runID (qr_holding q)\<rparr>"

definition replay_decided :: "string \<Rightarrow> booking_decision \<Rightarrow> queue_replay \<Rightarrow> queue_replay" where
  "replay_decided runID d q =
     (if bd_SelectedOfferSnapshotID d = empty_string then q
      else let q' = q\<lparr>qr_waiting := AList.delete runID (qr_waiting q)\<rparr>;
               group = pp_Group (bd_Policy d)
           in if group_Declared group then q'\<lparr>qr_holding := AList.update runID group (qr_holding q')\<rparr> else q')"

definition queueReplay_apply :: "run_fact stored_event \<Rightarrow> queue_replay \<Rightarrow> string + queue_replay" where
  "queueReplay_apply event q =
     (let runID = ev_StreamID event in
      case ev_Data event of
        FactAdmissionDeferred d \<Rightarrow> Inr (replay_deferred runID (ev_OccurredAt event) d q)
      | FactLaunchFailed _ \<Rightarrow> Inr (replay_launch_failed runID q)
      | FactAdmissionRefused _ \<Rightarrow> Inr (replay_over runID q)
      | FactRunClosed _ \<Rightarrow> Inr (replay_over runID q)
      | FactBookingDecided d \<Rightarrow> Inr (replay_decided runID d q)
      | FactUndecodable t \<Rightarrow>
          if t = EventAdmissionDeferred \<or> t = EventBookingDecided
            then Inl ''read the admission queue''
          else if t = EventLaunchFailed then Inr (replay_launch_failed runID q)
          else if t = EventAdmissionRefused \<or> t = EventRunClosed then Inr (replay_over runID q)
          else Inr q
      | _ \<Rightarrow> Inr q)"

record admission_queue =
  aq_waiting :: "waiting_run list"
  aq_holding :: "(string \<times> run_group) list"

definition queue_filter :: event_filter where
  "queue_filter =
     \<lparr>ef_StreamTypes = [''run''],
      ef_EventTypes = [EventAdmissionDeferred, EventAdmissionRefused, EventBookingDecided, EventLaunchFailed, EventRunClosed],
      ef_Visibility = empty_string\<rparr>"

definition queue_of_replay :: "queue_replay \<Rightarrow> admission_queue" where
  "queue_of_replay q =
     \<lparr>aq_waiting = sort_key wt_runID (map snd (qr_waiting q)), aq_holding = qr_holding q\<rparr>"

text \<open>The outer \<open>None\<close> is a scan that never ends; \<open>EventLog\<close> shows a scan of the log ends.\<close>

definition admissionQueue :: "run_fact event_log \<Rightarrow> (string + admission_queue) option" where
  "admissionQueue lg = (case LatestPosition lg queue_filter of
     head \<Rightarrow> (case ScanAll (ReadAll lg) head queue_filter of
       None \<Rightarrow> None
     | Some (events, Some err) \<Rightarrow> Some (Inl ''read the admission queue'')
     | Some (events, None) \<Rightarrow>
         Some (case reduce_facts queueReplay_apply events empty_replay of
           Inl e \<Rightarrow> Inl e
         | Inr q \<Rightarrow> Inr (queue_of_replay q))))"

subsection \<open>A Run's standing\<close>

record queue_position =
  qp_runID :: string
  qp_class :: service_class
  qp_group :: run_group
  qp_policy :: admission
  qp_at :: time
  qp_wait :: wait
  qp_priority :: float64

definition queue_position_of :: "string \<Rightarrow> run_requested_data \<Rightarrow> run_state \<Rightarrow> time \<Rightarrow> queue_position" where
  "queue_position_of runID req st now =
     (let class = pp_Class (ws_Placement (wr_Spec (rq_Workload req)));
          policy = class_Admission class;
          w = state_wait st now
      in \<lparr>qp_runID = runID, qp_class = class,
          qp_group = pp_Group (ws_Placement (wr_Spec (rq_Workload req))), qp_policy = policy,
          qp_at = now, qp_wait = w, qp_priority = EffectivePriority policy (w_Seconds w)\<rparr>)"

definition holding_run :: "string \<Rightarrow> queued_ahead" where
  "holding_run runID = \<lparr>qa_RunID = runID, qa_Class = ClassOther empty_string, qa_EffectivePriority = 0\<rparr>"

definition family_members :: "admission_queue \<Rightarrow> queue_position \<Rightarrow> string list" where
  "family_members q run =
     filter (\<lambda>runID. runID \<noteq> qp_runID run
         \<and> (case map_of (aq_holding q) runID of None \<Rightarrow> False | Some g \<Rightarrow> rg_ID g = rg_ID (qp_group run)))
       (sort (map fst (aq_holding q)))"

definition familyHolding :: "admission_queue \<Rightarrow> queue_position \<Rightarrow> queued_ahead list" where
  "familyHolding q run =
     (if \<not> group_Declared (qp_group run) then []
      else let holding = map holding_run (family_members q run) in
        if \<not> group_Full (qp_group run) (int (length holding)) then [] else holding)"

definition ahead_entry :: "queue_position \<Rightarrow> waiting_run \<Rightarrow> queued_ahead" where
  "ahead_entry run other =
     \<lparr>qa_RunID = wt_runID other, qa_Class = wt_class other,
      qa_EffectivePriority =
        EffectivePriority (class_Admission (wt_class other)) (seconds_between (qp_at run) (wt_since other))\<rparr>"

definition holds_back :: "queue_position \<Rightarrow> waiting_run \<Rightarrow> bool" where
  "holds_back run other =
     (if wt_runID other = qp_runID run \<or> wt_holdsNoQueue other then False
      else let policy = class_Admission (wt_class other);
               queued = seconds_between (qp_at run) (wt_since other);
               priority = EffectivePriority policy queued
           in if priority \<le> qp_priority run then False
              else if ad_BackfillEligible (qp_policy run) \<and> \<not> Starved policy queued then False
              else True)"

definition queue_ahead :: "admission_queue \<Rightarrow> queue_position \<Rightarrow> queued_ahead list" where
  "queue_ahead q run = map (ahead_entry run) (filter (holds_back run) (aq_waiting q))"

definition position_deferral :: "queue_position \<Rightarrow> string \<Rightarrow> queued_ahead list \<Rightarrow> admission_deferral" where
  "position_deferral run reason behind =
     \<lparr>df_Reason = reason, df_Class = qp_class run, df_EffectivePriority = qp_priority run,
      df_BasePriority = ad_Priority (qp_policy run), df_QueuedSeconds = w_Seconds (qp_wait run),
      df_SelfImposedSeconds = w_SelfImposedSeconds (qp_wait run),
      df_MaxQueueDelaySeconds = ad_MaxQueueDelaySeconds (qp_policy run),
      df_ProjectedWaitSeconds = 0, df_Fleet = None, df_Behind = behind\<rparr>"

subsection \<open>What a decision that selected nothing says\<close>

fun fleet_answer_from :: "candidate_decision list \<Rightarrow> fleet_answer \<times> candidate_decision list \<Rightarrow>
    fleet_answer \<times> candidate_decision list" where
  "fleet_answer_from [] acc = acc"
| "fleet_answer_from (c # cs) (a, waitable) = fleet_answer_from cs
     (case candidate_Standing c of
        StandingCouldHold \<Rightarrow> (a\<lparr>fa_CouldHold := fa_CouldHold a + 1\<rparr>, waitable @ [c])
      | StandingUnstated \<Rightarrow> (a\<lparr>fa_Unstated := fa_Unstated a + 1\<rparr>, waitable)
      | StandingNeverHolds \<Rightarrow> (a, waitable))"

definition fleetAnswer :: "booking_decision \<Rightarrow> fleet_answer \<times> candidate_decision list" where
  "fleetAnswer d = fleet_answer_from (bd_Candidates d)
     (\<lparr>fa_Weighed = int (length (bd_Candidates d)), fa_CouldHold = 0, fa_Unstated = 0\<rparr>, [])"

fun shortest_wait_from :: "candidate_decision list \<Rightarrow> float64 \<times> bool \<Rightarrow> float64 \<times> bool" where
  "shortest_wait_from [] acc = acc"
| "shortest_wait_from (c # cs) (shortest, projected) =
     (case cd_RentalSchedule c of
        None \<Rightarrow> shortest_wait_from cs (shortest, projected)
      | Some s \<Rightarrow>
          if \<not> projected \<or> se_ProjectedStartSeconds s < shortest
          then shortest_wait_from cs (se_ProjectedStartSeconds s, True)
          else shortest_wait_from cs (shortest, projected))"

definition shortestProjectedWait :: "candidate_decision list \<Rightarrow> float64 \<times> bool" where
  "shortestProjectedWait cs = shortest_wait_from cs (0, False)"

definition schedule_runs :: "candidate_decision \<Rightarrow> string list" where
  "schedule_runs c = (case cd_RentalSchedule c of
     None \<Rightarrow> []
   | Some s \<Rightarrow>
       (case se_Running s of None \<Rightarrow> [] | Some r \<Rightarrow> [re_RunID r]) @ map we_RunID (se_Preceding s))"

definition workAhead :: "candidate_decision list \<Rightarrow> queued_ahead list" where
  "workAhead cs =
     map holding_run (sort (remdups (filter (\<lambda>r. r \<noteq> empty_string) (concat (map schedule_runs cs)))))"

definition placementDeferral :: "queue_position \<Rightarrow> booking_decision \<Rightarrow> admission_deferral \<times> bool" where
  "placementDeferral run d =
     (let (answer, waitable) = fleetAnswer d;
          (seconds, projected) = shortestProjectedWait waitable
      in ((position_deferral run (fleet_Reason answer) (workAhead waitable))
            \<lparr>df_ProjectedWaitSeconds := seconds, df_Fleet := Some answer\<rparr>, projected))"

subsection \<open>Recording the answer\<close>

definition locality_string :: "locality \<Rightarrow> string" where
  "locality_string l = (case l of
     LocalityHot \<Rightarrow> ''hot'' | LocalityPartial \<Rightarrow> ''partial'' | LocalityCold \<Rightarrow> ''cold'' | LocalityUnknown \<Rightarrow> ''unknown'')"

fun string_join :: "string \<Rightarrow> string list \<Rightarrow> string" where
  "string_join sep [] = empty_string"
| "string_join sep [x] = x"
| "string_join sep (x # y # xs) = x @ sep @ string_join sep (y # xs)"

definition candidate_verdict :: "(float64 \<Rightarrow> string) \<Rightarrow> candidate_decision \<Rightarrow> string" where
  "candidate_verdict format_float c =
     cd_OfferSnapshotID c @ '': '' @ string_join '', '' (sort
       (map (\<lambda>v. v_Code v @ '' at '' @ v_Path v) (cd_Rejections c)
        @ [''holds '' @ locality_string (cd_ImageLocality c)]
        @ map (\<lambda>f. cf_Answer f @ '' worth '' @ format_float (cf_Value f)) (cd_Confidences c)))"

definition FleetVerdict :: "(float64 \<Rightarrow> string) \<Rightarrow> booking_decision \<Rightarrow> string" where
  "FleetVerdict format_float d = string_join ''; '' (sort (map (candidate_verdict format_float) (bd_Candidates d)))"

record admission_answer =
  aa_deferral :: admission_deferral
  aa_projected :: bool
  aa_decision :: "booking_decision option"

definition answer_evidence :: "admission_answer \<Rightarrow> run_fact list" where
  "answer_evidence a = (case aa_decision a of None \<Rightarrow> [] | Some d \<Rightarrow> [FactBookingDecided d])"

definition sameDeferral :: "admission_deferral \<Rightarrow> admission_deferral \<Rightarrow> bool" where
  "sameDeferral recorded new \<longleftrightarrow>
     df_Reason recorded = df_Reason new \<and> map qa_RunID (df_Behind recorded) = map qa_RunID (df_Behind new)"

definition sameFleetVerdict :: "(float64 \<Rightarrow> string) \<Rightarrow> booking_decision option \<Rightarrow> booking_decision option \<Rightarrow> bool" where
  "sameFleetVerdict format_float recorded new = (case new of
     None \<Rightarrow> True
   | Some d \<Rightarrow> (case recorded of
       None \<Rightarrow> False
     | Some r \<Rightarrow> FleetVerdict format_float r = FleetVerdict format_float d))"

definition sameAnswer :: "(float64 \<Rightarrow> string) \<Rightarrow> run_state \<Rightarrow> admission_answer \<Rightarrow> bool" where
  "sameAnswer format_float st a = (case deferral st of
     None \<Rightarrow> False
   | Some d \<Rightarrow> sameDeferral d (aa_deferral a)
             \<and> sameFleetVerdict format_float (bookingDecision st) (aa_decision a))"

datatype admission_record =
    NothingNew
  | DeferralRecorded "run_fact list"
  | RefusalRecorded "run_fact list"

definition recordDeferral :: "(float64 \<Rightarrow> string) \<Rightarrow> run_state \<Rightarrow> admission_answer \<Rightarrow> admission_record" where
  "recordDeferral format_float st a =
     (if deferral st \<noteq> None \<and> sameAnswer format_float st a then NothingNew
      else DeferralRecorded (answer_evidence a @ [FactAdmissionDeferred (aa_deferral a)]))"

definition recordRefusal :: "admission_answer \<Rightarrow> admission_record" where
  "recordRefusal a = RefusalRecorded (answer_evidence a
     @ [FactAdmissionRefused (aa_deferral a), FactRunOutcomeRecorded RunOutcomeFailed, FactRunClosed True])"

definition deferOrRefuse ::
  "(float64 \<Rightarrow> string) \<Rightarrow> run_state \<Rightarrow> queue_position \<Rightarrow> admission_answer \<Rightarrow> admission_record" where
  "deferOrRefuse format_float st run a =
     (let reason = BoundAlreadyBroken (qp_policy run) (qp_wait run) in
      if reason \<noteq> empty_string
        then recordRefusal (a\<lparr>aa_deferral := (aa_deferral a)\<lparr>df_Reason := reason\<rparr>\<rparr>)
      else if DeadlineUnreachable (qp_policy run) (w_Seconds (qp_wait run))
          (df_ProjectedWaitSeconds (aa_deferral a)) (aa_projected a)
        then recordRefusal (a\<lparr>aa_deferral := (aa_deferral a)\<lparr>df_Reason := RefusedDeadlineUnreachable\<rparr>\<rparr>)
      else recordDeferral format_float st a)"

text \<open>The part of \<^verbatim>\<open>stepAdmit\<close> before Placement: an answer to record, or \<open>None\<close> for a Run that
  goes on to Placement.\<close>

definition plain_answer :: "admission_deferral \<Rightarrow> admission_answer" where
  "plain_answer d = \<lparr>aa_deferral = d, aa_projected = False, aa_decision = None\<rparr>"

definition admit :: "(float64 \<Rightarrow> string) \<Rightarrow> admission_queue \<Rightarrow> run_state \<Rightarrow> queue_position \<Rightarrow> admission_record option" where
  "admit format_float q st run =
     (let siblings = familyHolding q run; behind = queue_ahead q run in
      if siblings \<noteq> [] then
        Some (deferOrRefuse format_float st run
          (plain_answer (position_deferral run DeferredGroupAtParallelism siblings)))
      else if behind \<noteq> [] then
        Some (deferOrRefuse format_float st run
          (plain_answer (position_deferral run DeferredBehindHigherPriority behind)))
      else if DeadlinePassed (qp_policy run) (w_Seconds (qp_wait run)) then
        Some (recordRefusal
          (plain_answer (position_deferral run (BoundAlreadyBroken (qp_policy run) (qp_wait run)) [])))
      else None)"

subsection \<open>The replay, one Run at a time\<close>

lemmas replay_defs = queueReplay_apply_def replay_deferred_def replay_launch_failed_def replay_over_def
  replay_decided_def Let_def

definition run_entry :: "queue_replay \<Rightarrow> string \<Rightarrow> waiting_run option \<times> time option \<times> run_group option" where
  "run_entry q r = (map_of (qr_waiting q) r, map_of (qr_began q) r, map_of (qr_holding q) r)"

lemma replay_other_run:
  assumes "queueReplay_apply e q = Inr q'" "ev_StreamID e \<noteq> r"
  shows "run_entry q' r = run_entry q r"
  using assms by (cases "ev_Data e")
    (auto simp: replay_defs run_entry_def update_conv delete_conv split: if_splits option.splits)

text \<open>What the queue keeps about a Run is what the Run's own reduction keeps.\<close>

definition queue_agrees :: "string \<Rightarrow> run_state \<Rightarrow> queue_replay \<Rightarrow> bool" where
  "queue_agrees r st q \<longleftrightarrow>
     map_of (qr_began q) r = (if queuedSince st = 0 then None else Some (queuedSince st))
   \<and> map_of (qr_waiting q) r = map_option (\<lambda>d. \<lparr>wt_runID = r, wt_class = df_Class d,
        wt_since = queuedSince st, wt_holdsNoQueue = deferral_HoldsNoQueue d\<rparr>) (deferral st)
   \<and> (deferral st \<noteq> None \<longrightarrow> queuedSince st \<noteq> 0)"

definition still_open :: "run_fact stored_event \<Rightarrow> bool" where
  "still_open e = (case ev_Data e of FactAdmissionRefused _ \<Rightarrow> False | FactRunClosed _ \<Rightarrow> False | _ \<Rightarrow> True)"

lemma replay_own_fact:
  assumes "queue_agrees (ev_StreamID e) st q" "applyStoredEvent js e st = Inr st'"
    "still_open e" "0 < ev_OccurredAt e"
  shows "\<exists>q'. queueReplay_apply e q = Inr q' \<and> queue_agrees (ev_StreamID e) st' q'"
  using assms
  by (cases "ev_Data e")
    (auto simp: queue_agrees_def applyStoredEvent_def still_open_def replay_defs fact_effects time_is_zero_def
      update_conv delete_conv split: if_splits option.splits)

lemma queue_agrees_entry: "run_entry q r = run_entry q' r \<Longrightarrow> queue_agrees r st q \<Longrightarrow> queue_agrees r st q'"
  by (simp add: queue_agrees_def run_entry_def)

lemma replay_refines_run:
  assumes "reduce_facts queueReplay_apply es q = Inr q'" "queue_agrees r st q"
    "reduce_facts (applyStoredEvent js) (filter (\<lambda>e. ev_StreamID e = r) es) st = Inr st'"
    "\<forall>e \<in> set es. ev_StreamID e = r \<longrightarrow> still_open e \<and> 0 < ev_OccurredAt e"
  shows "queue_agrees r st' q'"
  using assms
proof (induction es arbitrary: q st)
  case Nil
  then show ?case by simp
next
  case (Cons e es)
  from Cons.prems(1) obtain q1 where q1: "queueReplay_apply e q = Inr q1"
    "reduce_facts queueReplay_apply es q1 = Inr q'" by (auto split: sum.splits)
  show ?case
  proof (cases "ev_StreamID e = r")
    case True
    with Cons.prems(3) obtain st1 where st1: "applyStoredEvent js e st = Inr st1"
      "reduce_facts (applyStoredEvent js) (filter (\<lambda>e. ev_StreamID e = r) es) st1 = Inr st'"
      by (auto split: sum.splits)
    have "queue_agrees r st1 q1"
      using replay_own_fact[OF _ st1(1)] q1(1) Cons.prems(2,4) True by force
    from Cons.IH[OF q1(2) this st1(2)] Cons.prems(4) show ?thesis by simp
  next
    case False
    from replay_other_run[OF q1(1) False] Cons.prems(2) have "queue_agrees r st q1"
      using queue_agrees_entry by metis
    from Cons.IH[OF q1(2) this] Cons.prems False show ?thesis by simp
  qed
qed

subsection \<open>The shape of the queue\<close>

definition replay_ok :: "queue_replay \<Rightarrow> bool" where
  "replay_ok q \<longleftrightarrow> distinct (map fst (qr_waiting q)) \<and> distinct (map fst (qr_holding q))
     \<and> (\<forall>(r, w) \<in> set (qr_waiting q). wt_runID w = r)
     \<and> (\<forall>(r, g) \<in> set (qr_holding q). group_Declared g)"

lemma set_update_subset: "set (AList.update k v al) \<subseteq> insert (k, v) (set al)"
  by (induction al) auto

lemma set_delete_subset: "set (AList.delete k al) \<subseteq> set al"
  by (auto simp: AList.delete_eq)

lemma replay_apply_ok: "replay_ok q \<Longrightarrow> queueReplay_apply e q = Inr q' \<Longrightarrow> replay_ok q'"
  by (cases "ev_Data e")
    (auto simp: replay_ok_def replay_defs distinct_update distinct_delete
      dest!: set_update_subset[THEN subsetD] set_delete_subset[THEN subsetD] split: if_splits option.splits)

interpretation queue_facts: replay_invariant queueReplay_apply replay_ok
  by unfold_locales (rule replay_apply_ok)

lemma empty_replay_ok: "replay_ok empty_replay"
  by (simp add: replay_ok_def empty_replay_def)

lemma admissionQueue_replay:
  assumes "log_inv lg"
  shows "admissionQueue lg = Some
    (case reduce_facts queueReplay_apply (filter (eventFilterSQL queue_filter) (el_Events lg)) empty_replay of
       Inl e \<Rightarrow> Inl e | Inr q \<Rightarrow> Inr (queue_of_replay q))"
proof -
  let ?h = "LatestPosition lg queue_filter"
  have le: "ev_GlobalPosition e \<le> ?h" if "e \<in> set (el_Events lg)" "eventFilterSQL queue_filter e" for e
    using that by (auto simp: LatestPosition_def intro!: foldr_max_0_le)
  then have "filter (\<lambda>e. eventFilterSQL queue_filter e \<and> ev_GlobalPosition e \<le> ?h) (el_Events lg)
      = filter (eventFilterSQL queue_filter) (el_Events lg)"
    by (intro filter_cong) auto
  then show ?thesis using log_positions.scan_yields_reached[of "(lg, queue_filter)" "ReadAll lg" queue_filter ?h] assms
    by (simp add: admissionQueue_def ScanAll_def conj_commute)
qed

lemma admissionQueue_Inr:
  assumes "log_inv lg" "admissionQueue lg = Some (Inr q)"
  obtains rp where "q = queue_of_replay rp" "replay_ok rp"
    "reduce_facts queueReplay_apply (filter (eventFilterSQL queue_filter) (el_Events lg)) empty_replay = Inr rp"
  using assms queue_facts.replay_sound[OF empty_replay_ok] by (auto simp: admissionQueue_replay split: sum.splits)

lemma replay_ignores_other_types:
  assumes "\<not> eventFilterSQL queue_filter e" "ev_Type e = fact_type (ev_Data e)" "ev_StreamType e = ''run''"
  shows "queueReplay_apply e q = Inr q"
  using assms by (cases "ev_Data e") (auto simp: queueReplay_apply_def Let_def eventFilterSQL_def queue_filter_def)

lemma replay_filtered:
  assumes "\<forall>e \<in> set es. ev_StreamType e = ''run'' \<longrightarrow> ev_Type e = fact_type (ev_Data e)"
  shows "reduce_facts queueReplay_apply (filter (eventFilterSQL queue_filter) es) q
    = reduce_facts queueReplay_apply (filter (\<lambda>e. ev_StreamType e = ''run'') es) q"
  using assms
proof (induction es arbitrary: q)
  case (Cons e es)
  show ?case
  proof (cases "ev_StreamType e = ''run''")
    case True
    with Cons show ?thesis
      by (cases "eventFilterSQL queue_filter e") (auto simp: replay_ignores_other_types split: sum.splits)
  next
    case False
    then have "\<not> eventFilterSQL queue_filter e" by (simp add: eventFilterSQL_def queue_filter_def)
    with False Cons show ?thesis by simp
  qed
qed simp

lemma waiting_entry:
  assumes "replay_ok rp" "w \<in> set (aq_waiting (queue_of_replay rp))"
  shows "map_of (qr_waiting rp) (wt_runID w) = Some w"
  using assms by (force simp: queue_of_replay_def replay_ok_def intro: map_of_is_SomeI)

lemma waiting_entry_member:
  "map_of (qr_waiting rp) r = Some w \<Longrightarrow> w \<in> set (aq_waiting (queue_of_replay rp))"
  by (force simp: queue_of_replay_def dest!: map_of_SomeD)

lemma run_stream_filter:
  "filter (\<lambda>e. ev_StreamID e = r) (filter (\<lambda>e. ev_StreamType e = ''run'') (el_Events lg))
     = stream_of lg \<lparr>sk_Type = ''run'', sk_ID = r\<rparr>"
  by (auto simp: stream_of_def stored_stream_def intro!: filter_cong)

subsection \<open>Properties\<close>

text \<open>C36: The queue every other Run is ordered against agrees with each Run's own record. For a log the
  event log can hold, and a Run nothing has refused or closed, the Run is in the replayed queue exactly
  when its own reduction says a deferral stands; it is there under the class and the exemption that
  deferral states; and the seconds others weigh it at are the seconds its own door measures.\<close>

theorem queue_agrees_with_every_run:
  assumes "log_inv lg" "admissionQueue lg = Some (Inr q)"
    "\<forall>e \<in> set (el_Events lg). ev_StreamType e = ''run'' \<longrightarrow> ev_Type e = fact_type (ev_Data e)"
    "reduceRun js (stream_of lg \<lparr>sk_Type = ''run'', sk_ID = r\<rparr>) = Inr st"
    "\<forall>e \<in> set (stream_of lg \<lparr>sk_Type = ''run'', sk_ID = r\<rparr>). still_open e \<and> 0 < ev_OccurredAt e"
  shows "((\<exists>w \<in> set (aq_waiting q). wt_runID w = r) \<longleftrightarrow> deferral st \<noteq> None)
    \<and> (\<forall>w \<in> set (aq_waiting q). wt_runID w = r \<longrightarrow>
         (\<exists>d. deferral st = Some d \<and> wt_class w = df_Class d \<and> wt_holdsNoQueue w = deferral_HoldsNoQueue d)
       \<and> seconds_between now (wt_since w) = w_Seconds (state_wait st now))"
proof -
  obtain rp where rp: "q = queue_of_replay rp" "replay_ok rp"
    "reduce_facts queueReplay_apply (filter (eventFilterSQL queue_filter) (el_Events lg)) empty_replay = Inr rp"
    using admissionQueue_Inr[OF assms(1,2)] .
  have "queue_agrees r st rp"
  proof (rule replay_refines_run)
    show "reduce_facts queueReplay_apply (filter (\<lambda>e. ev_StreamType e = ''run'') (el_Events lg)) empty_replay = Inr rp"
      using rp(3) assms(3) by (simp add: replay_filtered)
    show "queue_agrees r no_state empty_replay" by (simp add: queue_agrees_def no_state_def empty_replay_def)
    show "reduce_facts (applyStoredEvent js)
        (filter (\<lambda>e. ev_StreamID e = r) (filter (\<lambda>e. ev_StreamType e = ''run'') (el_Events lg))) no_state = Inr st"
      using assms(4) unfolding run_stream_filter by (simp add: reduceRun_Inr)
    show "\<forall>e \<in> set (filter (\<lambda>e. ev_StreamType e = ''run'') (el_Events lg)).
        ev_StreamID e = r \<longrightarrow> still_open e \<and> 0 < ev_OccurredAt e"
      using assms(5) by (auto simp: stream_of_def stored_stream_def)
  qed
  then have entry: "map_of (qr_waiting rp) r = map_option (\<lambda>d. \<lparr>wt_runID = r, wt_class = df_Class d,
        wt_since = queuedSince st, wt_holdsNoQueue = deferral_HoldsNoQueue d\<rparr>) (deferral st)"
    and queued: "deferral st \<noteq> None \<Longrightarrow> queuedSince st \<noteq> 0" by (auto simp: queue_agrees_def)
  have w: "w = \<lparr>wt_runID = r, wt_class = df_Class d, wt_since = queuedSince st,
      wt_holdsNoQueue = deferral_HoldsNoQueue d\<rparr>"
    if "w \<in> set (aq_waiting q)" "wt_runID w = r" "deferral st = Some d" for w d
    using waiting_entry[OF rp(2), of w] that rp(1) entry by simp
  have some: "\<exists>d. deferral st = Some d" if "w \<in> set (aq_waiting q)" "wt_runID w = r" for w
    using waiting_entry[OF rp(2), of w] that rp(1) entry by (cases "deferral st") auto
  have member: "\<exists>w \<in> set (aq_waiting q). wt_runID w = r" if "deferral st = Some d" for d
  proof -
    let ?w = "\<lparr>wt_runID = r, wt_class = df_Class d, wt_since = queuedSince st,
      wt_holdsNoQueue = deferral_HoldsNoQueue d\<rparr>"
    have "map_of (qr_waiting rp) r = Some ?w" using entry that by simp
    from waiting_entry_member[OF this] rp(1) show ?thesis by (intro bexI[of _ ?w]) simp_all
  qed
  have "(\<exists>d. deferral st = Some d \<and> wt_class w = df_Class d \<and> wt_holdsNoQueue w = deferral_HoldsNoQueue d)
      \<and> seconds_between now (wt_since w) = w_Seconds (state_wait st now)"
    if mine: "w \<in> set (aq_waiting q)" "wt_runID w = r" for w
  proof -
    obtain d where d: "deferral st = Some d" using some[OF mine] by blast
    then show ?thesis unfolding w[OF mine d] using queued
      by (simp add: seconds_between_def state_wait_def time_is_zero_def)
  qed
  then show ?thesis using some member by blast
qed

definition sample_run_append :: "run_fact append_request" where
  "sample_run_append =
     \<lparr>ar_Stream = \<lparr>sk_Type = ''run'', sk_ID = ''r1''\<rparr>, ar_ExpectedStreamVersion = 0, ar_CommandKey = ''c1'',
      ar_RequestHash = ''h1'', ar_Actor = empty_string, ar_CorrelationID = empty_string, ar_CausationID = empty_string,
      ar_Events = [
       \<lparr>ne_ID = ''e1'', ne_Type = EventRunRequested, ne_SchemaVersion = 1, ne_OccurredAt = 1000000000,
        ne_Visibility = VisibilityPublic, ne_Data = FactRunRequested sample_requested, ne_PrivateData = empty_string\<rparr>,
       \<lparr>ne_ID = ''e2'', ne_Type = EventAdmissionDeferred, ne_SchemaVersion = 1, ne_OccurredAt = 2000000000,
        ne_Visibility = VisibilityPublic, ne_Data = FactAdmissionDeferred (sample_deferral DeferredNoCapacityFits),
        ne_PrivateData = empty_string\<rparr>]\<rparr>"

definition sample_run_log :: "run_fact event_log" where
  "sample_run_log = appended 1 sample_run_append empty_log"

lemma sample_run_log_append: "Append 1 sample_run_append empty_log =
    Inr (sample_run_log, appendResult (el_Events sample_run_log) False)"
  by (simp add: Append_def log_append_def append_request_error_def stream_validate_def sample_run_append_def
      readCommand_def empty_log_def currentStreamVersion_def violates_unique_def Let_def sample_run_log_def
      appended_def event_type_defs appendResult_def)

lemma sample_run_log_inv: "log_inv sample_run_log"
  using log_append_keeps[OF empty_log_inv sample_run_log_append[unfolded Append_Inr]] by blast

lemma sample_run_log_events:
  "el_Events sample_run_log = [stored_of 1 sample_run_append 1 0 (ar_Events sample_run_append ! 0),
     stored_of 1 sample_run_append 2 1 (ar_Events sample_run_append ! 1)]"
  by (simp add: sample_run_log_def appended_def empty_log_def sample_run_append_def Let_def numeral_2_eq_2)

lemma sample_run_stream: "stream_of sample_run_log \<lparr>sk_Type = ''run'', sk_ID = ''r1''\<rparr> = el_Events sample_run_log"
  by (simp add: stream_of_def sample_run_log_events stored_of_def stored_stream_def sample_run_append_def)

definition sample_queued :: run_state where
  "sample_queued = no_state\<lparr>requested := Some sample_requested, createdBy := empty_string,
     deferral := Some (sample_deferral DeferredNoCapacityFits), deferredAt := 2000000000,
     queuedSince := 2000000000, deferralCount := 1\<rparr>"

lemma sample_queued_reduces:
  "reduceRun (\<lambda>_. None) (stream_of sample_run_log \<lparr>sk_Type = ''run'', sk_ID = ''r1''\<rparr>) = Inr sample_queued"
  by (simp add: sample_run_stream sample_run_log_events stored_of_def sample_run_append_def sample_queued_def
      sample_deferral_def sample_requested_def reduceRun_def applyStoredEvent_def fact_effects no_state_def
      valid_event_def invalidRunRequested_def invalidAdmissionDeferral_def first_case.simps class_Known_def
      KnownServiceClasses_def selfImposedSince_def time_is_zero_def reason_defs i64_add_def wrap64_def
      state_validate_def actorSubject_def)

theorem queue_agrees_with_every_run_witness:
  "\<exists>q. admissionQueue sample_run_log = Some (Inr q) \<and> (\<exists>w \<in> set (aq_waiting q). wt_runID w = ''r1'')"
proof -
  have f: "filter (eventFilterSQL queue_filter) (el_Events sample_run_log)
      = [stored_of 1 sample_run_append 2 1 (ar_Events sample_run_append ! 1)]"
    by (simp add: sample_run_log_events stored_of_def sample_run_append_def eventFilterSQL_def queue_filter_def
        event_type_defs)
  obtain q where q: "admissionQueue sample_run_log = Some (Inr q)"
    unfolding admissionQueue_replay[OF sample_run_log_inv] f
    by (simp add: stored_of_def sample_run_append_def queueReplay_apply_def Let_def)
  have "\<forall>e \<in> set (el_Events sample_run_log). ev_StreamType e = ''run'' \<longrightarrow> ev_Type e = fact_type (ev_Data e)"
    "\<forall>e \<in> set (stream_of sample_run_log \<lparr>sk_Type = ''run'', sk_ID = ''r1''\<rparr>). still_open e \<and> 0 < ev_OccurredAt e"
    by (simp_all add: sample_run_stream sample_run_log_events stored_of_def sample_run_append_def still_open_def time_is_zero_def)
  from queue_agrees_with_every_run[OF sample_run_log_inv q this(1) sample_queued_reduces this(2)] q
  show ?thesis by (auto simp: sample_queued_def)
qed

definition waiting_position :: "time \<Rightarrow> waiting_run \<Rightarrow> queue_position \<Rightarrow> bool" where
  "waiting_position now w p \<longleftrightarrow> qp_runID p = wt_runID w \<and> qp_at p = now
     \<and> qp_priority p = EffectivePriority (class_Admission (wt_class w)) (seconds_between now (wt_since w))"

text \<open>C37: Admission never deadlocks: whatever is waiting, and whatever the moment, at least one waiting Run
  has nothing ahead of it that it may not be admitted past.\<close>

theorem queue_never_deadlocks:
  assumes "aq_waiting q \<noteq> []"
  shows "\<exists>w \<in> set (aq_waiting q). \<forall>p. waiting_position now w p \<longrightarrow> queue_ahead q p = []"
proof -
  let ?prio = "\<lambda>w. EffectivePriority (class_Admission (wt_class w)) (seconds_between now (wt_since w))"
  have "Max (?prio ` set (aq_waiting q)) \<in> ?prio ` set (aq_waiting q)" using assms by (intro Max_in) auto
  then obtain w where m: "w \<in> set (aq_waiting q)" "Max (?prio ` set (aq_waiting q)) = ?prio w" by auto
  have "?prio v \<le> ?prio w" if "v \<in> set (aq_waiting q)" for v
    unfolding m(2)[symmetric] using that by (intro Max_ge) auto
  with m(1) have w: "w \<in> set (aq_waiting q)" "\<forall>v \<in> set (aq_waiting q). ?prio v \<le> ?prio w" by auto
  then have "queue_ahead q p = []" if "waiting_position now w p" for p
    using that by (auto simp: queue_ahead_def filter_empty_conv holds_back_def waiting_position_def Let_def)
  with w show ?thesis by blast
qed


definition sample_waiting :: "string \<Rightarrow> time \<Rightarrow> waiting_run" where
  "sample_waiting r t = \<lparr>wt_runID = r, wt_class = ClassBatch, wt_since = t, wt_holdsNoQueue = False\<rparr>"

definition sample_position :: "string \<Rightarrow> queue_position" where
  "sample_position r = \<lparr>qp_runID = r, qp_class = ClassInteractive, qp_group = \<lparr>rg_ID = ''g'', rg_MaxParallel = 2\<rparr>,
     qp_policy = class_Admission ClassInteractive, qp_at = 3600000000001,
     qp_wait = \<lparr>w_Seconds = 0, w_SelfImposedSeconds = 0\<rparr>,
     qp_priority = EffectivePriority (class_Admission ClassInteractive) 0\<rparr>"

theorem queue_never_deadlocks_witness:
  "queue_ahead \<lparr>aq_waiting = [sample_waiting ''r1'' 1], aq_holding = []\<rparr>
     ((sample_position ''r1'')\<lparr>qp_priority :=
        EffectivePriority (class_Admission ClassBatch) (seconds_between 3600000000001 1)\<rparr>) = []"
  using queue_never_deadlocks[of "\<lparr>aq_waiting = [sample_waiting ''r1'' 1], aq_holding = []\<rparr>" 3600000000001]
  by (simp add: waiting_position_def sample_waiting_def sample_position_def)


text \<open>Waiting is worth something at the door: a Run that has waited half of what its class accepts,
  and that the fleet could hold, keeps every newcomer of a class without backfill from being placed,
  whatever that class's priority; once it has waited longer than its class accepts it keeps backfill
  out too.\<close>

theorem waiting_run_holds_newcomers:
  assumes "w \<in> set (aq_waiting q)" "\<not> wt_holdsNoQueue w" "wt_runID w \<noteq> qp_runID p" "class_Known (wt_class w)"
    "half_bound (wt_class w) \<le> seconds_between (qp_at p) (wt_since w)"
    "qp_policy p = class_Admission (qp_class p)" "qp_priority p = EffectivePriority (qp_policy p) 0"
    "ad_BackfillEligible (qp_policy p) \<longrightarrow>
       Starved (class_Admission (wt_class w)) (seconds_between (qp_at p) (wt_since w))"
  shows "admit ff q st p \<noteq> None"
proof -
  let ?s = "seconds_between (qp_at p) (wt_since w)"
  have "qp_priority p \<le> TopClassPriority"
    using assms(6,7) priority_bounds[of "qp_class p"] by (simp add: EffectivePriority_def)
  also have "\<dots> < EffectivePriority (class_Admission (wt_class w)) (half_bound (wt_class w))"
    by (rule half_bound_overtakes[OF assms(4)])
  also have "\<dots> \<le> EffectivePriority (class_Admission (wt_class w)) ?s" by (rule EffectivePriority_mono[OF assms(5)])
  finally have "holds_back p w" using assms(2,3,8) by (auto simp: holds_back_def Let_def)
  then have "queue_ahead q p \<noteq> []" using assms(1) by (auto simp: queue_ahead_def filter_empty_conv)
  then show ?thesis by (simp add: admit_def Let_def)
qed

theorem waiting_run_holds_newcomers_witness:
  "admit (\<lambda>_. empty_string) \<lparr>aq_waiting = [sample_waiting ''r1'' 1], aq_holding = []\<rparr> no_state (sample_position ''r2'') \<noteq> None"
proof (rule waiting_run_holds_newcomers)
  show "half_bound (wt_class (sample_waiting ''r1'' 1)) \<le> seconds_between (qp_at (sample_position ''r2'')) (wt_since (sample_waiting ''r1'' 1))"
    unfolding sample_waiting_def sample_position_def waiting_run.simps queue_position.simps by code_simp
qed (simp_all add: sample_waiting_def sample_position_def class_Known_def KnownServiceClasses_def class_Admission_def no_admission_def)

end
