(* ===== verification/RunProjection.thy ===== *)
theory RunProjection
  imports AdmissionQueue
begin

text \<open>
  The Run read model derived from the log (\<^verbatim>\<open>internal/orchestrator/history_run_projection.go\<close>,
  \<^verbatim>\<open>runRecordsFromHistory\<close> of \<^verbatim>\<open>orchestrator.go\<close>, \<^verbatim>\<open>launch_history.go\<close> and the page
  contract of \<^verbatim>\<open>internal/runprojection\<close>): every Run's record from one scan of the whole log, the
  pages it is served in, the Runs still open, and the launches predictions are calibrated on.

  The map of states is an association list with one entry per Run. The outer \<open>None\<close> of a result is
  a scan or a paging loop that never ends.
\<close>

subsection \<open>Every Run's record\<close>

datatype projection_error =
    ProjectionScan "log_error scan_error"
  | ProjectionRun run_error
  | PageLimit int

definition project_event ::
  "(string \<Rightarrow> string option) \<Rightarrow> run_fact stored_event \<Rightarrow> (string \<times> run_state) list \<Rightarrow>
   run_error + (string \<times> run_state) list" where
  "project_event js e states =
     (let st = (case map_of states (ev_StreamID e) of None \<Rightarrow> no_state | Some s \<Rightarrow> s) in
      case applyStoredEvent js e st of
        Inl err \<Rightarrow> Inl err
      | Inr st' \<Rightarrow> Inr (AList.update (ev_StreamID e) st' states))"

fun records_of :: "(string \<times> run_state) list \<Rightarrow> run_error + run_record list" where
  "records_of [] = Inr []"
| "records_of ((runID, st) # states) =
     checked (state_validate st)
      (case runRecordFromState runID st of
         None \<Rightarrow> Inl RunRequestedNotFound
       | Some r \<Rightarrow> (case records_of states of Inl err \<Rightarrow> Inl err | Inr rs \<Rightarrow> Inr (r # rs)))"

definition run_filter :: event_filter where
  "run_filter = \<lparr>ef_StreamTypes = [''run''], ef_EventTypes = [], ef_Visibility = empty_string\<rparr>"

definition runRecordsFromHistory ::
  "(string \<Rightarrow> string option) \<Rightarrow> run_fact event_log \<Rightarrow> (projection_error + run_record list) option" where
  "runRecordsFromHistory js lg =
     (case ScanAll (ReadAll lg) (LatestPosition lg run_filter) run_filter of
        None \<Rightarrow> None
      | Some (events, Some err) \<Rightarrow> Some (Inl (ProjectionScan err))
      | Some (events, None) \<Rightarrow>
          Some (case reduce_facts (project_event js) events [] of
            Inl err \<Rightarrow> Inl (ProjectionRun err)
          | Inr states \<Rightarrow> (case records_of states of
              Inl err \<Rightarrow> Inl (ProjectionRun err)
            | Inr rs \<Rightarrow> Inr (sort_key rec_ID rs))))"

subsection \<open>Pages\<close>

definition DefaultPageSize :: int where "DefaultPageSize = 50"
definition MaxPageSize :: int where "MaxPageSize = 100"

record page_request =
  pr_After :: string
  pr_Limit :: int

record run_page =
  pg_Records :: "run_record list"
  pg_NextCursor :: string

definition page_Validated :: "page_request \<Rightarrow> projection_error + page_request" where
  "page_Validated req =
     (let req' = (if pr_Limit req = 0 then req\<lparr>pr_Limit := DefaultPageSize\<rparr> else req) in
      if pr_Limit req' < 1 \<or> MaxPageSize < pr_Limit req' then Inl (PageLimit (pr_Limit req')) else Inr req')"

definition page_of :: "page_request \<Rightarrow> run_record list \<Rightarrow> run_page" where
  "page_of req records =
     (let start = length (takeWhile (\<lambda>r. rec_ID r \<le> pr_After req) records);
          stop = min (start + nat (pr_Limit req)) (length records);
          page = take (stop - start) (drop start records)
      in \<lparr>pg_Records = page, pg_NextCursor = (if stop < length records then rec_ID (last page) else empty_string)\<rparr>)"

definition projection_List ::
  "(string \<Rightarrow> string option) \<Rightarrow> run_fact event_log \<Rightarrow> page_request \<Rightarrow> (projection_error + run_page) option" where
  "projection_List js lg req = (case page_Validated req of
     Inl err \<Rightarrow> Some (Inl err)
   | Inr req' \<Rightarrow> (case runRecordsFromHistory js lg of
       None \<Rightarrow> None
     | Some (Inl err) \<Rightarrow> Some (Inl err)
     | Some (Inr records) \<Rightarrow> Some (Inr (page_of req' records))))"

partial_function (option) every_record_from ::
    "(page_request \<Rightarrow> ('e + run_page) option) \<Rightarrow> string \<Rightarrow> ('e + run_record list) option" where
  "every_record_from lister after =
     Option.bind (lister \<lparr>pr_After = after, pr_Limit = MaxPageSize\<rparr>)
       (\<lambda>answer. case answer of
          Inl err \<Rightarrow> Some (Inl err)
        | Inr page \<Rightarrow>
            if pg_NextCursor page = empty_string then Some (Inr (pg_Records page))
            else Option.bind (every_record_from lister (pg_NextCursor page))
                   (\<lambda>rest. Some (case rest of Inl err \<Rightarrow> Inl err | Inr rs \<Rightarrow> Inr (pg_Records page @ rs))))"

definition everyRunRecord ::
  "(string \<Rightarrow> string option) \<Rightarrow> run_fact event_log \<Rightarrow> (projection_error + run_record list) option" where
  "everyRunRecord js lg = every_record_from (projection_List js lg) empty_string"

subsection \<open>Open Runs\<close>

definition open_filter :: event_filter where
  "open_filter = \<lparr>ef_StreamTypes = [''run''], ef_EventTypes = [EventRunRequested, EventRunClosed],
     ef_Visibility = empty_string\<rparr>"

definition open_ids :: "run_fact stored_event list \<Rightarrow> string list" where
  "open_ids events =
     (let requested = map ev_StreamID (filter (\<lambda>e. ev_Type e = EventRunRequested) events);
          over = map ev_StreamID (filter (\<lambda>e. ev_Type e = EventRunClosed) events)
      in filter (\<lambda>r. r \<notin> set over) requested)"

definition ListOpenIDs :: "run_fact event_log \<Rightarrow> (projection_error + string list) option" where
  "ListOpenIDs lg =
     (case ScanAll (ReadAll lg) (LatestPosition lg open_filter) open_filter of
        None \<Rightarrow> None
      | Some (events, Some err) \<Rightarrow> Some (Inl (ProjectionScan err))
      | Some (events, None) \<Rightarrow> Some (Inr (open_ids events)))"

subsection \<open>The launch history\<close>

definition selectedCandidate :: "booking_decision \<Rightarrow> candidate_identity option" where
  "selectedCandidate d =
     (if bd_SelectedOfferSnapshotID d = empty_string then None
      else map_option cd_Candidate
        (find (\<lambda>c. cd_OfferSnapshotID c = bd_SelectedOfferSnapshotID d) (bd_Candidates d)))"

definition decided_filter :: event_filter where
  "decided_filter = \<lparr>ef_StreamTypes = [''run''], ef_EventTypes = [EventBookingDecided], ef_Visibility = empty_string\<rparr>"

definition launched_candidate ::
  "run_fact stored_event \<Rightarrow> (string \<times> candidate_identity) list \<Rightarrow> string + (string \<times> candidate_identity) list" where
  "launched_candidate e cs = (case ev_Data e of
     FactBookingDecided d \<Rightarrow> (case selectedCandidate d of
       None \<Rightarrow> Inr cs
     | Some c \<Rightarrow> Inr (AList.update (bd_RunID d) c cs))
   | _ \<Rightarrow> Inl ''decode Booking Decision for the launch history'')"

definition launchedCandidates ::
  "run_fact event_log \<Rightarrow> (string + (string \<times> candidate_identity) list) option" where
  "launchedCandidates lg =
     (case ScanAll (ReadAll lg) (LatestPosition lg decided_filter) decided_filter of
        None \<Rightarrow> None
      | Some (events, Some err) \<Rightarrow> Some (Inl ''read the launch history'')
      | Some (events, None) \<Rightarrow> Some (reduce_facts launched_candidate events []))"

definition launch_of :: "(string \<times> candidate_identity) list \<Rightarrow> run_record \<Rightarrow> launch list" where
  "launch_of candidates r = (case (map_of candidates (rec_ID r), rec_StartedAt r, rec_ReadyAt r) of
     (Some c, Some s, Some t) \<Rightarrow> [\<lparr>la_Candidate = c, la_StartedAt = s, la_ReadyAt = t\<rparr>]
   | _ \<Rightarrow> [])"

definition launchHistory ::
  "(page_request \<Rightarrow> (projection_error + run_page) option) \<Rightarrow> run_fact event_log \<Rightarrow> (string + history) option" where
  "launchHistory lister lg = (case launchedCandidates lg of
     None \<Rightarrow> None
   | Some (Inl err) \<Rightarrow> Some (Inl err)
   | Some (Inr []) \<Rightarrow> Some (Inr (NewHistory []))
   | Some (Inr candidates) \<Rightarrow> (case every_record_from lister empty_string of
       None \<Rightarrow> None
     | Some (Inl err) \<Rightarrow> Some (Inl ''read the launch history'')
     | Some (Inr records) \<Rightarrow>
         Some (Inr (NewHistory (Observations (concat (map (launch_of candidates) records)))))))"

lemma scan_to_head:
  assumes "log_inv lg"
  shows "ScanAll (ReadAll lg) (LatestPosition lg f) f = Some (filter (eventFilterSQL f) (el_Events lg), None)"
proof -
  have "ev_GlobalPosition e \<le> LatestPosition lg f" if "e \<in> set (el_Events lg)" "eventFilterSQL f e" for e
    using that by (auto simp: LatestPosition_def intro!: foldr_max_0_le)
  then have "filter (\<lambda>e. eventFilterSQL f e \<and> ev_GlobalPosition e \<le> LatestPosition lg f) (el_Events lg)
      = filter (eventFilterSQL f) (el_Events lg)"
    by (intro filter_cong) auto
  then show ?thesis using log_positions.scan_yields_reached[of "(lg, f)" "ReadAll lg" f "LatestPosition lg f"] assms
    by (simp add: ScanAll_def conj_commute)
qed
subsection \<open>One scan against one reduction per stream\<close>

abbreviation state_in :: "(string \<times> run_state) list \<Rightarrow> string \<Rightarrow> run_state" where
  "state_in states r \<equiv> (case map_of states r of None \<Rightarrow> no_state | Some s \<Rightarrow> s)"

abbreviation own_events :: "string \<Rightarrow> run_fact stored_event list \<Rightarrow> run_fact stored_event list" where
  "own_events r es \<equiv> filter (\<lambda>e. ev_StreamID e = r) es"

lemma project_event_Inr:
  "project_event js e states = Inr states' \<longleftrightarrow>
     (\<exists>st'. applyStoredEvent js e (state_in states (ev_StreamID e)) = Inr st'
        \<and> states' = AList.update (ev_StreamID e) st' states)"
  by (auto simp: project_event_def Let_def split: sum.splits)

lemma project_events_own:
  assumes "reduce_facts (project_event js) es states = Inr states'"
  shows "reduce_facts (applyStoredEvent js) (own_events r es) (state_in states r) = Inr (state_in states' r)
    \<and> (map_of states' r = None \<longleftrightarrow> map_of states r = None \<and> own_events r es = [])"
  using assms
proof (induction es arbitrary: states)
  case (Cons e es)
  then obtain st1 where st1: "applyStoredEvent js e (state_in states (ev_StreamID e)) = Inr st1"
    "reduce_facts (project_event js) es (AList.update (ev_StreamID e) st1 states) = Inr states'"
    unfolding reduce_facts_Cons_Inr project_event_Inr by blast
  from Cons.IH[OF st1(2)] st1(1) show ?case by (auto simp: update_conv split: if_splits)
qed simp

lemma project_events_total:
  assumes "\<forall>r. \<exists>st. reduce_facts (applyStoredEvent js) (own_events r es) (state_in states r) = Inr st"
  shows "\<exists>states'. reduce_facts (project_event js) es states = Inr states'"
  using assms
proof (induction es arbitrary: states)
  case (Cons e es)
  from Cons.prems[rule_format, of "ev_StreamID e"] obtain st1
    where st1: "applyStoredEvent js e (state_in states (ev_StreamID e)) = Inr st1" by (auto split: sum.splits)
  have "\<exists>st. reduce_facts (applyStoredEvent js) (own_events r es) (state_in (AList.update (ev_StreamID e) st1 states) r) = Inr st" for r
    using Cons.prems[rule_format, of r] st1 by (auto simp: update_conv split: if_splits sum.splits)
  then obtain states' where "reduce_facts (project_event js) es (AList.update (ev_StreamID e) st1 states) = Inr states'"
    using Cons.IH by blast
  then show ?case unfolding reduce_facts_Cons_Inr project_event_Inr using st1 by blast
qed simp

lemma project_events_distinct:
  "reduce_facts (project_event js) es states = Inr states' \<Longrightarrow> distinct (map fst states) \<Longrightarrow> distinct (map fst states')"
proof (induction es arbitrary: states)
  case (Cons e es)
  then show ?case unfolding reduce_facts_Cons_Inr project_event_Inr by (auto intro: distinct_update)
qed simp

lemma validated_record: "state_validate st = None \<Longrightarrow> \<exists>rec. runRecordFromState r st = Some rec \<and> rec_ID rec = r"
  by (auto simp: state_validate_def runRecordFromState_def Let_def split: option.splits)

lemma records_of_Inr:
  "records_of states = Inr rs \<longleftrightarrow>
     (\<forall>(r, st) \<in> set states. state_validate st = None) \<and> rs = map (\<lambda>(r, st). the (runRecordFromState r st)) states"
proof (induction states arbitrary: rs)
  case (Cons p states)
  obtain r st where p: "p = (r, st)" by (cases p)
  let ?ok = "\<forall>(r, st) \<in> set states. state_validate st = None"
  show ?case
  proof (cases "state_validate st = None")
    case True
    then obtain x where x: "runRecordFromState r st = Some x" using validated_record by blast
    show ?thesis
    proof (cases ?ok)
      case ok: True
      then have "records_of states = Inr (map (\<lambda>(r, st). the (runRecordFromState r st)) states)" using Cons.IH by simp
      with True x ok show ?thesis by (auto simp: p)
    next
      case False
      then have "records_of states \<noteq> Inr xs" for xs using Cons.IH by simp
      then obtain err where "records_of states = Inl err" by (cases "records_of states") auto
      with True x False show ?thesis by (simp add: p)
    qed
  qed (auto simp: p)
qed auto

lemma distinct_map_sort_key: "distinct (map f xs) \<Longrightarrow> distinct (map f (sort_key f xs))"
  by (metis mset_map mset_sort mset_eq_imp_distinct_iff)

lemma run_filter_events: "eventFilterSQL run_filter = (\<lambda>e. ev_StreamType e = ''run'')"
  by (simp add: eventFilterSQL_def run_filter_def fun_eq_iff)

lemma runRecordsFromHistory_eq:
  assumes "log_inv lg"
  shows "runRecordsFromHistory js lg = Some
    (case reduce_facts (project_event js) (filter (\<lambda>e. ev_StreamType e = ''run'') (el_Events lg)) [] of
       Inl err \<Rightarrow> Inl (ProjectionRun err)
     | Inr states \<Rightarrow> (case records_of states of Inl err \<Rightarrow> Inl (ProjectionRun err) | Inr rs \<Rightarrow> Inr (sort_key rec_ID rs)))"
  using scan_to_head[OF assms, of run_filter] by (simp add: runRecordsFromHistory_def run_filter_events)

abbreviation run_stream :: "run_fact event_log \<Rightarrow> string \<Rightarrow> run_fact stored_event list" where
  "run_stream lg r \<equiv> stream_of lg \<lparr>sk_Type = ''run'', sk_ID = r\<rparr>"

lemma projected_states:
  assumes "reduce_facts (project_event js) (filter (\<lambda>e. ev_StreamType e = ''run'') (el_Events lg)) [] = Inr states"
  shows "reduce_facts (applyStoredEvent js) (run_stream lg r) no_state = Inr (state_in states r)"
    "map_of states r = None \<longleftrightarrow> run_stream lg r = []" "distinct (map fst states)"
  using project_events_own[OF assms, of r] project_events_distinct[OF assms]
  by (simp_all add: run_stream_filter del: filter_filter)

lemma rec_ID_record: "runRecordFromState r st = Some rec \<Longrightarrow> rec_ID rec = r"
  by (auto simp: runRecordFromState_def Let_def split: option.splits)

lemma projection_of_streams:
  assumes "log_inv lg"
  shows "((\<exists>rs. runRecordsFromHistory js lg = Some (Inr rs)) \<longleftrightarrow>
      (\<forall>r. run_stream lg r \<noteq> [] \<longrightarrow> is_ok (reduceRun js (run_stream lg r))))
    \<and> (\<forall>rs. runRecordsFromHistory js lg = Some (Inr rs) \<longrightarrow>
        sorted_wrt (<) (map rec_ID rs)
      \<and> rec_ID ` set rs = {r. run_stream lg r \<noteq> []}
      \<and> (\<forall>rec \<in> set rs. \<exists>st. reduceRun js (run_stream lg (rec_ID rec)) = Inr st
           \<and> runRecordFromState (rec_ID rec) st = Some rec))"
proof (intro conjI allI impI)
  let ?es = "filter (\<lambda>e. ev_StreamType e = ''run'') (el_Events lg)"
  have states: "\<exists>states. reduce_facts (project_event js) ?es [] = Inr states
      \<and> (\<forall>(r, st) \<in> set states. state_validate st = None)
      \<and> rs = sort_key rec_ID (map (\<lambda>(r, st). the (runRecordFromState r st)) states)"
    if "runRecordsFromHistory js lg = Some (Inr rs)" for rs
    using that by (auto simp: runRecordsFromHistory_eq[OF assms] records_of_Inr split: sum.splits)
  show "(\<exists>rs. runRecordsFromHistory js lg = Some (Inr rs)) \<longleftrightarrow>
      (\<forall>r. run_stream lg r \<noteq> [] \<longrightarrow> is_ok (reduceRun js (run_stream lg r)))" (is "?L \<longleftrightarrow> ?R")
  proof
    assume ?L
    then obtain states where s: "reduce_facts (project_event js) ?es [] = Inr states"
      "\<forall>(r, st) \<in> set states. state_validate st = None" using states by blast
    show ?R
    proof (intro allI impI)
      fix r assume "run_stream lg r \<noteq> []"
      then obtain st where st: "map_of states r = Some st" using projected_states(2)[OF s(1), of r] by auto
      then have "reduceRun js (run_stream lg r) = Inr st"
        using projected_states(1)[OF s(1), of r] s(2) by (auto simp: reduceRun_Inr dest!: map_of_SomeD)
      then show "is_ok (reduceRun js (run_stream lg r))" by simp
    qed
  next
    assume R: ?R
    have "\<exists>st. reduce_facts (applyStoredEvent js) (own_events r ?es) (state_in [] r) = Inr st" for r
      using R[rule_format, of r] by (cases "run_stream lg r = []") (auto simp: run_stream_filter is_ok_def reduceRun_Inr simp del: filter_filter)
    then obtain states where s: "reduce_facts (project_event js) ?es [] = Inr states"
      using project_events_total by blast
    have "state_validate st = None" if "(r, st) \<in> set states" for r st
    proof -
      have m: "map_of states r = Some st" using that projected_states(3)[OF s] by (simp add: map_of_is_SomeI)
      then have "run_stream lg r \<noteq> []" using projected_states(2)[OF s, of r] by auto
      then show ?thesis using R[rule_format, of r] projected_states(1)[OF s, of r] m by (auto simp: is_ok_def reduceRun_Inr)
    qed
    then have "records_of states = Inr (map (\<lambda>(r, st). the (runRecordFromState r st)) states)"
      by (auto simp: records_of_Inr)
    then show ?L using s by (simp add: runRecordsFromHistory_eq[OF assms])
  qed
  fix rs assume "runRecordsFromHistory js lg = Some (Inr rs)"
  then obtain states where s: "reduce_facts (project_event js) ?es [] = Inr states"
    "\<forall>(r, st) \<in> set states. state_validate st = None"
    "rs = sort_key rec_ID (map (\<lambda>(r, st). the (runRecordFromState r st)) states)" using states by blast
  let ?recs = "map (\<lambda>(r, st). the (runRecordFromState r st)) states"
  have rec: "runRecordFromState r st = Some (the (runRecordFromState r st))" "rec_ID (the (runRecordFromState r st)) = r"
    if "(r, st) \<in> set states" for r st
  proof -
    have "state_validate st = None" using that s(2) by blast
    then show "runRecordFromState r st = Some (the (runRecordFromState r st))"
      "rec_ID (the (runRecordFromState r st)) = r" using validated_record[of st r] by auto
  qed
  have ids: "map rec_ID ?recs = map fst states" using rec by (auto simp: map_eq_conv case_prod_beta)
  then have "distinct (map rec_ID ?recs)" using projected_states(3)[OF s(1)] by (simp only:)
  then have "distinct (map rec_ID rs)" unfolding s(3) by (rule distinct_map_sort_key)
  then show "sorted_wrt (<) (map rec_ID rs)" by (simp add: s(3) strict_sorted_iff)
  have "rec_ID ` set rs = fst ` set states" using arg_cong[OF ids, of set] by (simp add: s(3) image_image)
  also have "\<dots> = {r. run_stream lg r \<noteq> []}" using projected_states(2)[OF s(1)] by (auto simp: map_of_eq_None_iff)
  finally show "rec_ID ` set rs = {r. run_stream lg r \<noteq> []}" .
  show "\<forall>rec \<in> set rs. \<exists>st. reduceRun js (run_stream lg (rec_ID rec)) = Inr st \<and> runRecordFromState (rec_ID rec) st = Some rec"
  proof
    fix x assume "x \<in> set rs"
    then obtain r st where p: "(r, st) \<in> set states" "x = the (runRecordFromState r st)" by (auto simp: s(3))
    have m: "map_of states r = Some st" using p(1) projected_states(3)[OF s(1)] by (simp add: map_of_is_SomeI)
    have "reduceRun js (run_stream lg r) = Inr st"
      using projected_states(1)[OF s(1), of r] m s(2) p(1) by (auto simp: reduceRun_Inr)
    then show "\<exists>st. reduceRun js (run_stream lg (rec_ID x)) = Inr st \<and> runRecordFromState (rec_ID x) st = Some x"
      using rec[OF p(1)] p(2) by auto
  qed
qed

lemma projection_shape:
  assumes "log_inv lg" "runRecordsFromHistory js lg = Some (Inr rs)"
  shows "sorted_wrt (<) (map rec_ID rs)" "rec_ID ` set rs = {r. run_stream lg r \<noteq> []}"
  using projection_of_streams[OF assms(1), of js] assms(2) by blast+

text \<open>The one scan over the whole log that builds every Run's record agrees with reducing each Run's
  own stream: it succeeds exactly when every stream reduces, it answers one record per stream in strictly
  ascending order of the ID, and each record is the one the reduced stream gives.\<close>

theorem projection_agrees_with_streams:
  assumes "log_inv lg"
  shows "((\<exists>rs. runRecordsFromHistory js lg = Some (Inr rs)) \<longleftrightarrow>
      (\<forall>r. run_stream lg r \<noteq> [] \<longrightarrow> is_ok (reduceRun js (run_stream lg r))))
    \<and> (\<forall>rs. runRecordsFromHistory js lg = Some (Inr rs) \<longrightarrow>
        sorted_wrt (<) (map rec_ID rs)
      \<and> rec_ID ` set rs = {r. run_stream lg r \<noteq> []}
      \<and> (\<forall>rec \<in> set rs. \<exists>st. reduceRun js (run_stream lg (rec_ID rec)) = Inr st
           \<and> runRecordFromState (rec_ID rec) st = Some rec))"
  by (rule projection_of_streams[OF assms])

lemma sample_projection:
  "\<exists>rs. runRecordsFromHistory (\<lambda>_. None) sample_run_log = Some (Inr rs) \<and> rec_ID ` set rs = {''r1''}"
proof -
  have other: "run_stream sample_run_log r = []" if "r \<noteq> ''r1''" for r
    using that by (simp add: stream_of_def sample_run_log_events stored_of_def stored_stream_def sample_run_append_def)
  have some: "run_stream sample_run_log ''r1'' \<noteq> []" by (simp add: sample_run_stream sample_run_log_events)
  note agrees = projection_of_streams[OF sample_run_log_inv, of "\<lambda>_. None"]
  have "\<forall>r. run_stream sample_run_log r \<noteq> [] \<longrightarrow> is_ok (reduceRun (\<lambda>_. None) (run_stream sample_run_log r))"
    using other sample_queued_reduces by (metis is_ok_simps(1))
  then obtain rs where rs: "runRecordsFromHistory (\<lambda>_. None) sample_run_log = Some (Inr rs)" using agrees by blast
  then have "rec_ID ` set rs = {r. run_stream sample_run_log r \<noteq> []}" using agrees by blast
  then show ?thesis using rs other some by (intro exI[of _ rs]) auto
qed

theorem projection_agrees_with_streams_witness:
  "\<exists>rs. runRecordsFromHistory (\<lambda>_. None) sample_run_log = Some (Inr rs) \<and> rec_ID ` set rs = {r. run_stream sample_run_log r \<noteq> []}"
proof -
  obtain rs where rs: "runRecordsFromHistory (\<lambda>_. None) sample_run_log = Some (Inr rs)" using sample_projection by blast
  then show ?thesis using projection_agrees_with_streams[OF sample_run_log_inv, of "\<lambda>_. None"] by blast
qed

subsection \<open>Paging\<close>

lemma string_le_empty: "(x :: string) \<le> empty_string \<longleftrightarrow> x = empty_string"
  by (cases x) (auto simp: list_le_def)

lemma takeWhile_sorted_le:
  fixes ids :: "'a :: linorder list"
  assumes "sorted_wrt (<) ids" "i < length ids"
  shows "length (takeWhile (\<lambda>x. x \<le> ids ! i) ids) = Suc i"
proof -
  have "takeWhile (\<lambda>x. x \<le> ids ! i) (take (Suc i) ids @ drop (Suc i) ids) = take (Suc i) ids"
  proof (subst takeWhile_append2)
    show "x \<le> ids ! i" if "x \<in> set (take (Suc i) ids)" for x
      using that assms by (auto simp: in_set_conv_nth sorted_wrt_iff_nth_less less_Suc_eq le_less)
    have "takeWhile (\<lambda>x. x \<le> ids ! i) (drop (Suc i) ids) = []"
    proof (cases "Suc i < length ids")
      case True
      then have "ids ! i < ids ! Suc i" using assms(1) by (simp add: sorted_wrt_iff_nth_less)
      then show ?thesis using True by (simp add: Cons_nth_drop_Suc[symmetric] not_le del: drop_Suc)
    qed simp
    then show "take (Suc i) ids @ takeWhile (\<lambda>x. x \<le> ids ! i) (drop (Suc i) ids) = take (Suc i) ids" by simp
  qed
  then show ?thesis using assms(2) by simp
qed

lemma length_takeWhile_map: "length (takeWhile (\<lambda>r. P (f r)) xs) = length (takeWhile P (map f xs))"
  by (simp add: takeWhile_map comp_def)

lemma every_record_pages:
  assumes sorted: "sorted_wrt (<) (map rec_ID records)" and named: "empty_string \<notin> rec_ID ` set records"
    and serves: "\<And>after. lister \<lparr>pr_After = after, pr_Limit = MaxPageSize\<rparr> = Some (Inr (page_of \<lparr>pr_After = after, pr_Limit = MaxPageSize\<rparr> records))"
  shows "every_record_from lister after
    = Some (Inr (drop (length (takeWhile (\<lambda>r. rec_ID r \<le> after) records)) records))"
proof (induction "length records - length (takeWhile (\<lambda>r. rec_ID r \<le> after) records)" arbitrary: after rule: less_induct)
  case less
  define k where "k = length (takeWhile (\<lambda>r. rec_ID r \<le> after) records)"
  have le: "k \<le> length records" unfolding k_def by (rule length_takeWhile_le)
  have page: "page_of \<lparr>pr_After = after, pr_Limit = MaxPageSize\<rparr> records =
      \<lparr>pg_Records = take 100 (drop k records),
       pg_NextCursor = (if k + 100 < length records then rec_ID (records ! (k + 99)) else empty_string)\<rparr>"
    by (auto simp: page_of_def Let_def MaxPageSize_def k_def[symmetric] min_def last_conv_nth add.commute)
  show ?case
  proof (cases "k + 100 < length records")
    case False
    then show ?thesis by (subst every_record_from.simps) (simp add: serves page k_def[symmetric])
  next
    case True
    let ?c = "rec_ID (records ! (k + 99))"
    have "length (takeWhile (\<lambda>x. x \<le> map rec_ID records ! (k + 99)) (map rec_ID records)) = Suc (k + 99)"
      by (rule takeWhile_sorted_le[OF sorted]) (use True in simp)
    then have cut: "length (takeWhile (\<lambda>r. rec_ID r \<le> ?c) records) = k + 100"
      unfolding length_takeWhile_map[of "\<lambda>x. x \<le> ?c" rec_ID records] using True by simp
    have "every_record_from lister ?c = Some (Inr (drop (k + 100) records))"
      using less[of ?c] True cut unfolding k_def[symmetric] by simp
    moreover have "?c \<noteq> empty_string" proof -
      have "records ! (k + 99) \<in> set records" using True by (intro nth_mem) simp
      then show ?thesis using named by (metis imageI)
    qed
    moreover have "take 100 (drop k records) @ drop (k + 100) records = drop k records"
      by (metis add.commute append_take_drop_id drop_drop)
    ultimately show ?thesis using True
      by (subst every_record_from.simps) (simp add: serves page k_def[symmetric])
  qed
qed

text \<open>C39: Following the cursor from page to page ends, and the pages put together are every record of the
  projection, in its order, none twice and none left out, whatever number of Runs the log holds.\<close>

theorem paging_returns_every_record:
  assumes "runRecordsFromHistory js lg = Some (Inr rs)" "log_inv lg" "run_stream lg empty_string = []"
  shows "everyRunRecord js lg = Some (Inr rs)"
proof -
  have shape: "sorted_wrt (<) (map rec_ID rs)" "empty_string \<notin> rec_ID ` set rs"
    using projection_shape[OF assms(2,1)] assms(3) by auto
  have "projection_List js lg \<lparr>pr_After = after, pr_Limit = MaxPageSize\<rparr>
      = Some (Inr (page_of \<lparr>pr_After = after, pr_Limit = MaxPageSize\<rparr> rs))" for after
    using assms(1) by (simp add: projection_List_def page_Validated_def MaxPageSize_def)
  from every_record_pages[OF shape this, of empty_string] have
    "everyRunRecord js lg = Some (Inr (drop (length (takeWhile (\<lambda>r. rec_ID r \<le> empty_string) rs)) rs))"
    by (simp add: everyRunRecord_def)
  moreover have "takeWhile (\<lambda>r. rec_ID r \<le> empty_string) rs = []"
    using shape(2) by (cases rs) (auto simp: string_le_empty)
  ultimately show ?thesis by simp
qed

theorem paging_returns_every_record_witness:
  "\<exists>rs. everyRunRecord (\<lambda>_. None) sample_run_log = Some (Inr rs) \<and> rec_ID ` set rs = {''r1''}"
proof -
  have empty: "run_stream sample_run_log empty_string = []"
    by (simp add: stream_of_def sample_run_log_events stored_of_def stored_stream_def sample_run_append_def)
  obtain rs where rs: "runRecordsFromHistory (\<lambda>_. None) sample_run_log = Some (Inr rs)" "rec_ID ` set rs = {''r1''}"
    using sample_projection by blast
  show ?thesis by (intro exI[of _ rs] conjI rs(2) paging_returns_every_record[OF rs(1) sample_run_log_inv empty])
qed

subsection \<open>Open Runs\<close>

lemma apply_fact_milestones:
  "apply_fact js t a f st = Inr st' \<Longrightarrow>
     (closed st' \<longleftrightarrow> closed st \<or> fact_type f = EventRunClosed)
   \<and> (requested st' \<noteq> None \<longleftrightarrow> requested st \<noteq> None \<or> fact_type f = EventRunRequested)"
  by (cases f) (auto simp: fact_effects exclude_def event_type_defs split: if_splits option.splits)

lemma replay_milestones:
  assumes "reduce_facts (applyStoredEvent js) es st = Inr st'" "\<forall>e \<in> set es. ev_Type e = fact_type (ev_Data e)"
  shows "(closed st' \<longleftrightarrow> closed st \<or> (\<exists>e \<in> set es. ev_Type e = EventRunClosed))
    \<and> (requested st' \<noteq> None \<longleftrightarrow> requested st \<noteq> None \<or> (\<exists>e \<in> set es. ev_Type e = EventRunRequested))"
  using assms
proof (induction es arbitrary: st)
  case (Cons e es)
  then obtain st1 where st1: "applyStoredEvent js e st = Inr st1" "reduce_facts (applyStoredEvent js) es st1 = Inr st'"
    unfolding reduce_facts_Cons_Inr by blast
  from st1(1) have "apply_fact js (ev_OccurredAt e) (ev_Actor e) (ev_Data e) st = Inr st1"
    by (auto simp: applyStoredEvent_def split: if_splits)
  from apply_fact_milestones[OF this] Cons.IH[OF st1(2)] Cons.prems(2) show ?case by simp
qed simp

lemma open_filter_events:
  "eventFilterSQL open_filter e \<longleftrightarrow> ev_StreamType e = ''run'' \<and> (ev_Type e = EventRunRequested \<or> ev_Type e = EventRunClosed)"
  by (simp add: eventFilterSQL_def open_filter_def)

lemma stream_events: "e \<in> set (run_stream lg r) \<longleftrightarrow> e \<in> set (el_Events lg) \<and> ev_StreamType e = ''run'' \<and> ev_StreamID e = r"
  by (auto simp: stream_of_def stored_stream_def)

lemma event_ids_member:
  assumes "t = EventRunRequested \<or> t = EventRunClosed"
  shows "r \<in> set (map ev_StreamID (filter (\<lambda>e. ev_Type e = t) (filter (eventFilterSQL open_filter) (el_Events lg))))
    \<longleftrightarrow> (\<exists>e \<in> set (run_stream lg r). ev_Type e = t)" (is "?L \<longleftrightarrow> ?R")
proof
  assume ?L
  then obtain e where "e \<in> set (el_Events lg)" "eventFilterSQL open_filter e" "ev_Type e = t" "ev_StreamID e = r"
    unfolding set_map set_filter by blast
  then show ?R by (intro bexI[of _ e]) (simp_all only: open_filter_events stream_events simp_thms)
next
  assume ?R
  then obtain e where e: "e \<in> set (el_Events lg)" "ev_StreamType e = ''run''" "ev_Type e = t" "ev_StreamID e = r"
    by (auto simp: stream_events)
  with assms have "eventFilterSQL open_filter e" by (simp only: open_filter_events simp_thms)
  with e show ?L unfolding set_map set_filter by blast
qed

lemma open_ids_member:
  "r \<in> set (open_ids (filter (eventFilterSQL open_filter) (el_Events lg))) \<longleftrightarrow>
     (\<exists>e \<in> set (run_stream lg r). ev_Type e = EventRunRequested)
   \<and> \<not> (\<exists>e \<in> set (run_stream lg r). ev_Type e = EventRunClosed)"
  using event_ids_member[of EventRunRequested r lg] event_ids_member[of EventRunClosed r lg]
  unfolding open_ids_def Let_def by (simp only: set_filter mem_Collect_eq simp_thms)

text \<open>For a well-formed log whose Run events carry the type of their payload, the listing of open
  Runs succeeds, and a Run whose stream reduces is in it exactly when its reduced state is not closed: the
  controller neither forgets a Run that still needs work nor keeps stepping one that is over.\<close>

theorem open_runs_are_requested_and_not_closed:
  assumes "log_inv lg"
    "\<forall>e \<in> set (el_Events lg). ev_StreamType e = ''run'' \<longrightarrow> ev_Type e = fact_type (ev_Data e)"
    "reduceRun js (run_stream lg r) = Inr st"
  shows "\<exists>ids. ListOpenIDs lg = Some (Inr ids) \<and> (r \<in> set ids \<longleftrightarrow> \<not> closed st)"
proof -
  let ?ids = "open_ids (filter (eventFilterSQL open_filter) (el_Events lg))"
  have "ListOpenIDs lg = Some (Inr ?ids)" using scan_to_head[OF assms(1), of open_filter] by (simp add: ListOpenIDs_def)
  moreover have "(closed st \<longleftrightarrow> (\<exists>e \<in> set (run_stream lg r). ev_Type e = EventRunClosed))
      \<and> (\<exists>e \<in> set (run_stream lg r). ev_Type e = EventRunRequested)"
    using replay_milestones[of js "run_stream lg r" no_state st] assms(2,3)
    by (auto simp: reduceRun_Inr no_state_def state_validate_def stream_events)
  ultimately show ?thesis by (intro exI[of _ ?ids]) (simp only: open_ids_member simp_thms)
qed

theorem open_runs_are_requested_and_not_closed_witness:
  "\<exists>ids. ListOpenIDs sample_run_log = Some (Inr ids) \<and> ''r1'' \<in> set ids"
proof -
  have "\<forall>e \<in> set (el_Events sample_run_log). ev_StreamType e = ''run'' \<longrightarrow> ev_Type e = fact_type (ev_Data e)"
    by (simp add: sample_run_log_events stored_of_def sample_run_append_def)
  from open_runs_are_requested_and_not_closed[OF sample_run_log_inv this sample_queued_reduces]
  show ?thesis by (simp add: sample_queued_def no_state_def)
qed

end
