(* ===== verification/Rental.thy ===== *)
theory Rental
  imports GoNum
begin

text \<open>
  The lease Mercator holds on one machine (\<^verbatim>\<open>internal/domain/rental.go\<close>): the record,
  the transitions that open it, name its machine, end and begin its generations, and the check a
  store makes before it writes one. The last sections prove that a lease only ever reaches records
  that check accepts, that its history is append-only, and what a retried or contradictory ending
  does.
\<close>

subsection \<open>Data\<close>

datatype generation_ending =
    RentalStopped
  | RentalTerminated
  | RentalReclaimed
  | EndingOther string  \<comment> \<open>any other string; the empty one is an ending nobody stated\<close>

definition ending_Valid :: "generation_ending \<Rightarrow> bool" where
  "ending_Valid e = (case e of
     RentalStopped \<Rightarrow> True | RentalTerminated \<Rightarrow> True | RentalReclaimed \<Rightarrow> True
   | EndingOther _ \<Rightarrow> False)"

definition ending_EndsTheLease :: "generation_ending \<Rightarrow> bool" where
  "ending_EndsTheLease e \<longleftrightarrow> e \<noteq> RentalStopped"

record rental_generation =
  g_Number :: uint64
  g_NodeID :: string
  g_NativeRef :: string
  g_BeganAt :: time
  g_EndedAt :: time
  g_Ending :: generation_ending

definition zero_generation :: rental_generation where
  "zero_generation = \<lparr>g_Number = 0, g_NodeID = empty_string, g_NativeRef = empty_string,
     g_BeganAt = zero_time, g_EndedAt = zero_time, g_Ending = EndingOther empty_string\<rparr>"

definition generation_Open :: "rental_generation \<Rightarrow> bool" where
  "generation_Open g \<longleftrightarrow> time_is_zero (g_EndedAt g)"

record rental =
  r_ID :: string
  r_ConnectionID :: string
  r_OwnershipToken :: string
  r_Version :: uint64
  r_OpenedAt :: time
  r_ReleasedAt :: time
  r_Generations :: "rental_generation list"

record rental_identity =
  ri_RentalID :: string
  ri_ConnectionID :: string
  ri_OwnershipToken :: string

text \<open>One constructor per error the source returns, with what its message names.\<close>

datatype rental_error =
    NoRentalIdentity
  | NoConnection string
  | NoOwnershipProof string
  | NoRuntimeInvited string
  | OpensAtNoMoment string
  | MachineUnnamed string
  | NoOpenGeneration string
  | AlreadyHoldsMachine string uint64 string string
  | NotAnEnding generation_ending
  | EndsAtNoMoment string
  | NoSuchGeneration string uint64
  | EndedAnotherWay string uint64 generation_ending time generation_ending
  | EndsBeforeItBegan string uint64 time time
  | LeaseReleased string time
  | GenerationStillOpen string uint64
  | BeginsBeforeTheEnd string uint64 time time
  | NoGenerations string
  | VersionBehindGenerations string nat uint64
  | GenerationOutOfPlace string uint64 nat
  | GenerationWithoutRuntime string uint64
  | GenerationBeganAtNoMoment string uint64
  | OpenGenerationFollowed string uint64
  | EndingNotStated string uint64
  | GivenUpGenerationFollowed string uint64 generation_ending
  | GoneButStillHeld string uint64 generation_ending
  | ReleasedByNothing string time

subsection \<open>Opening a lease\<close>

definition identity_Validate :: "rental_identity \<Rightarrow> rental_error option" where
  "identity_Validate i =
     (if ri_RentalID i = empty_string then Some NoRentalIdentity
      else if ri_ConnectionID i = empty_string then Some (NoConnection (ri_RentalID i))
      else if ri_OwnershipToken i = empty_string then Some (NoOwnershipProof (ri_RentalID i))
      else None)"

definition OpenRental :: "rental_identity \<Rightarrow> string \<Rightarrow> time \<Rightarrow> rental_error + rental" where
  "OpenRental i nodeID moment =
     checked (identity_Validate i)
      (if nodeID = empty_string then Inl (NoRuntimeInvited (ri_RentalID i))
       else if time_is_zero moment then Inl (OpensAtNoMoment (ri_RentalID i))
       else Inr \<lparr>r_ID = ri_RentalID i, r_ConnectionID = ri_ConnectionID i,
                 r_OwnershipToken = ri_OwnershipToken i, r_Version = 1, r_OpenedAt = moment,
                 r_ReleasedAt = zero_time,
                 r_Generations = [zero_generation\<lparr>g_Number := 1, g_NodeID := nodeID, g_BeganAt := moment\<rparr>]\<rparr>)"

subsection \<open>Reading a lease\<close>

definition rental_Held :: "rental \<Rightarrow> bool" where
  "rental_Held r \<longleftrightarrow> time_is_zero (r_ReleasedAt r)"

definition rental_Current :: "rental \<Rightarrow> rental_generation \<times> bool" where
  "rental_Current r =
     (if r_Generations r = [] then (zero_generation, False)
      else (last (r_Generations r), generation_Open (last (r_Generations r))))"

text \<open>
  The bound is compared as naturals: a Go length always fits a \<^verbatim>\<open>uint64\<close>, so
  \<^verbatim>\<open>uint64(len(...))\<close> never wraps.
\<close>

definition rental_Generation :: "rental \<Rightarrow> uint64 \<Rightarrow> rental_generation option" where
  "rental_Generation r number =
     (if number = 0 \<or> length (r_Generations r) < unat number then None
      else Some (r_Generations r ! (unat number - 1)))"

subsection \<open>Transitions\<close>

text \<open>
  \<^verbatim>\<open>Clone\<close> copies the generations so that a transition does not write through a shared slice.
  The model's values are immutable, so the copy is the value itself.
\<close>

definition rental_Acquire :: "rental \<Rightarrow> string \<Rightarrow> rental_error + rental" where
  "rental_Acquire r nativeRef =
     (if nativeRef = empty_string then Inl (MachineUnnamed (r_ID r))
      else let (current, opened) = rental_Current r in
        if \<not> opened then Inl (NoOpenGeneration (r_ID r))
        else if g_NativeRef current = nativeRef then Inr r
        else if g_NativeRef current \<noteq> empty_string
          then Inl (AlreadyHoldsMachine (r_ID r) (g_Number current) (g_NativeRef current) nativeRef)
        else Inr (r\<lparr>r_Generations := (r_Generations r)[length (r_Generations r) - 1 := current\<lparr>g_NativeRef := nativeRef\<rparr>],
                    r_Version := r_Version r + 1\<rparr>))"

definition rental_EndGeneration ::
    "rental \<Rightarrow> uint64 \<Rightarrow> generation_ending \<Rightarrow> time \<Rightarrow> rental_error + (rental \<times> rental_generation)" where
  "rental_EndGeneration r number ending moment =
     (if \<not> ending_Valid ending then Inl (NotAnEnding ending)
      else if time_is_zero moment then Inl (EndsAtNoMoment (r_ID r))
      else case rental_Generation r number of
        None \<Rightarrow> Inl (NoSuchGeneration (r_ID r) number)
      | Some named \<Rightarrow>
          if \<not> generation_Open named \<and> g_Ending named = ending then Inr (r, named)
          else if \<not> generation_Open named
            then Inl (EndedAnotherWay (r_ID r) number (g_Ending named) (g_EndedAt named) ending)
          else if moment < g_BeganAt named
            then Inl (EndsBeforeItBegan (r_ID r) number (g_BeganAt named) moment)
          else let ended = named\<lparr>g_EndedAt := moment, g_Ending := ending\<rparr> in
            Inr (r\<lparr>r_Generations := (r_Generations r)[unat number - 1 := ended],
                   r_ReleasedAt := (if ending_EndsTheLease ending then moment else r_ReleasedAt r),
                   r_Version := r_Version r + 1\<rparr>, ended))"

definition rental_BeginGeneration :: "rental \<Rightarrow> string \<Rightarrow> time \<Rightarrow> rental_error + rental" where
  "rental_BeginGeneration r nodeID moment =
     (if nodeID = empty_string then Inl (NoRuntimeInvited (r_ID r))
      else if \<not> rental_Held r then Inl (LeaseReleased (r_ID r) (r_ReleasedAt r))
      else let (current, opened) = rental_Current r in
        if opened then Inl (GenerationStillOpen (r_ID r) (g_Number current))
        else if moment < g_EndedAt current
          then Inl (BeginsBeforeTheEnd (r_ID r) (g_Number current) (g_EndedAt current) moment)
        else Inr (r\<lparr>r_Generations := r_Generations r @
                      [zero_generation\<lparr>g_Number := g_Number current + 1, g_NodeID := nodeID, g_BeganAt := moment\<rparr>],
                    r_Version := r_Version r + 1\<rparr>))"

subsection \<open>What a store asks before it writes\<close>

fun generationsRunInOrder_from ::
    "string \<Rightarrow> nat \<Rightarrow> nat \<Rightarrow> rental_generation list \<Rightarrow> rental_error option" where
  "generationsRunInOrder_from rid n index [] = None"
| "generationsRunInOrder_from rid n index (g # gs) =
     (if unat (g_Number g) \<noteq> index + 1 then Some (GenerationOutOfPlace rid (g_Number g) (index + 1))
      else if g_NodeID g = empty_string then Some (GenerationWithoutRuntime rid (g_Number g))
      else if time_is_zero (g_BeganAt g) then Some (GenerationBeganAtNoMoment rid (g_Number g))
      else if generation_Open g \<and> index + 1 \<noteq> n then Some (OpenGenerationFollowed rid (g_Number g))
      else if \<not> generation_Open g \<and> \<not> ending_Valid (g_Ending g) then Some (EndingNotStated rid (g_Number g))
      else if \<not> generation_Open g \<and> ending_EndsTheLease (g_Ending g) \<and> index + 1 \<noteq> n
        then Some (GivenUpGenerationFollowed rid (g_Number g) (g_Ending g))
      else generationsRunInOrder_from rid n (index + 1) gs)"

definition rental_generationsRunInOrder :: "rental \<Rightarrow> rental_error option" where
  "rental_generationsRunInOrder r =
     generationsRunInOrder_from (r_ID r) (length (r_Generations r)) 0 (r_Generations r)"

text \<open>Only asked of a lease with a generation, so the last one exists.\<close>

definition rental_releaseFollowsTheLastEnding :: "rental \<Rightarrow> rental_error option" where
  "rental_releaseFollowsTheLastEnding r =
     (let latest = last (r_Generations r);
          released = ending_EndsTheLease (g_Ending latest) \<and> \<not> generation_Open latest in
      if released \<and> rental_Held r then Some (GoneButStillHeld (r_ID r) (g_Number latest) (g_Ending latest))
      else if \<not> released \<and> \<not> rental_Held r then Some (ReleasedByNothing (r_ID r) (r_ReleasedAt r))
      else None)"

definition rental_Validate :: "rental \<Rightarrow> rental_error option" where
  "rental_Validate r =
     (case identity_Validate \<lparr>ri_RentalID = r_ID r, ri_ConnectionID = r_ConnectionID r,
                              ri_OwnershipToken = r_OwnershipToken r\<rparr> of
        Some e \<Rightarrow> Some e
      | None \<Rightarrow>
          if r_Generations r = [] then Some (NoGenerations (r_ID r))
          else if unat (r_Version r) < length (r_Generations r)
            then Some (VersionBehindGenerations (r_ID r) (length (r_Generations r)) (r_Version r))
          else (case rental_generationsRunInOrder r of
                  Some e \<Rightarrow> Some e
                | None \<Rightarrow> rental_releaseFollowsTheLastEnding r))"

subsection \<open>The shape of a lease\<close>

text \<open>
  What one generation must look like at its place: the \<open>i\<close>-th of \<open>n\<close> generations. A
  generation that another one follows has been stopped, which is the only ending a lease survives.
\<close>

definition gen_ok :: "nat \<Rightarrow> nat \<Rightarrow> rental_generation \<Rightarrow> bool" where
  "gen_ok n i g \<longleftrightarrow> unat (g_Number g) = i + 1 \<and> g_NodeID g \<noteq> empty_string \<and> g_BeganAt g \<noteq> 0
     \<and> (g_EndedAt g \<noteq> 0 \<longrightarrow> ending_Valid (g_Ending g))
     \<and> (i + 1 \<noteq> n \<longrightarrow> g_EndedAt g \<noteq> 0 \<and> g_Ending g = RentalStopped)"

lemma run_in_order_from_Cons:
  "generationsRunInOrder_from rid n k (g # gs) = None \<longleftrightarrow>
     gen_ok n k g \<and> generationsRunInOrder_from rid n (k + 1) gs = None"
  by (cases "g_Ending g")
    (auto simp: gen_ok_def generation_Open_def time_is_zero_def ending_EndsTheLease_def ending_Valid_def)

lemma run_in_order_from_None:
  "generationsRunInOrder_from rid n k gs = None \<longleftrightarrow> (\<forall>i < length gs. gen_ok n (k + i) (gs ! i))"
proof (induction gs arbitrary: k)
  case (Cons g gs)
  show ?case unfolding run_in_order_from_Cons Cons.IH length_Cons All_less_Suc2 by simp
qed simp

lemma run_in_order_None:
  "rental_generationsRunInOrder r = None \<longleftrightarrow>
     (\<forall>i < length (r_Generations r). gen_ok (length (r_Generations r)) i (r_Generations r ! i))"
  by (simp add: rental_generationsRunInOrder_def run_in_order_from_None)

lemma release_follows_None:
  "rental_releaseFollowsTheLastEnding r = None \<longleftrightarrow>
     (r_ReleasedAt r \<noteq> 0 \<longleftrightarrow>
        g_EndedAt (last (r_Generations r)) \<noteq> 0 \<and> g_Ending (last (r_Generations r)) \<noteq> RentalStopped)"
  by (auto simp: rental_releaseFollowsTheLastEnding_def Let_def rental_Held_def
      generation_Open_def time_is_zero_def ending_EndsTheLease_def)

lemma identity_Validate_None:
  "identity_Validate i = None \<longleftrightarrow>
     ri_RentalID i \<noteq> empty_string \<and> ri_ConnectionID i \<noteq> empty_string \<and> ri_OwnershipToken i \<noteq> empty_string"
  by (simp add: identity_Validate_def)

lemma Validate_None_iff:
  "rental_Validate r = None \<longleftrightarrow>
     r_ID r \<noteq> empty_string \<and> r_ConnectionID r \<noteq> empty_string \<and> r_OwnershipToken r \<noteq> empty_string
   \<and> r_Generations r \<noteq> [] \<and> length (r_Generations r) \<le> unat (r_Version r)
   \<and> (\<forall>i < length (r_Generations r). gen_ok (length (r_Generations r)) i (r_Generations r ! i))
   \<and> (r_ReleasedAt r \<noteq> 0 \<longleftrightarrow>
        g_EndedAt (last (r_Generations r)) \<noteq> 0 \<and> g_Ending (last (r_Generations r)) \<noteq> RentalStopped)"
  by (auto simp: rental_Validate_def first_error_None identity_Validate_None not_less
      run_in_order_None release_follows_None)

text \<open>
  The invariant of a lease Mercator drives itself: the store's own check, and moments in order. The
  check alone does not order moments; the transitions do.
\<close>

definition lease_moments :: "rental_generation list \<Rightarrow> bool" where
  "lease_moments gs \<longleftrightarrow>
     (\<forall>g \<in> set gs. 0 < g_BeganAt g \<and> (g_EndedAt g \<noteq> 0 \<longrightarrow> g_BeganAt g \<le> g_EndedAt g))
   \<and> sorted_wrt (\<lambda>g h. g_EndedAt g \<le> g_BeganAt h) gs"

definition lease_inv :: "rental \<Rightarrow> bool" where
  "lease_inv r \<longleftrightarrow> rental_Validate r = None \<and> lease_moments (r_Generations r)"

text \<open>
  What a later record of one lease keeps of an earlier one: its identity, and of every generation
  its number, runtime and beginning, the machine once named, and everything once it has ended. A
  released lease keeps everything.
\<close>

definition gen_extends :: "rental_generation \<Rightarrow> rental_generation \<Rightarrow> bool" where
  "gen_extends g h \<longleftrightarrow> g_Number h = g_Number g \<and> g_NodeID h = g_NodeID g \<and> g_BeganAt h = g_BeganAt g
     \<and> (g_NativeRef g \<noteq> empty_string \<longrightarrow> g_NativeRef h = g_NativeRef g)
     \<and> (\<not> generation_Open g \<longrightarrow> h = g)"

definition lease_extends :: "rental \<Rightarrow> rental \<Rightarrow> bool" where
  "lease_extends r s \<longleftrightarrow> r_ID s = r_ID r \<and> r_ConnectionID s = r_ConnectionID r
     \<and> r_OwnershipToken s = r_OwnershipToken r \<and> r_OpenedAt s = r_OpenedAt r
     \<and> length (r_Generations r) \<le> length (r_Generations s)
     \<and> (\<forall>i < length (r_Generations r). gen_extends (r_Generations r ! i) (r_Generations s ! i))
     \<and> (\<not> rental_Held r \<longrightarrow> s = r)"

lemma gen_extends_refl [simp]: "gen_extends g g"
  by (simp add: gen_extends_def)

lemma gen_extends_trans: "gen_extends g h \<Longrightarrow> gen_extends h k \<Longrightarrow> gen_extends g k"
  by (auto simp: gen_extends_def)

lemma lease_extends_refl [simp]: "lease_extends r r"
  by (simp add: lease_extends_def)

lemma lease_extends_trans: "lease_extends r s \<Longrightarrow> lease_extends s t \<Longrightarrow> lease_extends r t"
  by (auto simp: lease_extends_def intro: gen_extends_trans)

subsection \<open>Only the newest generation is ever open\<close>

lemma lease_inv_nonempty: "lease_inv r \<Longrightarrow> r_Generations r \<noteq> []"
  by (simp add: lease_inv_def Validate_None_iff)

lemma lease_inv_gen_ok:
  "lease_inv r \<Longrightarrow> i < length (r_Generations r) \<Longrightarrow>
     gen_ok (length (r_Generations r)) i (r_Generations r ! i)"
  by (simp add: lease_inv_def Validate_None_iff)

lemma lease_inv_snoc:
  assumes "lease_inv r"
  obtains hist cur where "r_Generations r = hist @ [cur]"
    "\<forall>i < length hist. gen_ok (Suc (length hist)) i (hist ! i)"
    "gen_ok (Suc (length hist)) (length hist) cur"
proof -
  obtain hist cur where g: "r_Generations r = hist @ [cur]"
    using lease_inv_nonempty[OF assms] by (metis rev_exhaust)
  have "gen_ok (Suc (length hist)) i ((hist @ [cur]) ! i)" if "i \<le> length hist" for i
    using lease_inv_gen_ok[OF assms, of i] that by (simp add: g)
  note ok = this
  show thesis
  proof (rule that[OF g])
    show "\<forall>i < length hist. gen_ok (Suc (length hist)) i (hist ! i)"
      using ok by (metis less_imp_le nth_append)
    show "gen_ok (Suc (length hist)) (length hist) cur" using ok[of "length hist"] by simp
  qed
qed

lemma lease_inv_open_is_newest:
  assumes "lease_inv r" "i < length (r_Generations r)" "generation_Open (r_Generations r ! i)"
  shows "i = length (r_Generations r) - 1"
  using lease_inv_gen_ok[OF assms(1,2)] assms(3)
  by (auto simp: gen_ok_def generation_Open_def time_is_zero_def)

text \<open>The two ways a transition rewrites the generations: the newest one, or one more.\<close>

lemma moments_replace_last:
  assumes "lease_moments (hist @ [cur])" "g_BeganAt new = g_BeganAt cur"
    "g_EndedAt new \<noteq> 0 \<Longrightarrow> g_BeganAt new \<le> g_EndedAt new"
  shows "lease_moments (hist @ [new])"
  using assms by (auto simp: lease_moments_def sorted_wrt_append)

lemma moments_append:
  assumes "lease_moments (hist @ [cur])" "g_EndedAt cur \<noteq> 0" "g_EndedAt cur \<le> g_BeganAt new" "g_EndedAt new = 0"
  shows "lease_moments ((hist @ [cur]) @ [new])"
  using assms by (fastforce simp: lease_moments_def sorted_wrt_append)

lemma lease_inv_replace_last:
  assumes inv: "lease_inv r" and gens: "r_Generations r = hist @ [cur]"
    and new: "gen_ok (Suc (length hist)) (length hist) new" "g_BeganAt new = g_BeganAt cur"
      "g_EndedAt new \<noteq> 0 \<Longrightarrow> g_BeganAt new \<le> g_EndedAt new"
    and s: "r_ID s = r_ID r" "r_ConnectionID s = r_ConnectionID r" "r_OwnershipToken s = r_OwnershipToken r"
      "r_Generations s = hist @ [new]" "unat (r_Version s) = unat (r_Version r) + 1"
    and rel: "r_ReleasedAt s \<noteq> 0 \<longleftrightarrow> g_EndedAt new \<noteq> 0 \<and> g_Ending new \<noteq> RentalStopped"
  shows "lease_inv s"
proof -
  have "gen_ok (Suc (length hist)) i ((hist @ [new]) ! i)" if "i < Suc (length hist)" for i
    using lease_inv_gen_ok[OF inv, of i] that new(1) by (auto simp: gens nth_append less_Suc_eq)
  moreover have "lease_moments (hist @ [new])"
    using inv new gens by (auto simp: lease_inv_def intro: moments_replace_last)
  ultimately show ?thesis using inv s rel
    by (simp add: lease_inv_def Validate_None_iff gens)
qed

lemma EndGeneration_keeps_names:
  "rental_EndGeneration r n ending moment = Inr (s, ended) \<Longrightarrow>
     \<exists>g. rental_Generation r n = Some g \<and> g_NodeID ended = g_NodeID g \<and> r_ID s = r_ID r"
  by (auto simp: rental_EndGeneration_def Let_def split: if_splits option.splits)

subsection \<open>Every transition keeps the invariant\<close>

lemma OpenRental_inv:
  assumes "OpenRental i nodeID moment = Inr r" "0 < moment"
  shows "lease_inv r"
  using assms
  by (auto simp: OpenRental_def identity_Validate_None lease_inv_def Validate_None_iff gen_ok_def
      zero_generation_def lease_moments_def split: if_splits)

lemma Acquire_cases:
  assumes "rental_Acquire r ref = Inr s" "lease_inv r"
  obtains (same) "s = r" "\<exists>hist cur. r_Generations r = hist @ [cur] \<and> generation_Open cur \<and> g_NativeRef cur = ref"
  | (named) hist cur where "r_Generations r = hist @ [cur]" "generation_Open cur"
      "g_NativeRef cur = empty_string" "ref \<noteq> empty_string"
      "s = r\<lparr>r_Generations := hist @ [cur\<lparr>g_NativeRef := ref\<rparr>], r_Version := r_Version r + 1\<rparr>"
proof -
  obtain hist cur where g: "r_Generations r = hist @ [cur]"
    using assms(2) by (rule lease_inv_snoc)
  show thesis
    using assms(1) that g
    by (auto simp: rental_Acquire_def rental_Current_def Let_def split: if_splits)
qed

lemma Acquire_inv:
  assumes "lease_inv r" "unat (r_Version r) < 2 ^ 64 - 1" "rental_Acquire r ref = Inr s"
  shows "lease_inv s"
  using assms(3,1)
proof (cases rule: Acquire_cases)
  case (named hist cur)
  have ok: "gen_ok (Suc (length hist)) (length hist) cur"
    using lease_inv_gen_ok[OF assms(1), of "length hist"] by (simp add: named)
  have rel: "r_ReleasedAt r = 0"
    using assms(1) named by (simp add: lease_inv_def Validate_None_iff generation_Open_def time_is_zero_def)
  show ?thesis
    by (rule lease_inv_replace_last[OF assms(1) named(1), where new = "cur\<lparr>g_NativeRef := ref\<rparr>"])
      (use named ok rel assms(2) in
        \<open>simp_all add: gen_ok_def version_succ generation_Open_def time_is_zero_def\<close>)
qed (use assms in simp)

lemma EndGeneration_cases:
  assumes "rental_EndGeneration r number ending moment = Inr (s, ended)" "lease_inv r"
  obtains (same) "s = r" "rental_Generation r number = Some ended" "\<not> generation_Open ended"
      "g_Ending ended = ending"
  | (ends) hist cur where "r_Generations r = hist @ [cur]" "generation_Open cur" "g_BeganAt cur \<le> moment"
      "moment \<noteq> 0" "ending_Valid ending" "ended = cur\<lparr>g_EndedAt := moment, g_Ending := ending\<rparr>"
      "unat number = Suc (length hist)"
      "s = r\<lparr>r_Generations := hist @ [ended],
            r_ReleasedAt := (if ending = RentalStopped then r_ReleasedAt r else moment),
            r_Version := r_Version r + 1\<rparr>"
proof -
  obtain hist cur where g: "r_Generations r = hist @ [cur]"
    using assms(2) by (rule lease_inv_snoc)
  obtain named where named: "rental_Generation r number = Some named" "ending_Valid ending" "moment \<noteq> 0"
    using assms(1) by (auto simp: rental_EndGeneration_def time_is_zero_def split: if_splits option.splits)
  show thesis
  proof (cases "generation_Open named")
    case False
    then show thesis using assms(1) named
      by (intro same) (auto simp: rental_EndGeneration_def split: if_splits)
  next
    case True
    let ?i = "unat number - 1"
    have i: "?i < length (r_Generations r)" "r_Generations r ! ?i = named" "unat number \<noteq> 0"
      using named(1) g by (auto simp: rental_Generation_def unat_eq_zero split: if_splits)
    with True have eq: "?i = length hist" using lease_inv_open_is_newest[OF assms(2), of ?i] by (simp add: g)
    with i have "named = cur" "unat number = Suc (length hist)" by (auto simp: g)
    then show thesis using assms(1) named True g eq
      by (intro ends[OF g])
        (auto simp: rental_EndGeneration_def time_is_zero_def Let_def ending_EndsTheLease_def list_update_append
          split: if_splits)
  qed
qed

lemma EndGeneration_inv:
  assumes "lease_inv r" "unat (r_Version r) < 2 ^ 64 - 1"
    "rental_EndGeneration r number ending moment = Inr (s, ended)"
  shows "lease_inv s"
  using assms(3,1)
proof (cases rule: EndGeneration_cases)
  case (ends hist cur)
  have ok: "gen_ok (Suc (length hist)) (length hist) cur"
    using lease_inv_gen_ok[OF assms(1), of "length hist"] by (simp add: ends)
  have rel: "r_ReleasedAt r = 0"
    using assms(1) ends by (simp add: lease_inv_def Validate_None_iff generation_Open_def time_is_zero_def)
  show ?thesis
    by (rule lease_inv_replace_last[OF assms(1) ends(1), where new = ended])
      (use ends ok rel assms(2) in \<open>simp_all add: gen_ok_def version_succ\<close>)
qed (use assms in simp)

lemma BeginGeneration_cases:
  assumes "rental_BeginGeneration r nodeID moment = Inr s" "lease_inv r"
  obtains hist cur where "r_Generations r = hist @ [cur]" "g_EndedAt cur \<noteq> 0" "g_EndedAt cur \<le> moment"
    "nodeID \<noteq> empty_string" "r_ReleasedAt r = 0" "g_Ending cur = RentalStopped"
    "s = r\<lparr>r_Generations := r_Generations r @
             [zero_generation\<lparr>g_Number := g_Number cur + 1, g_NodeID := nodeID, g_BeganAt := moment\<rparr>],
           r_Version := r_Version r + 1\<rparr>"
proof -
  obtain hist cur where g: "r_Generations r = hist @ [cur]"
    using assms(2) by (rule lease_inv_snoc)
  have "r_ReleasedAt r = 0 \<Longrightarrow> g_EndedAt cur \<noteq> 0 \<Longrightarrow> g_Ending cur = RentalStopped"
    using assms(2) by (auto simp: lease_inv_def Validate_None_iff g)
  then show thesis using assms(1) g
    by (intro that[OF g])
      (auto simp: rental_BeginGeneration_def rental_Current_def rental_Held_def generation_Open_def
        time_is_zero_def Let_def split: if_splits)
qed

lemma BeginGeneration_inv:
  assumes "lease_inv r" "unat (r_Version r) < 2 ^ 64 - 1" "rental_BeginGeneration r nodeID moment = Inr s"
  shows "lease_inv s"
  using assms(3,1)
proof (cases rule: BeginGeneration_cases)
  case (1 hist cur)
  let ?new = "zero_generation\<lparr>g_Number := g_Number cur + 1, g_NodeID := nodeID, g_BeganAt := moment\<rparr>"
  let ?n = "Suc (length hist)"
  have ok: "gen_ok ?n i ((hist @ [cur]) ! i)" if "i < ?n" for i
    using lease_inv_gen_ok[OF assms(1), of i] that by (simp add: 1)
  have len: "?n \<le> unat (r_Version r)" using assms(1) by (simp add: lease_inv_def Validate_None_iff 1)
  have cur: "unat (g_Number cur) = ?n" "0 < g_EndedAt cur"
    using ok[of "length hist"] assms(1) 1 by (auto simp: gen_ok_def lease_inv_def lease_moments_def)
  have new: "unat (g_Number cur + 1) = ?n + 1" using cur len assms(2) by (intro trans[OF version_succ]) simp_all
  have "gen_ok (Suc ?n) i ((hist @ [cur, ?new]) ! i)" if "i < Suc ?n" for i
    using ok[of i] that 1 cur new
    by (cases "i < length hist"; cases "i = length hist")
      (auto simp: gen_ok_def nth_append zero_generation_def less_Suc_eq)
  moreover have "lease_moments (hist @ [cur, ?new])"
    using moments_append[of hist cur ?new] assms(1) 1 by (simp add: lease_inv_def zero_generation_def)
  ultimately show ?thesis using assms(1,2) 1 len
    by (simp add: lease_inv_def Validate_None_iff version_succ zero_generation_def)
qed

subsection \<open>History is never rewritten\<close>

lemma extends_replace_last:
  assumes "r_Generations r = hist @ [cur]" "r_Generations s = hist @ [new]" "gen_extends cur new"
    "r_ID s = r_ID r" "r_ConnectionID s = r_ConnectionID r" "r_OwnershipToken s = r_OwnershipToken r"
    "r_OpenedAt s = r_OpenedAt r" "rental_Held r"
  shows "lease_extends r s"
  using assms by (auto simp: lease_extends_def nth_append less_Suc_eq)

lemma lease_inv_open_held:
  "lease_inv r \<Longrightarrow> r_Generations r = hist @ [cur] \<Longrightarrow> generation_Open cur \<Longrightarrow> rental_Held r"
  by (simp add: lease_inv_def Validate_None_iff generation_Open_def time_is_zero_def rental_Held_def)

lemma Acquire_extends:
  assumes "lease_inv r" "rental_Acquire r ref = Inr s"
  shows "lease_extends r s"
  using assms(2,1)
proof (cases rule: Acquire_cases)
  case (named hist cur)
  then show ?thesis
    by (intro extends_replace_last[OF named(1), where new = "cur\<lparr>g_NativeRef := ref\<rparr>"])
      (simp_all add: gen_extends_def lease_inv_open_held[OF assms(1)])
qed simp

lemma EndGeneration_extends:
  assumes "lease_inv r" "rental_EndGeneration r number ending moment = Inr (s, ended)"
  shows "lease_extends r s"
  using assms(2,1)
proof (cases rule: EndGeneration_cases)
  case (ends hist cur)
  then show ?thesis
    by (intro extends_replace_last[OF ends(1), where new = ended])
      (simp_all add: gen_extends_def lease_inv_open_held[OF assms(1)])
qed simp

lemma BeginGeneration_extends:
  assumes "lease_inv r" "rental_BeginGeneration r nodeID moment = Inr s"
  shows "lease_extends r s"
  using assms(2,1)
  by (cases rule: BeginGeneration_cases)
    (auto simp: lease_extends_def nth_append rental_Held_def time_is_zero_def)

subsection \<open>A lease as a versioned object\<close>

datatype lease_op =
    Acquire string
  | EndGeneration uint64 generation_ending time
  | BeginGeneration string time

fun lease_step :: "lease_op \<Rightarrow> rental \<Rightarrow> rental_error + rental" where
  "lease_step (Acquire ref) r = rental_Acquire r ref"
| "lease_step (EndGeneration number ending moment) r =
     (case rental_EndGeneration r number ending moment of Inl e \<Rightarrow> Inl e | Inr (s, _) \<Rightarrow> Inr s)"
| "lease_step (BeginGeneration nodeID moment) r = rental_BeginGeneration r nodeID moment"

lemma lease_step_inv:
  "lease_inv r \<Longrightarrow> unat (r_Version r) < 2 ^ 64 - 1 \<Longrightarrow> lease_step op r = Inr s \<Longrightarrow> lease_inv s"
  by (cases op) (auto split: sum.splits intro: Acquire_inv EndGeneration_inv BeginGeneration_inv)

lemma lease_step_version:
  "unat (r_Version r) < 2 ^ 64 - 1 \<Longrightarrow> lease_step op r = Inr s \<Longrightarrow>
     s = r \<or> unat (r_Version s) = unat (r_Version r) + 1"
  by (cases op)
    (auto simp: rental_Acquire_def rental_EndGeneration_def rental_BeginGeneration_def Let_def version_succ
      split: if_splits option.splits sum.splits prod.splits)

lemma lease_step_extends: "lease_inv r \<Longrightarrow> lease_step op r = Inr s \<Longrightarrow> lease_extends r s"
  by (cases op) (auto split: sum.splits intro: Acquire_extends EndGeneration_extends BeginGeneration_extends)

interpretation lease: versioned_object
  lease_step "\<lambda>r. unat (r_Version r)" "2 ^ 64 - 1" lease_inv lease_extends
proof (unfold_locales, goal_cases)
  case 1 then show ?case by (rule lease_step_inv)
next
  case 2 then show ?case by (rule lease_step_version)
next
  case 3 then show ?case by (blast intro: lease_step_extends)
next
  case 4 show ?case by simp
next
  case 5 then show ?case by (rule lease_extends_trans)
qed

subsection \<open>Properties\<close>

text \<open>C25: Whatever sequence of acquisitions, endings and beginnings a lease goes through after it was
  opened, refused ones included, the record it is left in passes \<^verbatim>\<open>Rental.Validate\<close>, so a
  store never refuses a lease for its shape. The bound on the number of transitions is the range of
  the 64-bit version.\<close>

theorem lease_always_validates:
  assumes "OpenRental i nodeID moment = Inr r" "0 < moment" "length ops < 2 ^ 64 - 1"
  shows "rental_Validate (run_ops lease_step ops r) = None"
proof -
  have "lease_inv r" using assms(1,2) by (rule OpenRental_inv)
  moreover have "unat (r_Version r) = 1"
    using assms(1) by (auto simp: OpenRental_def split: if_splits)
  ultimately have "lease_inv (run_ops lease_step ops r)"
    using lease.run_ops_keeps[of r ops] assms(3) by simp
  then show ?thesis by (simp add: lease_inv_def)
qed

definition sample_identity :: rental_identity where
  "sample_identity = \<lparr>ri_RentalID = ''rnt'', ri_ConnectionID = ''conn'', ri_OwnershipToken = ''tok''\<rparr>"

definition sample_lease :: rental where
  "sample_lease = \<lparr>r_ID = ''rnt'', r_ConnectionID = ''conn'', r_OwnershipToken = ''tok'', r_Version = 1,
     r_OpenedAt = 10, r_ReleasedAt = 0,
     r_Generations = [zero_generation\<lparr>g_Number := 1, g_NodeID := ''node'', g_BeganAt := 10\<rparr>]\<rparr>"

lemma sample_opened: "OpenRental sample_identity ''node'' 10 = Inr sample_lease"
  by (simp add: OpenRental_def sample_identity_def sample_lease_def identity_Validate_def time_is_zero_def)

definition sample_ops :: "lease_op list" where
  "sample_ops = [Acquire ''vm-1'', EndGeneration 1 RentalStopped 20, Acquire ''vm-2'',
     BeginGeneration ''node-2'' 30, Acquire ''vm-2'', EndGeneration 2 RentalTerminated 40]"

theorem lease_always_validates_witness:
  "rental_Validate (run_ops lease_step sample_ops sample_lease) = None"
  by (rule lease_always_validates[OF sample_opened]) (simp_all add: sample_ops_def)

text \<open>C26: History is append-only. Whatever a lease goes through, its identity, the machine once named
  for a generation and every generation that has ended stay exactly as they were recorded, and a
  lease that has been released never changes again.\<close>

theorem lease_history_is_append_only:
  assumes "lease_inv r" "unat (r_Version r) + length ops < 2 ^ 64"
  shows "lease_extends r (run_ops lease_step ops r)"
  using lease.run_ops_keeps[of r ops] assms by simp

lemma sample_lease_inv: "lease_inv sample_lease"
  by (rule OpenRental_inv[OF sample_opened]) simp

theorem lease_history_is_append_only_witness:
  "lease_extends sample_lease (run_ops lease_step sample_ops sample_lease)"
  by (rule lease_history_is_append_only[OF sample_lease_inv]) (simp add: sample_lease_def sample_ops_def)

text \<open>Ending a generation is safe to retry and can never be contradicted. Once a generation was
  ended, asking for the same ending again, at any later moment, returns the same lease and the same
  generation; asking for a different one is refused.\<close>

theorem end_generation_idempotent:
  assumes "lease_inv r" "rental_EndGeneration r number ending moment = Inr (s, ended)"
    "later \<noteq> 0" "ending_Valid other"
  shows "rental_EndGeneration s number other later =
     (if other = ending then Inr (s, ended)
      else Inl (EndedAnotherWay (r_ID r) number ending (g_EndedAt ended) other))"
  using assms(2,1)
proof (cases rule: EndGeneration_cases)
  case same
  then show ?thesis using assms(3,4)
    by (auto simp: rental_EndGeneration_def time_is_zero_def generation_Open_def)
next
  case (ends hist cur)
  then have "rental_Generation s number = Some ended"
    by (auto simp: rental_Generation_def nth_append)
  then show ?thesis using ends assms(3,4)
    by (auto simp: rental_EndGeneration_def time_is_zero_def generation_Open_def)
qed

theorem end_generation_idempotent_witness:
  "\<exists>s ended. rental_EndGeneration sample_lease 1 RentalStopped 20 = Inr (s, ended)
     \<and> rental_EndGeneration s 1 RentalStopped 25 = Inr (s, ended)
     \<and> rental_EndGeneration s 1 RentalReclaimed 25
         = Inl (EndedAnotherWay ''rnt'' 1 RentalStopped 20 RentalReclaimed)"
proof -
  obtain s ended where e: "rental_EndGeneration sample_lease 1 RentalStopped 20 = Inr (s, ended)"
    and at20: "g_EndedAt ended = 20"
    by (simp add: rental_EndGeneration_def sample_lease_def rental_Generation_def ending_Valid_def
        time_is_zero_def generation_Open_def zero_generation_def Let_def)
  show ?thesis
    using e at20 end_generation_idempotent[OF sample_lease_inv e, of 25 RentalStopped]
      end_generation_idempotent[OF sample_lease_inv e, of 25 RentalReclaimed]
    by (auto simp: ending_Valid_def sample_lease_def)
qed

text \<open>A generation names one machine. An acquisition that succeeds leaves the newest generation
  open under exactly the machine the provider named; naming the same machine again changes nothing,
  and naming a second one is refused.\<close>

theorem acquire_names_one_machine:
  assumes "lease_inv r" "rental_Acquire r ref = Inr s" "other \<noteq> empty_string"
  shows "g_NativeRef (last (r_Generations s)) = ref \<and> snd (rental_Current s)
     \<and> rental_Acquire s other =
        (if other = ref then Inr s
         else Inl (AlreadyHoldsMachine (r_ID r) (g_Number (last (r_Generations s))) ref other))"
proof -
  have "ref \<noteq> empty_string" using assms(2) by (auto simp: rental_Acquire_def)
  with assms(2,1) show ?thesis
    by (cases rule: Acquire_cases)
      (use assms(3) in \<open>auto simp: rental_Acquire_def rental_Current_def generation_Open_def\<close>)
qed

theorem acquire_names_one_machine_witness:
  "\<exists>s. rental_Acquire sample_lease ''vm-1'' = Inr s \<and> rental_Acquire s ''vm-1'' = Inr s
     \<and> rental_Acquire s ''vm-2'' = Inl (AlreadyHoldsMachine ''rnt'' 1 ''vm-1'' ''vm-2'')"
proof -
  obtain s where e: "rental_Acquire sample_lease ''vm-1'' = Inr s"
    and num: "g_Number (last (r_Generations s)) = 1"
    by (simp add: rental_Acquire_def sample_lease_def rental_Current_def generation_Open_def
        time_is_zero_def zero_generation_def Let_def)
  show ?thesis
    using e num acquire_names_one_machine[OF sample_lease_inv e, of "''vm-1''"]
      acquire_names_one_machine[OF sample_lease_inv e, of "''vm-2''"]
    by (auto simp: sample_lease_def)
qed

end
