(* ===== verification/Stores.thy ===== *)
theory Stores
  imports Rental RentalSchedule EventLog
begin

text \<open>
  The stores that hold leases and Rental Schedules (\<^verbatim>\<open>internal/rental/store.go\<close>,
  \<^verbatim>\<open>internal/rentalschedule/store.go\<close>) and the service that ends a generation across a
  store and the runtimes on it. Both stores are optimistic: a write names the version it was read
  at. What a client may rely on is stated once, as a locale, and each store is shown to provide it.

  A store is its map, read and written under one mutex, so each call is one step. A clone of an
  immutable value is the value.
\<close>

subsection \<open>The lease store\<close>

type_synonym rental_store = "string \<rightharpoonup> rental"

datatype store_error =
    LeaseInvalid rental_error
  | LeaseDoesNotFollow string uint64 uint64
  | LeaseConflict string
  | LeaseNotFound string
  | RetireFailed string uint64 string

definition validSave :: "uint64 \<Rightarrow> rental \<Rightarrow> store_error option" where
  "validSave expectedVersion next =
     (case rental_Validate next of
        Some e \<Rightarrow> Some (LeaseInvalid e)
      | None \<Rightarrow>
          if r_Version next \<le> expectedVersion
          then Some (LeaseDoesNotFollow (r_ID next) (r_Version next) expectedVersion) else None)"

text \<open>A missing entry of a Go map reads as the zero value, whose version is 0.\<close>

definition lease_version_at :: "rental_store \<Rightarrow> string \<Rightarrow> uint64" where
  "lease_version_at st rid = (case st rid of None \<Rightarrow> 0 | Some r \<Rightarrow> r_Version r)"

definition rental_store_Save :: "uint64 \<Rightarrow> rental \<Rightarrow> rental_store \<Rightarrow> store_error + rental_store" where
  "rental_store_Save expectedVersion next st =
     checked (validSave expectedVersion next)
      (if lease_version_at st (r_ID next) \<noteq> expectedVersion then Inl (LeaseConflict (r_ID next))
       else Inr (st(r_ID next \<mapsto> next)))"

definition rental_store_Get :: "rental_store \<Rightarrow> string \<Rightarrow> store_error + rental" where
  "rental_store_Get st rid = (case st rid of None \<Rightarrow> Inl (LeaseNotFound rid) | Some r \<Rightarrow> Inr r)"

subsection \<open>Ending a generation\<close>

text \<open>
  \<open>retire\<close> is the \<^verbatim>\<open>Retirer\<close> the service was built with: it acts on a world of
  runtimes and may fail with a message. The service gives back the store and the world with its
  answer, since retiring acts even when the rest fails.
\<close>

definition leases_EndGeneration ::
    "(string \<Rightarrow> 'w \<Rightarrow> string option \<times> 'w) \<Rightarrow> string \<Rightarrow> uint64 \<Rightarrow> generation_ending \<Rightarrow> time \<Rightarrow>
     rental_store \<times> 'w \<Rightarrow> (store_error + rental) \<times> rental_store \<times> 'w" where
  "leases_EndGeneration retire rentalID generation ending moment = (\<lambda>(st, w).
     case rental_store_Get st rentalID of
       Inl err \<Rightarrow> (Inl err, st, w)
     | Inr held \<Rightarrow>
         (case rental_EndGeneration held generation ending moment of
            Inl err \<Rightarrow> (Inl (LeaseInvalid err), st, w)
          | Inr (next, ended) \<Rightarrow>
              (case retire (g_NodeID ended) w of
                 (Some msg, w') \<Rightarrow> (Inl (RetireFailed rentalID (g_Number ended) msg), st, w')
               | (None, w') \<Rightarrow>
                   if r_Version next = r_Version held then (Inr next, st, w')
                   else (case rental_store_Save (r_Version held) next st of
                           Inl err \<Rightarrow> (Inl err, st, w')
                         | Inr st' \<Rightarrow> (Inr next, st', w')))))"

subsection \<open>The schedule store\<close>

record 'd schedule_store =
  ss_Schedules :: "string \<rightharpoonup> rental_schedule"
  ss_Commands :: "string \<rightharpoonup> 'd append_result"
  ss_Log :: "'d event_log"

datatype commit_error =
    SeedNeedsIdentity
  | SeedVersionBehind string nat uint64
  | CommitNeedsIdentity
  | CommitDoesNotFollow uint64 uint64
  | CommitConflict
  | CommitAppendFailed log_error

definition NewMemory :: "'d event_log \<Rightarrow> 'd schedule_store" where
  "NewMemory lg = \<lparr>ss_Schedules = Map.empty, ss_Commands = Map.empty, ss_Log = lg\<rparr>"

definition validSeed :: "rental_schedule \<Rightarrow> commit_error option" where
  "validSeed s =
     (if rs_RentalID s = empty_string then Some SeedNeedsIdentity
      else if unat (rs_Version s) < length (rs_Bookings s)
        then Some (SeedVersionBehind (rs_RentalID s) (length (rs_Bookings s)) (rs_Version s))
      else None)"

definition schedule_Seed :: "rental_schedule \<Rightarrow> 'd schedule_store \<Rightarrow> commit_error + 'd schedule_store" where
  "schedule_Seed s st =
     checked (validSeed s) (Inr (st\<lparr>ss_Schedules := (ss_Schedules st)(rs_RentalID s \<mapsto> s)\<rparr>))"

definition validCommit :: "uint64 \<Rightarrow> rental_schedule \<Rightarrow> commit_error option" where
  "validCommit expectedVersion next =
     (if rs_RentalID next = empty_string then Some CommitNeedsIdentity
      else if rs_Version next \<noteq> expectedVersion + 1
        then Some (CommitDoesNotFollow (rs_Version next) expectedVersion)
      else None)"

definition schedule_version_at :: "'d schedule_store \<Rightarrow> string \<Rightarrow> uint64" where
  "schedule_version_at st rid = (case ss_Schedules st rid of None \<Rightarrow> 0 | Some s \<Rightarrow> rs_Version s)"

definition schedule_Commit ::
    "time \<Rightarrow> 'd append_request \<Rightarrow> uint64 \<Rightarrow> rental_schedule \<Rightarrow> 'd schedule_store \<Rightarrow>
     commit_error + ('d schedule_store \<times> 'd append_result)" where
  "schedule_Commit now event expectedVersion next st =
     checked (validCommit expectedVersion next)
      (case ss_Commands st (ar_CommandKey event) of
         Some result \<Rightarrow> Inr (st, result\<lparr>res_Duplicate := True\<rparr>)
       | None \<Rightarrow>
           if schedule_version_at st (rs_RentalID next) \<noteq> expectedVersion then Inl CommitConflict
           else (case Append now event (ss_Log st) of
                   Inl err \<Rightarrow> Inl (CommitAppendFailed err)
                 | Inr (lg, result) \<Rightarrow>
                     Inr (st\<lparr>ss_Log := lg,
                             ss_Schedules := (ss_Schedules st)(rs_RentalID next \<mapsto> next),
                             ss_Commands := (ss_Commands st)(ar_CommandKey event \<mapsto> result)\<rparr>, result)))"

subsection \<open>What an optimistic store promises\<close>

text \<open>
  A write \<open>save e w s\<close> names the version it was read at. One that changes the store is granted
  only at exactly that version, leaves the object at a later one and touches nothing else; one that
  does not change the store is a repeat of a command already recorded.
\<close>

locale optimistic_store =
  fixes save :: "'w \<Rightarrow> 's \<Rightarrow> 'err + 's"
    and key :: "'w \<Rightarrow> string"
    and expected :: "'w \<Rightarrow> uint64"
    and version_at :: "'s \<Rightarrow> string \<Rightarrow> uint64"
    and repeated :: "'w \<Rightarrow> 's \<Rightarrow> bool"
  assumes granted: "save w s = Inr s' \<Longrightarrow> \<not> repeated w s \<Longrightarrow> expected w \<noteq> - 1 \<Longrightarrow>
      version_at s (key w) = expected w \<and> expected w < version_at s' (key w)
      \<and> (\<forall>k. k \<noteq> key w \<longrightarrow> version_at s' k = version_at s k)"
    and repeat_changes_nothing: "save w s = Inr s' \<Longrightarrow> repeated w s \<Longrightarrow> s' = s"
begin

lemma version_mono:
  assumes "save w s = Inr s'" "expected w \<noteq> - 1"
  shows "version_at s k \<le> version_at s' k"
proof (cases "repeated w s")
  case True
  with repeat_changes_nothing[OF assms(1)] show ?thesis by simp
next
  case False
  from granted[OF assms(1) False assms(2)] show ?thesis by (cases "k = key w") auto
qed

lemma versions_never_go_back:
  "\<forall>w \<in> set ws. expected w \<noteq> - 1 \<Longrightarrow> version_at s k \<le> version_at (run_ops save ws s) k"
proof (induction ws arbitrary: s)
  case (Cons w ws)
  show ?case
  proof (cases "save w s")
    case (Inl e)
    with Cons show ?thesis by simp
  next
    case (Inr s')
    have "version_at s k \<le> version_at s' k" using version_mono[OF Inr] Cons.prems by simp
    also have "\<dots> \<le> version_at (run_ops save ws s') k" using Cons by simp
    finally show ?thesis by (simp add: Inr)
  qed
qed simp

lemma no_lost_update:
  assumes "save w s = Inr s1" "\<not> repeated w s" "s2 = run_ops save ws s1"
    "\<forall>v \<in> set (w # ws). expected v \<noteq> - 1"
    "key w' = key w" "expected w' = expected w" "\<not> repeated w' s2"
  shows "\<not> is_ok (save w' s2)"
proof
  assume "is_ok (save w' s2)"
  then obtain s3 where s3: "save w' s2 = Inr s3" by (auto simp: is_ok_def)
  have "expected w < version_at s1 (key w)" using granted[OF assms(1,2)] assms(4) by simp
  also have "\<dots> \<le> version_at s2 (key w)" unfolding assms(3) using versions_never_go_back assms(4) by simp
  also have "\<dots> = expected w" using granted[OF s3 assms(7)] assms(4,5,6) by simp
  finally show False by simp
qed

end

lemma validSave_None: "validSave e r = None \<longleftrightarrow> rental_Validate r = None \<and> e < r_Version r"
  by (auto simp: validSave_def not_le split: option.splits)

interpretation lease_store: optimistic_store
    "\<lambda>(e, r). rental_store_Save e r" "\<lambda>(e, r). r_ID r" fst lease_version_at "\<lambda>w s. False"
  by unfold_locales
    (auto simp: rental_store_Save_def validSave_None lease_version_at_def split: if_splits)

definition commit_step ::
    "time \<times> 'd append_request \<times> uint64 \<times> rental_schedule \<Rightarrow> 'd schedule_store \<Rightarrow> commit_error + 'd schedule_store" where
  "commit_step = (\<lambda>(now, event, e, next) st.
     case schedule_Commit now event e next st of Inl err \<Rightarrow> Inl err | Inr (st', _) \<Rightarrow> Inr st')"

lemma word_less_plus_1:
  assumes "(e :: uint64) \<noteq> - 1"
  shows "e < e + 1"
proof -
  have "unat (- 1 :: uint64) = 2 ^ 64 - 1" by (simp add: unsigned_minus_1_eq_mask mask_eq_exp_minus_1)
  then have "unat e \<noteq> 2 ^ 64 - 1" using assms by (metis word_unat_eq_iff)
  moreover have "unat e < 2 ^ 64" using unsigned_less[of e, where 'a = nat] by simp
  ultimately have "unat e < 2 ^ 64 - 1" by linarith
  then show ?thesis by (simp add: word_less_nat_alt version_succ)
qed

interpretation schedule_store: optimistic_store commit_step
    "\<lambda>(now, event, e, next). rs_RentalID next" "\<lambda>(now, event, e, next). e" schedule_version_at
    "\<lambda>(now, event, e, next) st. ss_Commands st (ar_CommandKey event) \<noteq> None"
  by unfold_locales
    (auto simp: commit_step_def schedule_Commit_def validCommit_def schedule_version_at_def
      word_less_plus_1 split: if_splits sum.splits)

subsection \<open>Properties\<close>

text \<open>Optimistic concurrency of leases: of two saves that both read a lease at the same version,
  at most one is granted, whatever other saves happen in between, and no save takes a stored lease
  back to an earlier version.\<close>

theorem lease_store_loses_no_update:
  assumes "rental_store_Save e r st = Inr st1"
    "st2 = run_ops (\<lambda>(e, r). rental_store_Save e r) saves st1"
    "e \<noteq> - 1" "\<forall>w \<in> set saves. fst w \<noteq> - 1" "r_ID r' = r_ID r"
  shows "\<not> is_ok (rental_store_Save e r' st2) \<and> lease_version_at st1 rid \<le> lease_version_at st2 rid"
  using lease_store.no_lost_update[of "(e, r)" st st1 st2 saves "(e, r')"]
    lease_store.versions_never_go_back[of saves st1 rid] assms by auto

definition stored_lease :: rental where
  "stored_lease = \<lparr>r_ID = ''rnt'', r_ConnectionID = ''c'', r_OwnershipToken = ''tok'', r_Version = 1,
     r_OpenedAt = 5, r_ReleasedAt = 0,
     r_Generations = [zero_generation\<lparr>g_Number := 1, g_NodeID := ''n1'', g_BeganAt := 5\<rparr>]\<rparr>"

lemma stored_lease_valid: "rental_Validate stored_lease = None"
  by (simp add: stored_lease_def rental_Validate_def identity_Validate_def rental_generationsRunInOrder_def
      rental_releaseFollowsTheLastEnding_def zero_generation_def generation_Open_def rental_Held_def
      time_is_zero_def Let_def)

theorem lease_store_loses_no_update_witness:
  "rental_store_Save 0 stored_lease Map.empty = Inr [''rnt'' \<mapsto> stored_lease]
   \<and> \<not> is_ok (rental_store_Save 0 stored_lease [''rnt'' \<mapsto> stored_lease])"
proof -
  have "rental_store_Save 0 stored_lease Map.empty = Inr [''rnt'' \<mapsto> stored_lease]"
    by (simp add: rental_store_Save_def validSave_def stored_lease_valid lease_version_at_def)
      (simp add: stored_lease_def)
  then show ?thesis using lease_store_loses_no_update[of 0 stored_lease Map.empty _ _ "[]" stored_lease] by simp
qed

text \<open>C32: A lease record never says a generation is over before the runtime on it was refused its next
  session: whenever ending a generation changes the store, the retirement of exactly that
  generation's runtime had succeeded first. A failed retirement leaves the store as it was, and what
  is stored is the lease the caller is handed.\<close>

theorem generation_never_ends_over_a_live_runtime:
  assumes "leases_EndGeneration retire rid n ending moment (st, w) = (answer, st', w')"
  shows "(st' \<noteq> st \<longrightarrow>
      (\<exists>held gen nxt. st rid = Some held \<and> rental_Generation held n = Some gen
        \<and> retire (g_NodeID gen) w = (None, w') \<and> answer = Inr nxt \<and> st' = st(r_ID held \<mapsto> nxt)))
    \<and> ((\<forall>node. fst (retire node w) \<noteq> None) \<longrightarrow> st' = st \<and> \<not> is_ok answer)"
proof (cases "st rid")
  case None
  with assms show ?thesis by (auto simp: leases_EndGeneration_def rental_store_Get_def)
next
  case (Some held)
  show ?thesis
  proof (cases "rental_EndGeneration held n ending moment")
    case (Inl e)
    with assms Some show ?thesis by (auto simp: leases_EndGeneration_def rental_store_Get_def)
  next
    case (Inr p)
    then obtain nxt ended where p: "rental_EndGeneration held n ending moment = Inr (nxt, ended)" by (cases p) auto
    obtain gen where gen: "rental_Generation held n = Some gen" "g_NodeID ended = g_NodeID gen" "r_ID nxt = r_ID held"
      using EndGeneration_keeps_names[OF p] by blast
    obtain o1 w1 where ret: "retire (g_NodeID gen) w = (o1, w1)" by fastforce
    note run = assms[unfolded leases_EndGeneration_def rental_store_Get_def] Some p gen ret
    show ?thesis
    proof (cases o1)
      case (Some msg)
      with run show ?thesis by auto
    next
      case None
      with ret have "\<not> (\<forall>node. fst (retire node w) \<noteq> None)" by (metis fst_conv)
      moreover have "st' \<noteq> st \<longrightarrow> w' = w1 \<and> answer = Inr nxt \<and> st' = st(r_ID held \<mapsto> nxt)"
        using run None by (auto simp: rental_store_Save_def checked_def split: if_splits option.splits)
      ultimately show ?thesis using \<open>st rid = Some held\<close> gen ret None by blast
    qed
  qed
qed

definition retire_all :: "string \<Rightarrow> string list \<Rightarrow> string option \<times> string list" where
  "retire_all node retired = (None, node # retired)"

theorem generation_never_ends_over_a_live_runtime_witness:
  "\<exists>answer st'. leases_EndGeneration retire_all ''rnt'' 1 RentalStopped 9 ([''rnt'' \<mapsto> stored_lease], []) =
      (answer, st', [''n1'']) \<and> st' \<noteq> [''rnt'' \<mapsto> stored_lease] \<and> is_ok answer"
proof -
  let ?run = "leases_EndGeneration retire_all ''rnt'' 1 RentalStopped 9 ([''rnt'' \<mapsto> stored_lease], [])"
  have "\<exists>nxt. ?run = (Inr nxt, [''rnt'' \<mapsto> nxt], [''n1'']) \<and> r_Version nxt = 2"
    by (simp add: leases_EndGeneration_def rental_store_Get_def stored_lease_def rental_EndGeneration_def
        rental_Generation_def generation_Open_def time_is_zero_def zero_generation_def ending_Valid_def
        retire_all_def rental_store_Save_def validSave_def rental_Validate_def identity_Validate_def
        rental_generationsRunInOrder_def rental_releaseFollowsTheLastEnding_def ending_EndsTheLease_def
        rental_Held_def lease_version_at_def Let_def word_le_nat_alt)
  then obtain nxt where run: "?run = (Inr nxt, [''rnt'' \<mapsto> nxt], [''n1''])" and v: "r_Version nxt = 2" by blast
  have "nxt \<noteq> stored_lease" using v by (auto simp: stored_lease_def)
  then have ch: "[''rnt'' \<mapsto> nxt] \<noteq> [''rnt'' \<mapsto> stored_lease]" by (metis fun_upd_same option.inject)
  then show ?thesis
    using generation_never_ends_over_a_live_runtime[OF run] run by auto
qed

text \<open>Two commits that both read a Rental Schedule at the same version cannot both place their
  Booking: once one is stored, the other is refused, unless it repeats a command already recorded, and
  then it changes nothing.\<close>

theorem schedule_store_double_books_nothing:
  assumes "schedule_Commit now event e next st = Inr (st1, res)" "ss_Commands st (ar_CommandKey event) = None"
    "st2 = run_ops commit_step commits st1" "e \<noteq> - 1" "\<forall>(t, ev, v, s) \<in> set commits. v \<noteq> - 1"
    "rs_RentalID next' = rs_RentalID next"
  shows "case schedule_Commit now' event' e next' st2 of
      Inl _ \<Rightarrow> True
    | Inr (st3, res') \<Rightarrow> st3 = st2 \<and> (\<exists>r. ss_Commands st2 (ar_CommandKey event') = Some r \<and> res' = r\<lparr>res_Duplicate := True\<rparr>)"
proof (cases "ss_Commands st2 (ar_CommandKey event')")
  case None
  have "\<not> is_ok (commit_step (now', event', e, next') st2)"
    using schedule_store.no_lost_update[of "(now, event, e, next)" st st1 st2 commits "(now', event', e, next')"]
      assms None by (fastforce simp: commit_step_def)
  then show ?thesis by (auto simp: commit_step_def split: sum.splits)
next
  case (Some r)
  then show ?thesis by (simp add: schedule_Commit_def checked_def split: option.splits)
qed

definition stored_schedule :: rental_schedule where
  "stored_schedule = (NewRentalSchedule ''rnt'')\<lparr>rs_Version := 1\<rparr>"

theorem schedule_store_double_books_nothing_witness:
  "\<exists>st1 res. schedule_Commit 1 (sample_append ''c1'' 0) 0 stored_schedule (NewMemory empty_log) = Inr (st1, res)
     \<and> schedule_Commit 2 (sample_append ''c2'' 1) 0 stored_schedule st1 = Inl CommitConflict
     \<and> (case schedule_Commit 3 (sample_append ''c1'' 0) 0 stored_schedule st1 of
          Inl _ \<Rightarrow> True | Inr (st3, _) \<Rightarrow> st3 = st1)"
proof -
  have v: "validCommit 0 stored_schedule = None" by (simp add: validCommit_def stored_schedule_def NewRentalSchedule_def)
  let ?st = "NewMemory empty_log\<lparr>ss_Log := sample_log, ss_Schedules := [''rnt'' \<mapsto> stored_schedule],
      ss_Commands := [''c1'' \<mapsto> appendResult (el_Events sample_log) False]\<rparr>"
  have first: "schedule_Commit 1 (sample_append ''c1'' 0) 0 stored_schedule (NewMemory empty_log) =
      Inr (?st, appendResult (el_Events sample_log) False)"
    using sample_log_append
    by (simp add: schedule_Commit_def v NewMemory_def schedule_version_at_def)
      (simp add: stored_schedule_def NewRentalSchedule_def sample_append_def)
  have second: "schedule_Commit 2 (sample_append ''c2'' 1) 0 stored_schedule ?st = Inl CommitConflict"
    by (simp add: schedule_Commit_def v NewMemory_def schedule_version_at_def sample_append_def)
      (simp add: stored_schedule_def NewRentalSchedule_def)
  have third: "case schedule_Commit 3 (sample_append ''c1'' 0) 0 stored_schedule ?st of
      Inl _ \<Rightarrow> True
    | Inr (st3, res') \<Rightarrow> st3 = ?st \<and> (\<exists>r. ss_Commands ?st (ar_CommandKey (sample_append ''c1'' 0)) = Some r
        \<and> res' = r\<lparr>res_Duplicate := True\<rparr>)"
    by (rule schedule_store_double_books_nothing[OF first, of _ "[]"]) (simp_all add: NewMemory_def)
  show ?thesis
    by (intro exI conjI, rule first, rule second) (use third in \<open>auto split: sum.splits\<close>)
qed

end
