(* ===== verification/Durable.thy ===== *)
theory Durable
  imports RunProjection Stores
begin

text \<open>
  The durable stores (\<^verbatim>\<open>internal/storage/sqlite\<close>: \<^verbatim>\<open>rental_schedule.go\<close>,
  \<^verbatim>\<open>run_projection.go\<close>, \<^verbatim>\<open>rental.go\<close>, \<^verbatim>\<open>preparation.go\<close>): the tables beside the event log
  and the writes that move a table and the log in one transaction.

  A table is its rows by primary key. A JSON column is the value it encodes: decoding what was
  encoded gives the value back. A transaction that fails returns no tables, which is the rollback.
\<close>

subsection \<open>Tables\<close>

record run_tables =
  tb_Schedules :: "string \<rightharpoonup> rental_schedule"
  tb_Runs :: "(string \<times> run_record) list"
  tb_ProjectionVersion :: int

type_synonym durable = "run_fact event_log \<times> run_tables"

definition new_storage :: durable where
  "new_storage = (empty_log, \<lparr>tb_Schedules = Map.empty, tb_Runs = [], tb_ProjectionVersion = 0\<rparr>)"

datatype durable_error =
    ProjectionIdentityMismatch
  | DurableCommit commit_error
  | DurableLog log_error
  | ReplacementIdentity
  | ReplacementRow string

subsection \<open>The Run projection\<close>

definition runProjectionSchemaVersion :: int where
  "runProjectionSchemaVersion = 2"

definition RequiresRebuild :: "run_tables \<Rightarrow> bool" where
  "RequiresRebuild t \<longleftrightarrow> tb_ProjectionVersion t \<noteq> runProjectionSchemaVersion"

definition markRunProjectionStale :: "run_tables \<Rightarrow> run_tables" where
  "markRunProjectionStale t = t\<lparr>tb_ProjectionVersion := 0\<rparr>"

definition MarkRebuilt :: "run_tables \<Rightarrow> run_tables" where
  "MarkRebuilt t = t\<lparr>tb_ProjectionVersion := runProjectionSchemaVersion\<rparr>"

definition putEncodedTx :: "run_record \<Rightarrow> run_tables \<Rightarrow> run_tables" where
  "putEncodedTx next t = t\<lparr>tb_Runs := AList.update (rec_ID next) next (tb_Runs t)\<rparr>"

definition putTx :: "run_record \<Rightarrow> run_tables \<Rightarrow> log_error + run_tables" where
  "putTx next t =
     (if rec_ID next = empty_string then Inl (MutationFailed ''Run projection requires Run identity'')
      else Inr (putEncodedTx next t))"

definition runs_Append ::
    "time \<Rightarrow> run_fact append_request \<Rightarrow> run_record \<Rightarrow> durable \<Rightarrow>
     durable_error + (durable \<times> run_fact append_result)" where
  "runs_Append now request next d =
     (if sk_Type (ar_Stream request) \<noteq> ''run'' \<or> sk_ID (ar_Stream request) = empty_string
         \<or> rec_ID next \<noteq> sk_ID (ar_Stream request)
      then Inl ProjectionIdentityMismatch
      else case AppendAtomic now request (Some (\<lambda>t. Inr (putEncodedTx next t))) d of
          Inl err \<Rightarrow> Inl (DurableLog err)
        | Inr r \<Rightarrow> Inr r)"

definition runs_List :: "run_tables \<Rightarrow> page_request \<Rightarrow> projection_error + run_page" where
  "runs_List t request = (case page_Validated request of
     Inl err \<Rightarrow> Inl err
   | Inr req \<Rightarrow>
       (let records = take (nat (pr_Limit req + 1))
              (map snd (sort_key fst (filter (\<lambda>(runID, _). pr_After req < runID) (tb_Runs t)))) in
        Inr (if pr_Limit req < int (length records)
             then (let page = take (nat (pr_Limit req)) records
                   in \<lparr>pg_Records = page, pg_NextCursor = rec_ID (last page)\<rparr>)
             else \<lparr>pg_Records = records, pg_NextCursor = empty_string\<rparr>)))"

definition runs_ListOpenIDs :: "run_tables \<Rightarrow> string list" where
  "runs_ListOpenIDs t = sort (map fst (filter (\<lambda>(_, r). \<not> rec_Closed r) (tb_Runs t)))"

fun replacement_rows :: "run_record list \<Rightarrow> (string \<times> run_record) list \<Rightarrow> durable_error + (string \<times> run_record) list" where
  "replacement_rows [] rows = Inr rows"
| "replacement_rows (r # rs) rows =
     (if rec_ID r = empty_string then Inl ReplacementIdentity
      else if map_of rows (rec_ID r) \<noteq> None then Inl (ReplacementRow (rec_ID r))
      else replacement_rows rs (rows @ [(rec_ID r, r)]))"

definition runs_Replace :: "run_record list \<Rightarrow> run_tables \<Rightarrow> durable_error + run_tables" where
  "runs_Replace records t = (case replacement_rows records [] of
     Inl err \<Rightarrow> Inl err
   | Inr rows \<Rightarrow> Inr (t\<lparr>tb_Runs := rows\<rparr>))"

subsection \<open>Rental Schedules\<close>

definition rentalScheduleVersion :: "run_tables \<Rightarrow> string \<Rightarrow> uint64" where
  "rentalScheduleVersion t rentalID = (case tb_Schedules t rentalID of None \<Rightarrow> 0 | Some s \<Rightarrow> rs_Version s)"

definition store_schedule ::
    "uint64 \<Rightarrow> rental_schedule \<Rightarrow> run_record \<Rightarrow> run_tables \<Rightarrow> log_error + run_tables" where
  "store_schedule expectedVersion next run t =
     (if rentalScheduleVersion t (rs_RentalID next) \<noteq> expectedVersion then Inl ErrConcurrencyConflict
      else putTx run (t\<lparr>tb_Schedules := (tb_Schedules t)(rs_RentalID next \<mapsto> next)\<rparr>))"

definition schedules_Commit ::
    "time \<Rightarrow> run_fact append_request \<Rightarrow> uint64 \<Rightarrow> rental_schedule \<Rightarrow> run_record \<Rightarrow> durable \<Rightarrow>
     durable_error + (durable \<times> run_fact append_result)" where
  "schedules_Commit now event expectedVersion next run d = (case validCommit expectedVersion next of
     Some err \<Rightarrow> Inl (DurableCommit err)
   | None \<Rightarrow> (case AppendAtomic now event (Some (store_schedule expectedVersion next run)) d of
       Inl err \<Rightarrow> Inl (DurableLog err)
     | Inr r \<Rightarrow> Inr r))"

subsection \<open>Leases\<close>

definition wroteOne :: "nat \<Rightarrow> string \<Rightarrow> store_error option" where
  "wroteOne changed rentalID = (if changed = 0 then Some (LeaseConflict rentalID) else None)"

definition rentals_take :: "rental \<Rightarrow> rental_store \<Rightarrow> store_error + rental_store" where
  "rentals_take next st =
     (let (changed, st') = (case st (r_ID next) of
        None \<Rightarrow> (1, st(r_ID next \<mapsto> next))
      | Some _ \<Rightarrow> (0, st)) in
      checked (wroteOne changed (r_ID next)) (Inr st'))"

definition rentals_advance :: "uint64 \<Rightarrow> rental \<Rightarrow> rental_store \<Rightarrow> store_error + rental_store" where
  "rentals_advance expectedVersion next st =
     (let (changed, st') = (case st (r_ID next) of
        Some held \<Rightarrow> if r_Version held = expectedVersion then (1, st(r_ID next \<mapsto> next)) else (0, st)
      | None \<Rightarrow> (0, st)) in
      checked (wroteOne changed (r_ID next)) (Inr st'))"

definition rentals_Save :: "uint64 \<Rightarrow> rental \<Rightarrow> rental_store \<Rightarrow> store_error + rental_store" where
  "rentals_Save expectedVersion next st =
     (case rental_Validate next of
        Some e \<Rightarrow> Inl (LeaseInvalid e)
      | None \<Rightarrow>
          if r_Version next \<le> expectedVersion
            then Inl (LeaseDoesNotFollow (r_ID next) (r_Version next) expectedVersion)
          else if expectedVersion = 0 then rentals_take next st
          else rentals_advance expectedVersion next st)"

definition rentals_Get :: "rental_store \<Rightarrow> string \<Rightarrow> store_error + rental" where
  "rentals_Get st rentalID = (case st rentalID of None \<Rightarrow> Inl (LeaseNotFound rentalID) | Some r \<Rightarrow> Inr r)"

subsection \<open>The preparation clock\<close>

type_synonym preparation_clock = "time option"

definition LastBegan :: "preparation_clock \<Rightarrow> time option" where
  "LastBegan clock = clock"

definition RecordBegan :: "time \<Rightarrow> preparation_clock \<Rightarrow> preparation_clock" where
  "RecordBegan moment clock = (case clock of None \<Rightarrow> Some moment | Some began \<Rightarrow> Some (max began moment))"

subsection \<open>Durable schedules are an optimistic store\<close>

type_synonym durable_commit = "time \<times> run_fact append_request \<times> uint64 \<times> rental_schedule \<times> run_record"

definition durable_commit_step :: "durable_commit \<Rightarrow> durable \<Rightarrow> durable_error + durable" where
  "durable_commit_step = (\<lambda>(now, event, e, next, run) d.
     case schedules_Commit now event e next run d of Inl err \<Rightarrow> Inl err | Inr (d', _) \<Rightarrow> Inr d')"

definition recorded_command :: "run_fact append_request \<Rightarrow> durable \<Rightarrow> bool" where
  "recorded_command event d \<longleftrightarrow> readCommand (fst d) (ar_CommandKey event) \<noteq> []"

lemma putTx_Inr: "putTx run t = Inr t' \<longleftrightarrow> rec_ID run \<noteq> empty_string \<and> t' = putEncodedTx run t"
  by (auto simp: putTx_def)

lemma store_schedule_Inr:
  "store_schedule e next run t = Inr t' \<longleftrightarrow>
     rentalScheduleVersion t (rs_RentalID next) = e \<and> rec_ID run \<noteq> empty_string
   \<and> t' = putEncodedTx run (t\<lparr>tb_Schedules := (tb_Schedules t)(rs_RentalID next \<mapsto> next)\<rparr>)"
  by (auto simp: store_schedule_def putTx_Inr)

lemma putEncodedTx_fields [simp]:
  "tb_Schedules (putEncodedTx r t) = tb_Schedules t"
  "tb_Runs (putEncodedTx r t) = AList.update (rec_ID r) r (tb_Runs t)"
  "tb_ProjectionVersion (putEncodedTx r t) = tb_ProjectionVersion t"
  by (simp_all add: putEncodedTx_def)

text \<open>What a granted atomic append did: it either repeated a recorded command and changed nothing, or
  appended to the log and ran its mutation.\<close>

lemma AppendAtomic_Inr:
  assumes "AppendAtomic now req (Some f) (lg, t) = Inr ((lg', t'), res)"
  shows "if readCommand lg (ar_CommandKey req) \<noteq> [] then lg' = lg \<and> t' = t
    else f t = Inr t' \<and> log_append now None req (lg, ()) = Inr ((lg', ()), res)"
  using assms by (auto simp: AppendAtomic_def log_append_def Let_def split: if_splits sum.splits)

lemma schedules_Commit_Inr:
  "schedules_Commit now event e next run d = Inr r \<longleftrightarrow>
     validCommit e next = None \<and> AppendAtomic now event (Some (store_schedule e next run)) d = Inr r"
  by (auto simp: schedules_Commit_def split: option.splits sum.splits)

lemma runs_Append_Inr:
  "runs_Append now req next d = Inr r \<longleftrightarrow>
     sk_Type (ar_Stream req) = ''run'' \<and> sk_ID (ar_Stream req) \<noteq> empty_string \<and> rec_ID next = sk_ID (ar_Stream req)
   \<and> AppendAtomic now req (Some (\<lambda>t. Inr (putEncodedTx next t))) d = Inr r"
  by (auto simp: runs_Append_def split: if_splits sum.splits)

interpretation durable_schedules: optimistic_store durable_commit_step
    "\<lambda>(now, event, e, next, run). rs_RentalID next" "\<lambda>(now, event, e, next, run). e"
    "\<lambda>d. rentalScheduleVersion (snd d)" "\<lambda>(now, event, e, next, run). recorded_command event"
proof (unfold_locales, goal_cases)
  case (1 w s s')
  obtain now event e nxt run where w: "w = (now, event, e, nxt, run)" by (cases w)
  obtain lg t lg' t' where s: "s = (lg, t)" "s' = (lg', t')" by (cases s, cases s')
  from 1(1) obtain res where "schedules_Commit now event e nxt run (lg, t) = Inr ((lg', t'), res)"
    by (auto simp: durable_commit_step_def w s split: sum.splits)
  then have c: "validCommit e nxt = None" "AppendAtomic now event (Some (store_schedule e nxt run)) (lg, t) = Inr ((lg', t'), res)"
    by (simp_all add: schedules_Commit_Inr)
  have "store_schedule e nxt run t = Inr t'"
    using AppendAtomic_Inr[OF c(2)] 1(2) by (simp add: w s recorded_command_def)
  moreover have "rs_Version nxt = e + 1" using c(1) by (auto simp: validCommit_def split: if_splits)
  ultimately show ?case using 1(3) by (auto simp: w s store_schedule_Inr rentalScheduleVersion_def word_less_plus_1)
next
  case (2 w s s')
  obtain now event e nxt run where w: "w = (now, event, e, nxt, run)" by (cases w)
  obtain lg t lg' t' where s: "s = (lg, t)" "s' = (lg', t')" by (cases s, cases s')
  from 2 show ?case
    by (auto simp: durable_commit_step_def w s recorded_command_def schedules_Commit_Inr split: sum.splits
        dest!: AppendAtomic_Inr)
qed


subsection \<open>Leases in memory and on disk\<close>

lemma rentals_Save_memory:
  assumes "\<forall>r \<in> ran st. 0 < r_Version r"
  shows "rentals_Save e next st = rental_store_Save e next st"
proof (cases "st (r_ID next)")
  case None
  then show ?thesis by (auto simp: rentals_Save_def rental_store_Save_def validSave_def rentals_take_def
        rentals_advance_def wroteOne_def lease_version_at_def split: option.splits)
next
  case (Some held)
  then have "r_Version held \<noteq> 0" using assms by (auto simp: ran_def word_gt_0)
  with Some show ?thesis by (auto simp: rentals_Save_def rental_store_Save_def validSave_def rentals_take_def
        rentals_advance_def wroteOne_def lease_version_at_def split: option.splits)
qed

lemma rental_store_Save_positive:
  assumes "rental_store_Save e next st = Inr st'" "\<forall>r \<in> ran st. 0 < r_Version r"
  shows "\<forall>r \<in> ran st'. 0 < r_Version r"
proof -
  have "0 < r_Version next" using assms(1) by (auto simp: rental_store_Save_def validSave_None word_gt_0 split: if_splits)
  moreover have "ran st' \<subseteq> insert next (ran st)"
    using assms(1) by (auto simp: rental_store_Save_def ran_def split: if_splits)
  ultimately show ?thesis using assms(2) by blast
qed

lemma saves_agree:
  "\<forall>r \<in> ran st. 0 < r_Version r \<Longrightarrow>
     run_ops (\<lambda>(e, r). rentals_Save e r) saves st = run_ops (\<lambda>(e, r). rental_store_Save e r) saves st"
proof (induction saves arbitrary: st)
  case (Cons w saves)
  obtain e r where w: "w = (e, r)" by (cases w)
  have same: "rentals_Save e r st = rental_store_Save e r st" by (rule rentals_Save_memory[OF Cons.prems])
  show ?case
  proof (cases "rental_store_Save e r st")
    case (Inl err)
    then show ?thesis using Cons by (simp add: w same)
  next
    case (Inr st')
    then show ?thesis using Cons.IH[OF rental_store_Save_positive[OF Inr Cons.prems]] by (simp add: w same)
  qed
qed simp

text \<open>The durable lease store and the in-memory one are the same store: whatever sequence of saves
  both are given from empty, with whatever versions, they hold the same leases, and every next save
  is answered the same, refusals included. The insert-or-ignore and the conditional update of the SQL
  are together exactly the version check the memory store makes.\<close>

theorem durable_leases_agree_with_memory:
  "run_ops (\<lambda>(e, r). rentals_Save e r) saves Map.empty = run_ops (\<lambda>(e, r). rental_store_Save e r) saves Map.empty
   \<and> rentals_Save e r (run_ops (\<lambda>(e, r). rentals_Save e r) saves Map.empty)
     = rental_store_Save e r (run_ops (\<lambda>(e, r). rental_store_Save e r) saves Map.empty)"
proof -
  have pos: "\<forall>x \<in> ran st. 0 < r_Version x \<Longrightarrow>
      \<forall>x \<in> ran (run_ops (\<lambda>(e, r). rental_store_Save e r) saves st). 0 < r_Version x" for st
  proof (induction saves arbitrary: st)
    case (Cons w saves)
    obtain e r where w: "w = (e, r)" by (cases w)
    show ?case
    proof (cases "rental_store_Save e r st")
      case (Inl err)
      then show ?thesis using Cons by (simp add: w)
    next
      case (Inr st')
      then show ?thesis using Cons.IH[OF rental_store_Save_positive[OF Inr Cons.prems]] by (simp add: w)
    qed
  qed simp
  have same: "run_ops (\<lambda>(e, r). rentals_Save e r) saves Map.empty = run_ops (\<lambda>(e, r). rental_store_Save e r) saves Map.empty"
    by (rule saves_agree) simp
  moreover have "rentals_Save e r (run_ops (\<lambda>(e, r). rental_store_Save e r) saves Map.empty)
     = rental_store_Save e r (run_ops (\<lambda>(e, r). rental_store_Save e r) saves Map.empty)"
    by (rule rentals_Save_memory, rule pos) simp
  ultimately show ?thesis by simp
qed

subsection \<open>Pages read from the table\<close>

text \<open>The table mirrors the log: one row per Run stream, and each row is the record its stream
  reduces to.\<close>

definition mirrors :: "(string \<Rightarrow> string option) \<Rightarrow> durable \<Rightarrow> bool" where
  "mirrors js d \<longleftrightarrow> distinct (map fst (tb_Runs (snd d)))
     \<and> (\<forall>r. run_stream (fst d) r = [] \<longrightarrow> map_of (tb_Runs (snd d)) r = None)
     \<and> (\<forall>r. run_stream (fst d) r \<noteq> [] \<longrightarrow> (\<exists>st rec. reduceRun js (run_stream (fst d) r) = Inr st
          \<and> runRecordFromState r st = Some rec \<and> map_of (tb_Runs (snd d)) r = Some rec))"

lemma mirrors_row:
  "mirrors js (lg, t) \<Longrightarrow> run_stream lg r \<noteq> [] \<Longrightarrow>
     \<exists>st rec. reduceRun js (run_stream lg r) = Inr st \<and> runRecordFromState r st = Some rec
       \<and> map_of (tb_Runs t) r = Some rec"
  unfolding mirrors_def fst_conv snd_conv by blast

lemma mirrorsD:
  assumes "mirrors js (lg, t)" "(r, rec) \<in> set (tb_Runs t)"
  shows "run_stream lg r \<noteq> []" "rec_ID rec = r"
    "\<exists>st. reduceRun js (run_stream lg r) = Inr st \<and> runRecordFromState r st = Some rec"
proof -
  have m: "map_of (tb_Runs t) r = Some rec" using assms by (simp add: mirrors_def)
  then show ne: "run_stream lg r \<noteq> []" using assms(1) by (auto simp: mirrors_def)
  then obtain st where st: "reduceRun js (run_stream lg r) = Inr st" "runRecordFromState r st = Some rec"
    using assms(1) m by (fastforce simp: mirrors_def)
  then show "\<exists>st. reduceRun js (run_stream lg r) = Inr st \<and> runRecordFromState r st = Some rec" by blast
  show "rec_ID rec = r" by (rule rec_ID_record[OF st(2)])
qed

lemma dropWhile_sorted_le:
  fixes f :: "'a \<Rightarrow> 'b :: linorder"
  assumes "sorted_wrt (<) (map f xs)"
  shows "filter (\<lambda>x. a < f x) xs = drop (length (takeWhile (\<lambda>x. f x \<le> a) xs)) xs"
  using assms
proof (induction xs)
  case (Cons x xs)
  show ?case
  proof (cases "f x \<le> a")
    case False
    then have "\<forall>y \<in> set xs. a < f y" using Cons.prems by force
    with False show ?thesis by (simp add: filter_id_conv)
  qed (use Cons in auto)
qed simp

lemma sorted_rows:
  assumes "distinct (map fst rows)"
  shows "sorted_wrt (<) (map fst (sort_key fst (rows :: (string \<times> 'a) list)))"
  using distinct_map_sort_key[OF assms] by (simp add: strict_sorted_iff)

lemma page_cut:
  assumes "1 \<le> limit"
  shows "take (nat limit) (take (nat (limit + 1)) xs) = take (nat limit) xs"
    "limit < int (length (take (nat (limit + 1)) xs)) \<longleftrightarrow> nat limit < length xs"
    "\<not> nat limit < length xs \<Longrightarrow> take (nat (limit + 1)) xs = take (nat limit) xs"
  using assms by (auto simp: min_def)

lemma runs_List_page:
  assumes "distinct (map fst (tb_Runs t))" "\<forall>(r, rec) \<in> set (tb_Runs t). rec_ID rec = r"
    "page_Validated req = Inr req'"
  shows "runs_List t req = Inr (page_of req' (map snd (sort_key fst (tb_Runs t))))"
proof -
  let ?rows = "sort_key fst (tb_Runs t)"
  let ?recs = "map snd ?rows"
  have limit: "1 \<le> pr_Limit req'" using assms(3) by (auto simp: page_Validated_def Let_def split: if_splits)
  have ids: "map rec_ID ?recs = map fst ?rows" using assms(2) by (auto simp: map_eq_conv case_prod_beta)
  have strict: "sorted_wrt (<) (map rec_ID ?recs)" using sorted_rows[OF assms(1)] by (simp only: ids)
  have "map snd (sort_key fst (filter (\<lambda>(runID, _). pr_After req' < runID) (tb_Runs t)))
      = map snd (filter (\<lambda>(runID, _). pr_After req' < runID) ?rows)"
    by (simp only: filter_sort)
  also have "\<dots> = filter (\<lambda>rec. pr_After req' < rec_ID rec) ?recs"
    unfolding filter_map using assms(2) by (intro arg_cong[where f = "map snd"] filter_cong) auto
  also have "\<dots> = drop (length (takeWhile (\<lambda>rec. rec_ID rec \<le> pr_After req') ?recs)) ?recs"
    by (rule dropWhile_sorted_le[OF strict])
  finally have rest: "map snd (sort_key fst (filter (\<lambda>(runID, _). pr_After req' < runID) (tb_Runs t)))
      = drop (length (takeWhile (\<lambda>rec. rec_ID rec \<le> pr_After req') ?recs)) ?recs" .
  define k where "k = length (takeWhile (\<lambda>rec. rec_ID rec \<le> pr_After req') ?recs)"
  have k: "k \<le> length ?recs" unfolding k_def by (rule length_takeWhile_le)
  have cut: "k + nat (pr_Limit req') < length ?recs \<longleftrightarrow> nat (pr_Limit req') < length (drop k ?recs)"
    using k by auto
  have "take (min (k + nat (pr_Limit req')) (length ?recs) - k) (drop k ?recs) = take (nat (pr_Limit req')) (drop k ?recs)"
    using k by (auto simp: min_def)
  then have "page_of req' ?recs =
      \<lparr>pg_Records = take (nat (pr_Limit req')) (drop k ?recs),
       pg_NextCursor = (if nat (pr_Limit req') < length (drop k ?recs)
         then rec_ID (last (take (nat (pr_Limit req')) (drop k ?recs))) else empty_string)\<rparr>"
    unfolding page_of_def Let_def k_def[symmetric] using cut by (simp add: min_less_iff_disj del: length_map length_drop)
  then show ?thesis
    unfolding runs_List_def using assms(3) rest page_cut[OF limit, of "drop k ?recs"]
    by (simp add: Let_def k_def[symmetric] del: length_take length_drop)
qed

lemma mirrored_records:
  assumes "mirrors js (lg, t)" "log_inv lg"
  shows "runRecordsFromHistory js lg = Some (Inr (map snd (sort_key fst (tb_Runs t))))"
proof -
  let ?recs = "map snd (sort_key fst (tb_Runs t))"
  have reduces: "\<exists>st rec. reduceRun js (run_stream lg r) = Inr st \<and> runRecordFromState r st = Some rec
      \<and> map_of (tb_Runs t) r = Some rec" if "run_stream lg r \<noteq> []" for r
    by (rule mirrors_row[OF assms(1) that])
  then obtain rs where rs: "runRecordsFromHistory js lg = Some (Inr rs)"
    using projection_of_streams[OF assms(2), of js] is_ok_simps(1) by metis
  note shape = projection_shape[OF assms(2) rs]
  have each: "\<forall>rec \<in> set rs. \<exists>st. reduceRun js (run_stream lg (rec_ID rec)) = Inr st
      \<and> runRecordFromState (rec_ID rec) st = Some rec"
    using projection_of_streams[OF assms(2), of js] rs by blast
  have ids: "map rec_ID ?recs = map fst (sort_key fst (tb_Runs t))"
    using mirrorsD(2)[OF assms(1)] by (auto simp: map_eq_conv)
  have strict: "sorted_wrt (<) (map rec_ID ?recs)"
    unfolding ids using assms(1) by (intro sorted_rows) (simp add: mirrors_def)
  have "set rs = set ?recs"
  proof (intro equalityI subsetI)
    fix x assume x: "x \<in> set rs"
    then have "run_stream lg (rec_ID x) \<noteq> []" using shape(2) by blast
    from reduces[OF this] obtain st y where y: "reduceRun js (run_stream lg (rec_ID x)) = Inr st"
      "runRecordFromState (rec_ID x) st = Some y" "map_of (tb_Runs t) (rec_ID x) = Some y" by blast
    obtain st' where "reduceRun js (run_stream lg (rec_ID x)) = Inr st'" "runRecordFromState (rec_ID x) st' = Some x"
      using each x by blast
    with y have "map_of (tb_Runs t) (rec_ID x) = Some x" by simp
    then show "x \<in> set ?recs" by (force dest: map_of_SomeD)
  next
    fix x assume "x \<in> set ?recs"
    then obtain r where r: "(r, x) \<in> set (tb_Runs t)" by auto
    note d = mirrorsD[OF assms(1) r]
    from d(1) have "r \<in> rec_ID ` set rs" unfolding shape(2) by (rule CollectI)
    then obtain y where y: "y \<in> set rs" "rec_ID y = r" by (elim imageE) simp
    obtain st where st: "reduceRun js (run_stream lg r) = Inr st" "runRecordFromState r st = Some x" using d(3) by blast
    obtain st' where "reduceRun js (run_stream lg r) = Inr st'" "runRecordFromState r st' = Some y"
      using each y by blast
    with st have "y = x" by simp
    with y show "x \<in> set rs" by simp
  qed
  then have "rs = ?recs"
    using shape(1) strict by (intro map_sorted_distinct_set_unique[where f = rec_ID])
      (auto simp: strict_sorted_iff distinct_map)
  with rs show ?thesis by simp
qed

lemma mirrored_pages:
  assumes "mirrors js (lg, t)" "log_inv lg"
  shows "projection_List js lg req = Some (runs_List t req)"
proof (cases "page_Validated req")
  case (Inl err)
  then show ?thesis by (simp add: projection_List_def runs_List_def)
next
  case (Inr req')
  have "distinct (map fst (tb_Runs t))" "\<forall>(r, rec) \<in> set (tb_Runs t). rec_ID rec = r"
    using assms(1) mirrorsD(2)[OF assms(1)] by (auto simp: mirrors_def)
  from runs_List_page[OF this Inr] show ?thesis
    using Inr by (simp add: projection_List_def mirrored_records[OF assms])
qed

lemma record_closed: "runRecordFromState r st = Some rec \<Longrightarrow> rec_Closed rec = closed st"
  by (auto simp: runRecordFromState_def Let_def split: option.splits)

lemma mirrored_open:
  assumes "mirrors js (lg, t)"
  shows "r \<in> set (runs_ListOpenIDs t) \<longleftrightarrow> run_stream lg r \<noteq> []
    \<and> (\<exists>st. reduceRun js (run_stream lg r) = Inr st \<and> \<not> closed st)" (is "?L \<longleftrightarrow> ?R")
proof
  assume ?L
  then obtain rec where "(r, rec) \<in> set (tb_Runs t)" "\<not> rec_Closed rec" by (auto simp: runs_ListOpenIDs_def)
  with mirrorsD[OF assms] show ?R using record_closed by metis
next
  assume ?R
  then obtain st where st: "run_stream lg r \<noteq> []" "reduceRun js (run_stream lg r) = Inr st" "\<not> closed st" by blast
  then obtain rec where "runRecordFromState r st = Some rec" "map_of (tb_Runs t) r = Some rec"
    using assms by (fastforce simp: mirrors_def)
  then show ?L using st(3) record_closed by (force simp: runs_ListOpenIDs_def dest: map_of_SomeD)
qed

text \<open>Putting the record a stream reduces to keeps the mirror.\<close>

lemma mirrors_put:
  assumes "mirrors js (lg, t)" "\<And>s. s \<noteq> r \<Longrightarrow> run_stream lg' s = run_stream lg s" "run_stream lg' r \<noteq> []"
    "reduceRun js (run_stream lg' r) = Inr st" "runRecordFromState r st = Some rec"
    "tb_Runs t' = AList.update r rec (tb_Runs t)"
  shows "mirrors js (lg', t')"
  unfolding mirrors_def
proof (intro conjI allI impI)
  show "distinct (map fst (tb_Runs (snd (lg', t'))))" using assms(1,6) by (simp add: mirrors_def distinct_update)
  fix s
  show "map_of (tb_Runs (snd (lg', t'))) s = None" if "run_stream (fst (lg', t')) s = []"
    using assms that by (cases "s = r") (auto simp: mirrors_def update_conv)
  show "\<exists>st rec. reduceRun js (run_stream (fst (lg', t')) s) = Inr st \<and> runRecordFromState s st = Some rec
      \<and> map_of (tb_Runs (snd (lg', t'))) s = Some rec" if "run_stream (fst (lg', t')) s \<noteq> []"
  proof (cases "s = r")
    case True
    then show ?thesis using assms by (simp add: update_conv)
  next
    case False
    with mirrors_row[OF assms(1)] assms(2)[OF False] that show ?thesis by (simp add: assms(6) update_conv del: map_of_eq_Some_iff)
  qed
qed

lemma mirrors_new: "mirrors js new_storage"
  by (simp add: mirrors_def new_storage_def stream_of_def empty_log_def)

end
