(* ===== verification/Intake.thy ===== *)
theory Intake
  imports Scheduler
begin

text \<open>
  Accepting a workload (\<^verbatim>\<open>internal/domain/normalize.go\<close>, \<^verbatim>\<open>validation.go\<close>, the patterns of
  \<^verbatim>\<open>cache.go\<close> and \<^verbatim>\<open>types.go\<close>, and the parts of \<^verbatim>\<open>internal/orchestrator\<close> that prepare a
  submission): omissions filled with defaults, everything a Run may not be stored with refused, images
  pinned to content.

  The environment of a container is a list of bindings with one entry per name. Go visits a map in no
  fixed order; the order of the list is one of them, and only the emptiness of the findings and which
  one is first are ever read. Patterns are matched over ASCII strings.
\<close>

subsection \<open>Defaults\<close>

definition DefaultContainerName :: string where "DefaultContainerName = ''main''"
definition DefaultPlatformOS :: string where "DefaultPlatformOS = ''linux''"
definition DefaultCPUMillis :: int64 where "DefaultCPUMillis = 250"
definition DefaultMemoryBytes :: int64 where "DefaultMemoryBytes = 256 * 1024 * 1024"
definition DefaultEphemeralDiskBytes :: int64 where "DefaultEphemeralDiskBytes = 1024 * 1024 * 1024"
definition DefaultMaxPreStartAttempts :: int where "DefaultMaxPreStartAttempts = 1"

definition normalize_container :: "container_spec \<Rightarrow> container_spec" where
  "normalize_container c =
     (let c = (if cs_Name c = empty_string then c\<lparr>cs_Name := DefaultContainerName\<rparr> else c) in
      if pl_OS (cs_Platform c) = empty_string
      then c\<lparr>cs_Platform := (cs_Platform c)\<lparr>pl_OS := DefaultPlatformOS\<rparr>\<rparr> else c)"

definition normalize_resources :: "resource_requirements \<Rightarrow> resource_requirements" where
  "normalize_resources r =
     (let r = (if rr_CPUMinMillis r = 0 then r\<lparr>rr_CPUMinMillis := DefaultCPUMillis\<rparr> else r);
          r = (if rr_MemoryMinBytes r = 0 then r\<lparr>rr_MemoryMinBytes := DefaultMemoryBytes\<rparr> else r)
      in if rr_EphemeralDiskMinBytes r = 0
         then r\<lparr>rr_EphemeralDiskMinBytes := DefaultEphemeralDiskBytes\<rparr> else r)"

definition normalize_execution :: "execution_policy \<Rightarrow> execution_policy" where
  "normalize_execution e =
     (let e = (if ep_MaxRuntimeSeconds e = 0 then e\<lparr>ep_MaxRuntimeSeconds := DefaultMaxRuntimeSeconds\<rparr> else e)
      in if ep_MaxPreStartAttempts e = 0
         then e\<lparr>ep_MaxPreStartAttempts := DefaultMaxPreStartAttempts\<rparr> else e)"

definition NormalizeWorkloadRevision :: "workload_revision \<Rightarrow> workload_revision" where
  "NormalizeWorkloadRevision wrev =
     (let spec = wr_Spec wrev;
          containers = (case ws_Containers spec of [c] \<Rightarrow> [normalize_container c] | cs \<Rightarrow> cs);
          network = (if nr_Inbound (ws_Network spec) = InboundNetworkOther empty_string
                     then (ws_Network spec)\<lparr>nr_Inbound := InboundNetworkNone\<rparr> else ws_Network spec);
          policy = (if pp_Class (ws_Placement spec) = ClassOther empty_string
                    then (ws_Placement spec)\<lparr>pp_Class := ClassStandard\<rparr> else ws_Placement spec)
      in wrev\<lparr>wr_Spec := spec\<lparr>ws_Containers := containers,
           ws_Resources := normalize_resources (ws_Resources spec), ws_Network := network,
           ws_Placement := policy, ws_Execution := normalize_execution (ws_Execution spec)\<rparr>\<rparr>)"

subsection \<open>Patterns\<close>

definition is_lower :: "char \<Rightarrow> bool" where "is_lower c \<longleftrightarrow> CHR ''a'' \<le> c \<and> c \<le> CHR ''z''"
definition is_upper :: "char \<Rightarrow> bool" where "is_upper c \<longleftrightarrow> CHR ''A'' \<le> c \<and> c \<le> CHR ''Z''"
definition is_digit :: "char \<Rightarrow> bool" where "is_digit c \<longleftrightarrow> CHR ''0'' \<le> c \<and> c \<le> CHR ''9''"

definition envNamePattern :: "string \<Rightarrow> bool" where
  "envNamePattern s = (case s of [] \<Rightarrow> False
   | c # cs \<Rightarrow> (is_upper c \<or> c = CHR ''_'') \<and> list_all (\<lambda>d. is_upper d \<or> is_digit d \<or> d = CHR ''_'') cs)"

definition ValidCacheName :: "string \<Rightarrow> bool" where
  "ValidCacheName s = (case s of [] \<Rightarrow> False
   | c # cs \<Rightarrow> (is_lower c \<or> is_digit c) \<and> length cs \<le> 62
       \<and> list_all (\<lambda>d. is_lower d \<or> is_digit d \<or> d \<in> {CHR ''.'', CHR ''_'', CHR ''-''}) cs)"

definition ValidCacheCompatibilityKey :: "string \<Rightarrow> bool" where
  "ValidCacheCompatibilityKey s = (case s of [] \<Rightarrow> True
   | c # cs \<Rightarrow> (is_lower c \<or> is_upper c \<or> is_digit c) \<and> length cs \<le> 127
       \<and> list_all (\<lambda>d. is_lower d \<or> is_upper d \<or> is_digit d
            \<or> d \<in> {CHR ''.'', CHR ''_'', CHR '':'', CHR ''+'', CHR ''-''}) cs)"

definition pattern_space :: "char \<Rightarrow> bool" where
  "pattern_space c \<longleftrightarrow> of_char c \<in> {9, 10, 12, 13, 32 :: nat}"

definition PinnedImage :: "string \<Rightarrow> bool" where
  "PinnedImage reference =
     (let name = takeWhile (\<lambda>c. c \<noteq> CHR ''@'') reference;
          rest = drop (length name) reference;
          digest = drop 8 rest
      in name \<noteq> empty_string \<and> \<not> list_ex pattern_space name \<and> take 8 rest = ''@sha256:''
         \<and> length digest = 64
         \<and> list_all (\<lambda>c. is_digit c \<or> CHR ''a'' \<le> c \<and> c \<le> CHR ''f'') digest)"

definition to_lower :: "string \<Rightarrow> string" where
  "to_lower = map (\<lambda>c. if is_upper c then char_of (of_char c + 32 :: nat) else c)"

subsection \<open>Validation\<close>

definition maxEnvValueBytes :: int where "maxEnvValueBytes = 32 * 1024"

definition env_violations :: "string \<times> string option \<Rightarrow> violation list" where
  "env_violations = (\<lambda>(key, val).
     (let path = ''spec.containers[0].env.'' @ key in
      finding (\<not> envNamePattern key) (violation_of ''ENV_NAME_INVALID'' path (AnyString ''^[A-Z_][A-Z0-9_]*$'') AnyNone)
      @ (case val of
           None \<Rightarrow> [violation_of ''ENV_VALUE_REQUIRED'' path AnyNone AnyNone]
         | Some v \<Rightarrow> finding (maxEnvValueBytes < int (length v))
             (violation_of ''ENV_VALUE_TOO_LARGE'' path (AnyInt maxEnvValueBytes) (AnyInt (int (length v)))))))"

definition indexed :: "string \<Rightarrow> nat \<Rightarrow> string \<Rightarrow> string" where
  "indexed pre i post = pre @ Itoa (int i) @ post"

definition artifactDeclarationViolations :: "string \<Rightarrow> nat \<Rightarrow> string \<Rightarrow> string set \<Rightarrow> violation list" where
  "artifactDeclarationViolations aid index field seen =
     (let path = indexed (''spec.artifacts.'' @ field @ ''['') index '']'' in
      if aid = empty_string
        then [violation_of ''ARTIFACT_ID_REQUIRED'' path (AnyString ''Artifact version identity'') AnyNone]
      else if aid \<in> seen then [violation_of ''ARTIFACT_DECLARED_TWICE'' path AnyNone (AnyString aid)]
      else [])"

fun consumed_violations :: "nat \<Rightarrow> string set \<Rightarrow> string list \<Rightarrow> violation list" where
  "consumed_violations i seen [] = []"
| "consumed_violations i seen (a # as) =
     artifactDeclarationViolations a i ''consumes'' seen @ consumed_violations (i + 1) (insert a seen) as"

fun produced_violations :: "string set \<Rightarrow> nat \<Rightarrow> string set \<Rightarrow> string list \<Rightarrow> violation list" where
  "produced_violations consumed i seen [] = []"
| "produced_violations consumed i seen (a # as) =
     artifactDeclarationViolations a i ''produces'' seen
     @ finding (a \<in> consumed) (violation_of ''ARTIFACT_CONSUMED_AND_PRODUCED''
         (indexed ''spec.artifacts.produces['' i '']'') AnyNone (AnyString a))
     @ produced_violations consumed (i + 1) (insert a seen) as"

definition validateArtifactRequirements :: "artifact_requirements \<Rightarrow> violation list" where
  "validateArtifactRequirements r =
     consumed_violations 0 {} (art_Consumes r)
     @ produced_violations (set (art_Consumes r)) 0 {} (art_Produces r)"

fun cache_violations :: "nat \<Rightarrow> string set \<Rightarrow> cache_requirement list \<Rightarrow> violation list" where
  "cache_violations i named [] = []"
| "cache_violations i named (c # cs) =
     (let path = indexed ''spec.caches['' i ''].name'' in
      (if \<not> ValidCacheName (cr_Name c)
         then [violation_of ''CACHE_NAME_INVALID'' path (AnyString ''^[a-z0-9][a-z0-9._-]{0,62}$'') (AnyString (cr_Name c))]
       else if cr_Name c \<in> named then [violation_of ''CACHE_NAME_REPEATED'' path AnyNone (AnyString (cr_Name c))]
       else [])
      @ finding (\<not> ValidCacheCompatibilityKey (cr_CompatibilityKey c))
          (violation_of ''CACHE_KEY_INVALID'' (indexed ''spec.caches['' i ''].compatibility_key'')
            (AnyString ''^[A-Za-z0-9][A-Za-z0-9._:+-]{0,127}$'') (AnyString (cr_CompatibilityKey c)))
      @ finding (cr_SizeBytes c < 0)
          (violation_of ''CACHE_SIZE_INVALID'' (indexed ''spec.caches['' i ''].size_bytes'')
            (AnyString ''>= 0'') (AnyInt (cr_SizeBytes c)))
      @ cache_violations (i + 1) (insert (cr_Name c) named) cs)"

definition validateCacheRequirements :: "cache_requirement list \<Rightarrow> violation list" where
  "validateCacheRequirements = cache_violations 0 {}"

definition KnownHostFacts :: "host_fact list" where "KnownHostFacts = [HostFactSSH, HostFactNvidiaDriver]"

fun host_fact_violations :: "nat \<Rightarrow> host_fact list \<Rightarrow> violation list" where
  "host_fact_violations i [] = []"
| "host_fact_violations i (f # fs) =
     finding (f \<notin> set KnownHostFacts) (violation_of ''UNKNOWN_HOST_FACT''
       (indexed ''spec.resources.host.facts['' i '']'') (AnyStrings (map host_fact_string KnownHostFacts))
       (AnyString (host_fact_string f)))
     @ host_fact_violations (i + 1) fs"

definition driver_floor_violations :: "string \<Rightarrow> string \<Rightarrow> violation list" where
  "driver_floor_violations path version =
     finding (version \<noteq> empty_string \<and> CompareDottedVersions version version = None)
       (violation_of ''MALFORMED_VERSION'' path (AnyString ''dotted numeric version'') (AnyString version))"

definition validateHostRequirements :: "host_requirements \<Rightarrow> violation list" where
  "validateHostRequirements h =
     host_fact_violations 0 (hr_Facts h)
     @ driver_floor_violations ''spec.resources.host.min_driver_version'' (hr_MinDriverVersion h)
     @ driver_floor_violations ''spec.resources.host.min_driver_capability'' (hr_MinDriverCapability h)"

fun port_violations :: "inbound_mode \<Rightarrow> nat \<Rightarrow> port_spec list \<Rightarrow> violation list" where
  "port_violations inbound i [] = []"
| "port_violations inbound i (p # ps) =
     finding (ps_ContainerPort p \<le> 0 \<or> 65535 < ps_ContainerPort p) (violation_of ''PORT_INVALID''
       (indexed ''spec.containers[0].ports['' i ''].container_port'') (AnyString ''1-65535'') (AnyInt (ps_ContainerPort p)))
     @ finding (ps_Protocol p \<noteq> empty_string \<and> to_lower (ps_Protocol p) \<noteq> ''tcp'')
       (violation_of ''UNSUPPORTED_PORT_PROTOCOL'' (indexed ''spec.containers[0].ports['' i ''].protocol'')
         (AnyString ''tcp'') (AnyString (ps_Protocol p)))
     @ finding (ps_Exposure p = PortExposurePublic \<and> inbound \<noteq> InboundNetworkPublicPort)
       (violation_of ''CAPABILITY_MISMATCH'' ''spec.network.inbound'' (AnyInbound InboundNetworkPublicPort) (AnyInbound inbound))
     @ port_violations inbound (i + 1) ps"

definition supportedLinuxArch :: "string \<Rightarrow> bool" where
  "supportedLinuxArch arch \<longleftrightarrow> arch = ''amd64'' \<or> arch = ''arm64''"

definition container_violations :: "container_spec \<Rightarrow> violation list" where
  "container_violations c =
     finding (cs_Name c \<noteq> ''main'')
       (violation_of ''V1_MAIN_CONTAINER'' ''spec.containers[0].name'' (AnyString ''main'') (AnyString (cs_Name c)))
     @ finding (cs_Image c = empty_string)
       (violation_of ''IMAGE_REQUIRED'' ''spec.containers[0].image'' (AnyString ''image reference'') AnyNone)
     @ finding (pl_OS (cs_Platform c) \<noteq> ''linux'' \<or> \<not> supportedLinuxArch (pl_Architecture (cs_Platform c)))
       (violation_of ''UNSUPPORTED_PLATFORM'' ''spec.containers[0].platform''
         (AnyString ''linux/amd64 or linux/arm64'') (AnyString (platform_String (cs_Platform c))))
     @ concat (map env_violations (cs_Env c))"

definition policy_shape_violations :: "workload_spec \<Rightarrow> violation list" where
  "policy_shape_violations spec =
     (let declared = ep_MaxRuntimeSeconds (ws_Execution spec);
          maxRuntime = (if declared = 0 then DefaultMaxRuntimeSeconds else declared);
          policy = ws_Placement spec in
      finding (f64_of_int maxRuntime < pp_ExpectedRuntimeSeconds policy)
        (violation_of ''EXPECTED_RUNTIME_EXCEEDS_MAX'' ''spec.placement.expected_runtime_seconds''
          (AnyInt maxRuntime) (AnyFloat (pp_ExpectedRuntimeSeconds policy)))
      @ finding (\<not> class_Known (pp_Class policy))
        (violation_of ''SERVICE_CLASS_UNKNOWN'' ''spec.placement.service_class''
          (AnyClasses KnownServiceClasses) (AnyClass (pp_Class policy)))
      @ finding (\<not> group_Stated (pp_Group policy))
        (violation_of ''RUN_GROUP_INCOMPLETE'' ''spec.placement.group''
          (AnyString ''a name and the most of the family that may run at once'') (AnyGroup (pp_Group policy))))"

definition ValidateWorkloadRevision :: "workload_revision \<Rightarrow> violation list" where
  "ValidateWorkloadRevision wrev =
     (let spec = wr_Spec wrev;
          raw = finding (ws_Raw spec \<noteq> []) (violation_of ''UNSUPPORTED_RAW_EXTENSION'' ''spec.raw'' AnyNone AnyNone) in
      case ws_Containers spec of
        [c] \<Rightarrow> raw @ container_violations c @ policy_shape_violations spec
          @ validateArtifactRequirements (ws_Artifacts spec) @ validateCacheRequirements (ws_Caches spec)
          @ validateHostRequirements (rr_Host (ws_Resources spec))
          @ port_violations (nr_Inbound (ws_Network spec)) 0 (cs_Ports c)
      | cs \<Rightarrow> raw @ [violation_of ''V1_ONE_CONTAINER'' ''spec.containers'' (AnyInt 1) (AnyInt (int (length cs)))])"

subsection \<open>Submissions\<close>

definition hasWorkloadSpec :: "workload_revision \<Rightarrow> bool" where
  "hasWorkloadSpec wrev \<longleftrightarrow> ws_Containers (wr_Spec wrev) \<noteq> []"

fun merge_env :: "(string \<times> string option) list \<Rightarrow> (string \<times> string option) list \<Rightarrow> (string \<times> string option) list" where
  "merge_env base over = filter (\<lambda>(k, _). map_of over k = None) base @ over"

definition applyRunEnvOverrides :: "workload_revision \<Rightarrow> (string \<times> string option) list \<Rightarrow> workload_revision" where
  "applyRunEnvOverrides wrev runEnv = (case ws_Containers (wr_Spec wrev) of
     [] \<Rightarrow> wrev
   | c # cs \<Rightarrow> if runEnv = [] then wrev
       else wrev\<lparr>wr_Spec := (wr_Spec wrev)\<lparr>ws_Containers := c\<lparr>cs_Env := merge_env (cs_Env c) runEnv\<rparr> # cs\<rparr>\<rparr>)"

text \<open>\<open>resolve\<close> is the resolver a request carries, if any: it pins an image and reports the platform it
  was built for, or fails with a message.\<close>

type_synonym image_resolver = "string \<Rightarrow> string \<Rightarrow> string + (string \<times> string)"

fun resolve_containers :: "image_resolver \<Rightarrow> container_spec list \<Rightarrow> string + container_spec list" where
  "resolve_containers resolve [] = Inr []"
| "resolve_containers resolve (c # cs) =
     (case resolve (cs_Image c) (platform_String (cs_Platform c)) of
        Inl err \<Rightarrow> Inl (''IMAGE_RESOLUTION_FAILED: '' @ err)
      | Inr (pinned, platform) \<Rightarrow>
          (let c' = c\<lparr>cs_Image := pinned\<rparr>;
               c'' = (case ParsePlatform platform of None \<Rightarrow> c' | Some p \<Rightarrow> c'\<lparr>cs_Platform := p\<rparr>) in
           case resolve_containers resolve cs of Inl err \<Rightarrow> Inl err | Inr cs' \<Rightarrow> Inr (c'' # cs')))"

definition resolveWorkloadImages :: "workload_revision \<Rightarrow> image_resolver option \<Rightarrow> string + workload_revision" where
  "resolveWorkloadImages wrev resolver = (case resolver of
     None \<Rightarrow> Inr wrev
   | Some resolve \<Rightarrow> (case resolve_containers resolve (ws_Containers (wr_Spec wrev)) of
       Inl err \<Rightarrow> Inl err
     | Inr cs \<Rightarrow> Inr (wrev\<lparr>wr_Spec := (wr_Spec wrev)\<lparr>ws_Containers := cs\<rparr>\<rparr>)))"

definition refuseUnpinnedImages :: "workload_revision \<Rightarrow> string option" where
  "refuseUnpinnedImages wrev =
     (case find (\<lambda>c. \<not> PinnedImage (cs_Image c)) (ws_Containers (wr_Spec wrev)) of
        None \<Rightarrow> None
      | Some c \<Rightarrow> Some (''IMAGE_NOT_PINNED: Run image '' @ cs_Image c))"


subsection \<open>What an accepted workload is\<close>

lemma normalize_container_idem: "normalize_container (normalize_container c) = normalize_container c"
  by (simp add: normalize_container_def Let_def DefaultContainerName_def DefaultPlatformOS_def)

lemma normalize_resources_idem: "normalize_resources (normalize_resources r) = normalize_resources r"
  by (simp add: normalize_resources_def Let_def DefaultCPUMillis_def DefaultMemoryBytes_def DefaultEphemeralDiskBytes_def)

lemma normalize_execution_idem: "normalize_execution (normalize_execution e) = normalize_execution e"
  by (simp add: normalize_execution_def Let_def DefaultMaxRuntimeSeconds_def DefaultMaxPreStartAttempts_def)

lemma normalize_idempotent: "NormalizeWorkloadRevision (NormalizeWorkloadRevision w) = NormalizeWorkloadRevision w"
  by (auto simp: NormalizeWorkloadRevision_def Let_def normalize_container_idem normalize_resources_idem
      normalize_execution_idem split: list.splits)

text \<open>What is left of a workload once what was omitted is ignored: normalising keeps every value that was
  stated.\<close>

lemma normalize_keeps_stated:
  "ws_Artifacts (wr_Spec (NormalizeWorkloadRevision w)) = ws_Artifacts (wr_Spec w)"
  "ws_Caches (wr_Spec (NormalizeWorkloadRevision w)) = ws_Caches (wr_Spec w)"
  "ep_MaxRuntimeSeconds (ws_Execution (wr_Spec w)) \<noteq> 0 \<Longrightarrow>
     ep_MaxRuntimeSeconds (ws_Execution (wr_Spec (NormalizeWorkloadRevision w))) = ep_MaxRuntimeSeconds (ws_Execution (wr_Spec w))"
  "ep_MaxPreStartAttempts (ws_Execution (wr_Spec w)) \<noteq> 0 \<Longrightarrow>
     ep_MaxPreStartAttempts (ws_Execution (wr_Spec (NormalizeWorkloadRevision w))) = ep_MaxPreStartAttempts (ws_Execution (wr_Spec w))"
  "pp_Class (ws_Placement (wr_Spec w)) \<noteq> ClassOther empty_string \<Longrightarrow>
     ws_Placement (wr_Spec (NormalizeWorkloadRevision w)) = ws_Placement (wr_Spec w)"
  by (simp_all add: NormalizeWorkloadRevision_def Let_def normalize_execution_def)

lemma validated_workload:
  assumes "ValidateWorkloadRevision w = []"
  obtains c where "ws_Containers (wr_Spec w) = [c]" "cs_Name c = ''main''" "cs_Image c \<noteq> empty_string"
    "class_Known (pp_Class (ws_Placement (wr_Spec w)))" "group_Stated (pp_Group (ws_Placement (wr_Spec w)))"
    "\<forall>(k, v) \<in> set (cs_Env c). envNamePattern k \<and> v \<noteq> None"
    "ws_Raw (wr_Spec w) = []"
proof -
  obtain c where c: "ws_Containers (wr_Spec w) = [c]"
    using assms by (auto simp: ValidateWorkloadRevision_def Let_def split: list.splits)
  have none: "container_violations c = []" "policy_shape_violations (wr_Spec w) = []" "ws_Raw (wr_Spec w) = []"
    using assms by (simp_all add: ValidateWorkloadRevision_def Let_def c)
  have env: "envNamePattern k \<and> v \<noteq> None" if "(k, v) \<in> set (cs_Env c)" for k v
  proof -
    have "env_violations (k, v) = []" using none(1) that by (auto simp: container_violations_def)
    then show ?thesis by (auto simp: env_violations_def Let_def split: option.splits)
  qed
  show ?thesis
    by (rule that[OF c]) (use none env in \<open>auto simp: container_violations_def policy_shape_violations_def Let_def\<close>)
qed

lemma evaluate_errors:
  assumes "Evaluate gpu hs inp = Inl err" "in_EvaluatedAt inp \<noteq> 0" "class_Known (pp_Class (input_policy inp))"
    "ws_Containers (wr_Spec (in_Workload inp)) \<noteq> []"
  shows "\<exists>offer. offer \<in> set (in_Offers inp)
    \<and> (err = StandingNeedsRental (o_ID offer) \<or> err = UnknownOfferKind (o_ID offer) (o_Kind offer)
       \<or> (\<exists>e. err = ReserveRefused e))"
proof -
  let ?inp = "defaulted_input inp"
  obtain offer c did where best: "best_from None (evaluated_offers gpu ?inp) = Some (offer, c)"
    and book: "bookingForDecision hs ?inp did offer = Inl err"
    using assms by (auto simp: Evaluate_def Let_def time_is_zero_def split: if_splits option.splits sum.splits)
  have "(offer, c) \<in> set (evaluated_offers gpu ?inp)" using best_unbeaten[of "evaluated_offers gpu ?inp"] best by simp
  then have "offer \<in> set (in_Offers inp)" using evaluated_snd by fastforce
  with book show ?thesis
    by (auto simp: bookingForDecision_def Let_def split: if_splits sum.splits prod.splits offer_kind.splits option.splits)
qed

text \<open>C24: A workload that validation accepts is one Placement can evaluate: for every set of offers, the
  evaluation of a dated request answers, or fails only because the offer it chose could not be booked.
  It never meets an unpriced service class and never indexes a container that is not there. The
  defaults filled in before validation are filled in once: normalising again changes nothing.\<close>

theorem accepted_workload_is_evaluated:
  assumes "ValidateWorkloadRevision (in_Workload inp) = []" "in_EvaluatedAt inp \<noteq> 0"
    "Evaluate gpu hs inp = Inl err"
  shows "(\<exists>offer. offer \<in> set (in_Offers inp)
      \<and> (err = StandingNeedsRental (o_ID offer) \<or> err = UnknownOfferKind (o_ID offer) (o_Kind offer)
         \<or> (\<exists>e. err = ReserveRefused e)))
    \<and> NormalizeWorkloadRevision (NormalizeWorkloadRevision w) = NormalizeWorkloadRevision w"
proof -
  obtain c where "ws_Containers (wr_Spec (in_Workload inp)) = [c]" "class_Known (pp_Class (input_policy inp))"
    using validated_workload[OF assms(1)] by blast
  then show ?thesis using evaluate_errors[OF assms(3,2)] normalize_idempotent by simp
qed

lemma sample_max_runtime: "f64_of_int 120 = 120"
  by code_simp

lemma sample_workload_valid: "ValidateWorkloadRevision sample_workload = []"
  by (simp add: ValidateWorkloadRevision_def sample_workload_def sample_platform_def container_violations_def
      supportedLinuxArch_def policy_shape_violations_def Let_def DefaultMaxRuntimeSeconds_def class_Known_def
      KnownServiceClasses_def group_Stated_def group_Declared_def validateArtifactRequirements_def
      validateCacheRequirements_def validateHostRequirements_def driver_floor_violations_def sample_max_runtime)

theorem accepted_workload_is_evaluated_witness:
  "\<exists>err e. Evaluate sample_gpu sample_hashes (sample_run_input empty_string) = Inl err \<and> err = ReserveRefused e"
proof -
  have w: "in_Workload (sample_run_input empty_string) = sample_workload" "in_EvaluatedAt (sample_run_input empty_string) \<noteq> 0"
    by (simp_all add: sample_run_input_def)
  obtain err where err: "Evaluate sample_gpu sample_hashes (sample_run_input empty_string) = Inl err"
    using sample_unnamed_run by blast
  from accepted_workload_is_evaluated[OF _ w(2) err, of sample_workload] sample_workload_valid err sample_unnamed_run show ?thesis
    by (auto simp: w(1))
qed

end
