(* ===== verification/Orchestrator.thy ===== *)
theory Orchestrator
  imports Durable Intake
begin

text \<open>
  The orchestrator (\<^verbatim>\<open>internal/orchestrator\<close>: \<^verbatim>\<open>orchestrator.go\<close>, \<^verbatim>\<open>placement.go\<close>,
  \<^verbatim>\<open>launch_failure.go\<close>, \<^verbatim>\<open>capacity.go\<close>, \<^verbatim>\<open>artifacts.go\<close>, \<^verbatim>\<open>intake.go\<close>): the
  commands on a Run and the loop that drives a Run to its end, over the durable stores of \<open>Durable\<close>,
  which is how production composes it.

  What the orchestrator asks of others is one record, \<open>orch_env\<close>: the adapter, the capacity seam, the
  node registry, the artifact catalog, the manifest resolver, the hashes and the clock. Every operation
  takes the environment it ran in, so an answer may differ from one operation to the next; within one
  operation the clock reads one moment. Each step is one atomic operation on the stores: the per-Run
  lock and the admission lock order the steps of one process, and a step written against a version
  somebody else spent is refused by the log.

  An operation gives back its answer and the stores, since several of them append a fact and then
  return an error. A scan that never ends is the error \<open>OrchReadNeverEnds\<close>, which no well-formed log
  leads to. The payload of a new event is the one the reducer decodes: the private one where an event
  has both.
\<close>

subsection \<open>What others answer\<close>

record offer_collection =
  oc_Offers :: "offer_snapshot list"
  oc_Queried :: "string list"
  oc_Excluded :: "string list"

record observe_request =
  or_ConnectionID :: string
  or_LaunchKey :: string
  or_OwnershipToken :: string
  or_RequestHash :: string
  or_Lane :: execution_lane
  or_NativeRef :: string
  or_RunID :: string
  or_AttemptID :: string

record release_request =
  rl_ConnectionID :: string
  rl_OperationKey :: string
  rl_LaunchKey :: string
  rl_OwnershipToken :: string
  rl_LaunchRequestHash :: string
  rl_Lane :: execution_lane
  rl_NativeRef :: string
  rl_RunID :: string

record terminate_request =
  tm_ConnectionID :: string
  tm_OperationKey :: string
  tm_LaunchKey :: string
  tm_OwnershipToken :: string
  tm_LaunchRequestHash :: string

record owned_external_object =
  ow_ExternalID :: string
  ow_ConnectionID :: string
  ow_RunID :: string
  ow_AttemptID :: string
  ow_OwnershipToken :: string
  ow_LaunchKey :: string
  ow_CleanupLocator :: string
  ow_RequestHash :: string
  ow_Phase :: external_phase

record capacity_ref =
  cr_ConnectionID :: string
  cr_RentalID :: string
  cr_NativeRef :: string
  cr_OwnershipToken :: string

record capacity_command =
  cc_Ref :: capacity_ref
  cc_OperationKey :: string
  cc_Generation :: uint64

record node_ref =
  nf_NodeID :: string
  nf_RentalID :: string
  nf_Generation :: uint64

record node_bootstrap =
  nb_ControlPlaneURL :: string
  nb_NodeID :: string
  nb_RentalID :: string
  nb_Generation :: uint64
  nb_EnrollmentToken :: string
  nb_AgentVersion :: string

record provision_command =
  pc_ConnectionID :: string
  pc_OperationKey :: string
  pc_RentalID :: string
  pc_Generation :: uint64
  pc_OwnershipToken :: string
  pc_OfferSnapshotID :: string
  pc_NativeRef :: string
  pc_Resources :: resource_requirements
  pc_Bootstrap :: node_bootstrap

record capacity_receipt =
  ct_NativeRef :: string
  ct_State :: capacity_state
  ct_AcceptedAt :: time
  ct_Duplicate :: bool

record capacity_observation =
  cb_NativeRef :: string
  cb_State :: capacity_state
  cb_StateSince :: time

record owned_capacity =
  oy_NativeRef :: string
  oy_ConnectionID :: string
  oy_RentalID :: string
  oy_OwnershipToken :: string
  oy_State :: capacity_state
  oy_CreatedAt :: time

record node_invitation =
  iv_NodeID :: string
  iv_RentalID :: string
  iv_Generation :: uint64
  iv_ShadowPriceUSDPerHour :: float64
  iv_RedeemableThrough :: time

definition capacity_state_Terminal :: "capacity_state \<Rightarrow> bool" where
  "capacity_state_Terminal s \<longleftrightarrow> s = CapacityStateTerminated"

text \<open>An invitation fails because the identity already exists, or with another message.\<close>

datatype invite_error = ErrIdentityExists | InviteFailed string

record capacity_seam =
  ks_Provision :: "provision_command \<Rightarrow> string + capacity_receipt"
  ks_Observe :: "capacity_ref \<Rightarrow> string + capacity_observation"
  ks_Terminate :: "capacity_command \<Rightarrow> string + capacity_receipt"
  ks_ListOwned :: "string + owned_capacity list"

record inviter_seam =
  iw_Invite :: "node_invitation \<Rightarrow> invite_error + node_bootstrap"
  iw_Reinvite :: "string \<Rightarrow> time \<Rightarrow> string + node_bootstrap"
  iw_EnrolledAt :: "node_ref \<Rightarrow> string + time"

record orch_env =
  oe_now :: time
  oe_gpu :: gpu_names
  oe_hashes :: hashes
  oe_subject :: "string \<Rightarrow> string option"
  oe_formatFloat :: "float64 \<Rightarrow> string"
  oe_eventsHash :: "run_fact new_event list \<Rightarrow> string"
  oe_launchHash :: "launch_request \<Rightarrow> string"
  oe_bookingHash :: "booking \<Rightarrow> string"
  oe_createHash :: "string \<Rightarrow> workload_revision \<Rightarrow> string"
  oe_reportHash :: "run_reported_data \<Rightarrow> string"
  oe_shortHash :: "string list \<Rightarrow> string"
  oe_collect :: "resource_requirements \<Rightarrow> string + offer_collection"
  oe_launch :: "launch_request \<Rightarrow> adapter_error + launch_receipt"
  oe_observe :: "observe_request \<Rightarrow> adapter_error + external_observation"
  oe_listOwned :: "adapter_error + owned_external_object list"
  oe_release :: "release_request \<Rightarrow> adapter_error option"
  oe_terminate :: "terminate_request \<Rightarrow> adapter_error option"
  oe_manifest :: "(string \<Rightarrow> platform \<Rightarrow> string + image_manifest) option"
  oe_artifacts :: "(string \<Rightarrow> string + artifact_version) option"
  oe_capacity :: "capacity_seam option"
  oe_inviter :: "inviter_seam option"
  oe_reporting :: "(string \<times> (string \<Rightarrow> string)) option"

datatype orch_error =
    OrchDurable durable_error
  | OrchRun run_error
  | OrchRead "log_error scan_error"
  | OrchReadNeverEnds
  | OrchSchedule schedule_error
  | OrchEvaluate evaluate_error
  | OrchAdapter adapter_error
  | OrchCleanup adapter_error "orch_error option"
  | OrchRefused string
  | OrchNilDereference
  | ErrRunNotFound
  | ErrRunRequestPersistence durable_error
  | ErrTerminalReportConflict

subsection \<open>Events and appends\<close>

definition runStream :: "string \<Rightarrow> stream_key" where
  "runStream runID = \<lparr>sk_Type = ''run'', sk_ID = runID\<rparr>"

definition eventID :: "string \<Rightarrow> string \<Rightarrow> string" where
  "eventID runID sfx = ''evt_'' @ runID @ ''_'' @ sfx"

definition mustEvent :: "string \<Rightarrow> string \<Rightarrow> run_fact \<Rightarrow> time \<Rightarrow> run_fact new_event" where
  "mustEvent runID sfx data now =
     \<lparr>ne_ID = eventID runID sfx, ne_Type = fact_type data, ne_SchemaVersion = 1, ne_OccurredAt = now,
      ne_Visibility = VisibilityPublic, ne_Data = data, ne_PrivateData = empty_string\<rparr>"

definition runAppendRequest ::
  "orch_env \<Rightarrow> string \<Rightarrow> string \<Rightarrow> nat \<Rightarrow> string \<Rightarrow> run_fact new_event list \<Rightarrow> run_fact append_request" where
  "runAppendRequest env actor runID expectedVersion commandKey events =
     \<lparr>ar_Stream = runStream runID, ar_ExpectedStreamVersion = expectedVersion,
      ar_CommandKey = runID @ '':'' @ commandKey, ar_RequestHash = oe_eventsHash env events,
      ar_Actor = actor, ar_CorrelationID = runID, ar_CausationID = commandKey, ar_Events = events\<rparr>"

definition readStream :: "run_fact event_log \<Rightarrow> stream_key \<Rightarrow> orch_error + run_fact stream_history" where
  "readStream lg s = (case ReadFullStream (ReadStream lg) s of
     None \<Rightarrow> Inl OrchReadNeverEnds
   | Some (Inl err) \<Rightarrow> Inl (OrchRead err)
   | Some (Inr h) \<Rightarrow> Inr h)"

text \<open>The row a new event is projected as before it is appended.\<close>

definition projected_event :: "run_fact append_request \<Rightarrow> nat \<Rightarrow> run_fact new_event \<Rightarrow> run_fact stored_event" where
  "projected_event request index e =
     \<lparr>ev_GlobalPosition = 0, ev_ID = ne_ID e, ev_StreamType = sk_Type (ar_Stream request),
      ev_StreamID = sk_ID (ar_Stream request), ev_StreamVersion = ar_ExpectedStreamVersion request + index + 1,
      ev_Type = ne_Type e, ev_SchemaVersion = ne_SchemaVersion e, ev_OccurredAt = ne_OccurredAt e,
      ev_Actor = ar_Actor request, ev_CorrelationID = empty_string, ev_CausationID = empty_string,
      ev_CommandKey = empty_string, ev_RequestHash = empty_string, ev_Visibility = ne_Visibility e,
      ev_Data = ne_Data e, ev_PrivateData = ne_PrivateData e\<rparr>"

fun projected_events :: "run_fact append_request \<Rightarrow> nat \<Rightarrow> run_fact new_event list \<Rightarrow> run_fact stored_event list" where
  "projected_events request index [] = []"
| "projected_events request index (e # es) = projected_event request index e # projected_events request (index + 1) es"

definition projectRunAppend :: "orch_env \<Rightarrow> run_fact append_request \<Rightarrow> durable \<Rightarrow> orch_error + run_record" where
  "projectRunAppend env request d = (case readStream (fst d) (ar_Stream request) of
     Inl err \<Rightarrow> Inl err
   | Inr history \<Rightarrow>
       (case reduce_facts (applyStoredEvent (oe_subject env)) (sh_Events history) no_state of
          Inl err \<Rightarrow> Inl (OrchRun err)
        | Inr st \<Rightarrow>
            (case (if sh_LastVersion history = ar_ExpectedStreamVersion request
                   then reduce_facts (applyStoredEvent (oe_subject env)) (projected_events request 0 (ar_Events request)) st
                   else Inr st) of
               Inl err \<Rightarrow> Inl (OrchRun err)
             | Inr st' \<Rightarrow>
                 (case state_validate st' of
                    Some err \<Rightarrow> Inl (OrchRun err)
                  | None \<Rightarrow> (case runRecordFromState (sk_ID (ar_Stream request)) st' of
                      None \<Rightarrow> Inl OrchNilDereference
                    | Some r \<Rightarrow> Inr r)))))"

definition appendRun ::
  "orch_env \<Rightarrow> run_fact append_request \<Rightarrow> durable \<Rightarrow> orch_error + (durable \<times> run_fact append_result)" where
  "appendRun env request d = (case projectRunAppend env request d of
     Inl err \<Rightarrow> Inl err
   | Inr next \<Rightarrow> (case runs_Append (oe_now env) request next d of
       Inl err \<Rightarrow> Inl (OrchDurable err)
     | Inr r \<Rightarrow> Inr r))"

definition commitSchedule ::
  "orch_env \<Rightarrow> run_fact append_request \<Rightarrow> uint64 \<Rightarrow> rental_schedule \<Rightarrow> durable \<Rightarrow>
   orch_error + (durable \<times> run_fact append_result)" where
  "commitSchedule env request expectedVersion next d = (case projectRunAppend env request d of
     Inl err \<Rightarrow> Inl err
   | Inr run \<Rightarrow> (case schedules_Commit (oe_now env) request expectedVersion next run d of
       Inl err \<Rightarrow> Inl (OrchDurable err)
     | Inr r \<Rightarrow> Inr r))"

text \<open>An operation on the stores with an answer; one that fails before it commits leaves them.\<close>

type_synonym 'a op = "durable \<Rightarrow> (orch_error + 'a) \<times> durable"

definition done_or :: "'a \<Rightarrow> (orch_error + (durable \<times> run_fact append_result)) \<Rightarrow> durable \<Rightarrow> (orch_error + 'a) \<times> durable" where
  "done_or answer result d = (case result of Inl err \<Rightarrow> (Inl err, d) | Inr (d', _) \<Rightarrow> (Inr answer, d'))"

definition appendEventsAs ::
  "orch_env \<Rightarrow> string \<Rightarrow> string \<Rightarrow> nat \<Rightarrow> string \<Rightarrow> run_fact new_event list \<Rightarrow> 'a \<Rightarrow> 'a op" where
  "appendEventsAs env actor runID expectedVersion commandKey events answer d =
     done_or answer (appendRun env (runAppendRequest env actor runID expectedVersion commandKey events) d) d"

definition appendEvents ::
  "orch_env \<Rightarrow> string \<Rightarrow> nat \<Rightarrow> string \<Rightarrow> run_fact new_event list \<Rightarrow> 'a \<Rightarrow> 'a op" where
  "appendEvents env = appendEventsAs env empty_string"

subsection \<open>Inputs\<close>

definition refuseUnknowableInputs :: "orch_env \<Rightarrow> workload_revision \<Rightarrow> string option" where
  "refuseUnknowableInputs env workload = (case art_Consumes (ws_Artifacts (wr_Spec workload)) of
     [] \<Rightarrow> None
   | a # _ \<Rightarrow> if oe_artifacts env \<noteq> None then None
             else Some (''ARTIFACT_CATALOG_UNAVAILABLE: Run reads Artifact '' @ a))"

fun artifact_versions :: "(string \<Rightarrow> string + artifact_version) \<Rightarrow> string list \<Rightarrow> string + artifact_version list" where
  "artifact_versions catalog [] = Inr []"
| "artifact_versions catalog (a # as) = (case catalog a of
     Inl err \<Rightarrow> Inl (''read Artifact '' @ a)
   | Inr v \<Rightarrow> (case artifact_versions catalog as of Inl err \<Rightarrow> Inl err | Inr vs \<Rightarrow> Inr (v # vs)))"

definition consumedArtifacts :: "orch_env \<Rightarrow> workload_revision \<Rightarrow> string + artifact_version list" where
  "consumedArtifacts env workload = (case refuseUnknowableInputs env workload of
     Some err \<Rightarrow> Inl err
   | None \<Rightarrow> (case oe_artifacts env of
       None \<Rightarrow> Inr []
     | Some catalog \<Rightarrow> artifact_versions catalog (art_Consumes (ws_Artifacts (wr_Spec workload)))))"

definition inputsAreDurable :: "orch_env \<Rightarrow> workload_revision \<Rightarrow> string + bool" where
  "inputsAreDurable env workload = (case consumedArtifacts env workload of
     Inl err \<Rightarrow> Inl err
   | Inr versions \<Rightarrow> Inr (list_all artifact_Durable versions))"

definition imageManifest :: "orch_env \<Rightarrow> workload_revision \<Rightarrow> image_manifest" where
  "imageManifest env workload =
     (let unknown = \<lparr>im_Known = False, im_Unreadable = empty_string, im_Digest = empty_string, im_Layers = []\<rparr> in
      case (oe_manifest env, ws_Containers (wr_Spec workload)) of
        (Some resolve, c # _) \<Rightarrow> (case resolve (cs_Image c) (cs_Platform c) of
            Inl reason \<Rightarrow> unknown\<lparr>im_Unreadable := reason\<rparr>
          | Inr manifest \<Rightarrow> manifest)
      | _ \<Rightarrow> unknown)"

subsection \<open>Placement\<close>

record placement_request =
  pq_excluded :: "offer_exclusion list"
  pq_supersedes :: string
  pq_supersedesReason :: string

definition scheduling_input_for ::
  "orch_env \<Rightarrow> string \<Rightarrow> workload_revision \<Rightarrow> placement_request \<Rightarrow> offer_collection \<Rightarrow> artifact_version list \<Rightarrow>
   history \<Rightarrow> (string \<rightharpoonup> rental_schedule) \<Rightarrow> scheduling_input" where
  "scheduling_input_for env runID workload request collected artifacts history schedules =
     \<lparr>in_RunID = runID, in_Workload = workload, in_Offers = oc_Offers collected,
      in_Collection = (oc_Queried collected, [], oc_Excluded collected), in_Schedules = schedules,
      in_Excluded = pq_excluded request, in_ModelVersion = ''latency-v1'', in_EvaluatedAt = oe_now env,
      in_Image = imageManifest env workload, in_Artifacts = artifacts,
      in_Supersedes = pq_supersedes request, in_SupersedesReason = pq_supersedesReason request,
      in_History = history\<rparr>"

definition evaluatePlacement ::
  "orch_env \<Rightarrow> string \<Rightarrow> workload_revision \<Rightarrow> placement_request \<Rightarrow> durable \<Rightarrow>
   orch_error + (booking_decision \<times> offer_snapshot list \<times> (string \<rightharpoonup> rental_schedule))" where
  "evaluatePlacement env runID workload request d =
     (let schedules = tb_Schedules (snd d) in
      case oe_collect env (ws_Resources (wr_Spec workload)) of
        Inl err \<Rightarrow> Inl (OrchRefused ''offer query failed'')
      | Inr collected \<Rightarrow> (case consumedArtifacts env workload of
          Inl err \<Rightarrow> Inl (OrchRefused err)
        | Inr artifacts \<Rightarrow> (case launchHistory (\<lambda>req. Some (runs_List (snd d) req)) (fst d) of
            None \<Rightarrow> Inl OrchReadNeverEnds
          | Some (Inl err) \<Rightarrow> Inl (OrchRefused ''read the launch history'')
          | Some (Inr history) \<Rightarrow>
              (case Evaluate (oe_gpu env) (oe_hashes env)
                      (scheduling_input_for env runID workload request collected artifacts history schedules) of
                 Inl err \<Rightarrow> Inl (OrchEvaluate err)
               | Inr decision \<Rightarrow> Inr (decision, oc_Offers collected, schedules)))))"

definition TrimPrefix :: "string \<Rightarrow> string \<Rightarrow> string" where
  "TrimPrefix s p = (if take (length p) s = p then drop (length p) s else s)"

definition externalIDPart :: "string \<Rightarrow> string" where
  "externalIDPart s =
     (let part = map (\<lambda>c. if is_lower c \<or> is_upper c \<or> is_digit c \<or> c = CHR ''_'' \<or> c = CHR ''-'' then c else CHR ''_'') s
      in if part = empty_string then ''id'' else part)"

definition newAttempt :: "orch_env \<Rightarrow> string \<Rightarrow> int \<Rightarrow> attempt_data" where
  "newAttempt env runID attemptNumber =
     (let ordinal = Itoa attemptNumber;
          aid = ''att_'' @ externalIDPart (TrimPrefix runID ''run_'') @ ''_'' @ ordinal @ ''_''
                @ oe_shortHash env [runID, ordinal]
      in \<lparr>at_AttemptID = aid, at_LaunchKey = ''launch_'' @ aid, at_OwnershipToken = ''own_'' @ aid,
          at_CleanupLocator = ''cleanup_'' @ aid\<rparr>)"

definition selectedOfferByID :: "offer_snapshot list \<Rightarrow> string \<Rightarrow> offer_snapshot option" where
  "selectedOfferByID offers oid = find (\<lambda>offer. o_ID offer = oid) offers"

record placement_answer =
  pa_decision :: booking_decision
  pa_selected :: "(booking \<times> attempt_data \<times> offer_snapshot \<times> rental_schedule) option"

definition decide ::
  "orch_env \<Rightarrow> run_requested_data \<Rightarrow> string \<Rightarrow> int \<Rightarrow> placement_request \<Rightarrow> durable \<Rightarrow> orch_error + placement_answer" where
  "decide env req runID attemptNumber request d = (case evaluatePlacement env runID (rq_Workload req) request d of
     Inl err \<Rightarrow> Inl err
   | Inr (decision, offers, schedules) \<Rightarrow>
       if bd_SelectedOfferSnapshotID decision = empty_string
       then Inr \<lparr>pa_decision = decision, pa_selected = None\<rparr>
       else (case selectedOfferByID offers (bd_SelectedOfferSnapshotID decision) of
         None \<Rightarrow> Inl (OrchRefused ''selected offer not found'')
       | Some offer \<Rightarrow> (case bd_Booking decision of
           None \<Rightarrow> Inl OrchNilDereference
         | Some b \<Rightarrow>
             (let schedule = (case schedules (b_RentalID b) of
                    None \<Rightarrow> NewRentalSchedule (b_RentalID b)
                  | Some s \<Rightarrow> if rs_RentalID s = empty_string then NewRentalSchedule (b_RentalID b) else s)
              in Inr \<lparr>pa_decision = decision,
                      pa_selected = Some (b, newAttempt env runID attemptNumber, offer, schedule)\<rparr>))))"

definition reserve_request :: "run_requested_data \<Rightarrow> booking_decision \<Rightarrow> booking \<Rightarrow> booking_request" where
  "reserve_request req decision b =
     (let expected = pp_ExpectedRuntimeSeconds (ws_Placement (wr_Spec (rq_Workload req)));
          maxRuntime = f64_of_int (ep_MaxRuntimeSeconds (ws_Execution (wr_Spec (rq_Workload req))))
      in \<lparr>br_BookingID = b_ID b, br_RunID = bd_RunID decision,
          br_ExpectedRuntimeSeconds = (if expected \<le> 0 then maxRuntime else expected),
          br_MaxRuntimeSeconds = maxRuntime, br_ReservedAt = bd_EvaluatedAt decision\<rparr>)"

definition reserveDecision ::
  "orch_env \<Rightarrow> run_requested_data \<Rightarrow> booking_decision \<Rightarrow> booking \<Rightarrow> rental_schedule \<Rightarrow> orch_error + rental_schedule" where
  "reserveDecision env req decision b schedule =
     (if rs_RentalID schedule \<noteq> b_RentalID b \<or> rs_Version schedule + 1 \<noteq> b_ScheduleVersion b
        then Inl (OrchRefused ''scheduler Booking references a stale Rental Schedule'')
      else case schedule_Reserve schedule (reserve_request req decision b) of
          Inl err \<Rightarrow> Inl (OrchSchedule err)
        | Inr (next, booking) \<Rightarrow>
            if oe_bookingHash env booking \<noteq> oe_bookingHash env b
            then Inl (OrchRefused ''scheduler Booking does not match Rental Schedule transition'')
            else Inr next)"

definition launchEnvironment :: "(string \<times> string option) list \<Rightarrow> environment_binding list" where
  "launchEnvironment env = map (\<lambda>(name, v). \<lparr>eb_Name = name, eb_Value = v\<rparr>) (sort_key fst env)"

definition report_environment :: "orch_env \<Rightarrow> string \<Rightarrow> environment_binding list" where
  "report_environment env runID = (case oe_reporting env of
     None \<Rightarrow> []
   | Some (url, token) \<Rightarrow>
       if url \<noteq> empty_string \<and> token runID \<noteq> empty_string
       then [\<lparr>eb_Name = ''MERCATOR_RUN_ID'', eb_Value = Some runID\<rparr>,
             \<lparr>eb_Name = ''MERCATOR_REPORT_URL'', eb_Value = Some url\<rparr>,
             \<lparr>eb_Name = ''MERCATOR_RUN_TOKEN'', eb_Value = Some (token runID)\<rparr>]
       else [])"

definition buildLaunchRequest ::
  "orch_env \<Rightarrow> string \<Rightarrow> run_requested_data \<Rightarrow> attempt_data \<Rightarrow> offer_snapshot \<Rightarrow> orch_error + launch_request" where
  "buildLaunchRequest env runID req a offer = (case ws_Containers (wr_Spec (rq_Workload req)) of
     [] \<Rightarrow> Inl OrchNilDereference
   | c # _ \<Rightarrow> (case CleanupDisposition offer of
       Inl err \<Rightarrow> Inl (OrchRefused err)
     | Inr disp \<Rightarrow>
         (let spec = wr_Spec (rq_Workload req);
              launch =
               \<lparr>lq_OperationKey = at_LaunchKey a, lq_RequestHash = empty_string, lq_RunID = runID,
                lq_AttemptID = at_AttemptID a, lq_WorkloadID = wr_WorkloadID (rq_Workload req),
                lq_WorkloadRevisionID = wr_ID (rq_Workload req), lq_OwnershipToken = at_OwnershipToken a,
                lq_LaunchKey = at_LaunchKey a, lq_CleanupLocator = at_CleanupLocator a,
                lq_Image = cs_Image c, lq_Platform = cs_Platform c, lq_Entrypoint = cs_Entrypoint c,
                lq_Args = cs_Args c, lq_Environment = launchEnvironment (cs_Env c) @ report_environment env runID,
                lq_Ports = cs_Ports c, lq_Resources = ws_Resources spec, lq_CacheMounts = ws_Caches spec,
                lq_MaxRuntimeSeconds = ep_MaxRuntimeSeconds (ws_Execution spec),
                lq_SelectedOfferSnapshotID = o_ID offer, lq_SelectedOfferConnectionID = o_ConnectionID offer,
                lq_SelectedOfferAdapterType = o_AdapterType offer, lq_SelectedOfferNativeRef = o_NativeRef offer,
                lq_SelectedOfferLane = o_Lane offer, lq_Disposition = disp\<rparr>
          in Inr (launch\<lparr>lq_RequestHash := oe_launchHash env launch\<rparr>))))"

definition provisionsFreshCapacity :: "booking_decision \<Rightarrow> bool" where
  "provisionsFreshCapacity decision =
     (case find (\<lambda>c. cd_OfferSnapshotID c = bd_SelectedOfferSnapshotID decision) (bd_Candidates decision) of
        None \<Rightarrow> False
      | Some c \<Rightarrow> cd_Disposition c = CandidateDispositionProvision)"

definition nodeIdentityFor :: "string \<Rightarrow> string" where
  "nodeIdentityFor rentalID = ''nod_'' @ TrimPrefix rentalID ''rnt_''"

definition enrolmentPatience :: duration where
  "enrolmentPatience = 15 * 60 * 1000000000"

definition capacityPlan :: "booking_decision \<Rightarrow> offer_snapshot \<Rightarrow> time \<Rightarrow> capacity_requested_data option" where
  "capacityPlan decision offer now = (case bd_Booking decision of
     None \<Rightarrow> None
   | Some b \<Rightarrow>
       if \<not> provisionsFreshCapacity decision then None
       else Some
        \<lparr>cq_RentalID = b_RentalID b, cq_NodeID = nodeIdentityFor (b_RentalID b), cq_Generation = 1,
         cq_ConnectionID = o_ConnectionID offer, cq_OfferSnapshotID = o_ID offer,
         cq_NativeRef = o_NativeRef offer,
         cq_RatePerHourUSD = fmul (pm_RatePerSecondUSD (o_Pricing offer)) 3600,
         cq_EnrolmentDeadlineAt = EnrolmentDeadline (o_BootstrapDeadlineSeconds offer) now enrolmentPatience,
         cq_RequestedAt = now\<rparr>)"

definition decisionEvent :: "string \<Rightarrow> booking_decision \<Rightarrow> time \<Rightarrow> run_fact new_event" where
  "decisionEvent runID decision now = mustEvent runID (''booking_decided_'' @ bd_ID decision) (FactBookingDecided decision) now"

definition attempt_events ::
  "string \<Rightarrow> attempt_data \<Rightarrow> launch_request \<Rightarrow> time \<Rightarrow> run_fact new_event list" where
  "attempt_events runID a launch now =
     [mustEvent runID (''attempt_created_'' @ at_AttemptID a) (FactAttemptCreated a) now,
      mustEvent runID (''launch_intent_recorded_'' @ at_AttemptID a) (FactLaunchIntentRecorded launch) now]"

subsection \<open>Recording an admission answer\<close>

definition admissionEventID :: "run_state \<Rightarrow> string" where
  "admissionEventID st = ''admission_'' @ Itoa (deferralCount st + 1)"

definition admissionCommand :: "run_state \<Rightarrow> string \<Rightarrow> string" where
  "admissionCommand st result = ''advance:'' @ admissionEventID st @ '':'' @ result"

fun admission_event :: "string \<Rightarrow> run_state \<Rightarrow> time \<Rightarrow> run_fact \<Rightarrow> run_fact new_event" where
  "admission_event runID st now (FactBookingDecided d) = decisionEvent runID d now"
| "admission_event runID st now (FactAdmissionDeferred d) = mustEvent runID (admissionEventID st) (FactAdmissionDeferred d) now"
| "admission_event runID st now (FactAdmissionRefused d) = mustEvent runID (admissionEventID st) (FactAdmissionRefused d) now"
| "admission_event runID st now (FactRunOutcomeRecorded r) = mustEvent runID ''outcome_recorded'' (FactRunOutcomeRecorded r) now"
| "admission_event runID st now f = mustEvent runID ''closed'' f now"

definition completeBookingAndAppend ::
  "orch_env \<Rightarrow> string \<Rightarrow> nat \<Rightarrow> run_state \<Rightarrow> string \<Rightarrow> run_fact new_event list \<Rightarrow> 'a \<Rightarrow> 'a op" where
  "completeBookingAndAppend env runID version st commandKey events answer d =
     (case Option.bind (bookingDecision st) bd_Booking of
        None \<Rightarrow> (Inl (OrchRefused ''transition requires a recorded Booking''), d)
      | Some b \<Rightarrow>
          (let schedule = (case tb_Schedules (snd d) (b_RentalID b) of
                 None \<Rightarrow> NewRentalSchedule empty_string | Some s \<Rightarrow> s) in
           case schedule_Complete schedule (b_ID b) (oe_now env) of
             Inl err \<Rightarrow> (Inl (OrchSchedule err), d)
           | Inr (next, _) \<Rightarrow>
               done_or answer (commitSchedule env (runAppendRequest env empty_string runID version commandKey events)
                 (rs_Version schedule) next d) d))"

definition record_admission :: "orch_env \<Rightarrow> string \<Rightarrow> nat \<Rightarrow> run_state \<Rightarrow> admission_record \<Rightarrow> bool op" where
  "record_admission env runID version st answer d = (case answer of
     NothingNew \<Rightarrow> (Inr False, d)
   | DeferralRecorded facts \<Rightarrow>
       appendEvents env runID version (admissionCommand st ''deferred'')
         (map (admission_event runID st (oe_now env)) facts) False d
   | RefusalRecorded facts \<Rightarrow>
       (let events = map (admission_event runID st (oe_now env)) facts in
        if bookingQueued st
        then completeBookingAndAppend env runID version st (admissionCommand st ''refused'') events False d
        else appendEvents env runID version (admissionCommand st ''refused'') events False d))"

subsection \<open>Placing a Run\<close>

definition retryExhaustedEvents :: "string \<Rightarrow> time \<Rightarrow> run_fact new_event list" where
  "retryExhaustedEvents runID now =
     [mustEvent runID ''outcome_recorded'' (FactRunOutcomeRecorded RunOutcomeFailed) now,
      mustEvent runID ''closed'' (FactRunClosed True) now]"

definition closeRetryExhausted :: "orch_env \<Rightarrow> string \<Rightarrow> nat \<Rightarrow> booking_decision \<Rightarrow> bool op" where
  "closeRetryExhausted env runID version decision =
     appendEvents env runID version ''advance:retry_exhausted''
       (decisionEvent runID decision (oe_now env) # retryExhaustedEvents runID (oe_now env)) True"

definition placement_events ::
  "orch_env \<Rightarrow> string \<Rightarrow> run_requested_data \<Rightarrow> booking_decision \<Rightarrow> booking \<Rightarrow> attempt_data \<Rightarrow> offer_snapshot \<Rightarrow>
   orch_error + run_fact new_event list" where
  "placement_events env runID req decision b a offer =
     (if b_State b = BookingStateQueued then Inr [decisionEvent runID decision (oe_now env)]
      else case buildLaunchRequest env runID req a offer of
          Inl err \<Rightarrow> Inl err
        | Inr launch \<Rightarrow>
            Inr (decisionEvent runID decision (oe_now env) # attempt_events runID a launch (oe_now env)
              @ (case capacityPlan decision offer (oe_now env) of
                   None \<Rightarrow> []
                 | Some plan \<Rightarrow> [mustEvent runID (''capacity_requested_'' @ cq_RentalID plan)
                                   (FactCapacityRequested plan) (oe_now env)])))"

definition stepPlace :: "orch_env \<Rightarrow> string \<Rightarrow> nat \<Rightarrow> run_state \<Rightarrow> run_requested_data \<Rightarrow> queue_position \<Rightarrow> bool op" where
  "stepPlace env runID version st req run d =
     (let (supersedes, reason) = supersession st in
      case decide env req runID (attemptCount st + 1)
             \<lparr>pq_excluded = excluded st, pq_supersedes = supersedes, pq_supersedesReason = reason\<rparr> d of
        Inl err \<Rightarrow> (Inl err, d)
      | Inr answer \<Rightarrow>
          (let decision = pa_decision answer in
           case pa_selected answer of
             None \<Rightarrow>
               if state_replacementEligible st then closeRetryExhausted env runID version decision d
               else (let (wait, projected) = placementDeferral run decision in
                 record_admission env runID version st (deferOrRefuse (oe_formatFloat env) st run
                   \<lparr>aa_deferral = wait, aa_projected = projected, aa_decision = Some decision\<rparr>) d)
           | Some (b, a, offer, schedule) \<Rightarrow>
               (case reserveDecision env req decision b schedule of
                  Inl err \<Rightarrow> (Inl err, d)
                | Inr next \<Rightarrow>
                    (case placement_events env runID req decision b a offer of
                       Inl err \<Rightarrow> (Inl err, d)
                     | Inr events \<Rightarrow>
                         done_or True (commitSchedule env
                           (runAppendRequest env empty_string runID version (''advance:placement:'' @ b_ID b) events)
                           (b_ScheduleVersion b - 1) next d) d))))"

definition stepAdmit :: "orch_env \<Rightarrow> string \<Rightarrow> nat \<Rightarrow> run_state \<Rightarrow> run_requested_data \<Rightarrow> bool op" where
  "stepAdmit env runID version st req d = (case admissionQueue (fst d) of
     None \<Rightarrow> (Inl OrchReadNeverEnds, d)
   | Some (Inl err) \<Rightarrow> (Inl (OrchRefused err), d)
   | Some (Inr queue) \<Rightarrow>
       (let waiting = queue_position_of runID req st (oe_now env) in
        case admit (oe_formatFloat env) queue st waiting of
          Some answer \<Rightarrow> record_admission env runID version st answer d
        | None \<Rightarrow> stepPlace env runID version st req waiting d))"

subsection \<open>Dispatching a queued Booking\<close>

definition scheduledBooking :: "rental_schedule option \<Rightarrow> string \<Rightarrow> booking option" where
  "scheduledBooking schedule bookingID = (case schedule of
     None \<Rightarrow> None
   | Some s \<Rightarrow> map_option sb_Booking (find (\<lambda>sb. b_ID (sb_Booking sb) = bookingID) (rs_Bookings s)))"

definition zero_offer :: offer_snapshot where
  "zero_offer =
     \<lparr>o_ID = empty_string, o_RentalID = empty_string, o_MachineID = empty_string, o_ConnectionID = empty_string,
      o_AdapterType = empty_string, o_Kind = OfferKindOther empty_string, o_Lane = LaneOther empty_string,
      o_NativeRef = empty_string, o_Region = empty_string, o_InstanceType = empty_string,
      o_ObservedAt = zero_time, o_ExpiresAt = zero_time,
      o_Platform = \<lparr>pl_OS = empty_string, pl_Architecture = empty_string\<rparr>,
      o_Resources = \<lparr>rv_CPUMillis = 0, rv_MemoryBytes = 0, rv_EphemeralDiskBytes = 0,
        rv_EphemeralDiskKnown = False, rv_Accelerators = [], rv_AcceleratorsKnown = False\<rparr>,
      o_Host = \<lparr>hf_Attested = Map.empty,
        hf_Driver = \<lparr>dr_Vendor = empty_string, dr_Version = empty_string, dr_Capability = empty_string\<rparr>\<rparr>,
      o_Capabilities = \<lparr>cp_MaxContainers = 0, cp_SupportsDigestRefs = False,
        cp_SupportsEntrypointOverride = False, cp_Inbound = InboundNetworkOther empty_string\<rparr>,
      o_Network = [],
      o_Pricing = \<lparr>pm_Currency = empty_string, pm_SetupFeeUSD = 0, pm_RatePerSecondUSD = 0,
        pm_MinimumChargeSeconds = 0, pm_GranularitySeconds = 0, pm_Known = False\<rparr>,
      o_Terms = \<lparr>ct_CommittedUntil = zero_time, ct_EligibleClasses = [], ct_AvailableUntil = zero_time\<rparr>,
      o_QueuedWorkSeconds = None, o_Provisioning = None, o_BootstrapDeadlineSeconds = None,
      o_Images = \<lparr>ii_Known = False, ii_ObservedAt = zero_time, ii_ImageDigests = [], ii_PulledImageDigests = [],
        ii_UnknownImageDigests = [], ii_LayerDigests = [], ii_LayerDiffIDs = []\<rparr>,
      o_Artifacts = \<lparr>ai_Known = False, ai_ObservedAt = zero_time, ai_Replicas = []\<rparr>,
      o_Caches = \<lparr>ci_Known = False, ci_ObservedAt = zero_time, ci_Mounts = []\<rparr>,
      o_Available = False, o_CapacityConfidence = 0, o_Reclaimable = False,
      o_Reliability = \<lparr>rl_StartFailures = \<lparr>sr_Rate = 0, sr_Confidence = 0\<rparr>,
        rl_Interruptions = \<lparr>sr_Rate = 0, sr_Confidence = 0\<rparr>\<rparr>\<rparr>"

definition offerFromDecision :: "booking_decision \<Rightarrow> orch_error + offer_snapshot" where
  "offerFromDecision decision =
     (case find (\<lambda>c. cd_OfferSnapshotID c = bd_SelectedOfferSnapshotID decision) (bd_Candidates decision) of
        None \<Rightarrow> Inl (OrchRefused ''selected candidate is missing'')
      | Some c \<Rightarrow>
          if cd_Disposition c \<noteq> CandidateDispositionQueue \<and> cd_Disposition c \<noteq> CandidateDispositionRunNow
          then Inl (OrchRefused ''dispatched Booking requires an existing Rental candidate'')
          else Inr (zero_offer\<lparr>o_ID := cd_OfferSnapshotID c, o_ConnectionID := cd_ConnectionID c,
                 o_AdapterType := cd_AdapterType c, o_NativeRef := cd_NativeRef c,
                 o_Kind := OfferKindStanding, o_Lane := LaneReusable\<rparr>))"

definition dispatchQueuedBooking :: "orch_env \<Rightarrow> string \<Rightarrow> nat \<Rightarrow> run_state \<Rightarrow> run_requested_data \<Rightarrow> bool op" where
  "dispatchQueuedBooking env runID version st req d =
     (case bookingDecision st of
        None \<Rightarrow> (Inl OrchNilDereference, d)
      | Some decision \<Rightarrow> (case bd_Booking decision of
          None \<Rightarrow> (Inl OrchNilDereference, d)
        | Some b \<Rightarrow> (case scheduledBooking (tb_Schedules (snd d) (b_RentalID b)) (b_ID b) of
            None \<Rightarrow> (Inl (OrchRefused ''queued Booking is missing from its Rental Schedule''), d)
          | Some booking \<Rightarrow>
              if b_State booking = BookingStateQueued then (Inr False, d)
              else if b_State booking \<noteq> BookingStateRunning
                then (Inl (OrchRefused ''queued Booking has invalid dispatched state''), d)
              else (case offerFromDecision decision of
                  Inl err \<Rightarrow> (Inl err, d)
                | Inr offer \<Rightarrow>
                    (let a = newAttempt env runID (attemptCount st + 1) in
                     case buildLaunchRequest env runID req a offer of
                       Inl err \<Rightarrow> (Inl err, d)
                     | Inr launch \<Rightarrow>
                         appendEvents env runID version (''advance:dispatch:'' @ b_ID booking)
                           (mustEvent runID (''booking_dispatched_'' @ b_ID booking) (FactBookingDispatched booking) (oe_now env)
                            # attempt_events runID a launch (oe_now env)) True d)))))"

subsection \<open>Launching\<close>

definition recordIndeterminateLaunch ::
  "orch_env \<Rightarrow> string \<Rightarrow> nat \<Rightarrow> launch_request \<Rightarrow> launch_failure_data \<Rightarrow> adapter_error \<Rightarrow> bool op" where
  "recordIndeterminateLaunch env runID version intent failure launchErr d =
     (case appendEvents env runID version (''advance:launch_indeterminate:'' @ lq_AttemptID intent)
        [mustEvent runID (''launch_indeterminate_'' @ lq_AttemptID intent) (FactLaunchIndeterminate failure) (oe_now env)] () d of
       (Inl err, d') \<Rightarrow> (Inl err, d')
     | (Inr _, d') \<Rightarrow> (Inl (OrchAdapter launchErr), d'))"

definition launch_failed_event :: "string \<Rightarrow> launch_request \<Rightarrow> launch_failure_data \<Rightarrow> time \<Rightarrow> run_fact new_event" where
  "launch_failed_event runID intent failure now =
     mustEvent runID (''launch_failed_'' @ lq_AttemptID intent) (FactLaunchFailed failure) now"

definition recordReplaceableLaunchFailure ::
  "orch_env \<Rightarrow> string \<Rightarrow> nat \<Rightarrow> run_state \<Rightarrow> run_requested_data \<Rightarrow> launch_request \<Rightarrow> launch_failure_data \<Rightarrow> bool op" where
  "recordReplaceableLaunchFailure env runID version st req intent failure =
     (let exhausted = (ep_MaxPreStartAttempts (ws_Execution (wr_Spec (rq_Workload req))) \<le> attemptCount st) in
      completeBookingAndAppend env runID version st (''advance:launch_failed:'' @ lq_AttemptID intent)
        (launch_failed_event runID intent failure (oe_now env)
         # (if exhausted then retryExhaustedEvents runID (oe_now env) else [])) (\<not> exhausted))"

definition recordTerminalLaunchFailure ::
  "orch_env \<Rightarrow> string \<Rightarrow> nat \<Rightarrow> run_state \<Rightarrow> launch_request \<Rightarrow> launch_failure_data \<Rightarrow> adapter_error \<Rightarrow> bool op" where
  "recordTerminalLaunchFailure env runID version st intent failure launchErr d =
     (case completeBookingAndAppend env runID version st (''advance:launch_failed:'' @ lq_AttemptID intent)
        [launch_failed_event runID intent failure (oe_now env),
         mustEvent runID ''outcome_recorded'' (FactRunOutcomeRecorded RunOutcomeFailed) (oe_now env),
         mustEvent runID ''closed'' (FactRunClosed True) (oe_now env)] () d of
       (Inl err, d') \<Rightarrow> (Inl err, d')
     | (Inr _, d') \<Rightarrow> (Inl (OrchAdapter launchErr), d'))"

definition recordLaunchFailure ::
  "orch_env \<Rightarrow> string \<Rightarrow> nat \<Rightarrow> run_state \<Rightarrow> run_requested_data \<Rightarrow> launch_request \<Rightarrow> adapter_error \<Rightarrow> bool op" where
  "recordLaunchFailure env runID version st req intent launchErr =
     (let failure = launchFailureFrom launchErr (lq_LaunchKey intent) in
      if failure_indeterminate failure then recordIndeterminateLaunch env runID version intent failure launchErr
      else if failure_replacementEligible failure
        then recordReplaceableLaunchFailure env runID version st req intent failure
      else recordTerminalLaunchFailure env runID version st intent failure launchErr)"

definition stepLaunch ::
  "orch_env \<Rightarrow> string \<Rightarrow> nat \<Rightarrow> run_state \<Rightarrow> run_requested_data \<Rightarrow> launch_request \<Rightarrow> bool op" where
  "stepLaunch env runID version st req intent = (case oe_launch env intent of
     Inl err \<Rightarrow> recordLaunchFailure env runID version st req intent err
   | Inr receipt \<Rightarrow> appendEvents env runID version (''advance:launch_accepted:'' @ lq_AttemptID intent)
       [mustEvent runID (''launch_accepted_'' @ lq_AttemptID intent) (FactLaunchAccepted receipt) (oe_now env)] True)"

subsection \<open>Building capacity\<close>

definition capacity_data_ref :: "capacity_requested_data \<Rightarrow> string \<Rightarrow> capacity_ref" where
  "capacity_data_ref data ownershipToken =
     \<lparr>cr_ConnectionID = cq_ConnectionID data, cr_RentalID = cq_RentalID data, cr_NativeRef = cq_NativeRef data,
      cr_OwnershipToken = ownershipToken\<rparr>"

definition capacity_data_nodeRef :: "capacity_requested_data \<Rightarrow> node_ref" where
  "capacity_data_nodeRef data =
     \<lparr>nf_NodeID = cq_NodeID data, nf_RentalID = cq_RentalID data, nf_Generation = cq_Generation data\<rparr>"

definition capacityAlreadyHeld :: "capacity_seam \<Rightarrow> string \<Rightarrow> string + owned_capacity option" where
  "capacityAlreadyHeld seam rentalID = (case ks_ListOwned seam of
     Inl err \<Rightarrow> Inl ''list owned capacity''
   | Inr owned \<Rightarrow> Inr (find (\<lambda>held. oy_RentalID held = rentalID \<and> \<not> capacity_state_Terminal (oy_State held)) owned))"

definition bootstrapFor :: "inviter_seam \<Rightarrow> capacity_requested_data \<Rightarrow> string + node_bootstrap" where
  "bootstrapFor inviter data = (case iw_Invite inviter
       \<lparr>iv_NodeID = cq_NodeID data, iv_RentalID = cq_RentalID data, iv_Generation = cq_Generation data,
        iv_ShadowPriceUSDPerHour = cq_RatePerHourUSD data, iv_RedeemableThrough = cq_EnrolmentDeadlineAt data\<rparr> of
     Inr bootstrap \<Rightarrow> Inr bootstrap
   | Inl (InviteFailed err) \<Rightarrow> Inl ''invite node''
   | Inl ErrIdentityExists \<Rightarrow> (case iw_Reinvite inviter (cq_NodeID data) (cq_EnrolmentDeadlineAt data) of
       Inl err \<Rightarrow> Inl ''reinvite node''
     | Inr bootstrap \<Rightarrow> Inr bootstrap))"

definition recordCapacityAccepted :: "orch_env \<Rightarrow> string \<Rightarrow> nat \<Rightarrow> capacity_accepted_data \<Rightarrow> bool op" where
  "recordCapacityAccepted env runID version acc =
     appendEvents env runID version (''advance:capacity_accepted:'' @ cp_NativeRef acc)
       [mustEvent runID (''capacity_accepted_'' @ cp_NativeRef acc) (FactCapacityAccepted acc) (oe_now env)] True"

definition allocateCapacity ::
  "orch_env \<Rightarrow> capacity_seam \<Rightarrow> inviter_seam \<Rightarrow> string \<Rightarrow> nat \<Rightarrow> run_requested_data \<Rightarrow> launch_request \<Rightarrow>
   capacity_requested_data \<Rightarrow> bool op" where
  "allocateCapacity env seam inviter runID version req intent data d =
     (case capacityAlreadyHeld seam (cq_RentalID data) of
        Inl err \<Rightarrow> (Inl (OrchRefused err), d)
      | Inr (Some owned) \<Rightarrow> recordCapacityAccepted env runID version
          \<lparr>cp_NativeRef = oy_NativeRef owned, cp_State = oy_State owned, cp_AcceptedAt = oy_CreatedAt owned,
           cp_Duplicate = False, cp_Adopted = True\<rparr> d
      | Inr None \<Rightarrow> (case bootstrapFor inviter data of
          Inl err \<Rightarrow> (Inl (OrchRefused err), d)
        | Inr bootstrap \<Rightarrow> (case ks_Provision seam
              \<lparr>pc_ConnectionID = cq_ConnectionID data, pc_OperationKey = ''provision_'' @ cq_RentalID data,
               pc_RentalID = cq_RentalID data, pc_Generation = cq_Generation data,
               pc_OwnershipToken = lq_OwnershipToken intent, pc_OfferSnapshotID = cq_OfferSnapshotID data,
               pc_NativeRef = cq_NativeRef data, pc_Resources = ws_Resources (wr_Spec (rq_Workload req)),
               pc_Bootstrap = bootstrap\<rparr> of
            Inl err \<Rightarrow> (Inl (OrchRefused ''provision capacity''), d)
          | Inr receipt \<Rightarrow> recordCapacityAccepted env runID version
              \<lparr>cp_NativeRef = ct_NativeRef receipt, cp_State = ct_State receipt, cp_AcceptedAt = ct_AcceptedAt receipt,
               cp_Duplicate = ct_Duplicate receipt, cp_Adopted = False\<rparr> d)))"

definition provisioningStagesFinished :: "capacity_observation \<Rightarrow> time \<Rightarrow> launch_stage \<rightharpoonup> time" where
  "provisioningStagesFinished observation enrolledAt =
     (let finished = (case cb_State observation of
            CapacityStateStarting \<Rightarrow> [StageAcquisition \<mapsto> cb_StateSince observation]
          | CapacityStateActive \<Rightarrow> [StageAcquisition \<mapsto> zero_time, StageBoot \<mapsto> cb_StateSince observation]
          | _ \<Rightarrow> Map.empty)
      in if time_is_zero enrolledAt then finished else finished(StageAgentReady \<mapsto> enrolledAt))"

definition stage_name :: "launch_stage \<Rightarrow> string" where
  "stage_name g = (case g of
     StageAcquisition \<Rightarrow> ''acquisition'' | StageBoot \<Rightarrow> ''boot'' | StageAgentReady \<Rightarrow> ''agent_ready''
   | StageImageFetch \<Rightarrow> ''image_fetch'' | StageUnpack \<Rightarrow> ''unpack'' | StageArtifactFetch \<Rightarrow> ''artifact_fetch''
   | StageContainerStart \<Rightarrow> ''container_start'' | StageApplicationReady \<Rightarrow> ''application_ready'')"

text \<open>A stage that is not dated inside the interval this look is about is recorded at the moment of the
  look, as a bound.\<close>

fun stage_observations ::
  "launch_stage set \<Rightarrow> (launch_stage \<rightharpoonup> time) \<Rightarrow> time \<Rightarrow> time \<Rightarrow> launch_stage list \<Rightarrow> capacity_stage_data list" where
  "stage_observations seen finished now since [] = []"
| "stage_observations seen finished now since (g # gs) = (case finished g of
     None \<Rightarrow> stage_observations seen finished now since gs
   | Some moment \<Rightarrow>
       if g \<in> seen then stage_observations seen finished now since gs
       else (let dated = (\<not> time_is_zero moment \<and> \<not> moment < since \<and> \<not> now < moment);
                 moment' = (if dated then moment else now)
             in \<lparr>co_Stage = Some g, co_FinishedAt = moment', co_Seconds = seconds_between moment' since,
                 co_Bounded = (\<not> dated)\<rparr> # stage_observations seen finished now moment' gs))"

definition capacityStageObservations ::
  "run_state \<Rightarrow> capacity_requested_data \<Rightarrow> capacity_observation \<Rightarrow> time \<Rightarrow> time \<Rightarrow> capacity_stage_data list" where
  "capacityStageObservations st data observation enrolledAt now =
     (let since = (if time_is_zero (lastCapacityStageAt st) then cq_RequestedAt data else lastCapacityStageAt st)
      in stage_observations (capacityStages st) (provisioningStagesFinished observation enrolledAt) now since
           ProvisioningStages)"

definition capacityStageEvents ::
  "string \<Rightarrow> run_state \<Rightarrow> capacity_requested_data \<Rightarrow> capacity_observation \<Rightarrow> time \<Rightarrow> time \<Rightarrow> run_fact new_event list" where
  "capacityStageEvents runID st data observation enrolledAt now =
     map (\<lambda>o1. mustEvent runID (''capacity_stage_'' @ cq_RentalID data @ ''_''
            @ (case co_Stage o1 of None \<Rightarrow> empty_string | Some g \<Rightarrow> stage_name g)) (FactCapacityStageObserved o1) now)
       (capacityStageObservations st data observation enrolledAt now)"

definition reclaimCapacity ::
  "orch_env \<Rightarrow> capacity_seam \<Rightarrow> string \<Rightarrow> nat \<Rightarrow> run_state \<Rightarrow> launch_request \<Rightarrow> capacity_requested_data \<Rightarrow> bool op" where
  "reclaimCapacity env seam runID version st intent data d = (case ks_Terminate seam
       \<lparr>cc_Ref = capacity_data_ref data (lq_OwnershipToken intent),
        cc_OperationKey = ''reclaim_'' @ cq_RentalID data, cc_Generation = cq_Generation data\<rparr> of
     Inl err \<Rightarrow> (Inl (OrchRefused ''reclaim capacity''), d)
   | Inr _ \<Rightarrow>
       completeBookingAndAppend env runID version st (''advance:capacity_reclaimed:'' @ cq_RentalID data)
         [mustEvent runID (''capacity_reclaimed_'' @ cq_RentalID data) (FactCapacityReclaimed
            \<lparr>rc_RentalID = cq_RentalID data, rc_NodeID = cq_NodeID data, rc_OfferSnapshotID = cq_OfferSnapshotID data,
             rc_Policy = ''ENROLMENT_DEADLINE_EXCEEDED'',
             rc_DeadlineSeconds = seconds_between (cq_EnrolmentDeadlineAt data) (cq_RequestedAt data),
             rc_WaitedSeconds = seconds_between (oe_now env) (cq_RequestedAt data),
             rc_Disposition = DispositionTerminate\<rparr>) (oe_now env)] True d)"

definition watchCapacityArrive ::
  "orch_env \<Rightarrow> capacity_seam \<Rightarrow> inviter_seam \<Rightarrow> string \<Rightarrow> nat \<Rightarrow> run_state \<Rightarrow> launch_request \<Rightarrow>
   capacity_requested_data \<Rightarrow> bool op" where
  "watchCapacityArrive env seam inviter runID version st intent data d =
     (case ks_Observe seam (capacity_data_ref data (lq_OwnershipToken intent)) of
        Inl err \<Rightarrow> (Inl (OrchRefused ''observe capacity''), d)
      | Inr observation \<Rightarrow> (case iw_EnrolledAt inviter (capacity_data_nodeRef data) of
          Inl err \<Rightarrow> (Inl (OrchRefused ''read whether node enrolled''), d)
        | Inr enrolledAt \<Rightarrow>
            (let events = capacityStageEvents runID st data observation enrolledAt (oe_now env) in
             if events \<noteq> [] then
               appendEvents env runID version (''advance:capacity_stages:'' @ cq_RentalID data @ '':''
                 @ Itoa (int (card (capacityStages st)))) events True d
             else if \<not> oe_now env < cq_EnrolmentDeadlineAt data
               then reclaimCapacity env seam runID version st intent data d
             else (Inr False, d))))"

definition stepBuildCapacity ::
  "orch_env \<Rightarrow> string \<Rightarrow> nat \<Rightarrow> run_state \<Rightarrow> run_requested_data \<Rightarrow> launch_request \<Rightarrow> capacity_requested_data \<Rightarrow> bool op" where
  "stepBuildCapacity env runID version st req intent data = (case (oe_capacity env, oe_inviter env) of
     (Some seam, Some inviter) \<Rightarrow>
       if capacityAccepted st = None then allocateCapacity env seam inviter runID version req intent data
       else watchCapacityArrive env seam inviter runID version st intent data
   | _ \<Rightarrow> (\<lambda>d. (Inl (OrchRefused ''this deployment has no capacity seam''), d)))"

subsection \<open>Observing\<close>

definition observeLaunch :: "orch_env \<Rightarrow> run_state \<Rightarrow> launch_request \<Rightarrow> adapter_error + external_observation" where
  "observeLaunch env st intent = (case oe_observe env
       \<lparr>or_ConnectionID = lq_SelectedOfferConnectionID intent, or_LaunchKey = lq_LaunchKey intent,
        or_OwnershipToken = lq_OwnershipToken intent, or_RequestHash = lq_RequestHash intent,
        or_Lane = lq_SelectedOfferLane intent, or_NativeRef = lq_SelectedOfferNativeRef intent,
        or_RunID = lq_RunID intent, or_AttemptID = lq_AttemptID intent\<rparr> of
     Inl err \<Rightarrow> Inl err
   | Inr observation \<Rightarrow>
       if eo_Phase observation \<noteq> ExternalPhaseReleased \<or> \<not> launchIndeterminate st then Inr observation
       else (case oe_listOwned env of
         Inl err \<Rightarrow> Inl err
       | Inr owned \<Rightarrow>
           (case find (\<lambda>object. ow_RunID object = lq_RunID intent \<and> ow_AttemptID object = lq_AttemptID intent
                  \<and> ow_OwnershipToken object = lq_OwnershipToken intent
                  \<and> ow_RequestHash object = lq_RequestHash intent) owned of
              None \<Rightarrow> Inr observation
            | Some object \<Rightarrow> Inr \<lparr>eo_ExternalID = ow_ExternalID object, eo_LaunchKey = ow_LaunchKey object,
                eo_Phase = ow_Phase object, eo_ObservedAt = oe_now env, eo_StartedAt = None, eo_ExitCode = None\<rparr>)))"

definition startMoment :: "run_state \<Rightarrow> external_observation \<Rightarrow> time option" where
  "startMoment st observation = (if startedAt st \<noteq> None then None else EstablishedStart observation)"

definition bookingStartedAt :: "external_observation \<Rightarrow> time" where
  "bookingStartedAt observation = (case EstablishedStart observation of
     Some moment \<Rightarrow> moment | None \<Rightarrow> eo_ObservedAt observation)"

definition workloadStarted ::
  "run_state \<Rightarrow> external_observation \<Rightarrow> durable \<Rightarrow> orch_error + rental_schedule option" where
  "workloadStarted st observation d =
     (if eo_Phase observation \<noteq> ExternalPhaseRunning then Inr None
      else case Option.bind (bookingDecision st) bd_Booking of
        None \<Rightarrow> Inr None
      | Some b \<Rightarrow>
          (let schedule = (case tb_Schedules (snd d) (b_RentalID b) of
                 None \<Rightarrow> NewRentalSchedule empty_string | Some s \<Rightarrow> s) in
           case schedule_Holding schedule of
             None \<Rightarrow> Inr None
           | Some holding \<Rightarrow>
               if b_ID (sb_Booking holding) \<noteq> b_ID b \<or> \<not> time_is_zero (sb_StartedAt holding) then Inr None
               else (case schedule_Started schedule (b_ID b) (bookingStartedAt observation) of
                 Inl err \<Rightarrow> Inl (OrchSchedule err)
               | Inr next \<Rightarrow> Inr (Some next))))"

definition commitObservation ::
  "orch_env \<Rightarrow> run_fact append_request \<Rightarrow> run_state \<Rightarrow> external_observation \<Rightarrow> bool \<Rightarrow> bool op" where
  "commitObservation env request st observation answer d = (case workloadStarted st observation d of
     Inl err \<Rightarrow> (Inl err, d)
   | Inr None \<Rightarrow> done_or answer (appendRun env request d) d
   | Inr (Some started) \<Rightarrow> done_or answer (commitSchedule env request (rs_Version started - 1) started d) d)"

definition observation_events ::
  "string \<Rightarrow> nat \<Rightarrow> external_observation \<Rightarrow> time option \<Rightarrow> time \<Rightarrow> run_fact new_event list" where
  "observation_events runID version observation started now =
     mustEvent runID (''external_state_observed_'' @ Itoa (int version + 1)) (FactExternalStateObserved observation) now
     # (case started of
          None \<Rightarrow> []
        | Some moment \<Rightarrow> [mustEvent runID (''execution_started_'' @ Itoa (int version + 1))
            (FactExecutionStarted \<lparr>xs_LaunchKey = eo_LaunchKey observation, xs_StartedAt = moment\<rparr>) now])"

definition recordObservation ::
  "orch_env \<Rightarrow> string \<Rightarrow> nat \<Rightarrow> run_state \<Rightarrow> external_observation \<Rightarrow> bool op" where
  "recordObservation env runID version st observation d =
     (let started = startMoment st observation in
      if \<not> isTerminal (eo_Phase observation) \<and> eo_Phase observation = lastObservedPhase st \<and> started = None
      then (Inr False, d)
      else commitObservation env
        (runAppendRequest env empty_string runID version (''advance:observe:'' @ Itoa (int version))
          (observation_events runID version observation started (oe_now env)))
        st observation (isTerminal (eo_Phase observation)) d)"

subsection \<open>Ending a Run\<close>

definition outcome_event :: "string \<Rightarrow> run_outcome \<Rightarrow> time \<Rightarrow> run_fact new_event" where
  "outcome_event runID result now = mustEvent runID ''outcome_recorded'' (FactRunOutcomeRecorded result) now"

definition closed_event :: "string \<Rightarrow> time \<Rightarrow> run_fact new_event" where
  "closed_event runID now = mustEvent runID ''closed'' (FactRunClosed True) now"

definition recordTerminalTransition ::
  "orch_env \<Rightarrow> string \<Rightarrow> nat \<Rightarrow> run_state \<Rightarrow> run_outcome \<Rightarrow> bool op" where
  "recordTerminalTransition env runID version st result =
     (if \<not> externalObjectPossible st then
        (let events = [outcome_event runID result (oe_now env), closed_event runID (oe_now env)] in
         if bookingQueued st
         then completeBookingAndAppend env runID version st ''advance:terminal-before-launch'' events True
         else appendEvents env runID version ''advance:terminal-before-launch'' events True)
      else case launchIntent st of
        None \<Rightarrow> (\<lambda>d. (Inl OrchNilDereference, d))
      | Some intent \<Rightarrow> appendEvents env runID version ''advance:terminal''
          [outcome_event runID result (oe_now env),
           mustEvent runID ''cleanup_requested'' (FactCleanupRequested (lq_LaunchKey intent)) (oe_now env)] True)"

definition terminate_launch :: "orch_env \<Rightarrow> launch_request \<Rightarrow> adapter_error option" where
  "terminate_launch env intent = oe_terminate env
     \<lparr>tm_ConnectionID = lq_SelectedOfferConnectionID intent, tm_OperationKey = ''terminate_'' @ lq_AttemptID intent,
      tm_LaunchKey = lq_LaunchKey intent, tm_OwnershipToken = lq_OwnershipToken intent,
      tm_LaunchRequestHash = lq_RequestHash intent\<rparr>"

definition release_launch :: "orch_env \<Rightarrow> launch_request \<Rightarrow> adapter_error option" where
  "release_launch env intent = oe_release env
     \<lparr>rl_ConnectionID = lq_SelectedOfferConnectionID intent, rl_OperationKey = ''release_'' @ lq_AttemptID intent,
      rl_LaunchKey = lq_LaunchKey intent, rl_OwnershipToken = lq_OwnershipToken intent,
      rl_LaunchRequestHash = lq_RequestHash intent, rl_Lane = lq_SelectedOfferLane intent,
      rl_NativeRef = lq_SelectedOfferNativeRef intent, rl_RunID = lq_RunID intent\<rparr>"

text \<open>The disposition is one of the two it dispatches on: the caller checked it.\<close>

definition cleanup :: "orch_env \<Rightarrow> launch_request \<Rightarrow> adapter_error option" where
  "cleanup env intent = (case lq_Disposition intent of
     DispositionTerminate \<Rightarrow> terminate_launch env intent
   | DispositionRelease \<Rightarrow> release_launch env intent
   | DispositionOther _ \<Rightarrow> Some \<lparr>ae_Provider = None, ae_Is = []\<rparr>)"

definition publicCleanupError :: "adapter_error \<Rightarrow> string \<Rightarrow> disposition \<Rightarrow> cleanup_error" where
  "publicCleanupError err launchKey disp = \<lparr>ce_Provider = publicAdapterError err launchKey, ce_Disposition = disp\<rparr>"

definition recordCleanupFailure ::
  "orch_env \<Rightarrow> string \<Rightarrow> nat \<Rightarrow> launch_request \<Rightarrow> adapter_error \<Rightarrow> bool op" where
  "recordCleanupFailure env runID version intent cleanupErr d =
     (case appendEvents env runID version (''advance:cleanup-failed:'' @ Itoa (int version))
        [mustEvent runID (''cleanup_failed_'' @ Itoa (int version + 1))
           (FactCleanupFailed (publicCleanupError cleanupErr (lq_LaunchKey intent) (lq_Disposition intent))) (oe_now env)] () d of
       (Inl err, d') \<Rightarrow> (Inl (OrchCleanup cleanupErr (Some err)), d')
     | (Inr _, d') \<Rightarrow> (Inl (OrchCleanup cleanupErr None), d'))"

definition releaseAndCloseScheduled :: "orch_env \<Rightarrow> string \<Rightarrow> nat \<Rightarrow> run_state \<Rightarrow> bool op" where
  "releaseAndCloseScheduled env runID version st = (case launchIntent st of
     None \<Rightarrow> (\<lambda>d. (Inl (OrchRefused ''cleanup requested without launch intent''), d))
   | Some intent \<Rightarrow>
       if \<not> disposition_Valid (lq_Disposition intent)
         then (\<lambda>d. (Inl (OrchRefused ''cleanup requires a valid recorded disposition''), d))
       else case cleanup env intent of
           Some err \<Rightarrow> recordCleanupFailure env runID version intent err
         | None \<Rightarrow> completeBookingAndAppend env runID version st ''advance:cleanup''
             [mustEvent runID ''cleanup_confirmed'' (FactCleanupConfirmed
                \<lparr>cf_LaunchKey = lq_LaunchKey intent, cf_Disposition = lq_Disposition intent\<rparr>) (oe_now env),
              closed_event runID (oe_now env)] True)"

subsection \<open>One step, and the loop\<close>

definition step :: "orch_env \<Rightarrow> string \<Rightarrow> nat \<Rightarrow> run_state \<Rightarrow> bool op" where
  "step env runID version st d =
     (if closed st then (Inr False, d)
      else if cleanupRequested st \<and> \<not> cleanupConfirmed st then releaseAndCloseScheduled env runID version st d
      else case requested st of
        None \<Rightarrow> (Inl OrchNilDereference, d)
      | Some req \<Rightarrow>
      if firstTerminal st \<noteq> None \<and> \<not> outcomeRecorded st
        then recordTerminalTransition env runID version st (the (firstTerminal st)) d
      else if bookingQueued st then dispatchQueuedBooking env runID version st req d
      else case launchIntent st of
        None \<Rightarrow> (case inputsAreDurable env (rq_Workload req) of
            Inl err \<Rightarrow> (Inl (OrchRefused err), d)
          | Inr durable \<Rightarrow> if \<not> durable then (Inr False, d) else stepAdmit env runID version st req d)
      | Some intent \<Rightarrow>
      if state_replacementEligible st then
         (case inputsAreDurable env (rq_Workload req) of
            Inl err \<Rightarrow> (Inl (OrchRefused err), d)
          | Inr durable \<Rightarrow> if \<not> durable then (Inr False, d) else stepAdmit env runID version st req d)
      else if capacity st \<noteq> None \<and> \<not> nodeEnrolled st
        then stepBuildCapacity env runID version st req intent (the (capacity st)) d
      else if \<not> launchAccepted st \<and> launchFailure st = None
        then stepLaunch env runID version st req intent d
      else (case observeLaunch env st intent of
          Inl err \<Rightarrow> (Inl (OrchAdapter err), d)
        | Inr observation \<Rightarrow> recordObservation env runID version st observation d))"

definition advance_once :: "orch_env \<Rightarrow> string \<Rightarrow> bool op" where
  "advance_once env runID d = (case readStream (fst d) (runStream runID) of
     Inl err \<Rightarrow> (Inl err, d)
   | Inr history \<Rightarrow> (case reduceRun (oe_subject env) (sh_Events history) of
       Inl err \<Rightarrow> (Inl (OrchRun err), d)
     | Inr st \<Rightarrow> step env runID (sh_LastVersion history) st d))"

text \<open>The loop takes the environment of each iteration from a list; an exhausted list is a loop still
  running when the list ends.\<close>

fun AdvanceRun :: "orch_env list \<Rightarrow> string \<Rightarrow> durable \<Rightarrow> ((orch_error + unit) \<times> durable) option" where
  "AdvanceRun [] runID d = None"
| "AdvanceRun (env # envs) runID d = (case advance_once env runID d of
     (Inl err, d') \<Rightarrow> Some (Inl err, d')
   | (Inr progressed, d') \<Rightarrow> if progressed then AdvanceRun envs runID d' else Some (Inr (), d'))"

subsection \<open>Commands\<close>

record create_run_request =
  nw_RunID :: string
  nw_CommandKey :: string
  nw_IdempotencyKey :: string
  nw_Actor :: string
  nw_Workload :: workload_revision
  nw_GeneratedRunID :: bool
  nw_ResolveImage :: "image_resolver option"

record create_run_result =
  cx_RunID :: string
  cx_Duplicate :: bool

definition create_request_hash :: "orch_env \<Rightarrow> create_run_request \<Rightarrow> workload_revision \<Rightarrow> string" where
  "create_request_hash env req workload =
     oe_createHash env (if nw_GeneratedRunID req then empty_string else nw_RunID req) (workload\<lparr>wr_ID := empty_string\<rparr>)"

definition accept_workload :: "orch_env \<Rightarrow> create_run_request \<Rightarrow> workload_revision \<Rightarrow> orch_error + workload_revision" where
  "accept_workload env req workload = (case resolveWorkloadImages workload (nw_ResolveImage req) of
     Inl err \<Rightarrow> Inl (OrchRefused err)
   | Inr resolved \<Rightarrow>
       (case ValidateWorkloadRevision resolved of
          v # _ \<Rightarrow> Inl (OrchRefused (v_Code v))
        | [] \<Rightarrow> (case refuseUnpinnedImages resolved of
            Some err \<Rightarrow> Inl (OrchRefused err)
          | None \<Rightarrow> (case refuseUnknowableInputs env resolved of
              Some err \<Rightarrow> Inl (OrchRefused err)
            | None \<Rightarrow> Inr resolved))))"

definition created_run_id :: "create_run_request \<Rightarrow> run_fact append_result \<Rightarrow> string" where
  "created_run_id req result =
     (if \<not> res_Duplicate result then nw_RunID req
      else case find (\<lambda>e. ev_Type e = EventRunRequested) (res_Events result) of
          None \<Rightarrow> nw_RunID req
        | Some e \<Rightarrow> ev_StreamID e)"

definition create_persistence_error :: "orch_error \<Rightarrow> orch_error" where
  "create_persistence_error err = (case err of
     OrchDurable (DurableLog ErrIdempotencyConflict) \<Rightarrow> err
   | OrchDurable (DurableLog ErrConcurrencyConflict) \<Rightarrow> err
   | OrchDurable e \<Rightarrow> ErrRunRequestPersistence e
   | _ \<Rightarrow> err)"

definition CreateRun :: "orch_env \<Rightarrow> create_run_request \<Rightarrow> create_run_result op" where
  "CreateRun env req d =
     (let commandKey = (if nw_CommandKey req = empty_string then nw_IdempotencyKey req else nw_CommandKey req) in
      if nw_RunID req = empty_string then (Inl (OrchRefused ''run_id is required''), d)
      else if commandKey = empty_string then (Inl (OrchRefused ''idempotency key is required''), d)
      else (let workload = NormalizeWorkloadRevision (nw_Workload req) in
        case accept_workload env req workload of
          Inl err \<Rightarrow> (Inl err, d)
        | Inr accepted \<Rightarrow>
            (case appendRun env
                \<lparr>ar_Stream = runStream (nw_RunID req), ar_ExpectedStreamVersion = 0, ar_CommandKey = commandKey,
                 ar_RequestHash = create_request_hash env req workload, ar_Actor = nw_Actor req,
                 ar_CorrelationID = nw_RunID req, ar_CausationID = commandKey,
                 ar_Events = [mustEvent (nw_RunID req) ''requested''
                    (FactRunRequested \<lparr>rq_RunID = nw_RunID req, rq_Workload = accepted\<rparr>) (oe_now env)]\<rparr> d of
               Inl err \<Rightarrow> (Inl (create_persistence_error err), d)
             | Inr (d', result) \<Rightarrow>
                 (Inr \<lparr>cx_RunID = created_run_id req result, cx_Duplicate = res_Duplicate result\<rparr>, d'))))"

definition GetRun :: "orch_env \<Rightarrow> string \<Rightarrow> durable \<Rightarrow> orch_error + run_record" where
  "GetRun env runID d = (case readStream (fst d) (runStream runID) of
     Inl err \<Rightarrow> Inl err
   | Inr history \<Rightarrow>
       if sh_Events history = [] then Inl ErrRunNotFound
       else (case reduceRun (oe_subject env) (sh_Events history) of
         Inl err \<Rightarrow> Inl (OrchRun err)
       | Inr st \<Rightarrow> (case runRecordFromState runID st of None \<Rightarrow> Inl OrchNilDereference | Some r \<Rightarrow> Inr r)))"

text \<open>The command a cancellation appends; \<^verbatim>\<open>CancelRun\<close> then drives the loop and reads the record.\<close>

definition request_cancel :: "orch_env \<Rightarrow> string \<Rightarrow> string \<Rightarrow> unit op" where
  "request_cancel env runID actor d = (case readStream (fst d) (runStream runID) of
     Inl err \<Rightarrow> (Inl err, d)
   | Inr history \<Rightarrow>
       if sh_Events history = [] then (Inl ErrRunNotFound, d)
       else (case reduceRun (oe_subject env) (sh_Events history) of
         Inl err \<Rightarrow> (Inl (OrchRun err), d)
       | Inr st \<Rightarrow>
           if closed st \<or> cancelRequested st then (Inr (), d)
           else (let data = (case launchIntent st of
                       None \<Rightarrow> \<lparr>cn_Reason = ''user'', cn_LaunchKey = empty_string\<rparr>
                     | Some intent \<Rightarrow> \<lparr>cn_Reason = empty_string, cn_LaunchKey = lq_LaunchKey intent\<rparr>) in
             appendEventsAs env actor runID (sh_LastVersion history) ''cancel:requested''
               [mustEvent runID ''cancel_requested'' (FactCancelRequested data) (oe_now env)] () d)))"

definition CancelRun :: "orch_env \<Rightarrow> orch_env list \<Rightarrow> string \<Rightarrow> string \<Rightarrow> durable \<Rightarrow> ((orch_error + run_record) \<times> durable) option" where
  "CancelRun env envs runID actor d = (case request_cancel env runID actor d of
     (Inl err, d') \<Rightarrow> Some (Inl err, d')
   | (Inr _, d') \<Rightarrow> (case AdvanceRun envs runID d' of
       None \<Rightarrow> None
     | Some (Inl err, d'') \<Rightarrow> Some (Inl err, d'')
     | Some (Inr _, d'') \<Rightarrow> Some (GetRun env runID d'', d'')))"

definition RefreshRun :: "orch_env \<Rightarrow> orch_env list \<Rightarrow> string \<Rightarrow> durable \<Rightarrow> ((orch_error + run_record) \<times> durable) option" where
  "RefreshRun env envs runID d = (case AdvanceRun envs runID d of
     None \<Rightarrow> None
   | Some (Inl err, d') \<Rightarrow> Some (Inl err, d')
   | Some (Inr _, d') \<Rightarrow> Some (GetRun env runID d', d'))"

definition report_request :: "orch_env \<Rightarrow> string \<Rightarrow> run_reported_data \<Rightarrow> nat \<Rightarrow> run_fact append_request" where
  "report_request env runID payload version =
     (let sfx = (if report_terminal payload then ''reported_terminal'' else ''reported_'' @ Itoa (int version + 1));
          e = mustEvent runID sfx (FactRunReported payload) (oe_now env)
      in \<lparr>ar_Stream = runStream runID, ar_ExpectedStreamVersion = version,
          ar_CommandKey = runID @ (if report_terminal payload then '':report:terminal'' else '':report:'' @ sfx),
          ar_RequestHash = (if report_terminal payload then oe_reportHash env payload else oe_eventsHash env [e]),
          ar_Actor = empty_string, ar_CorrelationID = runID, ar_CausationID = ''report'', ar_Events = [e]\<rparr>)"

text \<open>The retry after a conflict reads the stream again; with the stores of one step the second read is
  the first, so a conflict is answered once.\<close>

definition RecordReport :: "orch_env \<Rightarrow> string \<Rightarrow> run_report \<Rightarrow> unit op" where
  "RecordReport env runID report d = (case readStream (fst d) (runStream runID) of
     Inl err \<Rightarrow> (Inl err, d)
   | Inr history \<Rightarrow>
       if sh_Events history = [] then (Inl ErrRunNotFound, d)
       else (case appendRun env (report_request env runID (report_payload report) (sh_LastVersion history)) d of
         Inr (d', _) \<Rightarrow> (Inr (), d')
       | Inl err \<Rightarrow>
           if report_terminal (report_payload report) \<and> err = OrchDurable (DurableLog ErrIdempotencyConflict)
           then (Inl ErrTerminalReportConflict, d) else (Inl err, d)))"

definition GetBookingDecisions :: "string \<Rightarrow> durable \<Rightarrow> orch_error + booking_decision list" where
  "GetBookingDecisions runID d = (case readStream (fst d) (runStream runID) of
     Inl err \<Rightarrow> Inl err
   | Inr history \<Rightarrow>
       (let decided = filter (\<lambda>e. ev_Type e = EventBookingDecided) (sh_Events history) in
        if list_ex (\<lambda>e. case ev_Data e of FactBookingDecided _ \<Rightarrow> False | _ \<Rightarrow> True) decided
          then Inl (OrchRefused ''decode Booking Decision'')
        else if decided = [] then Inl (OrchRefused ''booking decision not found'')
        else Inr (concat (map (\<lambda>e. case ev_Data e of FactBookingDecided b \<Rightarrow> [b] | _ \<Rightarrow> []) decided))))"

definition RebuildRunProjection :: "orch_env \<Rightarrow> durable \<Rightarrow> (orch_error + durable) option" where
  "RebuildRunProjection env d = (case runRecordsFromHistory (oe_subject env) (fst d) of
     None \<Rightarrow> None
   | Some (Inl err) \<Rightarrow> Some (Inl (OrchRefused ''read the Runs from history''))
   | Some (Inr records) \<Rightarrow> (case runs_Replace records (snd d) of
       Inl err \<Rightarrow> Some (Inl (OrchDurable err))
     | Inr t \<Rightarrow> Some (Inr (fst d, t))))"

subsection \<open>Sweeps, previews and intake\<close>

definition PreviewPlacement :: "orch_env \<Rightarrow> string \<Rightarrow> workload_revision \<Rightarrow> durable \<Rightarrow> (violation list + orch_error) + booking_decision" where
  "PreviewPlacement env runID workload d =
     (let w = NormalizeWorkloadRevision workload in
      if ValidateWorkloadRevision w \<noteq> [] then Inl (Inl (ValidateWorkloadRevision w))
      else case evaluatePlacement env runID w
             \<lparr>pq_excluded = [], pq_supersedes = empty_string, pq_supersedesReason = empty_string\<rparr> d of
          Inl err \<Rightarrow> Inl (Inr err)
        | Inr (decision, _, _) \<Rightarrow> Inr decision)"

record advance_result =
  vr_Open :: int
  vr_Closed :: int

text \<open>\<open>envs\<close> gives each Run the environments its loop runs in. An error on one Run is kept and the sweep
  goes on; \<open>None\<close> is a loop that outlasts its environments.\<close>

fun advance_open ::
  "(string \<Rightarrow> orch_env list) \<Rightarrow> orch_env \<Rightarrow> string list \<Rightarrow> durable \<Rightarrow> ((int \<times> orch_error list) \<times> durable) option" where
  "advance_open envs env [] d = Some ((0, []), d)"
| "advance_open envs env (runID # runIDs) d = (case AdvanceRun (envs runID) runID d of
     None \<Rightarrow> None
   | Some (answer, d') \<Rightarrow>
       (let (shut, errs) = (case answer of
              Inl err \<Rightarrow> (0, [err])
            | Inr _ \<Rightarrow> (case GetRun env runID d' of
                Inl err \<Rightarrow> (0, [err])
              | Inr rec \<Rightarrow> (if rec_Closed rec then 1 else 0, [])))
        in map_option (\<lambda>((n, es), d''). ((shut + n, errs @ es), d'')) (advance_open envs env runIDs d')))"

definition AdvanceOpenRuns ::
  "(string \<Rightarrow> orch_env list) \<Rightarrow> orch_env \<Rightarrow> durable \<Rightarrow> ((advance_result \<times> orch_error list) \<times> durable) option" where
  "AdvanceOpenRuns envs env d =
     (let open1 = runs_ListOpenIDs (snd d) in
      map_option (\<lambda>((n, es), d'). ((\<lparr>vr_Open = int (length open1), vr_Closed = n\<rparr>, es), d'))
        (advance_open envs env open1 d))"

record intake_request =
  ik_RunID :: string
  ik_IdempotencyKey :: string
  ik_Actor :: string
  ik_Workload :: workload_revision
  ik_WorkloadID :: string
  ik_Image :: string
  ik_Args :: "string list"
  ik_Env :: "(string \<times> string option) list"
  ik_ResolveImage :: "image_resolver option"

definition shorthand_workload :: "intake_request \<Rightarrow> workload_revision" where
  "shorthand_workload req =
     \<lparr>wr_ID = empty_string, wr_WorkloadID = ik_WorkloadID req, wr_Digest = empty_string, wr_Spec =
       \<lparr>ws_Containers = [\<lparr>cs_Name = empty_string, cs_Image = ik_Image req,
          cs_Platform = \<lparr>pl_OS = empty_string, pl_Architecture = empty_string\<rparr>, cs_Entrypoint = None,
          cs_Args = ik_Args req, cs_Env = ik_Env req, cs_Ports = []\<rparr>],
        ws_Resources = \<lparr>rr_CPUMinMillis = 0, rr_MemoryMinBytes = 0, rr_Accelerators = [],
          rr_Host = \<lparr>hr_Facts = [], hr_MinDriverVersion = empty_string, hr_MinDriverCapability = empty_string\<rparr>,
          rr_EphemeralDiskMinBytes = 0\<rparr>,
        ws_Network = \<lparr>nr_Inbound = InboundNetworkOther empty_string, nr_Download = None\<rparr>,
        ws_Placement = \<lparr>pp_Class = ClassOther empty_string, pp_Group = \<lparr>rg_ID = empty_string, rg_MaxParallel = 0\<rparr>,
          pp_MaxP90StartSeconds = 0, pp_ExpectedRuntimeSeconds = 0, pp_ExpectedReadySeconds = 0,
          pp_MaxExpectedCostUSD = None, pp_AllowUnknownPricing = False\<rparr>,
        ws_Execution = \<lparr>ep_MaxRuntimeSeconds = 0, ep_MaxPreStartAttempts = 0\<rparr>,
        ws_Artifacts = \<lparr>art_Consumes = [], art_Produces = []\<rparr>, ws_Caches = [], ws_Raw = []\<rparr>\<rparr>"

definition intake_create_request :: "string \<Rightarrow> intake_request \<Rightarrow> create_run_request" where
  "intake_create_request minted req =
     (let workload = (if \<not> hasWorkloadSpec (ik_Workload req) \<and> ik_Image req \<noteq> empty_string
                      then shorthand_workload req else ik_Workload req)
      in \<lparr>nw_RunID = (if ik_RunID req = empty_string then minted else ik_RunID req), nw_CommandKey = empty_string,
          nw_IdempotencyKey = ik_IdempotencyKey req, nw_Actor = ik_Actor req,
          nw_Workload = applyRunEnvOverrides workload (ik_Env req),
          nw_GeneratedRunID = (ik_RunID req = empty_string), nw_ResolveImage = ik_ResolveImage req\<rparr>)"

text \<open>\<open>minted\<close> is the identifier \<^verbatim>\<open>newRunID\<close> draws. What the first advance answers is dropped; only
  the stores it leaves count.\<close>

definition Intake ::
  "orch_env \<Rightarrow> orch_env list \<Rightarrow> string \<Rightarrow> intake_request \<Rightarrow> durable \<Rightarrow>
   ((orch_error + run_record \<times> bool) \<times> durable) option" where
  "Intake env envs minted req d = (case CreateRun env (intake_create_request minted req) d of
     (Inl err, d') \<Rightarrow> Some (Inl err, d')
   | (Inr created, d') \<Rightarrow> (case AdvanceRun envs (cx_RunID created) d' of
       None \<Rightarrow> None
     | Some (_, d'') \<Rightarrow> (case GetRun env (cx_RunID created) d'' of
         Inl err \<Rightarrow> Some (Inl err, d'')
       | Inr rec \<Rightarrow> Some (Inr (rec, cx_Duplicate created), d''))))"

subsection \<open>What an append does\<close>

lemma readStream_eq:
  assumes "log_inv lg" "stream_validate s = None"
  shows "readStream lg s = Inr \<lparr>sh_Events = stream_of lg s, sh_LastVersion = length (stream_of lg s)\<rparr>"
  using ReadFullStream_eq[OF assms] by (simp add: readStream_def)

lemma reduce_facts_cong:
  "list_all2 (\<lambda>x y. \<forall>s. f x s = f y s) xs ys \<Longrightarrow> reduce_facts f xs s = reduce_facts f ys s"
  by (induction arbitrary: s rule: list_all2_induct) (auto split: sum.splits)

definition stamped :: "orch_env \<Rightarrow> run_fact append_request \<Rightarrow> bool" where
  "stamped env req \<longleftrightarrow> (\<forall>e \<in> set (ar_Events req). ne_OccurredAt e = oe_now env \<and> ne_Type e = fact_type (ne_Data e)
     \<and> ne_SchemaVersion e = 1) \<and> (\<exists>r. ar_Stream req = runStream r)"

lemma projected_rows:
  assumes "\<forall>e \<in> set es. ne_OccurredAt e = now"
  shows "list_all2 (\<lambda>x y. \<forall>s. applyStoredEvent js x s = applyStoredEvent js y s)
    (projected_events req i es) (rows_of now req pos i es)"
  using assms
  by (induction es arbitrary: i pos) (auto simp: projected_event_def stored_of_def applyStoredEvent_def)

abbreviation reduces :: "orch_env \<Rightarrow> run_fact stored_event list \<Rightarrow> run_state \<Rightarrow> run_error + run_state" where
  "reduces env \<equiv> reduce_facts (applyStoredEvent (oe_subject env))"

abbreviation new_rows :: "orch_env \<Rightarrow> run_fact append_request \<Rightarrow> durable \<Rightarrow> run_fact stored_event list" where
  "new_rows env req d \<equiv> rows_of (oe_now env) req (el_Sequence (fst d) + 1) 0 (ar_Events req)"

text \<open>A granted append: the log has the new rows, the Run's stream still reduces with them, and the
  Run's row is the record it reduces to.\<close>

definition granted :: "orch_env \<Rightarrow> run_fact append_request \<Rightarrow> durable \<Rightarrow> durable \<Rightarrow> bool" where
  "granted env req d d' \<longleftrightarrow>
     fst d' = appended (oe_now env) req (fst d) \<and> log_inv (fst d') \<and> stamped env req
   \<and> sk_ID (ar_Stream req) \<noteq> empty_string
   \<and> length (stream_of (fst d) (ar_Stream req)) = ar_ExpectedStreamVersion req
   \<and> (\<exists>st st' rec. reduces env (stream_of (fst d) (ar_Stream req)) no_state = Inr st
        \<and> reduces env (new_rows env req d) st = Inr st' \<and> state_validate st' = None
        \<and> runRecordFromState (sk_ID (ar_Stream req)) st' = Some rec
        \<and> tb_Runs (snd d') = AList.update (sk_ID (ar_Stream req)) rec (tb_Runs (snd d)))"

lemma projectRunAppend_Inr:
  assumes "log_inv (fst d)" "stream_validate (ar_Stream req) = None" "stamped env req"
    "projectRunAppend env req d = Inr rec" "length (stream_of (fst d) (ar_Stream req)) = ar_ExpectedStreamVersion req"
  shows "\<exists>st st'. reduces env (stream_of (fst d) (ar_Stream req)) no_state = Inr st
    \<and> reduces env (new_rows env req d) st = Inr st' \<and> state_validate st' = None
    \<and> runRecordFromState (sk_ID (ar_Stream req)) st' = Some rec"
proof -
  have "reduces env (projected_events req 0 (ar_Events req)) st = reduces env (new_rows env req d) st" for st
    by (rule reduce_facts_cong[OF projected_rows]) (use assms(3) in \<open>simp add: stamped_def\<close>)
  then show ?thesis using assms(4,5) readStream_eq[OF assms(1,2)]
    by (auto simp: projectRunAppend_def split: sum.splits option.splits)
qed

lemma runStream_valid: "stream_validate (runStream r) = None \<longleftrightarrow> r \<noteq> empty_string"
  by (simp add: stream_validate_def runStream_def)

lemma append_error_stream: "append_request_error req = None \<Longrightarrow> stream_validate (ar_Stream req) = None"
  by (auto simp: append_request_error_def split: option.splits)

lemma granted_append:
  assumes "log_inv (fst d)" "stamped env req" "projectRunAppend env req d = Inr rec"
    "log_append (oe_now env) None req (fst d, ()) = Inr ((lg', ()), res)" "readCommand (fst d) (ar_CommandKey req) = []"
    "fst d' = lg'" "tb_Runs (snd d') = AList.update (sk_ID (ar_Stream req)) rec (tb_Runs (snd d))"
  shows "granted env req d d'"
proof -
  note r = log_append_Inr[OF assms(1,4)]
  have "command_events (fst d) (ar_CommandKey req) = []" using assms(5) by (simp add: readCommand_eq[OF assms(1)])
  then have app: "lg' = appended (oe_now env) req (fst d)"
    "length (stream_of (fst d) (ar_Stream req)) = ar_ExpectedStreamVersion req" using r(2) by blast+
  note valid = append_error_stream[OF r(1)]
  have "sk_ID (ar_Stream req) \<noteq> empty_string" using valid by (simp add: stream_validate_def split: if_splits)
  then show ?thesis
    using projectRunAppend_Inr[OF assms(1) valid assms(2,3) app(2)] log_append_keeps[OF assms(1,4)] app assms(2,6,7)
    unfolding granted_def by metis
qed

lemma projectRunAppend_rec_ID:
  "projectRunAppend env req d = Inr rec \<Longrightarrow> rec_ID rec = sk_ID (ar_Stream req)"
  by (auto simp: projectRunAppend_def rec_ID_record split: sum.splits option.splits if_splits)

lemma appendRun_Inr:
  assumes "log_inv (fst d)" "stamped env req" "appendRun env req d = Inr (d', res)"
  shows "d' = d \<or> granted env req d d' \<and> tb_Schedules (snd d') = tb_Schedules (snd d)"
proof -
  obtain lg t lg' t' where d: "d = (lg, t)" "d' = (lg', t')" by (cases d, cases d')
  obtain rec where rec: "projectRunAppend env req d = Inr rec"
    and app: "AppendAtomic (oe_now env) req (Some (\<lambda>t. Inr (putEncodedTx rec t))) (lg, t) = Inr ((lg', t'), res)"
    using assms(3) by (auto simp: appendRun_def d runs_Append_Inr split: sum.splits)
  show ?thesis
  proof (cases "readCommand lg (ar_CommandKey req) = []")
    case True
    note r = AppendAtomic_Inr[OF app, unfolded True, simplified]
    have "granted env req d d'"
      using r projectRunAppend_rec_ID[OF rec] True by (intro granted_append[OF assms(1,2) rec]) (auto simp: d)
    with r show ?thesis by (auto simp: d)
  qed (use AppendAtomic_Inr[OF app] in \<open>simp add: d\<close>)
qed

lemma commitSchedule_Inr:
  assumes "log_inv (fst d)" "stamped env req" "commitSchedule env req e next d = Inr (d', res)"
  shows "d' = d \<or> granted env req d d'
    \<and> tb_Schedules (snd d') = (tb_Schedules (snd d))(rs_RentalID next \<mapsto> next)
    \<and> rentalScheduleVersion (snd d) (rs_RentalID next) = e"
proof -
  obtain lg t lg' t' where d: "d = (lg, t)" "d' = (lg', t')" by (cases d, cases d')
  obtain rec where rec: "projectRunAppend env req d = Inr rec"
    and app: "AppendAtomic (oe_now env) req (Some (store_schedule e next rec)) (lg, t) = Inr ((lg', t'), res)"
    using assms(3) by (auto simp: commitSchedule_def d schedules_Commit_Inr split: sum.splits)
  show ?thesis
  proof (cases "readCommand lg (ar_CommandKey req) = []")
    case True
    note r = AppendAtomic_Inr[OF app, unfolded True store_schedule_Inr, simplified]
    have "granted env req d d'"
      using r projectRunAppend_rec_ID[OF rec] True by (intro granted_append[OF assms(1,2) rec]) (auto simp: d)
    with r show ?thesis by (auto simp: d)
  qed (use AppendAtomic_Inr[OF app] in \<open>simp add: d\<close>)
qed

lemma mustEvent_fields [simp]:
  "ne_OccurredAt (mustEvent r s f now) = now" "ne_Type (mustEvent r s f now) = fact_type f"
  "ne_SchemaVersion (mustEvent r s f now) = 1" "ne_Data (mustEvent r s f now) = f"
  by (simp_all add: mustEvent_def)

end
