(* ===== verification/Lifecycle.thy ===== *)
theory Lifecycle
  imports Orchestrator
begin

text \<open>
  What a Run may do, and what the orchestrator keeps of it.

  \<open>lifecycle\<close> is the state machine of a Run as a relation: in which state which facts may be recorded
  together, and what they do to the Booking of the Run. The first half shows that every operation of the
  orchestrator is a transition of it or leaves the stores as they were. The second half reads off what
  follows for the stores as a whole: the table of Runs mirrors the log, and the Bookings on the Rental
  Schedules are exactly the ones the open Runs hold.
\<close>

subsection \<open>The Booking a Run holds\<close>

abbreviation booked :: "run_state \<Rightarrow> booking option" where
  "booked st \<equiv> Option.bind (bookingDecision st) bd_Booking"

text \<open>A Booking is held until the Run closes or its placement is given up; a queued Booking that
  replaced a given up placement is held again.\<close>

definition holding :: "run_state \<Rightarrow> bool" where
  "holding st \<longleftrightarrow> booked st \<noteq> None \<and> \<not> closed st \<and> (bookingQueued st \<or> \<not> state_replacementEligible st)"

definition held :: "run_state \<Rightarrow> (string \<times> string) option" where
  "held st = (if holding st then map_option (\<lambda>b. (b_RentalID b, b_ID b)) (booked st) else None)"

text \<open>What every Run keeps: a Booking that is not queued was launched, and a failed launch that
  neither closed the Run nor may be replaced is one nobody knows the outcome of.\<close>

definition steady :: "run_state \<Rightarrow> bool" where
  "steady st \<longleftrightarrow> (booked st \<noteq> None \<longrightarrow> launchIntent st = None \<longrightarrow> bookingQueued st)
     \<and> (\<forall>f. launchFailure st = Some f \<longrightarrow> closed st \<or> failure_indeterminate f \<or> failure_replacementEligible f)"

datatype slot_change = Same | Take string string | Give string string

subsection \<open>The lifecycle of a Run\<close>

text \<open>A Run waits for a place when it holds no Booking: it was never launched, or its last launch may be
  replaced.\<close>

definition waiting_for_place :: "run_state \<Rightarrow> bool" where
  "waiting_for_place st \<longleftrightarrow> requested st \<noteq> None \<and> \<not> closed st \<and> \<not> bookingQueued st
     \<and> (firstTerminal st = None \<or> outcomeRecorded st)
     \<and> (launchIntent st = None \<or> state_replacementEligible st)"

definition launched :: "run_state \<Rightarrow> bool" where
  "launched st \<longleftrightarrow> requested st \<noteq> None \<and> \<not> closed st \<and> \<not> bookingQueued st \<and> launchIntent st \<noteq> None
     \<and> \<not> state_replacementEligible st"

text \<open>A placed Run first has its capacity built, if it needs any, and is then launched.\<close>

definition building :: "run_state \<Rightarrow> bool" where
  "building st \<longleftrightarrow> launched st \<and> capacity st \<noteq> None \<and> \<not> nodeEnrolled st"

definition launching :: "run_state \<Rightarrow> bool" where
  "launching st \<longleftrightarrow> launched st \<and> (capacity st = None \<or> nodeEnrolled st)
     \<and> \<not> launchAccepted st \<and> launchFailure st = None"

definition selects_nothing :: "booking_decision \<Rightarrow> bool" where
  "selects_nothing d \<longleftrightarrow> bd_SelectedOfferSnapshotID d = empty_string"

definition failed_facts :: "run_fact list" where
  "failed_facts = [FactRunOutcomeRecorded RunOutcomeFailed, FactRunClosed True]"

text \<open>The decision an admission answer rests on is recorded with it, unless the last launch may be
  replaced: then a decision that selects nothing closes the Run.\<close>

definition admission_evidence :: "run_state \<Rightarrow> run_fact list \<Rightarrow> bool" where
  "admission_evidence st fs \<longleftrightarrow> fs = []
     \<or> (\<exists>d. fs = [FactBookingDecided d] \<and> selects_nothing d \<and> \<not> state_replacementEligible st)"

inductive lifecycle :: "run_state \<Rightarrow> run_fact list \<Rightarrow> slot_change \<Rightarrow> bool" where
  requested: "lifecycle no_state [FactRunRequested q] Same"
| deferred: "waiting_for_place st \<Longrightarrow> admission_evidence st fs \<Longrightarrow>
    lifecycle st (fs @ [FactAdmissionDeferred w]) Same"
| refused: "waiting_for_place st \<Longrightarrow> admission_evidence st fs \<Longrightarrow>
    lifecycle st (fs @ FactAdmissionRefused w # failed_facts) Same"
| exhausted: "waiting_for_place st \<Longrightarrow> state_replacementEligible st \<Longrightarrow> selects_nothing d \<Longrightarrow>
    lifecycle st (FactBookingDecided d # failed_facts) Same"
| queued: "waiting_for_place st \<Longrightarrow> bd_Booking d = Some b \<Longrightarrow> b_State b = BookingStateQueued \<Longrightarrow>
    lifecycle st [FactBookingDecided d] (Take (b_RentalID b) (b_ID b))"
| placed: "waiting_for_place st \<Longrightarrow> bd_Booking d = Some b \<Longrightarrow> b_State b \<noteq> BookingStateQueued \<Longrightarrow>
    cs = [] \<or> cs = [FactCapacityRequested c] \<Longrightarrow>
    lifecycle st (FactBookingDecided d # FactAttemptCreated a # FactLaunchIntentRecorded l # cs)
      (Take (b_RentalID b) (b_ID b))"
| dispatched: "\<not> closed st \<Longrightarrow> bookingQueued st \<Longrightarrow> booked st = Some b \<Longrightarrow> b_ID b' = b_ID b \<Longrightarrow>
    b_RentalID b' = b_RentalID b \<Longrightarrow>
    lifecycle st [FactBookingDispatched b', FactAttemptCreated a, FactLaunchIntentRecorded l] Same"
| capacity_accepted: "building st \<Longrightarrow> capacityAccepted st = None \<Longrightarrow>
    lifecycle st [FactCapacityAccepted acc] Same"
| capacity_arriving: "building st \<Longrightarrow> capacityAccepted st \<noteq> None \<Longrightarrow> gs \<noteq> [] \<Longrightarrow>
    lifecycle st (map FactCapacityStageObserved gs) Same"
| capacity_reclaimed: "building st \<Longrightarrow> capacityAccepted st \<noteq> None \<Longrightarrow> booked st = Some b \<Longrightarrow>
    lifecycle st [FactCapacityReclaimed rc] (Give (b_RentalID b) (b_ID b))"
| launch_accepted: "launching st \<Longrightarrow> lifecycle st [FactLaunchAccepted receipt] Same"
| launch_indeterminate: "launching st \<Longrightarrow>
    failure_indeterminate f \<Longrightarrow> lifecycle st [FactLaunchIndeterminate f] Same"
| launch_replaceable: "launching st \<Longrightarrow>
    failure_replacementEligible f \<Longrightarrow> booked st = Some b \<Longrightarrow> fs = [] \<or> fs = failed_facts \<Longrightarrow>
    lifecycle st (FactLaunchFailed f # fs) (Give (b_RentalID b) (b_ID b))"
| launch_failed: "launching st \<Longrightarrow> \<not> failure_indeterminate f \<Longrightarrow> booked st = Some b \<Longrightarrow>
    lifecycle st (FactLaunchFailed f # failed_facts) (Give (b_RentalID b) (b_ID b))"
| observed: "launched st \<Longrightarrow> fs = [] \<or> fs = [FactExecutionStarted x] \<Longrightarrow>
    lifecycle st (FactExternalStateObserved ob # fs) Same"
| ended_unlaunched: "\<not> closed st \<Longrightarrow> firstTerminal st = Some oc \<Longrightarrow> \<not> outcomeRecorded st \<Longrightarrow>
    \<not> externalObjectPossible st \<Longrightarrow>
    ch = (if bookingQueued st then Give (b_RentalID (the (booked st))) (b_ID (the (booked st))) else Same) \<Longrightarrow>
    lifecycle st [FactRunOutcomeRecorded oc, FactRunClosed True] ch"
| ended: "\<not> closed st \<Longrightarrow> firstTerminal st = Some oc \<Longrightarrow> \<not> outcomeRecorded st \<Longrightarrow> externalObjectPossible st \<Longrightarrow>
    launchIntent st = Some l \<Longrightarrow>
    lifecycle st [FactRunOutcomeRecorded oc, FactCleanupRequested (lq_LaunchKey l)] Same"
| cleanup_failed: "\<not> closed st \<Longrightarrow> cleanupRequested st \<Longrightarrow> \<not> cleanupConfirmed st \<Longrightarrow>
    lifecycle st [FactCleanupFailed e] Same"
| cleaned: "\<not> closed st \<Longrightarrow> cleanupRequested st \<Longrightarrow> \<not> cleanupConfirmed st \<Longrightarrow> booked st = Some b \<Longrightarrow>
    lifecycle st [FactCleanupConfirmed cf, FactRunClosed True] (Give (b_RentalID b) (b_ID b))"
| cancelled: "\<not> closed st \<Longrightarrow> \<not> cancelRequested st \<Longrightarrow> lifecycle st [FactCancelRequested cn] Same"
| reported: "lifecycle st [FactRunReported rp] Same"

definition apply_facts ::
  "(string \<Rightarrow> string option) \<Rightarrow> time \<Rightarrow> string \<Rightarrow> run_fact list \<Rightarrow> run_state \<Rightarrow> run_error + run_state" where
  "apply_facts js now actor = reduce_facts (apply_fact js now actor)"

subsection \<open>What a transition does to the Booking held\<close>

lemma failure_kinds: "failure_indeterminate f \<Longrightarrow> \<not> failure_replacementEligible f"
  by (simp add: failure_indeterminate_def failure_replacementEligible_def)

lemma apply_facts_simps:
  "apply_facts js now a [] st = Inr st"
  "apply_facts js now a (f # fs) st = Inr st' \<longleftrightarrow>
     (\<exists>s. apply_fact js now a f st = Inr s \<and> apply_facts js now a fs s = Inr st')"
  by (auto simp: apply_facts_def split: sum.splits)

lemmas slot_defs = held_def holding_def steady_def bookingQueued_def state_replacementEligible_def

lemma apply_facts_append:
  "apply_facts js now a (xs @ ys) st = Inr st' \<longleftrightarrow>
     (\<exists>s. apply_facts js now a xs st = Inr s \<and> apply_facts js now a ys s = Inr st')"
  by (induction xs arbitrary: st) (auto simp: apply_facts_simps)

definition slot_moves :: "run_state \<Rightarrow> slot_change \<Rightarrow> run_state \<Rightarrow> bool" where
  "slot_moves st c st' \<longleftrightarrow> steady st' \<and> (case c of
     Same \<Rightarrow> held st' = held st
   | Take k i \<Rightarrow> held st = None \<and> held st' = Some (k, i)
   | Give k i \<Rightarrow> held st' = None)"


text \<open>Facts that say nothing about the Booking.\<close>

definition keeps_slot :: "run_state \<Rightarrow> run_state \<Rightarrow> bool" where
  "keeps_slot st st' \<longleftrightarrow> bookingDecision st' = bookingDecision st \<and> closed st' = closed st
     \<and> launchIntent st' = launchIntent st \<and> launchFailure st' = launchFailure st \<and> capacityReclaimed st' = capacityReclaimed st"

lemma keeps_slot_moves: "keeps_slot st st' \<Longrightarrow> steady st \<Longrightarrow> slot_moves st Same st'"
  by (auto simp: keeps_slot_def slot_moves_def slot_defs)

lemma keeps_slot_trans: "keeps_slot a b \<Longrightarrow> keeps_slot b c \<Longrightarrow> keeps_slot a c"
  by (simp add: keeps_slot_def)

fun slotless :: "run_fact \<Rightarrow> bool" where
  "slotless (FactRunRequested _) = True"
| "slotless (FactAdmissionDeferred _) = True"
| "slotless (FactAdmissionRefused _) = True"
| "slotless (FactCapacityRequested _) = True"
| "slotless (FactCapacityAccepted _) = True"
| "slotless (FactCapacityStageObserved _) = True"
| "slotless (FactLaunchAccepted _) = True"
| "slotless (FactCancelRequested _) = True"
| "slotless (FactExternalStateObserved _) = True"
| "slotless (FactExecutionStarted _) = True"
| "slotless (FactRunReported _) = True"
| "slotless (FactRunOutcomeRecorded _) = True"
| "slotless (FactCleanupRequested _) = True"
| "slotless (FactCleanupFailed _) = True"
| "slotless (FactCleanupConfirmed _) = True"
| "slotless _ = False"

lemma slotless_keeps: "slotless f \<Longrightarrow> apply_fact js now a f st = Inr st' \<Longrightarrow> keeps_slot st st'"
  by (cases f)
    (auto simp: keeps_slot_def fact_effects Let_def split: option.splits if_splits)

lemma slotless_all_keep:
  "list_all slotless fs \<Longrightarrow> apply_facts js now a fs st = Inr st' \<Longrightarrow> keeps_slot st st'"
  by (induction fs arbitrary: st) (auto simp: apply_facts_simps keeps_slot_def dest: slotless_keeps)

lemma closing:
  assumes "list_all slotless fs" "apply_facts js now a (fs @ [FactRunClosed True]) st = Inr st'"
  shows "closed st'" "held st' = None" "steady st \<Longrightarrow> steady st'"
proof -
  obtain s where s: "apply_facts js now a fs st = Inr s" "apply_fact js now a (FactRunClosed True) s = Inr st'"
    using assms(2) by (auto simp: apply_facts_append apply_facts_simps)
  have k: "keeps_slot st s" by (rule slotless_all_keep[OF assms(1) s(1)])
  have st': "st' = s\<lparr>closed := True\<rparr>" using s(2) by (simp add: apply_fact_def)
  show "closed st'" "held st' = None" by (simp_all add: st' slot_defs)
  show "steady st'" if "steady st" using k that by (auto simp: st' keeps_slot_def slot_defs)
qed

lemma waiting_unheld: "waiting_for_place st \<Longrightarrow> steady st \<Longrightarrow> held st = None"
  by (auto simp: waiting_for_place_def held_def holding_def steady_def)

lemma decided_effect:
  assumes "apply_fact js now a (FactBookingDecided d) st = Inr s"
  shows "bookingDecision s = Some d" "closed s = closed st" "launchIntent s = launchIntent st"
    "launchFailure s = launchFailure st" "capacityReclaimed s = capacityReclaimed st"
    "selects_nothing d \<Longrightarrow> bd_Booking d = None"
  using assms
  by (auto simp: apply_fact_def close_self_imposed_def Let_def selects_nothing_def split: if_splits
      dest: invalidBookingDecision_booking)

lemma decided_nothing:
  assumes "admission_evidence st fs \<or> fs = [FactBookingDecided d] \<and> selects_nothing d"
    "waiting_for_place st" "steady st" "apply_facts js now a fs st = Inr s"
  shows "held s = None" "steady s"
proof -
  consider "fs = []" | d' where "fs = [FactBookingDecided d']" "selects_nothing d'"
    using assms(1) by (auto simp: admission_evidence_def)
  then have "held s = None \<and> steady s"
  proof cases
    case 1
    then show ?thesis using assms waiting_unheld[OF assms(2,3)] by (simp add: apply_facts_simps)
  next
    case (2 d')
    then have "apply_fact js now a (FactBookingDecided d') st = Inr s" using assms(4) by (simp add: apply_facts_simps)
    from decided_effect[OF this] 2(2) assms(3) show ?thesis by (simp add: held_def holding_def steady_def)
  qed
  then show "held s = None" "steady s" by simp_all
qed

lemma held_kept: "keeps_slot st st' \<Longrightarrow> held st' = held st"
  by (simp add: keeps_slot_def slot_defs)

lemma steady_kept: "keeps_slot st st' \<Longrightarrow> steady st' = steady st"
  by (simp add: keeps_slot_def slot_defs)

lemma exclude_slot [simp]:
  "bookingDecision (exclude i r st) = bookingDecision st" "launchIntent (exclude i r st) = launchIntent st"
  "launchFailure (exclude i r st) = launchFailure st" "capacityReclaimed (exclude i r st) = capacityReclaimed st"
  "closed (exclude i r st) = closed st"
  by (simp_all add: exclude_def)

lemma placed_moves:
  assumes "bd_Booking d = Some b" "b_State b \<noteq> BookingStateQueued" "list_all slotless cs" "\<not> closed st"
    "apply_facts js now a (FactBookingDecided d # FactAttemptCreated at1 # FactLaunchIntentRecorded l # cs) st = Inr st'"
  shows "held st' = Some (b_RentalID b, b_ID b)" "steady st'"
proof -
  obtain s where s: "apply_facts js now a [FactBookingDecided d, FactAttemptCreated at1, FactLaunchIntentRecorded l] st = Inr s"
    "apply_facts js now a cs s = Inr st'"
    using assms(5) by (auto simp: apply_facts_simps)
  have "held s = Some (b_RentalID b, b_ID b)" "steady s"
    using s(1) assms(1,2,4)
    by (auto simp: apply_facts_simps slot_defs fact_effects booking_is_def split: option.splits if_splits)
  with slotless_all_keep[OF assms(3) s(2)] show "held st' = Some (b_RentalID b, b_ID b)" "steady st'"
    by (simp_all add: held_kept steady_kept)
qed

lemma dispatched_moves:
  assumes "booked st = Some b" "bookingQueued st" "\<not> closed st" "b_ID b' = b_ID b" "b_RentalID b' = b_RentalID b"
    "apply_facts js now a [FactBookingDispatched b', FactAttemptCreated at1, FactLaunchIntentRecorded l] st = Inr st'"
  shows "held st' = held st" "steady st'"
  using assms
  by (auto simp: apply_facts_simps slot_defs fact_effects booking_is_def bind_eq_Some_conv split: option.splits if_splits)

lemma failing_moves:
  assumes "apply_fact js now a f st = Inr s" "f = FactLaunchFailed x \<or> f = FactLaunchIndeterminate x"
    "launched st" "steady st"
  shows "bookingDecision s = bookingDecision st" "closed s = closed st" "launchIntent s = launchIntent st"
    "launchFailure s = Some x" "capacityReclaimed s = capacityReclaimed st"
  using assms by (auto simp: fact_effects Let_def split: option.splits if_splits)

lemma replaceable_moves:
  assumes "launched st" "steady st" "failure_replacementEligible f" "apply_facts js now a [FactLaunchFailed f] st = Inr st'"
  shows "held st' = None" "steady st'"
  using failing_moves[of js now a "FactLaunchFailed f" st st' f] assms
  by (auto simp: apply_facts_simps slot_defs launched_def split: option.splits)

lemma failed_then_closed:
  assumes "launched st" "steady st" "apply_facts js now a (FactLaunchFailed f # failed_facts) st = Inr st'"
  shows "held st' = None" "steady st'"
proof -
  obtain s where s: "apply_fact js now a (FactLaunchFailed f) st = Inr s"
    "apply_facts js now a ([FactRunOutcomeRecorded RunOutcomeFailed] @ [FactRunClosed True]) s = Inr st'"
    using assms(3) by (auto simp: apply_facts_simps failed_facts_def)
  have k: "keeps_slot s (st'\<lparr>closed := closed s\<rparr>) \<and> closed st'" using s(2) by (auto simp: apply_facts_simps apply_fact_def keeps_slot_def)
  have "booked st \<noteq> None \<longrightarrow> launchIntent st = None \<longrightarrow> bookingQueued st" using assms(2) by (simp add: steady_def)
  then show "held st' = None" "steady st'"
    using k failing_moves[OF s(1) _ assms(1,2), of f] by (auto simp: keeps_slot_def slot_defs)
qed

lemma lifecycle_moves:
  assumes "lifecycle st fs c" "steady st" "apply_facts js now a fs st = Inr st'"
  shows "slot_moves st c st'"
  using assms
proof (induction rule: lifecycle.induct)
  case (deferred st fs w)
  then obtain s where s: "apply_facts js now a fs st = Inr s" "apply_facts js now a [FactAdmissionDeferred w] s = Inr st'"
    by (auto simp: apply_facts_append)
  note n = decided_nothing[OF disjI1 _ _ s(1), OF deferred(2,1,3)]
  have "keeps_slot s st'" by (rule slotless_all_keep[OF _ s(2)]) simp
  with n waiting_unheld[OF deferred(1,3)] show ?case by (simp add: slot_moves_def held_kept steady_kept)
next
  case (refused st fs w)
  then obtain s where s: "apply_facts js now a fs st = Inr s"
    "apply_facts js now a ([FactAdmissionRefused w, FactRunOutcomeRecorded RunOutcomeFailed] @ [FactRunClosed True]) s = Inr st'"
    by (auto simp: apply_facts_append failed_facts_def)
  note n = decided_nothing[OF disjI1 _ _ s(1), OF refused(2,1,3)]
  have "held st' = None" "steady st'" using closing(2,3)[OF _ s(2)] n(2) by simp_all
  with waiting_unheld[OF refused(1,3)] show ?case by (simp add: slot_moves_def)
next
  case (exhausted st d)
  then obtain s where s: "apply_facts js now a [FactBookingDecided d] st = Inr s"
    "apply_facts js now a ([FactRunOutcomeRecorded RunOutcomeFailed] @ [FactRunClosed True]) s = Inr st'"
    by (auto simp: apply_facts_simps failed_facts_def)
  note n = decided_nothing[OF disjI2 _ _ s(1), OF conjI, OF refl exhausted(3,1,4)]
  have "held st' = None" "steady st'" using closing(2,3)[OF _ s(2)] n(2) by simp_all
  with waiting_unheld[OF exhausted(1,4)] show ?case by (simp add: slot_moves_def)
next
  case (queued st d b)
  have x: "apply_fact js now a (FactBookingDecided d) st = Inr st'" using queued(5) by (simp add: apply_facts_simps)
  have q: "bookingQueued st'" using decided_effect(1)[OF x] queued(2,3) by (simp add: bookingQueued_def booking_is_def)
  have "held st' = Some (b_RentalID b, b_ID b)" "steady st'"
    using decided_effect[OF x] queued(1,2,4) q by (simp_all add: held_def holding_def steady_def waiting_for_place_def)
  with waiting_unheld[OF queued(1,4)] show ?case by (simp add: slot_moves_def)
next
  case (placed st d b cs c a l)
  have "held st' = Some (b_RentalID b, b_ID b)" "steady st'"
    by (rule placed_moves[OF placed(2,3) _ _ placed(6)]; use placed(1,4) in \<open>auto simp: waiting_for_place_def\<close>)+
  with waiting_unheld[OF placed(1,5)] show ?case by (simp add: slot_moves_def)
next
  case (dispatched st b b' at1 l)
  with dispatched_moves[OF dispatched(3,2,1,4,5,7)] show ?case by (simp add: slot_moves_def)
next
  case (capacity_reclaimed st b rc)
  then show ?case by (auto simp: slot_moves_def apply_facts_simps slot_defs fact_effects building_def launched_def split: option.splits)
next
  case (launch_indeterminate st f)
  then have l: "launched st" "launchFailure st = None" by (simp_all add: launching_def)
  have x: "apply_fact js now a (FactLaunchIndeterminate f) st = Inr st'" using launch_indeterminate(4) by (simp add: apply_facts_simps)
  show ?case using failing_moves[OF x _ l(1) launch_indeterminate(3), of f] l launch_indeterminate(2,3) failure_kinds[of f]
    by (auto simp: slot_moves_def slot_defs launched_def split: option.splits)
next
  case (launch_replaceable st f b fs)
  then have "launched st" by (simp add: launching_def)
  then show ?case
    using replaceable_moves[OF _ launch_replaceable(5,2)] failed_then_closed[OF _ launch_replaceable(5)] launch_replaceable(4,6)
    by (auto simp: slot_moves_def)
next
  case (launch_failed st f b)
  then have "launched st" by (simp add: launching_def)
  then show ?case using failed_then_closed[OF _ launch_failed(4,5)] by (simp add: slot_moves_def)
next
  case (ended_unlaunched st oc ch)
  have "held st' = None" "steady st'"
    using closing(2,3)[of "[FactRunOutcomeRecorded oc]" js now a st st'] ended_unlaunched by simp_all
  moreover have "held st = None" if "\<not> bookingQueued st"
    using ended_unlaunched(4,6) that
    by (auto simp: slot_defs externalObjectPossible_def failure_indeterminate_def split: option.splits if_splits)
  ultimately show ?case using ended_unlaunched(5) by (simp add: slot_moves_def)
next
  case (cleaned st b cf)
  then show ?case using closing(2,3)[of "[FactCleanupConfirmed cf]" js now a st st'] by (simp add: slot_moves_def)
next
  case (requested q)
  then show ?case by (intro keeps_slot_moves slotless_all_keep) (auto simp: list_all_iff)
next
  case (capacity_accepted st acc)
  then show ?case by (intro keeps_slot_moves slotless_all_keep) (auto simp: list_all_iff)
next
  case (capacity_arriving st gs)
  then show ?case by (intro keeps_slot_moves slotless_all_keep) (auto simp: list_all_iff)
next
  case (launch_accepted st receipt)
  then show ?case by (intro keeps_slot_moves slotless_all_keep) (auto simp: list_all_iff)
next
  case (observed st fs x ob)
  then show ?case by (intro keeps_slot_moves slotless_all_keep) (auto simp: list_all_iff)
next
  case (ended st oc l)
  then show ?case by (intro keeps_slot_moves slotless_all_keep) (auto simp: list_all_iff)
next
  case (cleanup_failed st e)
  then show ?case by (intro keeps_slot_moves slotless_all_keep) (auto simp: list_all_iff)
next
  case (cancelled st cn)
  then show ?case by (intro keeps_slot_moves slotless_all_keep) (auto simp: list_all_iff)
next
  case (reported st rp)
  then show ?case by (intro keeps_slot_moves slotless_all_keep) (auto simp: list_all_iff)
qed

subsection \<open>The Bookings on the Rental Schedules\<close>

definition well_kept :: "string \<Rightarrow> rental_schedule \<Rightarrow> bool" where
  "well_kept k s \<longleftrightarrow> rs_RentalID s = k \<and> k \<noteq> empty_string
     \<and> length (rs_Bookings s) \<le> RentalScheduleQueueCapacity + 1 \<and> list_all (base_ok k) (rs_Bookings s)
     \<and> distinct (map sb_id (rs_Bookings s)) \<and> distinct (map sb_run (rs_Bookings s))
     \<and> queue_shape None (rs_Bookings s)"

definition entries :: "rental_schedule \<Rightarrow> (string \<times> string) set" where
  "entries s = (\<lambda>b. (sb_id b, sb_run b)) ` set (rs_Bookings s)"

definition slots :: "(string \<rightharpoonup> rental_schedule) \<Rightarrow> (string \<times> string \<times> string) set" where
  "slots m = {(k, i, r). \<exists>s. m k = Some s \<and> (i, r) \<in> entries s}"

lemma slots_member: "(k, x) \<in> slots m \<longleftrightarrow> (\<exists>s. m k = Some s \<and> x \<in> entries s)"
  by (cases x) (auto simp: slots_def)

lemma slots_update: "slots (m(k \<mapsto> s)) = {x \<in> slots m. fst x \<noteq> k} \<union> {k} \<times> entries s"
  by (auto simp: slots_def split: if_splits)

lemma new_well_kept: "k \<noteq> empty_string \<Longrightarrow> well_kept k (NewRentalSchedule k)" "entries (NewRentalSchedule k) = {}"
  by (simp_all add: well_kept_def NewRentalSchedule_def entries_def)

lemma Reserve_effect:
  assumes "well_kept k s" "schedule_Reserve s req = Inr (t, b)"
  shows "well_kept k t" "entries t = insert (br_BookingID req, br_RunID req) (entries s)"
proof -
  have ok: "validBookingRequest s req = None" using assms(2) by (simp add: schedule_Reserve_def)
  note v = ok[unfolded validBookingRequest_None]
  show "well_kept k t" using assms v bookingFor_place[of s req]
    by (auto simp: well_kept_def schedule_Reserve_def Let_def queue_shape_snoc base_ok_def)
  show "entries t = insert (br_BookingID req, br_RunID req) (entries s)"
    using assms(2) ok by (auto simp: schedule_Reserve_def Let_def entries_def)
qed

lemma Started_effect:
  assumes "well_kept k s" "schedule_Started s i moment = Inr t"
  shows "well_kept k t" "entries t = entries s"
proof -
  obtain b bs where bs: "rs_Bookings s = b # bs"
    using assms(2) by (cases "rs_Bookings s") (auto simp: schedule_Started_def schedule_bookingIndex_def split: if_splits)
  show "well_kept k t" "entries t = entries s" using assms bs
    by (auto simp: well_kept_def schedule_Started_def base_ok_def place_ok_def entries_def split: if_splits)
qed

lemma Complete_effect:
  assumes "well_kept k s" "schedule_Complete s i moment = Inr (t, x)"
  shows "well_kept k t" "\<exists>r. (i, r) \<in> entries s \<and> entries t = entries s - {(i, r)}"
proof -
  obtain n where n: "schedule_bookingIndex s i = Some n"
    and t: "t = schedule_reproject \<lparr>rs_RentalID = rs_RentalID s, rs_Version = rs_Version s + 1,
      rs_Bookings = take n (rs_Bookings s) @ drop (n + 1) (rs_Bookings s)\<rparr> moment"
    by (rule Complete_Inr[OF assms(2)])
  let ?bs = "take n (rs_Bookings s) @ drop (n + 1) (rs_Bookings s)"
  have at_n: "n < length (rs_Bookings s)" "sb_id (rs_Bookings s ! n) = i" using bookingIndex_Some[OF n] by auto
  have sub: "set ?bs \<subseteq> set (rs_Bookings s)" by (rule remove_at_subset)
  have "\<forall>b \<in> set (tl ?bs). sb_StartedAt b = 0"
    using queue_shape_started[of None "rs_Bookings s"] remove_at_tl[of n "rs_Bookings s"] assms(1)
    by (auto simp: well_kept_def)
  then have shape: "queue_shape None (rs_Bookings t)" by (simp add: t schedule_reproject_def reproject_from_shape)
  have base: "list_all (base_ok k) (rs_Bookings t)"
  proof -
    have "list_all (base_ok k) ?bs" using sub assms(1) by (auto simp: well_kept_def list_all_iff)
    from reproject_from_base[OF this] show ?thesis by (simp add: t schedule_reproject_def list_all_iff)
  qed
  have ids: "map sb_id (rs_Bookings t) = map sb_id ?bs" "map sb_run (rs_Bookings t) = map sb_run ?bs"
    by (simp_all add: t schedule_reproject_def)
  have "length (rs_Bookings t) \<le> length (rs_Bookings s)" by (simp add: t schedule_reproject_def)
  moreover have "distinct (map sb_id ?bs)" "distinct (map sb_run ?bs)"
    using assms(1) distinct_remove_at[of "map sb_id (rs_Bookings s)" n] distinct_remove_at[of "map sb_run (rs_Bookings s)" n]
    by (simp_all add: well_kept_def take_map drop_map)
  moreover have "rs_RentalID t = rs_RentalID s" by (simp add: t schedule_reproject_def)
  ultimately show "well_kept k t" using shape base ids assms(1) by (auto simp: well_kept_def)
  have zip: "entries u = set (zip (map sb_id (rs_Bookings u)) (map sb_run (rs_Bookings u)))" for u
    by (simp add: entries_def zip_map_map zip_same_conv_map)
  have "entries t = (\<lambda>b. (sb_id b, sb_run b)) ` set ?bs"
    unfolding zip ids by (simp add: zip_map_map zip_same_conv_map del: map_append)
  also have "?bs = filter (\<lambda>b. sb_id b \<noteq> i) (rs_Bookings s)"
    using remove1_filter_ids[OF _ at_n(1)] assms(1) at_n(2) by (simp add: well_kept_def)
  finally have t_entries: "entries t = {e \<in> entries s. fst e \<noteq> i}" by (auto simp: entries_def)
  let ?r = "sb_run (rs_Bookings s ! n)"
  have mem: "(i, ?r) \<in> entries s"
    unfolding entries_def by (rule image_eqI[where x = "rs_Bookings s ! n"]) (use at_n in simp_all)
  have inj: "inj_on sb_id (set (rs_Bookings s))" using assms(1) by (simp add: well_kept_def distinct_map)
  have unique: "r = ?r" if "(i, r) \<in> entries s" for r
  proof -
    from that obtain b where "b \<in> set (rs_Bookings s)" "sb_id b = i" "sb_run b = r" by (auto simp: entries_def)
    with inj at_n nth_mem[OF at_n(1)] show ?thesis by (metis inj_on_def)
  qed
  have "e \<in> entries t \<longleftrightarrow> e \<in> entries s - {(i, ?r)}" for e
  proof (cases "fst e = i")
    case True
    then show ?thesis using unique[of "snd e"] unfolding t_entries by (cases e) simp
  next
    case False
    then show ?thesis unfolding t_entries by (cases e) simp
  qed
  then have "entries t = entries s - {(i, ?r)}" by (rule set_eqI)
  with mem show "\<exists>r. (i, r) \<in> entries s \<and> entries t = entries s - {(i, r)}" by blast
qed

definition schedules_kept :: "(string \<rightharpoonup> rental_schedule) \<Rightarrow> bool" where
  "schedules_kept m \<longleftrightarrow> (\<forall>k s. m k = Some s \<longrightarrow> well_kept k s)"

text \<open>What a transition does to the table of schedules.\<close>

definition schedule_effect :: "string \<Rightarrow> slot_change \<Rightarrow> (string \<rightharpoonup> rental_schedule) \<Rightarrow> (string \<rightharpoonup> rental_schedule) \<Rightarrow> bool" where
  "schedule_effect r c m m' \<longleftrightarrow> (case c of
     Same \<Rightarrow> m' = m \<or> (\<exists>k s i moment t. m k = Some s \<and> schedule_Started s i moment = Inr t \<and> m' = m(rs_RentalID t \<mapsto> t))
   | Take k i \<Rightarrow> k \<noteq> empty_string \<and> (\<exists>s req t b. (m k = Some s \<or> m k = None \<and> s = NewRentalSchedule k)
        \<and> schedule_Reserve s req = Inr (t, b) \<and> br_BookingID req = i \<and> br_RunID req = r \<and> m' = m(rs_RentalID t \<mapsto> t))
   | Give k i \<Rightarrow> (\<exists>s moment t x. m k = Some s \<and> schedule_Complete s i moment = Inr (t, x) \<and> m' = m(rs_RentalID t \<mapsto> t)))"

lemma schedule_effect_slots:
  assumes "schedules_kept m" "schedule_effect r c m m'"
  shows "schedules_kept m'" "c = Same \<Longrightarrow> slots m' = slots m"
    "c = Take k i \<Longrightarrow> slots m' = insert (k, i, r) (slots m)"
    "c = Give k i \<Longrightarrow> \<exists>q. (k, i, q) \<in> slots m \<and> slots m' = slots m - {(k, i, q)}"
proof -
  have upd: "schedules_kept (m(rs_RentalID t \<mapsto> t)) \<and> rs_RentalID t = k'" if "well_kept k' t" for k' t
    using assms(1) that by (auto simp: schedules_kept_def well_kept_def)
  have wk: "well_kept k' s" if "m k' = Some s" for k' s using assms(1) that by (simp add: schedules_kept_def)
  have fresh: "well_kept k' s" if "k' \<noteq> empty_string" "m k' = Some s \<or> m k' = None \<and> s = NewRentalSchedule k'" for k' s
    using that wk new_well_kept by auto
  show "schedules_kept m'"
  proof (cases c)
    case Same
    with assms show ?thesis by (auto simp: schedule_effect_def dest: wk Started_effect(1) intro: upd[THEN conjunct1])
  next
    case (Take k' i')
    with assms(2) obtain s req t b where e: "k' \<noteq> empty_string" "m k' = Some s \<or> m k' = None \<and> s = NewRentalSchedule k'"
      "schedule_Reserve s req = Inr (t, b)" "m' = m(rs_RentalID t \<mapsto> t)" by (auto simp: schedule_effect_def)
    show ?thesis unfolding e(4) by (rule upd[OF Reserve_effect(1)[OF fresh[OF e(1,2)] e(3)], THEN conjunct1])
  next
    case (Give k' i')
    with assms(2) obtain s moment t x where e: "m k' = Some s" "schedule_Complete s i' moment = Inr (t, x)"
      "m' = m(rs_RentalID t \<mapsto> t)" by (auto simp: schedule_effect_def)
    show ?thesis unfolding e(3) by (rule upd[OF Complete_effect(1)[OF wk[OF e(1)] e(2)], THEN conjunct1])
  qed
  show "slots m' = slots m" if "c = Same"
  proof (cases "m' = m")
    case False
    with assms(2) that obtain k' s i' moment t where e: "m k' = Some s" "schedule_Started s i' moment = Inr t"
      "m' = m(rs_RentalID t \<mapsto> t)" by (auto simp: schedule_effect_def)
    note s = Started_effect[OF wk[OF e(1)] e(2)]
    have "rs_RentalID t = k'" using upd[OF s(1)] by simp
    with e(1,3) s(2) show ?thesis by (auto simp: slots_def split: if_splits)
  qed simp
  show "slots m' = insert (k, i, r) (slots m)" if c: "c = Take k i"
  proof -
    from assms(2) c obtain s req t b where e: "k \<noteq> empty_string" "m k = Some s \<or> m k = None \<and> s = NewRentalSchedule k"
      "schedule_Reserve s req = Inr (t, b)" "br_BookingID req = i" "br_RunID req = r" "m' = m(rs_RentalID t \<mapsto> t)"
      by (auto simp: schedule_effect_def)
    note s = Reserve_effect[OF fresh[OF e(1,2)] e(3)]
    have "rs_RentalID t = k" using upd[OF s(1)] by simp
    moreover have "{k} \<times> entries s = {x \<in> slots m. fst x = k}" using e(2) new_well_kept(2)
      by (auto simp: slots_def)
    ultimately show ?thesis unfolding e(6) slots_update s(2) using e(4,5) by auto
  qed
  show "\<exists>q. (k, i, q) \<in> slots m \<and> slots m' = slots m - {(k, i, q)}" if c: "c = Give k i"
  proof -
    from assms(2) c obtain s moment t x where e: "m k = Some s" "schedule_Complete s i moment = Inr (t, x)"
      "m' = m(rs_RentalID t \<mapsto> t)" by (auto simp: schedule_effect_def)
    note s = Complete_effect[OF wk[OF e(1)] e(2)]
    have t: "rs_RentalID t = k" using upd[OF s(1)] by simp
    from s(2) obtain q where q: "(i, q) \<in> entries s" "entries t = entries s - {(i, q)}" by blast
    have "slots m' = slots m - {(k, i, q)}" unfolding e(3) slots_update t q(2) using e(1) by (auto simp: slots_def)
    with q(1) e(1) show ?thesis by (auto simp: slots_def)
  qed
qed

subsection \<open>Every operation is a transition\<close>

definition committed :: "orch_env \<Rightarrow> string \<Rightarrow> run_fact list \<Rightarrow> slot_change \<Rightarrow> durable \<Rightarrow> durable \<Rightarrow> bool" where
  "committed env r fs c d d' \<longleftrightarrow> (\<exists>req. granted env req d d' \<and> ar_Stream req = runStream r
     \<and> map ne_Data (ar_Events req) = fs \<and> schedule_effect r c (tb_Schedules (snd d)) (tb_Schedules (snd d')))"

text \<open>The stores are as they were, or one transition of the Run from this state was committed.\<close>

definition transition :: "orch_env \<Rightarrow> string \<Rightarrow> run_state \<Rightarrow> durable \<Rightarrow> durable \<Rightarrow> bool" where
  "transition env r st d d' \<longleftrightarrow> d' = d \<or> (\<exists>fs c. lifecycle st fs c \<and> committed env r fs c d d')"

lemma transition_same [simp]: "transition env r st d d"
  by (simp add: transition_def)

definition dated :: "orch_env \<Rightarrow> run_fact new_event list \<Rightarrow> bool" where
  "dated env es \<longleftrightarrow> (\<forall>e \<in> set es. ne_OccurredAt e = oe_now env \<and> ne_Type e = fact_type (ne_Data e) \<and> ne_SchemaVersion e = 1)"

lemma dated_simps [simp]:
  "dated env []" "dated env (mustEvent r s f (oe_now env) # es) \<longleftrightarrow> dated env es"
  "dated env (xs @ ys) \<longleftrightarrow> dated env xs \<and> dated env ys"
  by (auto simp: dated_def)

lemma append_transition:
  assumes "log_inv (fst d)" "dated env (ar_Events req)" "ar_Stream req = runStream r" "lifecycle st (map ne_Data (ar_Events req)) Same"
    "appendRun env req d = Inr (d', res)"
  shows "transition env r st d d'"
proof -
  have "stamped env req" using assms(2,3) by (auto simp: stamped_def dated_def)
  from appendRun_Inr[OF assms(1) this assms(5)] show ?thesis
  proof
    assume g: "granted env req d d' \<and> tb_Schedules (snd d') = tb_Schedules (snd d)"
    then have "schedule_effect r Same (tb_Schedules (snd d)) (tb_Schedules (snd d'))" by (simp add: schedule_effect_def)
    with g assms(3,4) show ?thesis unfolding transition_def committed_def by blast
  qed simp
qed

lemma commit_transition:
  assumes "log_inv (fst d)" "dated env (ar_Events req)" "ar_Stream req = runStream r" "lifecycle st (map ne_Data (ar_Events req)) c"
    "schedule_effect r c (tb_Schedules (snd d)) ((tb_Schedules (snd d))(rs_RentalID next \<mapsto> next))"
    "commitSchedule env req e next d = Inr (d', res)"
  shows "transition env r st d d'"
proof -
  have "stamped env req" using assms(2,3) by (auto simp: stamped_def dated_def)
  from commitSchedule_Inr[OF assms(1) this assms(6)] show ?thesis
  proof
    assume g: "granted env req d d' \<and> tb_Schedules (snd d') = (tb_Schedules (snd d))(rs_RentalID next \<mapsto> next)
      \<and> rentalScheduleVersion (snd d) (rs_RentalID next) = e"
    with assms(3,4,5) show ?thesis unfolding transition_def committed_def by auto
  qed simp
qed

lemma request_fields [simp]:
  "ar_Events (runAppendRequest env actor r v key es) = es" "ar_Stream (runAppendRequest env actor r v key es) = runStream r"
  by (simp_all add: runAppendRequest_def)

lemma appendEventsAs_transition:
  assumes "log_inv (fst d)" "dated env es" "lifecycle st (map ne_Data es) Same"
  shows "transition env r st d (snd (appendEventsAs env actor r v key es answer d))"
  using append_transition[OF assms(1), of env "runAppendRequest env actor r v key es" r st] assms(2,3)
  by (auto simp: appendEventsAs_def done_or_def split: sum.splits)

lemma appendEvents_transition:
  assumes "log_inv (fst d)" "dated env es" "lifecycle st (map ne_Data es) Same"
  shows "transition env r st d (snd (appendEvents env r v key es answer d))"
  unfolding appendEvents_def by (rule appendEventsAs_transition[OF assms])

lemma done_or_transition:
  assumes "log_inv (fst d)" "dated env es" "lifecycle st (map ne_Data es) c"
    "schedule_effect r c (tb_Schedules (snd d)) ((tb_Schedules (snd d))(rs_RentalID next \<mapsto> next))"
  shows "transition env r st d (snd (done_or answer (commitSchedule env (runAppendRequest env actor r v key es) e next d) d))"
  using commit_transition[OF assms(1), of env "runAppendRequest env actor r v key es" r st c "next"] assms(2-4)
  by (auto simp: done_or_def split: sum.splits)

lemma no_schedule_completes: "schedule_Complete (NewRentalSchedule x) i moment \<noteq> Inr y"
  by (simp add: schedule_Complete_def NewRentalSchedule_def schedule_bookingIndex_def)

lemma complete_transition:
  assumes "log_inv (fst d)" "dated env es" "\<And>b. booked st = Some b \<Longrightarrow> lifecycle st (map ne_Data es) (Give (b_RentalID b) (b_ID b))"
  shows "transition env r st d (snd (completeBookingAndAppend env r v st key es answer d))"
proof (cases "booked st")
  case None
  then show ?thesis by (simp add: completeBookingAndAppend_def)
next
  case (Some b)
  show ?thesis
  proof (cases "tb_Schedules (snd d) (b_RentalID b)")
    case None
    with Some show ?thesis by (auto simp: completeBookingAndAppend_def no_schedule_completes Let_def split: sum.splits)
  next
    case s: (Some s)
    show ?thesis
    proof (cases "schedule_Complete s (b_ID b) (oe_now env)")
      case (Inr y)
      obtain t x where y: "y = (t, x)" by (cases y)
      have "schedule_effect r (Give (b_RentalID b) (b_ID b)) (tb_Schedules (snd d)) ((tb_Schedules (snd d))(rs_RentalID t \<mapsto> t))"
        using s Inr y by (auto simp: schedule_effect_def)
      from done_or_transition[OF assms(1,2) assms(3)[OF Some] this] show ?thesis
        using Some s Inr y by (simp add: completeBookingAndAppend_def)
    qed (use Some s in \<open>simp add: completeBookingAndAppend_def\<close>)
  qed
qed

lemmas transitions = appendEvents_transition appendEventsAs_transition complete_transition

lemma admission_event_fields [simp]:
  "ne_Data (admission_event r st now f) = f" "ne_OccurredAt (admission_event r st now f) = now"
  "ne_Type (admission_event r st now f) = fact_type f" "ne_SchemaVersion (admission_event r st now f) = 1"
  by (cases f; simp add: decisionEvent_def)+

lemma admission_events [simp]:
  "dated env (map (admission_event r st (oe_now env)) fs)"
  "map ne_Data (map (admission_event r st now) fs) = fs"
  by (auto simp: dated_def intro: map_idI)

text \<open>What admission has to record of a Run that waits for a place.\<close>

definition admission_answers :: "run_state \<Rightarrow> admission_record \<Rightarrow> bool" where
  "admission_answers st answer \<longleftrightarrow> (case answer of
     NothingNew \<Rightarrow> True
   | DeferralRecorded fs \<Rightarrow> \<exists>es w. fs = es @ [FactAdmissionDeferred w] \<and> admission_evidence st es
   | RefusalRecorded fs \<Rightarrow> \<exists>es w. fs = es @ FactAdmissionRefused w # failed_facts \<and> admission_evidence st es)"

lemma record_admission_transition:
  assumes "log_inv (fst d)" "waiting_for_place st" "admission_answers st answer"
  shows "transition env r st d (snd (record_admission env r v st answer d))"
proof (cases answer)
  case (DeferralRecorded fs)
  with assms have "lifecycle st fs Same" by (auto simp: admission_answers_def intro: lifecycle.deferred)
  with DeferralRecorded assms(1) show ?thesis
    by (auto simp: record_admission_def simp del: map_map intro!: transitions)
next
  case (RefusalRecorded fs)
  have nq: "\<not> bookingQueued st" using assms(2) by (simp add: waiting_for_place_def)
  from RefusalRecorded assms have "lifecycle st fs Same" by (auto simp: admission_answers_def intro: lifecycle.refused)
  with RefusalRecorded assms(1) nq show ?thesis
    by (auto simp: record_admission_def simp del: map_map intro!: transitions)
qed (simp add: record_admission_def)

lemma deferOrRefuse_answers:
  assumes "admission_evidence st (answer_evidence a)"
  shows "admission_answers st (deferOrRefuse ff st run a)" "admission_answers st (recordRefusal a)"
  using assms
  by (auto simp: admission_answers_def deferOrRefuse_def Let_def recordRefusal_def recordDeferral_def failed_facts_def
      answer_evidence_def)

lemma admit_answers: "admit ff q st run = Some answer \<Longrightarrow> admission_answers st answer"
  by (auto simp: admit_def Let_def plain_answer_def answer_evidence_def admission_evidence_def intro!: deferOrRefuse_answers
      split: if_splits)

lemma decide_Inr:
  assumes "decide env req r n request d = Inr answer"
  shows "pa_selected answer = None \<Longrightarrow> selects_nothing (pa_decision answer)"
    "pa_selected answer = Some (b, a, offer, schedule) \<Longrightarrow> bd_Booking (pa_decision answer) = Some b
       \<and> bd_RunID (pa_decision answer) = r
       \<and> schedule = (case tb_Schedules (snd d) (b_RentalID b) of
            None \<Rightarrow> NewRentalSchedule (b_RentalID b)
          | Some s \<Rightarrow> if rs_RentalID s = empty_string then NewRentalSchedule (b_RentalID b) else s)"
proof -
  obtain decision offers schedules where e: "evaluatePlacement env r (rq_Workload req) request d = Inr (decision, offers, schedules)"
    using assms by (auto simp: decide_def split: sum.splits)
  have s: "schedules = tb_Schedules (snd d)" using e
    by (auto simp: evaluatePlacement_def Let_def split: sum.splits option.splits)
  obtain inp where "Evaluate (oe_gpu env) (oe_hashes env) inp = Inr decision" "in_RunID inp = r"
    using e by (auto simp: evaluatePlacement_def Let_def scheduling_input_for_def split: sum.splits option.splits)
  then have run: "bd_RunID decision = r"
    by (auto simp: Evaluate_def Let_def decision_draft_def defaulted_input_def split: if_splits option.splits sum.splits)
  show "selects_nothing (pa_decision answer)" if "pa_selected answer = None"
    using assms e that by (auto simp: decide_def selects_nothing_def Let_def split: if_splits option.splits)
  show "bd_Booking (pa_decision answer) = Some b \<and> bd_RunID (pa_decision answer) = r
      \<and> schedule = (case tb_Schedules (snd d) (b_RentalID b) of
            None \<Rightarrow> NewRentalSchedule (b_RentalID b)
          | Some s \<Rightarrow> if rs_RentalID s = empty_string then NewRentalSchedule (b_RentalID b) else s)"
    if "pa_selected answer = Some (b, a, offer, schedule)"
    using assms e that run s by (auto simp: decide_def Let_def split: if_splits option.splits)
qed

lemma reserveDecision_Inr:
  assumes "reserveDecision env req decision b s = Inr t"
  shows "rs_RentalID s = b_RentalID b \<and> (\<exists>b'. schedule_Reserve s (reserve_request req decision b) = Inr (t, b'))"
  using assms by (auto simp: reserveDecision_def split: if_splits sum.splits)

lemma placement_events_lifecycle:
  assumes "placement_events env r req decision b a offer = Inr es" "bd_Booking decision = Some b" "waiting_for_place st"
  shows "dated env es" "lifecycle st (map ne_Data es) (Take (b_RentalID b) (b_ID b))"
  using assms
  by (auto simp: placement_events_def decisionEvent_def attempt_events_def split: if_splits sum.splits option.splits
      intro!: lifecycle.queued lifecycle.placed)

lemma place_schedule_effect:
  assumes "schedules_kept m" "reserveDecision env req decision b s = Inr t" "bd_RunID decision = r"
    "s = (case m (b_RentalID b) of
            None \<Rightarrow> NewRentalSchedule (b_RentalID b)
          | Some s \<Rightarrow> if rs_RentalID s = empty_string then NewRentalSchedule (b_RentalID b) else s)"
  shows "schedule_effect r (Take (b_RentalID b) (b_ID b)) m (m(rs_RentalID t \<mapsto> t))"
proof -
  obtain b' where r: "rs_RentalID s = b_RentalID b" "schedule_Reserve s (reserve_request req decision b) = Inr (t, b')"
    using reserveDecision_Inr[OF assms(2)] by blast
  have "validBookingRequest s (reserve_request req decision b) = None" using r(2) by (simp add: schedule_Reserve_def)
  then have k: "b_RentalID b \<noteq> empty_string" using r(1) by (simp add: validBookingRequest_None)
  have base: "m (b_RentalID b) = Some s \<or> m (b_RentalID b) = None \<and> s = NewRentalSchedule (b_RentalID b)"
    using assms(1,4) by (auto simp: schedules_kept_def well_kept_def split: option.splits)
  have "br_BookingID (reserve_request req decision b) = b_ID b" "br_RunID (reserve_request req decision b) = r"
    using assms(3) by (simp_all add: reserve_request_def Let_def)
  with k base r(2) show ?thesis unfolding schedule_effect_def by auto
qed

lemma stepPlace_transition:
  assumes "log_inv (fst d)" "schedules_kept (tb_Schedules (snd d))" "waiting_for_place st"
  shows "transition env r st d (snd (stepPlace env r v st req run d))"
proof -
  obtain sup reason where sup: "supersession st = (sup, reason)" by (cases "supersession st")
  let ?decide = "decide env req r (attemptCount st + 1) \<lparr>pq_excluded = excluded st, pq_supersedes = sup, pq_supersedesReason = reason\<rparr> d"
  show ?thesis
  proof (cases ?decide)
    case (Inl err)
    then show ?thesis by (simp add: stepPlace_def sup)
  next
    case (Inr answer)
    note dec = decide_Inr[OF Inr]
    show ?thesis
    proof (cases "pa_selected answer")
      case None
      have unselected: "selects_nothing (pa_decision answer)" by (rule dec(1)[OF None])
      show ?thesis
      proof (cases "state_replacementEligible st")
        case True
        have "lifecycle st (FactBookingDecided (pa_decision answer) # failed_facts) Same"
          by (rule lifecycle.exhausted[OF assms(3) True unselected])
        then have "transition env r st d (snd (closeRetryExhausted env r v (pa_decision answer) d))"
          unfolding closeRetryExhausted_def
          by (intro transitions[OF assms(1)]) (simp_all add: decisionEvent_def retryExhaustedEvents_def failed_facts_def)
        with True None Inr show ?thesis by (simp add: stepPlace_def sup Let_def)
      next
        case False
        have "admission_evidence st [FactBookingDecided (pa_decision answer)]"
          using False unselected by (simp add: admission_evidence_def)
        then have "admission_answers st (deferOrRefuse ff st run \<lparr>aa_deferral = w, aa_projected = p, aa_decision = Some (pa_decision answer)\<rparr>)" for ff w p
          by (intro deferOrRefuse_answers) (simp add: answer_evidence_def)
        from record_admission_transition[OF assms(1,3) this] show ?thesis
          using False None Inr by (simp add: stepPlace_def sup Let_def split: prod.splits)
      qed
    next
      case (Some sel)
      obtain b a offer s where sel: "sel = (b, a, offer, s)" by (cases sel)
      note dec = dec(2)[OF Some[unfolded sel]]
      show ?thesis
      proof (cases "reserveDecision env req (pa_decision answer) b s")
        case (Inl err)
        then show ?thesis using Inr Some sel by (simp add: stepPlace_def sup Let_def)
      next
        case t: (Inr t)
        have eff: "schedule_effect r (Take (b_RentalID b) (b_ID b)) (tb_Schedules (snd d)) ((tb_Schedules (snd d))(rs_RentalID t \<mapsto> t))"
          using dec by (intro place_schedule_effect[OF assms(2) t]) simp_all
        show ?thesis
        proof (cases "placement_events env r req (pa_decision answer) b a offer")
          case (Inl err)
          then show ?thesis using Inr Some sel t by (simp add: stepPlace_def sup Let_def)
        next
          case es: (Inr es)
          note p = placement_events_lifecycle[OF es dec[THEN conjunct1] assms(3)]
          from done_or_transition[OF assms(1) p eff] show ?thesis using Inr Some sel t es by (simp add: stepPlace_def sup Let_def)
        qed
      qed
    qed
  qed
qed

lemma stepAdmit_transition:
  assumes "log_inv (fst d)" "schedules_kept (tb_Schedules (snd d))" "waiting_for_place st"
  shows "transition env r st d (snd (stepAdmit env r v st req d))"
  using stepPlace_transition[OF assms] record_admission_transition[OF assms(1,3) admit_answers]
  by (auto simp: stepAdmit_def Let_def split: option.splits sum.splits)

lemma scheduledBooking_entry:
  assumes "schedules_kept m" "scheduledBooking (m k) i = Some b'"
  shows "b_ID b' = i" "b_RentalID b' = k"
proof -
  obtain s sb where s: "m k = Some s" "find (\<lambda>sb. b_ID (sb_Booking sb) = i) (rs_Bookings s) = Some sb" "b' = sb_Booking sb"
    using assms(2) by (auto simp: scheduledBooking_def split: option.splits)
  then have "sb \<in> set (rs_Bookings s)" "b_ID (sb_Booking sb) = i" by (auto simp: find_Some_iff)
  with s assms(1) show "b_ID b' = i" "b_RentalID b' = k" by (auto simp: schedules_kept_def well_kept_def list_all_iff base_ok_def)
qed

lemma dispatch_transition:
  assumes "log_inv (fst d)" "schedules_kept (tb_Schedules (snd d))" "\<not> closed st" "bookingQueued st"
  shows "transition env r st d (snd (dispatchQueuedBooking env r v st req d))"
proof -
  obtain dec b where dec: "bookingDecision st = Some dec" "bd_Booking dec = Some b"
    using assms(4) by (auto simp: bookingQueued_def booking_is_def split: option.splits)
  have "transition env r st d (snd (appendEvents env r v key
      (mustEvent r sfx (FactBookingDispatched b') (oe_now env) # attempt_events r a launch (oe_now env)) True d))"
    if "scheduledBooking (tb_Schedules (snd d) (b_RentalID b)) (b_ID b) = Some b'" for b' a launch key sfx
    by (intro transitions[OF assms(1)])
      (use scheduledBooking_entry[OF assms(2) that] dec assms(3,4) in
        \<open>auto simp: attempt_events_def intro!: lifecycle.dispatched[where b = b]\<close>)
  then show ?thesis using dec by (auto simp: dispatchQueuedBooking_def Let_def split: option.splits sum.splits)
qed

lemma snd_answered [simp]:
  "snd (case p of (Inl e, d) \<Rightarrow> (f e, d) | (Inr x, d) \<Rightarrow> (g x, d)) = snd p"
  by (auto split: prod.splits sum.splits)

lemma stepLaunch_transition:
  assumes "log_inv (fst d)" "launching st"
  shows "transition env r st d (snd (stepLaunch env r v st req intent d))"
proof (cases "oe_launch env intent")
  case (Inr receipt)
  then show ?thesis
    by (auto simp: stepLaunch_def intro!: transitions[OF assms(1)] lifecycle.launch_accepted[OF assms(2)])
next
  case (Inl err)
  let ?f = "launchFailureFrom err (lq_LaunchKey intent)"
  have "transition env r st d (snd (recordIndeterminateLaunch env r v intent ?f err d))" if "failure_indeterminate ?f"
    unfolding recordIndeterminateLaunch_def snd_answered
    by (intro transitions[OF assms(1)]) (use lifecycle.launch_indeterminate[OF assms(2) that] in simp_all)
  moreover have "transition env r st d (snd (recordReplaceableLaunchFailure env r v st req intent ?f d))"
    if "failure_replacementEligible ?f"
    unfolding recordReplaceableLaunchFailure_def Let_def
    by (intro transitions[OF assms(1)])
      (auto simp: launch_failed_event_def retryExhaustedEvents_def failed_facts_def
        intro!: lifecycle.launch_replaceable[OF assms(2) that])
  moreover have "transition env r st d (snd (recordTerminalLaunchFailure env r v st intent ?f err d))" if "\<not> failure_indeterminate ?f"
    unfolding recordTerminalLaunchFailure_def snd_answered
    by (intro transitions[OF assms(1)])
      (use lifecycle.launch_failed[OF assms(2) that] in \<open>auto simp: launch_failed_event_def failed_facts_def\<close>)
  ultimately show ?thesis using Inl by (simp add: stepLaunch_def recordLaunchFailure_def Let_def)
qed

lemma stage_events_facts:
  "dated env (capacityStageEvents r st data ob enrolled (oe_now env))"
  "map ne_Data (capacityStageEvents r st data ob enrolled now) = map FactCapacityStageObserved (capacityStageObservations st data ob enrolled now)"
  by (auto simp: capacityStageEvents_def dated_def)

lemma recordCapacityAccepted_transition:
  assumes "log_inv (fst d)" "building st" "capacityAccepted st = None"
  shows "transition env r st d (snd (recordCapacityAccepted env r v acc d))"
  unfolding recordCapacityAccepted_def
  by (intro transitions[OF assms(1)]) (auto intro: lifecycle.capacity_accepted[OF assms(2,3)])

lemma stepBuildCapacity_transition:
  assumes "log_inv (fst d)" "building st"
  shows "transition env r st d (snd (stepBuildCapacity env r v st req intent data d))"
proof (cases "capacityAccepted st = None")
  case True
  note acc = recordCapacityAccepted_transition[OF assms True]
  have "transition env r st d (snd (allocateCapacity env seam inviter r v req intent data d))" for seam inviter
    using acc by (auto simp: allocateCapacity_def split: sum.splits option.splits)
  with True show ?thesis by (auto simp: stepBuildCapacity_def split: option.splits)
next
  case False
  have "transition env r st d (snd (reclaimCapacity env seam r v st intent data d))" for seam
    using lifecycle.capacity_reclaimed[OF assms(2) False]
    by (auto simp: reclaimCapacity_def split: sum.splits intro!: transitions[OF assms(1)])
  moreover have "transition env r st d (snd (appendEvents env r v key (capacityStageEvents r st data ob enrolled (oe_now env)) True d))"
    if "capacityStageEvents r st data ob enrolled (oe_now env) \<noteq> []" for key ob enrolled
  proof -
    have "capacityStageObservations st data ob enrolled (oe_now env) \<noteq> []" using that by (simp add: capacityStageEvents_def)
    from lifecycle.capacity_arriving[OF assms(2) False this] show ?thesis
      by (intro transitions[OF assms(1)]) (simp_all only: stage_events_facts)
  qed
  ultimately have "transition env r st d (snd (watchCapacityArrive env seam inviter r v st intent data d))" for seam inviter
    by (auto simp: watchCapacityArrive_def Let_def split: sum.splits)
  with False show ?thesis by (auto simp: stepBuildCapacity_def split: option.splits)
qed

lemma workloadStarted_effect:
  assumes "workloadStarted st ob d = Inr (Some t)"
  shows "schedule_effect r Same (tb_Schedules (snd d)) ((tb_Schedules (snd d))(rs_RentalID t \<mapsto> t))"
proof -
  obtain b s where b: "booked st = Some b"
    and s: "s = (case tb_Schedules (snd d) (b_RentalID b) of None \<Rightarrow> NewRentalSchedule empty_string | Some s \<Rightarrow> s)"
    and h: "schedule_Holding s \<noteq> None" and t: "schedule_Started s (b_ID b) (bookingStartedAt ob) = Inr t"
    using assms by (auto simp: workloadStarted_def Let_def split: if_splits option.splits sum.splits)
  have "tb_Schedules (snd d) (b_RentalID b) = Some s"
    using s h by (auto simp: schedule_Holding_def NewRentalSchedule_def split: option.splits)
  with t show ?thesis unfolding schedule_effect_def slot_change.case by blast
qed

lemma recordObservation_transition:
  assumes "log_inv (fst d)" "launched st"
  shows "transition env r st d (snd (recordObservation env r v st ob d))"
proof -
  let ?es = "observation_events r v ob (startMoment st ob) (oe_now env)"
  have es: "dated env ?es" "lifecycle st (map ne_Data ?es) Same"
    by (auto simp: observation_events_def split: option.splits intro!: lifecycle.observed[OF assms(2)])
  let ?req = "runAppendRequest env empty_string r v (''advance:observe:'' @ Itoa (int v)) ?es"
  have "transition env r st d (snd (commitObservation env ?req st ob answer d))" for answer
  proof (cases "workloadStarted st ob d")
    case (Inl err)
    then show ?thesis by (simp add: commitObservation_def)
  next
    case (Inr started)
    show ?thesis
    proof (cases started)
      case None
      then show ?thesis using Inr appendEventsAs_transition[OF assms(1) es]
        by (simp add: commitObservation_def appendEventsAs_def)
    next
      case (Some t)
      with Inr have w: "workloadStarted st ob d = Inr (Some t)" by simp
      show ?thesis using done_or_transition[OF assms(1) es workloadStarted_effect[OF w]] w
        by (simp add: commitObservation_def)
    qed
  qed
  then show ?thesis by (simp add: recordObservation_def Let_def)
qed

lemma terminal_transition:
  assumes "log_inv (fst d)" "\<not> closed st" "firstTerminal st = Some oc" "\<not> outcomeRecorded st"
  shows "transition env r st d (snd (recordTerminalTransition env r v st oc d))"
proof (cases "externalObjectPossible st")
  case True
  then obtain l where "launchIntent st = Some l" by (auto simp: externalObjectPossible_def split: if_splits)
  with lifecycle.ended[OF assms(2-4) True this] show ?thesis
    using True by (auto simp: recordTerminalTransition_def outcome_event_def intro!: transitions[OF assms(1)])
next
  case False
  note ends = lifecycle.ended_unlaunched[OF assms(2-4) False refl]
  show ?thesis
  proof (cases "bookingQueued st")
    case True
    with ends False show ?thesis
      by (auto simp: recordTerminalTransition_def outcome_event_def closed_event_def intro!: transitions[OF assms(1)])
  next
    case nq: False
    with ends False show ?thesis
      by (auto simp: recordTerminalTransition_def outcome_event_def closed_event_def intro!: transitions[OF assms(1)])
  qed
qed

lemma cleanup_transition:
  assumes "log_inv (fst d)" "\<not> closed st" "cleanupRequested st" "\<not> cleanupConfirmed st"
  shows "transition env r st d (snd (releaseAndCloseScheduled env r v st d))"
proof -
  have "transition env r st d (snd (recordCleanupFailure env r v intent err d))" for intent err
    unfolding recordCleanupFailure_def snd_answered
    by (intro transitions[OF assms(1)]) (use lifecycle.cleanup_failed[OF assms(2-4)] in simp_all)
  moreover have "transition env r st d (snd (completeBookingAndAppend env r v st key
      [mustEvent r ''cleanup_confirmed'' (FactCleanupConfirmed cf) (oe_now env), closed_event r (oe_now env)] True d))" for key cf
    by (intro transitions[OF assms(1)]) (use lifecycle.cleaned[OF assms(2-4)] in \<open>simp_all add: closed_event_def\<close>)
  ultimately show ?thesis by (auto simp: releaseAndCloseScheduled_def split: option.splits)
qed

lemma step_transition:
  assumes "log_inv (fst d)" "schedules_kept (tb_Schedules (snd d))"
  shows "transition env r st d (snd (step env r v st d))"
proof (cases "closed st \<or> (cleanupRequested st \<and> \<not> cleanupConfirmed st) \<or> requested st = None
    \<or> (firstTerminal st \<noteq> None \<and> \<not> outcomeRecorded st) \<or> bookingQueued st")
  case True
  then show ?thesis using cleanup_transition[OF assms(1)] terminal_transition[OF assms(1)] dispatch_transition[OF assms]
    by (auto simp: step_def split: option.splits)
next
  case False
  then obtain req where req: "requested st = Some req" by auto
  have admit: "transition env r st d (snd (case inputsAreDurable env (rq_Workload req) of
       Inl err \<Rightarrow> (Inl (OrchRefused err), d)
     | Inr durable \<Rightarrow> if \<not> durable then (Inr False, d) else stepAdmit env r v st req d))"
    if "launchIntent st = None \<or> state_replacementEligible st"
  proof -
    have "waiting_for_place st" using False req that by (auto simp: waiting_for_place_def)
    from stepAdmit_transition[OF assms this] show ?thesis by (auto split: sum.splits)
  qed
  show ?thesis
  proof (cases "launchIntent st")
    case None
    with admit have "transition env r st d (snd (case inputsAreDurable env (rq_Workload req) of
       Inl err \<Rightarrow> (Inl (OrchRefused err), d)
     | Inr durable \<Rightarrow> if \<not> durable then (Inr False, d) else stepAdmit env r v st req d))" by simp
    with None False req show ?thesis by (auto simp: step_def split: option.splits)
  next
    case (Some intent)
    show ?thesis
    proof (cases "state_replacementEligible st")
      case True
      with False req Some admit show ?thesis by (auto simp: step_def)
    next
      case ne: False
      have l: "launched st" using False ne req Some by (simp add: launched_def)
      have ob: "transition env r st d (snd (case observeLaunch env st intent of
          Inl err \<Rightarrow> (Inl (OrchAdapter err), d) | Inr ob \<Rightarrow> recordObservation env r v st ob d))"
        using recordObservation_transition[OF assms(1) l] by (auto split: sum.splits)
      have b: "building st" if "capacity st \<noteq> None \<and> \<not> nodeEnrolled st" using l that by (simp add: building_def)
      have g: "launching st" if "\<not> (capacity st \<noteq> None \<and> \<not> nodeEnrolled st)" "\<not> launchAccepted st \<and> launchFailure st = None"
        using l that by (auto simp: launching_def)
      note cases = stepBuildCapacity_transition[OF assms(1) b] stepLaunch_transition[OF assms(1) g] ob
      show ?thesis
      proof (cases "capacity st \<noteq> None \<and> \<not> nodeEnrolled st")
        case True
        with False ne req Some cases(1) show ?thesis by (auto simp: step_def)
      next
        case built: False
        then show ?thesis using False ne req Some cases(2,3)
          by (cases "\<not> launchAccepted st \<and> launchFailure st = None") (auto simp: step_def)
      qed
    qed
  qed
qed

subsection \<open>How a Run ends\<close>

text \<open>An outcome is recorded with the closing of the Run or with a request to clean up, and a Run whose
  cleanup is confirmed is closed.\<close>

definition ending_ok :: "run_state \<Rightarrow> bool" where
  "ending_ok st \<longleftrightarrow> (outcomeRecorded st \<longrightarrow> closed st \<or> cleanupRequested st) \<and> (cleanupConfirmed st \<longrightarrow> closed st)"

text \<open>A launch that was accepted, or that nobody knows the outcome of, is the one launch of the current
  attempt; a Run is not closed over it before the adapter confirmed the cleanup.\<close>

definition launch_ok :: "run_state \<Rightarrow> bool" where
  "launch_ok st \<longleftrightarrow>
     (launchAccepted st \<or> launchFailure st \<noteq> None \<longrightarrow>
        launchIntent st \<noteq> None \<and> capacityReclaimed st = None \<and> (capacity st = None \<or> nodeEnrolled st))
   \<and> (launchAccepted st \<longrightarrow> launchFailure st = None)
   \<and> (closed st \<longrightarrow> launchAccepted st \<or> launchIndeterminate st \<longrightarrow> cleanupConfirmed st)"

definition orderly :: "run_state \<Rightarrow> bool" where
  "orderly st \<longleftrightarrow> ending_ok st \<and> launch_ok st"

fun quiet :: "run_fact \<Rightarrow> bool" where
  "quiet (FactRunRequested _) = True"
| "quiet (FactBookingDecided _) = True"
| "quiet (FactAdmissionDeferred _) = True"
| "quiet (FactAdmissionRefused _) = True"
| "quiet (FactBookingDispatched _) = True"
| "quiet (FactCapacityAccepted _) = True"
| "quiet (FactCancelRequested _) = True"
| "quiet (FactExternalStateObserved _) = True"
| "quiet (FactExecutionStarted _) = True"
| "quiet (FactRunReported _) = True"
| "quiet (FactCleanupFailed _) = True"
| "quiet _ = False"

definition same_course :: "run_state \<Rightarrow> run_state \<Rightarrow> bool" where
  "same_course st st' \<longleftrightarrow> launchIntent st' = launchIntent st \<and> launchAccepted st' = launchAccepted st
     \<and> launchFailure st' = launchFailure st \<and> capacityReclaimed st' = capacityReclaimed st
     \<and> (capacity st' = None \<longleftrightarrow> capacity st = None) \<and> nodeEnrolled st' = nodeEnrolled st
     \<and> outcomeRecorded st' = outcomeRecorded st \<and> cleanupRequested st' = cleanupRequested st
     \<and> cleanupConfirmed st' = cleanupConfirmed st \<and> closed st' = closed st"

lemma quiet_keeps: "quiet f \<Longrightarrow> apply_fact js now a f st = Inr st' \<Longrightarrow> same_course st st'"
  by (cases f) (auto simp: same_course_def fact_effects Let_def split: option.splits if_splits)

lemma quiet_all_keep: "list_all quiet fs \<Longrightarrow> apply_facts js now a fs st = Inr st' \<Longrightarrow> same_course st st'"
  by (induction fs arbitrary: st) (auto simp: apply_facts_simps same_course_def dest: quiet_keeps)

lemma same_course_launch:
  "same_course st st' \<Longrightarrow> launchAccepted st' = launchAccepted st \<and> launchIndeterminate st' = launchIndeterminate st"
  by (simp add: same_course_def launchIndeterminate_def)

lemma same_course_orderly: "same_course st st' \<Longrightarrow> orderly st' = orderly st"
  by (simp add: same_course_def orderly_def ending_ok_def launch_ok_def launchIndeterminate_def)

lemmas course_defs = orderly_def ending_ok_def launch_ok_def launchIndeterminate_def

text \<open>A Run closed by failing closes over no launch that may have made something.\<close>

lemma failed_facts_orderly:
  assumes "apply_facts js now a [FactRunOutcomeRecorded oc, FactRunClosed True] s = Inr st'" "orderly s"
    "\<not> launchAccepted s" "\<not> launchIndeterminate s"
  shows "orderly st'"
proof -
  have "st' = s\<lparr>outcomeRecorded := True, outcome := oc, closed := True\<rparr>" using assms(1) by (auto simp: apply_facts_simps apply_fact_def)
  with assms(2-4) show ?thesis by (simp add: course_defs)
qed

lemma waiting_course: "waiting_for_place st \<Longrightarrow> orderly st \<Longrightarrow> \<not> launchAccepted st \<and> \<not> launchIndeterminate st"
  by (auto simp: waiting_for_place_def course_defs state_replacementEligible_def dest: failure_kinds split: option.splits if_splits)

lemma attempt_effect: "apply_fact js now a (FactAttemptCreated d) st = Inr s \<Longrightarrow> s = new_attempt d st"
  by (simp add: apply_fact_def)

lemma intent_effect: "apply_fact js now a (FactLaunchIntentRecorded l) st = Inr s \<Longrightarrow> s = st\<lparr>launchIntent := Some l\<rparr>"
  by (simp add: apply_fact_def)

lemma placed_orderly:
  assumes "apply_facts js now a [f, FactAttemptCreated at1, FactLaunchIntentRecorded l] st = Inr s" "quiet f" "orderly st" "\<not> closed st"
  shows "orderly s" "\<not> launchAccepted s" "launchFailure s = None" "\<not> closed s"
proof -
  obtain s1 s2 where s1: "apply_fact js now a f st = Inr s1" "apply_fact js now a (FactAttemptCreated at1) s1 = Inr s2"
    "apply_fact js now a (FactLaunchIntentRecorded l) s2 = Inr s"
    using assms(1) unfolding apply_facts_simps sum.inject by blast
  have s: "s = (new_attempt at1 s1)\<lparr>launchIntent := Some l\<rparr>"
    using attempt_effect[OF s1(2)] intent_effect[OF s1(3)] by simp
  from quiet_keeps[OF assms(2) s1(1)] have "same_course st s1" .
  with assms(3,4) have "ending_ok s1" "\<not> closed s1" by (simp_all add: same_course_def course_defs)
  then show "orderly s" "\<not> launchAccepted s" "launchFailure s = None" "\<not> closed s"
    by (simp_all add: s new_attempt_def course_defs)
qed

lemma enrolled_orderly:
  assumes "orderly st"
  shows "orderly (st\<lparr>capacityStages := x, lastCapacityStageAt := y, nodeEnrolled := (e \<or> nodeEnrolled st)\<rparr>)" (is "orderly ?s")
proof -
  have same: "launchIntent ?s = launchIntent st" "launchAccepted ?s = launchAccepted st" "launchFailure ?s = launchFailure st"
    "capacityReclaimed ?s = capacityReclaimed st" "capacity ?s = capacity st" "outcomeRecorded ?s = outcomeRecorded st"
    "cleanupRequested ?s = cleanupRequested st" "cleanupConfirmed ?s = cleanupConfirmed st" "closed ?s = closed st"
    "nodeEnrolled ?s \<longleftrightarrow> e \<or> nodeEnrolled st" by simp_all
  show ?thesis using assms unfolding course_defs same by blast
qed

lemma exclude_course: "\<exists>xs. exclude i r st = st\<lparr>excluded := xs\<rparr>"
proof -
  have "st = st\<lparr>excluded := excluded st\<rparr>" by simp
  then show ?thesis unfolding exclude_def by (metis (no_types))
qed

lemma stages_orderly:
  "apply_facts js now a (map FactCapacityStageObserved gs) st = Inr st' \<Longrightarrow> orderly st \<Longrightarrow> orderly st'"
proof (induction gs arbitrary: st)
  case (Cons g gs)
  then obtain s where s: "apply_fact js now a (FactCapacityStageObserved g) st = Inr s"
    "apply_facts js now a (map FactCapacityStageObserved gs) s = Inr st'" by (auto simp: apply_facts_simps)
  obtain x y e where "s = st\<lparr>capacityStages := x, lastCapacityStageAt := y, nodeEnrolled := (e \<or> nodeEnrolled st)\<rparr>"
    using s(1) by (auto simp: apply_fact_def observe_stage_def split: option.splits if_splits)
  then have "orderly s" using enrolled_orderly[OF Cons.prems(2)] by simp
  then show ?case by (rule Cons.IH[OF s(2)])
qed (simp add: apply_facts_simps)

lemma failure_course:
  assumes "apply_fact js now a f st = Inr s" "f = FactLaunchFailed x \<or> f = FactLaunchIndeterminate x"
  shows "s = st\<lparr>launchFailure := Some x, excluded := excluded s\<rparr>"
  using assms by (auto simp: apply_fact_def fail_launch_def exclude_def Let_def split: option.splits if_splits)

lemma launching_course:
  assumes "launching st" "orderly st"
  shows "\<not> closed st" "launchIntent st \<noteq> None" "\<not> launchAccepted st" "launchFailure st = None" "capacityReclaimed st = None"
    "capacity st = None \<or> nodeEnrolled st"
  using assms by (auto simp: launching_def launched_def state_replacementEligible_def split: if_splits)

lemma quiet_orderly: "apply_facts js now a fs st = Inr st' \<Longrightarrow> orderly st \<Longrightarrow> list_all quiet fs \<Longrightarrow> orderly st'"
  using same_course_orderly quiet_all_keep by blast

lemma lifecycle_orderly:
  assumes "lifecycle st fs c" "orderly st" "apply_facts js now a fs st = Inr st'"
  shows "orderly st'"
  using assms
proof (induction rule: lifecycle.induct)
  case (refused st fs w)
  then obtain s where s: "apply_facts js now a (fs @ [FactAdmissionRefused w]) st = Inr s" "apply_facts js now a failed_facts s = Inr st'"
    by (auto simp: apply_facts_append apply_facts_simps)
  have "list_all quiet (fs @ [FactAdmissionRefused w])" using refused(2) by (auto simp: admission_evidence_def)
  then have k: "same_course st s" by (rule quiet_all_keep[OF _ s(1)])
  have o: "orderly s" "\<not> launchAccepted s" "\<not> launchIndeterminate s"
    using waiting_course[OF refused(1,3)] refused(3) same_course_orderly[OF k] same_course_launch[OF k] by simp_all
  show ?case by (rule failed_facts_orderly[OF s(2)[unfolded failed_facts_def] o])
next
  case (exhausted st d)
  then obtain s where s: "apply_fact js now a (FactBookingDecided d) st = Inr s" "apply_facts js now a failed_facts s = Inr st'"
    by (auto simp: apply_facts_simps)
  have k: "same_course st s" by (rule quiet_keeps[OF _ s(1)]) simp
  have o: "orderly s" "\<not> launchAccepted s" "\<not> launchIndeterminate s"
    using waiting_course[OF exhausted(1,4)] exhausted(4) same_course_orderly[OF k] same_course_launch[OF k] by simp_all
  show ?case by (rule failed_facts_orderly[OF s(2)[unfolded failed_facts_def] o])
next
  case (placed st d b cs c at1 l)
  then obtain s where s: "apply_facts js now a [FactBookingDecided d, FactAttemptCreated at1, FactLaunchIntentRecorded l] st = Inr s"
    "apply_facts js now a cs s = Inr st'" by (auto simp: apply_facts_simps)
  have "\<not> closed st" using placed(1) by (simp add: waiting_for_place_def)
  note p = placed_orderly[OF s(1) _ placed(5) this]
  from placed(4) show ?case
  proof
    assume "cs = []"
    with s(2) p show ?thesis by (simp add: apply_facts_simps)
  next
    assume "cs = [FactCapacityRequested c]"
    then have "st' = s\<lparr>capacity := Some c\<rparr>" using s(2) by (simp add: apply_facts_simps apply_fact_def)
    with p show ?thesis by (simp add: course_defs)
  qed
next
  case (dispatched st b b' at1 l)
  then show ?case using placed_orderly(1)[OF dispatched(7) _ dispatched(6,1)] by simp
next
  case (capacity_arriving st gs)
  then show ?case using stages_orderly by blast
next
  case (capacity_reclaimed st b rc)
  then have "st' = exclude (rc_OfferSnapshotID rc) OfferCapacityReclaimed (st\<lparr>capacityReclaimed := Some rc\<rparr>)"
    by (auto simp: apply_facts_simps apply_fact_def)
  then obtain xs where st': "st' = st\<lparr>capacityReclaimed := Some rc, excluded := xs\<rparr>" using exclude_course by metis
  have "\<not> launchAccepted st" "launchFailure st = None" "\<not> closed st"
    using capacity_reclaimed(1,4) by (auto simp: building_def launched_def course_defs)
  with capacity_reclaimed(4) show ?case by (simp add: st' course_defs)
next
  case (launch_accepted st receipt)
  then have "st' = st\<lparr>launchAccepted := True, launchAcceptedAt := now\<rparr>" by (simp add: apply_facts_simps apply_fact_def)
  with launching_course[OF launch_accepted(1,2)] launch_accepted(2) show ?case by (simp add: course_defs)
next
  case (launch_indeterminate st f)
  then obtain xs where st': "st' = st\<lparr>launchFailure := Some f, excluded := xs\<rparr>"
    using failure_course[of js now a "FactLaunchIndeterminate f" st st' f] by (auto simp: apply_facts_simps)
  show ?case using launching_course[OF launch_indeterminate(1,3)] launch_indeterminate(3) by (simp add: st' course_defs)
next
  case (launch_replaceable st f b fs)
  then obtain s where s: "apply_fact js now a (FactLaunchFailed f) st = Inr s" "apply_facts js now a fs s = Inr st'"
    by (auto simp: apply_facts_simps)
  then obtain xs where s': "s = st\<lparr>launchFailure := Some f, excluded := xs\<rparr>" using failure_course by metis
  have o: "orderly s" "\<not> launchAccepted s" "\<not> launchIndeterminate s"
    using launching_course[OF launch_replaceable(1,5)] launch_replaceable(2,5) failure_kinds[of f] by (auto simp: s' course_defs)
  from launch_replaceable(4) show ?case
  proof
    assume "fs = []"
    with s(2) o(1) show ?thesis by (simp add: apply_facts_simps(1))
  next
    assume "fs = failed_facts"
    with s(2) show ?thesis by (intro failed_facts_orderly[OF _ o, of js now a RunOutcomeFailed]) (simp add: failed_facts_def)
  qed
next
  case (launch_failed st f b)
  then obtain s where s: "apply_fact js now a (FactLaunchFailed f) st = Inr s" "apply_facts js now a failed_facts s = Inr st'"
    by (auto simp: apply_facts_simps)
  then obtain xs where s': "s = st\<lparr>launchFailure := Some f, excluded := xs\<rparr>" using failure_course by metis
  have o: "orderly s" "\<not> launchAccepted s" "\<not> launchIndeterminate s"
    using launching_course[OF launch_failed(1,4)] launch_failed(2,4) by (auto simp: s' course_defs)
  show ?case by (rule failed_facts_orderly[OF s(2)[unfolded failed_facts_def] o])
next
  case (ended_unlaunched st oc ch)
  then have "\<not> launchAccepted st" "\<not> launchIndeterminate st"
    by (auto simp: course_defs externalObjectPossible_def failure_indeterminate_def split: option.splits if_splits)
  then show ?case by (rule failed_facts_orderly[OF ended_unlaunched(7,6)])
next
  case (ended st oc l)
  then show ?case by (auto simp: apply_facts_simps apply_fact_def course_defs)
next
  case (cleaned st b cf)
  then show ?case by (auto simp: apply_facts_simps apply_fact_def course_defs)
next
  case (requested q)
  then show ?case using quiet_orderly by (auto simp: admission_evidence_def)
next
  case (deferred st fs w)
  then show ?case using quiet_orderly by (auto simp: admission_evidence_def)
next
  case (queued st d b)
  then show ?case using quiet_orderly by (auto simp: admission_evidence_def)
next
  case (capacity_accepted st acc)
  then show ?case using quiet_orderly by (auto simp: admission_evidence_def)
next
  case (observed st fs x ob)
  then show ?case using quiet_orderly by (auto simp: admission_evidence_def)
next
  case (cleanup_failed st e)
  then show ?case using quiet_orderly by (auto simp: admission_evidence_def)
next
  case (cancelled st cn)
  then show ?case using quiet_orderly by (auto simp: admission_evidence_def)
next
  case (reported st rp)
  then show ?case using quiet_orderly by (auto simp: admission_evidence_def)
qed

end
