(* ===== verification/Ledger.thy ===== *)
theory Ledger
  imports Lifecycle
begin

text \<open>
  The stores the orchestrator leaves behind, whatever sequence of its commands ran and whatever the
  adapters, the capacity seam and the clock answered to each: the log stays ordered, the table of Runs
  mirrors it, every Rental Schedule keeps its shape, and the Bookings on the schedules are the ones the
  Runs hold.
\<close>

subsection \<open>One commit\<close>

definition run_at :: "(string \<Rightarrow> string option) \<Rightarrow> run_fact event_log \<Rightarrow> string \<Rightarrow> run_state \<Rightarrow> bool" where
  "run_at js lg r st \<longleftrightarrow> reduce_facts (applyStoredEvent js) (run_stream lg r) no_state = Inr st"

lemma run_at_unique: "run_at js lg r st \<Longrightarrow> run_at js lg r st' \<Longrightarrow> st = st'"
  by (simp add: run_at_def)

lemma run_at_reduced: "reduceRun js (run_stream lg r) = Inr st \<Longrightarrow> run_at js lg r st"
  by (simp add: run_at_def reduceRun_Inr)

lemma run_stream_runStream: "run_stream lg r = stream_of lg (runStream r)"
  by (simp add: runStream_def)

lemma rows_apply:
  assumes "\<forall>e \<in> set es. ne_OccurredAt e = now \<and> ne_SchemaVersion e = 1"
  shows "reduce_facts (applyStoredEvent js) (rows_of now req p i es) st = apply_facts js now (ar_Actor req) (map ne_Data es) st"
  using assms
  by (induction es arbitrary: p i st) (auto simp: apply_facts_def applyStoredEvent_def stored_of_def split: sum.splits)

lemma committed_effect:
  assumes "committed env r fs c d d'" "run_at (oe_subject env) (fst d) r st"
  obtains a st' rec rows where "apply_facts (oe_subject env) (oe_now env) a fs st = Inr st'"
    "run_at (oe_subject env) (fst d') r st'" "state_validate st' = None" "runRecordFromState r st' = Some rec"
    "tb_Runs (snd d') = AList.update r rec (tb_Runs (snd d))"
    "\<And>q. q \<noteq> r \<Longrightarrow> run_stream (fst d') q = run_stream (fst d) q" "log_inv (fst d')"
    "el_Events (fst d') = el_Events (fst d) @ rows"
    "schedule_effect r c (tb_Schedules (snd d)) (tb_Schedules (snd d'))"
proof -
  from assms(1) obtain req where g: "granted env req d d'" and s: "ar_Stream req = runStream r"
    and fs: "map ne_Data (ar_Events req) = fs" and eff: "schedule_effect r c (tb_Schedules (snd d)) (tb_Schedules (snd d'))"
    by (auto simp: committed_def)
  have id: "sk_ID (ar_Stream req) = r" by (simp add: s runStream_def)
  from g obtain st0 st' rec where red: "reduces env (stream_of (fst d) (ar_Stream req)) no_state = Inr st0"
      "reduces env (new_rows env req d) st0 = Inr st'" "state_validate st' = None" "runRecordFromState r st' = Some rec"
      "tb_Runs (snd d') = AList.update r rec (tb_Runs (snd d))"
    and log: "fst d' = appended (oe_now env) req (fst d)" "log_inv (fst d')" "stamped env req"
    by (auto simp: granted_def id)
  have st0: "st0 = st" using red(1) assms(2) by (simp add: run_at_def run_stream_runStream s)
  have app: "apply_facts (oe_subject env) (oe_now env) (ar_Actor req) fs st = Inr st'"
    using red(2) log(3) rows_apply[of "ar_Events req" "oe_now env"] by (simp add: stamped_def st0 fs)
  have at': "run_at (oe_subject env) (fst d') r st'"
    unfolding run_at_def run_stream_runStream log(1) stream_of_appended
    using red(1,2) by (simp add: s reduce_facts_append_Inr st0)
  have other: "run_stream (fst d') q = run_stream (fst d) q" if "q \<noteq> r" for q
    using that by (simp add: log(1) stream_of_appended s runStream_def)
  have rows: "el_Events (fst d') = el_Events (fst d) @ new_rows env req d" by (simp add: log(1) appended_def Let_def)
  show ?thesis by (rule that[OF app at' red(3-5) other log(2) rows eff])
qed

definition moves :: "(string \<Rightarrow> string option) \<Rightarrow> durable \<Rightarrow> durable \<Rightarrow> bool" where
  "moves js d d' \<longleftrightarrow> d' = d \<or> (\<exists>env r st fs c. oe_subject env = js \<and> run_at js (fst d) r st
     \<and> lifecycle st fs c \<and> committed env r fs c d d')"

lemma moves_same [simp]: "moves js d d"
  by (simp add: moves_def)

lemma transition_moves:
  "transition env r st d d' \<Longrightarrow> run_at (oe_subject env) (fst d) r st \<Longrightarrow> moves (oe_subject env) d d'"
  by (auto simp: transition_def moves_def)

lemma readStream_events:
  assumes "log_inv lg" "readStream lg (runStream r) = Inr h"
  shows "sh_Events h = run_stream lg r"
proof (cases "r = empty_string")
  case True
  then have "ScanStream (ReadStream lg) (runStream r) = Some ([], Some (ReadFailed StreamKeyRequired))"
    by (simp add: ScanStream_def ScanStream_from.simps ReadStream_def runStream_def stream_validate_def)
  then show ?thesis using assms(2) by (simp add: readStream_def ReadFullStream_def)
next
  case False
  then show ?thesis using readStream_eq[OF assms(1), of "runStream r"] assms(2)
    by (simp add: runStream_valid run_stream_runStream)
qed

lemma advance_moves:
  assumes "log_inv (fst d)" "schedules_kept (tb_Schedules (snd d))"
  shows "moves (oe_subject env) d (snd (advance_once env r d))"
proof -
  have "moves (oe_subject env) d (snd (step env r v st d))" if "reduceRun (oe_subject env) (run_stream (fst d) r) = Inr st" for st v
    by (rule transition_moves[OF step_transition[OF assms] run_at_reduced[OF that]])
  then show ?thesis
    by (auto simp: advance_once_def readStream_events[OF assms(1)] split: sum.splits)
qed

lemma cancel_moves:
  assumes "log_inv (fst d)"
  shows "moves (oe_subject env) d (snd (request_cancel env r actor d))"
proof -
  have "transition env r st d (snd (appendEventsAs env actor r v key [mustEvent r sfx (FactCancelRequested x) (oe_now env)] () d))"
    if "\<not> closed st" "\<not> cancelRequested st" for st v key sfx x
    by (intro appendEventsAs_transition[OF assms]) (simp_all add: lifecycle.cancelled[OF that])
  then have "moves (oe_subject env) d (snd (appendEventsAs env actor r v key [mustEvent r sfx (FactCancelRequested x) (oe_now env)] () d))"
    if "reduceRun (oe_subject env) (run_stream (fst d) r) = Inr st" "\<not> closed st" "\<not> cancelRequested st" for st v key sfx x
    using that by (intro transition_moves[OF _ run_at_reduced]) blast+
  then show ?thesis
    by (auto simp: request_cancel_def readStream_events[OF assms] Let_def split: sum.splits)
qed

lemma report_moves:
  assumes "log_inv (fst d)" "\<forall>r. \<exists>st. run_at (oe_subject env) (fst d) r st"
  shows "moves (oe_subject env) d (snd (RecordReport env r report d))"
proof -
  obtain st where st: "run_at (oe_subject env) (fst d) r st" using assms(2) by blast
  have "transition env r st d d'" if "appendRun env (report_request env r x v) d = Inr (d', res)" for x v d' res
    by (rule append_transition[OF assms(1) _ _ _ that]) (simp_all add: report_request_def Let_def lifecycle.reported)
  then show ?thesis using transition_moves[OF _ st]
    by (auto simp: RecordReport_def split: sum.splits)
qed

lemma create_moves:
  assumes "log_inv (fst d)"
  shows "moves (oe_subject env) d (snd (CreateRun env req d))"
proof -
  have "moves (oe_subject env) d d'"
    if app: "appendRun env ar d = Inr (d', res)" and ar: "ar_Stream ar = runStream r" "ar_ExpectedStreamVersion ar = 0"
      "ar_Events ar = [mustEvent r sfx (FactRunRequested q) (oe_now env)]" for ar d' res r sfx q
  proof -
    have "stamped env ar" using ar by (auto simp: stamped_def)
    from appendRun_Inr[OF assms this app] consider "d' = d" | "granted env ar d d'" "tb_Schedules (snd d') = tb_Schedules (snd d)"
      by blast
    then show ?thesis
    proof cases
      case 2
      then have "run_stream (fst d) r = []" using ar(1,2) by (simp add: granted_def run_stream_runStream)
      then have "run_at (oe_subject env) (fst d) r no_state" by (simp add: run_at_def)
      moreover have "committed env r [FactRunRequested q] Same d d'"
        using 2 ar by (auto simp: committed_def schedule_effect_def)
      ultimately show ?thesis unfolding moves_def using lifecycle.requested by blast
    qed (simp add: moves_def)
  qed
  then show ?thesis
    by (auto simp: CreateRun_def Let_def split: sum.splits)
qed

subsection \<open>What the stores keep\<close>

definition sound_stores :: "(string \<Rightarrow> string option) \<Rightarrow> durable \<Rightarrow> bool" where
  "sound_stores js d \<longleftrightarrow> log_inv (fst d) \<and> mirrors js d \<and> schedules_kept (tb_Schedules (snd d))
     \<and> (\<forall>r. \<exists>st. run_at js (fst d) r st \<and> steady st \<and> orderly st)"

lemma sound_new: "sound_stores js new_storage"
  using mirrors_new[of js] empty_log_inv
  by (auto simp: sound_stores_def new_storage_def schedules_kept_def run_at_def stream_of_def empty_log_def slot_defs course_defs no_state_def)

lemma moves_sound:
  assumes "sound_stores js d" "moves js d d'"
  shows "sound_stores js d'"
proof (cases "d' = d")
  case False
  then obtain env r st fs c where e: "oe_subject env = js" "run_at js (fst d) r st" "lifecycle st fs c" "committed env r fs c d d'"
    using assms(2) by (auto simp: moves_def)
  obtain a st' rec rows where f: "apply_facts js (oe_now env) a fs st = Inr st'" "run_at js (fst d') r st'"
    "state_validate st' = None" "runRecordFromState r st' = Some rec" "tb_Runs (snd d') = AList.update r rec (tb_Runs (snd d))"
    "\<And>q. q \<noteq> r \<Longrightarrow> run_stream (fst d') q = run_stream (fst d) q" "log_inv (fst d')"
    "schedule_effect r c (tb_Schedules (snd d)) (tb_Schedules (snd d'))"
    using committed_effect[OF e(4)] e(1,2) by metis
  have st: "steady st" "orderly st" using assms(1) e(2) run_at_unique by (metis sound_stores_def)+
  have st': "steady st' \<and> orderly st'"
    using lifecycle_moves[OF e(3) st(1) f(1)] lifecycle_orderly[OF e(3) st(2) f(1)] by (simp add: slot_moves_def)
  have red: "reduceRun js (run_stream (fst d') r) = Inr st'" using f(2,3) by (simp add: reduceRun_Inr run_at_def)
  have ne: "run_stream (fst d') r \<noteq> []"
    using f(2,3) by (auto simp: run_at_def state_validate_def no_state_def)
  have m: "mirrors js (fst d, snd d)" using assms(1) by (simp add: sound_stores_def)
  have "mirrors js (fst d', snd d')" by (rule mirrors_put[OF m f(6) ne red f(4,5)])
  moreover have "schedules_kept (tb_Schedules (snd d'))"
    using schedule_effect_slots(1)[OF _ f(8)] assms(1) by (simp add: sound_stores_def)
  moreover have "\<exists>s. run_at js (fst d') q s \<and> steady s \<and> orderly s" for q
  proof (cases "q = r")
    case True
    with f(2) st' show ?thesis by blast
  next
    case False
    then have "run_at js (fst d') q s = run_at js (fst d) q s" for s using f(6) by (simp add: run_at_def)
    then show ?thesis using assms(1) by (simp add: sound_stores_def)
  qed
  ultimately show ?thesis using f(7) by (simp add: sound_stores_def)
qed (use assms in simp)

lemma replacement_rows_Inr:
  "replacement_rows rs rows = Inr rows' \<Longrightarrow> rows' = rows @ map (\<lambda>rec. (rec_ID rec, rec)) rs"
  by (induction rs rows rule: replacement_rows.induct) (auto split: if_splits)

text \<open>Rebuilding the table from the log writes the rows it already has.\<close>

lemma rebuild_keeps:
  assumes "sound_stores js d" "oe_subject env = js" "RebuildRunProjection env d = Some (Inr d')"
  shows "fst d' = fst d" "tb_Schedules (snd d') = tb_Schedules (snd d)" "tb_Runs (snd d') = sort_key fst (tb_Runs (snd d))"
proof -
  have m: "mirrors js (fst d, snd d)" "log_inv (fst d)" using assms(1) by (simp_all add: sound_stores_def)
  let ?recs = "map snd (sort_key fst (tb_Runs (snd d)))"
  obtain t where t: "runs_Replace ?recs (snd d) = Inr t" "d' = (fst d, t)"
    using assms(2,3) mirrored_records[OF m] by (auto simp: RebuildRunProjection_def split: sum.splits)
  then obtain rows where rows: "replacement_rows ?recs [] = Inr rows" "t = (snd d)\<lparr>tb_Runs := rows\<rparr>"
    by (auto simp: runs_Replace_def split: sum.splits)
  have "rows = map (\<lambda>rec. (rec_ID rec, rec)) ?recs" using replacement_rows_Inr[OF rows(1)] by simp
  also have "\<dots> = sort_key fst (tb_Runs (snd d))"
    using mirrorsD(2)[OF m(1)] by (auto simp: comp_def intro!: map_idI)
  finally show "tb_Runs (snd d') = sort_key fst (tb_Runs (snd d))" by (simp add: t(2) rows(2))
  show "fst d' = fst d" "tb_Schedules (snd d') = tb_Schedules (snd d)" by (simp_all add: t(2) rows(2))
qed

lemma map_of_sort_key:
  assumes "distinct (map fst xs)"
  shows "map_of (sort_key f xs) = map_of xs"
proof -
  have "distinct (map fst (sort_key f xs))" using assms by (simp add: distinct_map)
  then show ?thesis using assms by (intro map_of_inject_set[THEN iffD2]) simp_all
qed

lemma rebuild_sound:
  assumes "sound_stores js d" "oe_subject env = js" "RebuildRunProjection env d = Some (Inr d')"
  shows "sound_stores js d'"
proof -
  note k = rebuild_keeps[OF assms]
  have d: "distinct (map fst (tb_Runs (snd d)))" using assms(1) by (simp add: sound_stores_def mirrors_def)
  then have "distinct (map fst (sort_key fst (tb_Runs (snd d))))" by (simp add: distinct_map)
  then have "mirrors js d'" using assms(1) unfolding sound_stores_def mirrors_def k map_of_sort_key[OF d] by blast
  with assms(1) show ?thesis by (simp add: sound_stores_def k)
qed

subsection \<open>Who holds which Booking\<close>

definition holders :: "(string \<Rightarrow> string option) \<Rightarrow> durable \<Rightarrow> (string \<times> string \<times> string) set" where
  "holders js d = {(k, i, r). \<exists>st. run_at js (fst d) r st \<and> held st = Some (k, i)}"

definition decided_booking :: "run_fact \<Rightarrow> string option" where
  "decided_booking f = (case f of FactBookingDecided d \<Rightarrow> map_option b_ID (bd_Booking d) | _ \<Rightarrow> None)"

text \<open>Booking identities are hashes; no two Runs were given one.\<close>

definition distinct_bookings :: "run_fact event_log \<Rightarrow> bool" where
  "distinct_bookings lg \<longleftrightarrow> list_all (\<lambda>e. list_all (\<lambda>e'. decided_booking (ev_Data e) = None
     \<or> decided_booking (ev_Data e) \<noteq> decided_booking (ev_Data e') \<or> stored_stream e = stored_stream e') (el_Events lg)) (el_Events lg)"

lemma distinct_bookings_before:
  "distinct_bookings lg' \<Longrightarrow> el_Events lg' = el_Events lg @ rows \<Longrightarrow> distinct_bookings lg"
  by (auto simp: distinct_bookings_def list_all_iff)

lemma apply_fact_booked:
  assumes "apply_fact js now a f st = Inr st'" "booked st' = Some b"
  shows "decided_booking f = Some (b_ID b) \<or> (\<exists>b0. booked st = Some b0 \<and> b_ID b0 = b_ID b)"
proof (cases "slotless f")
  case True
  from slotless_keeps[OF True assms(1)] assms(2) show ?thesis by (simp add: keeps_slot_def)
next
  case False
  then show ?thesis using assms
    by (cases f) (auto simp: fact_effects decided_booking_def split: option.splits if_splits)
qed

lemma reduced_booked:
  assumes "reduce_facts (applyStoredEvent js) es st = Inr st'" "booked st' = Some b"
  shows "(\<exists>e \<in> set es. decided_booking (ev_Data e) = Some (b_ID b)) \<or> (\<exists>b0. booked st = Some b0 \<and> b_ID b0 = b_ID b)"
  using assms(1)
proof (induction es arbitrary: st)
  case (Cons e es)
  then obtain s where s: "applyStoredEvent js e st = Inr s" "reduce_facts (applyStoredEvent js) es s = Inr st'"
    unfolding reduce_facts_Cons_Inr by blast
  from Cons.IH[OF s(2)] show ?case
  proof
    assume "\<exists>b0. booked s = Some b0 \<and> b_ID b0 = b_ID b"
    then obtain b0 where b0: "booked s = Some b0" "b_ID b0 = b_ID b" by blast
    from s(1) have "apply_fact js (ev_OccurredAt e) (ev_Actor e) (ev_Data e) st = Inr s"
      by (simp add: applyStoredEvent_def split: if_splits)
    from apply_fact_booked[OF this b0(1)] b0(2) show ?thesis by auto
  qed simp
qed (use assms(2) in simp)

lemma booked_decided:
  assumes "run_at js lg r st" "booked st = Some b"
  shows "\<exists>e \<in> set (el_Events lg). stored_stream e = runStream r \<and> decided_booking (ev_Data e) = Some (b_ID b)"
  using reduced_booked[OF assms(1)[unfolded run_at_def] assms(2)]
  by (auto simp: no_state_def stream_of_def runStream_def)

lemma lifecycle_gives: "lifecycle st fs (Give k i) \<Longrightarrow> \<exists>b. booked st = Some b \<and> b_RentalID b = k \<and> b_ID b = i"
  by (cases rule: lifecycle.cases)
    (auto simp: bookingQueued_def booking_is_def split: if_splits option.splits)

lemma holders_after:
  assumes "run_at js (fst d) r st" "run_at js (fst d') r st'" "\<And>q. q \<noteq> r \<Longrightarrow> run_stream (fst d') q = run_stream (fst d) q"
  shows "holders js d = {x \<in> holders js d. snd (snd x) \<noteq> r} \<union> {(k, i, r) |k i. held st = Some (k, i)}"
    "holders js d' = {x \<in> holders js d. snd (snd x) \<noteq> r} \<union> {(k, i, r) |k i. held st' = Some (k, i)}"
proof -
  have same: "run_at js (fst d') q s \<longleftrightarrow> run_at js (fst d) q s" if "q \<noteq> r" for q s
    using assms(3)[OF that] by (simp add: run_at_def)
  have own: "run_at js (fst d) r s \<longleftrightarrow> s = st" "run_at js (fst d') r s \<longleftrightarrow> s = st'" for s
    using assms(1,2) run_at_unique by blast+
  have "(k, i, q) \<in> holders js d \<longleftrightarrow> (k, i, q) \<in> {x \<in> holders js d. snd (snd x) \<noteq> r} \<union> {(k, i, r) |k i. held st = Some (k, i)}"
    "(k, i, q) \<in> holders js d' \<longleftrightarrow> (k, i, q) \<in> {x \<in> holders js d. snd (snd x) \<noteq> r} \<union> {(k, i, r) |k i. held st' = Some (k, i)}" for k i q
    by (cases "q = r"; simp add: holders_def own same)+
  then show "holders js d = {x \<in> holders js d. snd (snd x) \<noteq> r} \<union> {(k, i, r) |k i. held st = Some (k, i)}"
    "holders js d' = {x \<in> holders js d. snd (snd x) \<noteq> r} \<union> {(k, i, r) |k i. held st' = Some (k, i)}"
    unfolding set_eq_iff split_paired_All by blast+
qed

lemma one_holder_per_booking:
  assumes "distinct_bookings (fst d)" "run_at js (fst d) r st" "booked st = Some b" "(k, b_ID b, q) \<in> holders js d"
  shows "q = r"
proof -
  obtain s b' where q: "run_at js (fst d) q s" "booked s = Some b'" "b_ID b' = b_ID b"
    using assms(4) by (auto simp: holders_def held_def split: if_splits)
  from booked_decided[OF assms(2,3)] booked_decided[OF q(1,2)] q(3) have "runStream r = runStream q"
    using assms(1) unfolding distinct_bookings_def list_all_iff by (metis option.distinct(1))
  then show ?thesis by (simp add: runStream_def)
qed

lemma moves_ledger:
  assumes "sound_stores js d" "moves js d d'" "distinct_bookings (fst d)" "slots (tb_Schedules (snd d)) = holders js d"
  shows "slots (tb_Schedules (snd d')) = holders js d'"
proof (cases "d' = d")
  case False
  then obtain env r st fs c where e: "oe_subject env = js" "run_at js (fst d) r st" "lifecycle st fs c" "committed env r fs c d d'"
    using assms(2) by (auto simp: moves_def)
  obtain a st' where f: "apply_facts js (oe_now env) a fs st = Inr st'" "run_at js (fst d') r st'"
    "\<And>q. q \<noteq> r \<Longrightarrow> run_stream (fst d') q = run_stream (fst d) q"
    "schedule_effect r c (tb_Schedules (snd d)) (tb_Schedules (snd d'))"
    using committed_effect[OF e(4)] e(1,2) by metis
  have "steady st" using assms(1) e(2) run_at_unique by (metis sound_stores_def)
  then have mv: "slot_moves st c st'" by (rule lifecycle_moves[OF e(3) _ f(1)])
  have kept: "schedules_kept (tb_Schedules (snd d))" using assms(1) by (simp add: sound_stores_def)
  note h = holders_after[OF e(2) f(2,3)]
  note s = schedule_effect_slots[OF kept f(4)]
  show ?thesis
  proof (cases c)
    case Same
    then have "held st' = held st" using mv by (simp add: slot_moves_def)
    with h have "holders js d' = holders js d" by simp
    with s(2)[OF Same] assms(4) show ?thesis by simp
  next
    case (Take k i)
    then have held: "held st = None" "held st' = Some (k, i)" using mv by (simp_all add: slot_moves_def)
    have "holders js d' = insert (k, i, r) (holders js d)" using h held by simp
    with s(3)[OF Take] assms(4) show ?thesis by simp
  next
    case (Give k i)
    then have none: "held st' = None" using mv by (simp add: slot_moves_def)
    obtain b where b: "booked st = Some b" "b_RentalID b = k" "b_ID b = i" using lifecycle_gives[OF e(3)[unfolded Give]] by blast
    obtain q where q: "(k, i, q) \<in> holders js d" "slots (tb_Schedules (snd d')) = holders js d - {(k, i, q)}"
      using s(4)[OF Give] assms(4) by auto
    have [simp]: "q = r" using one_holder_per_booking[OF assms(3) e(2) b(1)] q(1) b(3) by simp
    have "held st = Some (k, i)" using q(1) e(2) by (auto simp: holders_def dest: run_at_unique[OF e(2)])
    then have "holders js d = insert (k, i, r) {x \<in> holders js d. snd (snd x) \<noteq> r}" using h(1) by simp
    moreover have "holders js d' = {x \<in> holders js d. snd (snd x) \<noteq> r}" using h(2) none by simp
    moreover have "(k, i, r) \<notin> {x \<in> holders js d. snd (snd x) \<noteq> r}" by simp
    ultimately have "holders js d' = holders js d - {(k, i, r)}" by (metis Diff_insert_absorb)
    with q(2) show ?thesis by simp
  qed
qed (use assms in simp)

lemma moves_log: "moves js d d' \<Longrightarrow> \<exists>rows. el_Events (fst d') = el_Events (fst d) @ rows"
proof (cases "d' = d")
  case False
  moreover assume "moves js d d'"
  ultimately obtain env r st fs c where e: "oe_subject env = js" "run_at js (fst d) r st" "committed env r fs c d d'"
    by (auto simp: moves_def)
  show ?thesis using committed_effect[OF e(3)] e(1,2) by metis
qed simp

subsection \<open>Systems that only take such steps\<close>

text \<open>A system over the stores keeps everything above if each of its steps either is a transition of one
  Run or rebuilds the table.\<close>

locale run_system =
  fixes js :: "string \<Rightarrow> string option" and sys :: "durable \<Rightarrow> durable \<Rightarrow> bool"
  assumes steps: "sound_stores js d \<Longrightarrow> sys d d' \<Longrightarrow>
    moves js d d' \<or> (\<exists>env. oe_subject env = js \<and> RebuildRunProjection env d = Some (Inr d'))"
begin

lemma step_sound: "sound_stores js d \<Longrightarrow> sys d d' \<Longrightarrow> sound_stores js d'"
  using steps moves_sound rebuild_sound by blast

lemma reached_sound: "sys\<^sup>*\<^sup>* new_storage d \<Longrightarrow> sound_stores js d"
  by (induction rule: rtranclp_induct) (auto intro: sound_new step_sound)

lemma step_log: "sound_stores js d \<Longrightarrow> sys d d' \<Longrightarrow> \<exists>rows. el_Events (fst d') = el_Events (fst d) @ rows"
  using steps moves_log rebuild_keeps(1) by (metis append_Nil2)

lemma reached_ledger:
  "sys\<^sup>*\<^sup>* new_storage d \<Longrightarrow> distinct_bookings (fst d) \<Longrightarrow> slots (tb_Schedules (snd d)) = holders js d"
proof (induction rule: rtranclp_induct)
  case base
  show ?case by (auto simp: slots_def holders_def new_storage_def run_at_def stream_of_def empty_log_def held_def holding_def no_state_def)
next
  case (step d d')
  have s: "sound_stores js d" by (rule reached_sound[OF step(1)])
  have db: "distinct_bookings (fst d)" using step_log[OF s step(2)] step(4) distinct_bookings_before by blast
  from steps[OF s step(2)] show ?case
  proof
    assume "moves js d d'"
    then show ?thesis by (rule moves_ledger[OF s _ db step(3)[OF db]])
  next
    assume "\<exists>env. oe_subject env = js \<and> RebuildRunProjection env d = Some (Inr d')"
    then obtain env where "oe_subject env = js" "RebuildRunProjection env d = Some (Inr d')" by blast
    note k = rebuild_keeps[OF s this]
    show ?thesis using step(3)[OF db] by (simp add: k holders_def)
  qed
qed

end

text \<open>The orchestrator as such a system: its commands and one pass of its loop.\<close>

inductive orch_step :: "(string \<Rightarrow> string option) \<Rightarrow> durable \<Rightarrow> durable \<Rightarrow> bool" for js where
  create: "oe_subject env = js \<Longrightarrow> orch_step js d (snd (CreateRun env req d))"
| advance: "oe_subject env = js \<Longrightarrow> orch_step js d (snd (advance_once env r d))"
| cancel: "oe_subject env = js \<Longrightarrow> orch_step js d (snd (request_cancel env r actor d))"
| report: "oe_subject env = js \<Longrightarrow> orch_step js d (snd (RecordReport env r rep d))"
| rebuild: "oe_subject env = js \<Longrightarrow> RebuildRunProjection env d = Some (Inr d') \<Longrightarrow> orch_step js d d'"

interpretation orch: run_system js "orch_step js" for js
proof
  fix d d'
  assume s: "sound_stores js d" and "orch_step js d d'"
  then have k: "log_inv (fst d)" "schedules_kept (tb_Schedules (snd d))" "\<forall>r. \<exists>st. run_at js (fst d) r st"
    by (auto simp: sound_stores_def)
  from \<open>orch_step js d d'\<close> show "moves js d d' \<or> (\<exists>env. oe_subject env = js \<and> RebuildRunProjection env d = Some (Inr d'))"
    by cases (use k create_moves advance_moves cancel_moves report_moves in blast)+
qed

subsection \<open>What holds of the stores of a running control plane\<close>

abbreviation reached :: "(string \<Rightarrow> string option) \<Rightarrow> durable \<Rightarrow> bool" where
  "reached js \<equiv> (orch_step js)\<^sup>*\<^sup>* new_storage"

lemma reached_step: "reached js d \<Longrightarrow> orch_step js d d' \<Longrightarrow> reached js d'"
  by (rule rtranclp.rtrancl_into_rtrancl)

lemma apply_facts_before: "apply_facts js now a fs st = Inr st' \<Longrightarrow> run_before st st'"
proof (induction fs arbitrary: st)
  case (Cons f fs)
  then obtain s where s: "apply_fact js now a f st = Inr s" "apply_facts js now a fs s = Inr st'"
    unfolding apply_facts_simps by blast
  show ?case by (rule run_before_trans[OF apply_fact_before[OF s(1)] Cons.IH[OF s(2)]])
qed (simp add: apply_facts_simps run_before_def)

lemma moves_before:
  assumes "moves js d d'" "run_at js (fst d) r st"
  shows "\<exists>st'. run_at js (fst d') r st' \<and> run_before st st'"
proof (cases "d' = d")
  case True
  with assms(2) show ?thesis by (auto simp: run_before_def)
next
  case False
  then obtain env q s fs c where e: "oe_subject env = js" "run_at js (fst d) q s" "committed env q fs c d d'"
    using assms(1) by (auto simp: moves_def)
  obtain a s' where f: "apply_facts js (oe_now env) a fs s = Inr s'" "run_at js (fst d') q s'"
    "\<And>p. p \<noteq> q \<Longrightarrow> run_stream (fst d') p = run_stream (fst d) p"
    using committed_effect[OF e(3)] e(1,2) by metis
  show ?thesis
  proof (cases "r = q")
    case True
    then have "s = st" using run_at_unique[OF e(2)] assms(2) by simp
    with f True show ?thesis using apply_facts_before by blast
  next
    case False
    with f(3)[OF False] assms(2) show ?thesis by (auto simp: run_at_def run_before_def)
  qed
qed

lemma completing_answers: "fst (completeBookingAndAppend env r v st key es True d) \<noteq> Inr False"
  by (auto simp: completeBookingAndAppend_def done_or_def Let_def split: option.splits sum.splits prod.splits)

lemma appending_answers: "fst (appendEvents env r v key es True d) \<noteq> Inr False"
  by (auto simp: appendEvents_def appendEventsAs_def done_or_def split: sum.splits)

lemma failing_answers: "fst (recordCleanupFailure env r v intent err d) \<noteq> Inr x"
  by (auto simp: recordCleanupFailure_def split: prod.splits sum.splits)

text \<open>A pass of the loop over an ended Run that is still open makes progress or reports an error.\<close>

lemma ended_step_progresses:
  assumes "\<not> closed st" "firstTerminal st \<noteq> None" "orderly st"
  shows "fst (step env r v st d) \<noteq> Inr False"
proof (cases "cleanupRequested st \<and> \<not> cleanupConfirmed st")
  case True
  have "fst (releaseAndCloseScheduled env r v st d) \<noteq> Inr False"
    using completing_answers failing_answers by (auto simp: releaseAndCloseScheduled_def split: option.splits)
  with True assms(1) show ?thesis by (simp add: step_def)
next
  case False
  with assms have "\<not> outcomeRecorded st" by (auto simp: orderly_def ending_ok_def)
  moreover have "fst (recordTerminalTransition env r v st oc d) \<noteq> Inr False" for oc
    using completing_answers appending_answers by (auto simp: recordTerminalTransition_def Let_def split: option.splits)
  ultimately show ?thesis using False assms(1,2) by (auto simp: step_def split: option.splits)
qed

lemma loop_ends_closed:
  assumes "AdvanceRun envs r d = Some (Inr (), d')" "reached js d" "\<forall>env \<in> set envs. oe_subject env = js"
    "run_at js (fst d) r st" "firstTerminal st \<noteq> None"
  shows "\<exists>st'. run_at js (fst d') r st' \<and> closed st' \<and> firstTerminal st' = firstTerminal st \<and> reached js d'"
  using assms
proof (induction envs r d arbitrary: st rule: AdvanceRun.induct)
  case (2 env envs r d)
  have js: "oe_subject env = js" using 2 by simp
  have sound: "sound_stores js d" by (rule orch.reached_sound[OF 2(3)])
  have ord: "orderly st" using sound 2(5) run_at_unique by (metis sound_stores_def)
  obtain p d1 where once: "advance_once env r d = (Inr p, d1)"
    using 2(2) by (cases "advance_once env r d") (auto split: sum.splits)
  have r1: "reached js d1" using reached_step[OF 2(3) orch_step.advance[OF js, of _ r]] once by (metis snd_conv)
  have "moves js d d1" using advance_moves[of d env r] sound once js by (simp add: sound_stores_def)
  then obtain s1 where s1: "run_at js (fst d1) r s1" "run_before st s1" using moves_before 2(5) by blast
  then have ft: "firstTerminal s1 = firstTerminal st" using 2(6) by (auto simp: run_before_def)
  show ?case
  proof (cases p)
    case True
    from 2(1)[OF once[symmetric] refl True _ r1 _ s1(1)] show ?thesis using True once 2(2,4,6) ft by simp
  next
    case False
    then have d': "d' = d1" using 2(2) once by simp
    obtain h st0 where h: "readStream (fst d) (runStream r) = Inr h" "reduceRun js (sh_Events h) = Inr st0"
      "step env r (sh_LastVersion h) st0 d = (Inr p, d1)"
      using once js by (auto simp: advance_once_def split: sum.splits)
    have "run_at js (fst d) r st0" using h(1,2) sound readStream_events by (metis run_at_reduced sound_stores_def)
    then have "st0 = st" using run_at_unique 2(5) by blast
    with ended_step_progresses[OF _ 2(6) ord, of env r "sh_LastVersion h" d] h(3) False have c: "closed st" by auto
    then have "d1 = d" using h(3) \<open>st0 = st\<close> by (simp add: step_def)
    with c d' 2(3,5) show ?thesis by auto
  qed
qed simp

lemma reached_reduces:
  assumes "reached js d" "run_at js (fst d) r st" "run_stream (fst d) r \<noteq> []"
  shows "reduceRun js (run_stream (fst d) r) = Inr st"
proof -
  have "mirrors js (fst d, snd d)" using orch.reached_sound[OF assms(1)] by (simp add: sound_stores_def)
  from mirrors_row[OF this assms(3)] obtain s where "reduceRun js (run_stream (fst d) r) = Inr s" by blast
  with assms(2) show ?thesis using run_at_reduced run_at_unique by blast
qed

lemma reached_states:
  assumes "reached js d" "run_at js (fst d) r st"
  shows "steady st" "orderly st"
  using orch.reached_sound[OF assms(1)] assms(2) run_at_unique by (metis sound_stores_def)+

text \<open>C5: Every command of the orchestrator, and every pass of its loop, does one thing to the stores:
  it commits one transition of the lifecycle of one Run, its facts and its Rental Schedule together,
  or it leaves log and schedules as they were.\<close>

theorem every_step_is_a_lifecycle_transition:
  assumes "reached js d" "orch_step js d d'"
  shows "(\<exists>env r st fs c. run_at js (fst d) r st \<and> lifecycle st fs c \<and> committed env r fs c d d')
    \<or> fst d' = fst d \<and> tb_Schedules (snd d') = tb_Schedules (snd d)"
proof -
  have s: "sound_stores js d" by (rule orch.reached_sound[OF assms(1)])
  from orch.steps[OF s assms(2)] show ?thesis
  proof
    assume "moves js d d'"
    then show ?thesis unfolding moves_def by blast
  next
    assume "\<exists>env. oe_subject env = js \<and> RebuildRunProjection env d = Some (Inr d')"
    then show ?thesis using rebuild_keeps[OF s] by blast
  qed
qed

text \<open>C4: Whatever commands ran, the table of Runs is the log: a page of the table is the page built from
  history, the Runs it lists as open are exactly the Runs whose stream reduces to an open state, and the
  record of one Run is the one its stream reduces to.\<close>

theorem table_mirrors_the_log:
  assumes "reached js d"
  shows "projection_List js (fst d) req = Some (runs_List (snd d) req)
    \<and> set (runs_ListOpenIDs (snd d)) = {r. \<exists>st. reduceRun js (run_stream (fst d) r) = Inr st \<and> \<not> closed st}
    \<and> (oe_subject env = js \<longrightarrow> r \<noteq> empty_string \<longrightarrow>
        GetRun env r d = (case map_of (tb_Runs (snd d)) r of None \<Rightarrow> Inl ErrRunNotFound | Some rec \<Rightarrow> Inr rec))"
proof -
  have m: "mirrors js (fst d, snd d)" "log_inv (fst d)" using orch.reached_sound[OF assms] by (simp_all add: sound_stores_def)
  have "run_stream (fst d) r \<noteq> []" if "reduceRun js (run_stream (fst d) r) = Inr st" for r st
    using that by (auto simp: reduceRun_Inr state_validate_def no_state_def)
  then have open1: "set (runs_ListOpenIDs (snd d)) = {r. \<exists>st. reduceRun js (run_stream (fst d) r) = Inr st \<and> \<not> closed st}"
    using mirrored_open[OF m(1)] by blast
  have get: "GetRun env r d = (case map_of (tb_Runs (snd d)) r of None \<Rightarrow> Inl ErrRunNotFound | Some rec \<Rightarrow> Inr rec)"
    if js: "oe_subject env = js" and r: "r \<noteq> empty_string"
  proof -
    have read: "readStream (fst d) (runStream r) = Inr \<lparr>sh_Events = run_stream (fst d) r, sh_LastVersion = length (run_stream (fst d) r)\<rparr>"
      using readStream_eq[OF m(2), of "runStream r"] r by (simp add: runStream_valid run_stream_runStream)
    show ?thesis
    proof (cases "run_stream (fst d) r = []")
      case True
      then have "map_of (tb_Runs (snd d)) r = None" using m(1) unfolding mirrors_def fst_conv snd_conv by blast
      with True read show ?thesis by (simp add: GetRun_def)
    next
      case False
      from mirrors_row[OF m(1) False] read False js show ?thesis
        by (auto simp: GetRun_def simp del: map_of_eq_Some_iff)
    qed
  qed
  from mirrored_pages[OF m] open1 get show ?thesis by blast
qed

text \<open>C1: No Booking leaks and none is lost: the Bookings on the Rental Schedules are exactly the ones held
  by Runs that are still open, each on the schedule and under the identity its Run decided, and every
  schedule is one running Booking followed by at most four queued ones. Booking identities are hashes;
  the statement asks that no two Runs were given the same one.\<close>

theorem bookings_are_the_held_ones:
  assumes "reached js d" "distinct_bookings (fst d)"
  shows "slots (tb_Schedules (snd d))
      = {(k, i, r). \<exists>st. reduceRun js (run_stream (fst d) r) = Inr st \<and> held st = Some (k, i)}
    \<and> (\<forall>k s. tb_Schedules (snd d) k = Some s \<longrightarrow> well_kept k s)"
proof -
  have "run_stream (fst d) r \<noteq> []" if "run_at js (fst d) r st" "held st = Some x" for r st x
    using that by (auto simp: run_at_def held_def holding_def no_state_def split: if_splits)
  then have "run_at js (fst d) r st \<and> held st = Some x \<longleftrightarrow> reduceRun js (run_stream (fst d) r) = Inr st \<and> held st = Some x" for r st x
    using reached_reduces[OF assms(1)] run_at_reduced by blast
  then have "holders js d = {(k, i, r). \<exists>st. reduceRun js (run_stream (fst d) r) = Inr st \<and> held st = Some (k, i)}"
    by (simp add: holders_def)
  with orch.reached_ledger[OF assms] orch.reached_sound[OF assms(1)] show ?thesis
    by (simp add: sound_stores_def schedules_kept_def)
qed

text \<open>C2: A closed Run left nothing behind: it has an outcome and no Booking on any schedule, and if a
  launch of it was accepted, or nobody knows whether it was, then the adapter confirmed the cleanup.\<close>

theorem closed_run_left_nothing_behind:
  assumes "reached js d" "distinct_bookings (fst d)" "reduceRun js (run_stream (fst d) r) = Inr st" "closed st"
  shows "outcomeRecorded st \<and> (\<forall>k i. (k, i, r) \<notin> slots (tb_Schedules (snd d)))
    \<and> (launchAccepted st \<or> launchIndeterminate st \<longrightarrow> cleanupConfirmed st)"
proof -
  have "outcomeRecorded st" using assms(3,4) by (simp add: reduceRun_Inr state_validate_def)
  moreover have "(k, i, r) \<notin> slots (tb_Schedules (snd d))" for k i
    using orch.reached_ledger[OF assms(1,2)] run_at_unique[OF run_at_reduced[OF assms(3)]] assms(4)
    by (auto simp: holders_def held_def holding_def)
  moreover have "launchAccepted st \<or> launchIndeterminate st \<longrightarrow> cleanupConfirmed st"
    using reached_states(2)[OF assms(1) run_at_reduced[OF assms(3)]] assms(4) by (simp add: orderly_def launch_ok_def)
  ultimately show ?thesis by blast
qed


subsection \<open>A Run placed\<close>

definition sample_orch_env :: orch_env where
  "sample_orch_env =
     \<lparr>oe_now = 1000, oe_gpu = sample_gpu, oe_hashes = sample_hashes, oe_subject = (\<lambda>_. None), oe_formatFloat = (\<lambda>_. []),
      oe_eventsHash = (\<lambda>es. ''h''), oe_launchHash = (\<lambda>_. ''l''), oe_bookingHash = b_ID, oe_createHash = (\<lambda>_ _. ''c''),
      oe_reportHash = (\<lambda>_. ''r''), oe_shortHash = (\<lambda>_. ''s''),
      oe_collect = (\<lambda>_. Inr \<lparr>oc_Offers = [sample_offer ''cheap'' 2], oc_Queried = [''c''], oc_Excluded = []\<rparr>),
      oe_launch = (\<lambda>_. Inl \<lparr>ae_Provider = None, ae_Is = []\<rparr>), oe_observe = (\<lambda>_. Inl \<lparr>ae_Provider = None, ae_Is = []\<rparr>),
      oe_listOwned = Inr [], oe_release = (\<lambda>_. None), oe_terminate = (\<lambda>_. None), oe_manifest = None,
      oe_artifacts = None, oe_capacity = None, oe_inviter = None, oe_reporting = None\<rparr>"

definition sample_create :: create_run_request where
  "sample_create =
     \<lparr>nw_RunID = ''r1'', nw_CommandKey = [], nw_IdempotencyKey = ''k1'', nw_Actor = [],
      nw_Workload = sample_workload\<lparr>wr_Spec := (wr_Spec sample_workload)\<lparr>ws_Containers :=
        [\<lparr>cs_Name = ''main'', cs_Image = ''img@sha256:'' @ replicate 64 (CHR ''a''), cs_Platform = sample_platform,
          cs_Entrypoint = None, cs_Args = [], cs_Env = [], cs_Ports = []\<rparr>]\<rparr>\<rparr>,
      nw_GeneratedRunID = False, nw_ResolveImage = None\<rparr>"

definition sample_created :: durable where
  "sample_created = snd (CreateRun sample_orch_env sample_create new_storage)"

definition sample_cancelled :: durable where
  "sample_cancelled = snd (request_cancel sample_orch_env ''r1'' [] sample_created)"

abbreviation sample_subject :: "string \<Rightarrow> string option" where
  "sample_subject \<equiv> (\<lambda>_. None)"

lemma sample_env_subject: "oe_subject sample_orch_env = sample_subject"
  by (simp add: sample_orch_env_def)

lemma sample_reached: "reached sample_subject sample_created" "reached sample_subject sample_cancelled"
proof -
  show c: "reached sample_subject sample_created"
    unfolding sample_created_def by (rule reached_step[OF rtranclp.rtrancl_refl orch_step.create[OF sample_env_subject]])
  show "reached sample_subject sample_cancelled"
    unfolding sample_cancelled_def by (rule reached_step[OF c orch_step.cancel[OF sample_env_subject]])
qed

declare ScanStream_from.simps [code] ScanAll_from.simps [code] every_record_from.simps [code]

text \<open>A Run created and cancelled before it was placed, and the loop over it.\<close>

lemma sample_loop:
  "(case reduceRun sample_subject (run_stream (fst sample_cancelled) ''r1'') of
      Inr st \<Rightarrow> firstTerminal st = Some RunOutcomeCancelled | Inl _ \<Rightarrow> False)
   \<and> distinct_bookings (fst sample_cancelled)
   \<and> (case AdvanceRun [sample_orch_env, sample_orch_env] ''r1'' sample_cancelled of
        Some (Inr _, d) \<Rightarrow> distinct_bookings (fst d) | _ \<Rightarrow> False)"
  by code_simp

lemma returned: "(case x of Some (Inr (_ :: unit), d) \<Rightarrow> P d | _ \<Rightarrow> False) \<Longrightarrow> \<exists>d. x = Some (Inr (), d) \<and> P d"
proof (cases x)
  case (Some p)
  obtain a d where p: "p = (a, d)" by (cases p)
  assume "case x of Some (Inr (_ :: unit), d) \<Rightarrow> P d | _ \<Rightarrow> False"
  with Some p show ?thesis by (cases a) auto
qed simp

lemma sample_ended:
  obtains st d where "reduceRun sample_subject (run_stream (fst sample_cancelled) ''r1'') = Inr st" "firstTerminal st \<noteq> None"
    "AdvanceRun [sample_orch_env, sample_orch_env] ''r1'' sample_cancelled = Some (Inr (), d)" "distinct_bookings (fst d)"
proof -
  note s = sample_loop[THEN conjunct2, THEN conjunct2, THEN returned]
  obtain st where st: "reduceRun sample_subject (run_stream (fst sample_cancelled) ''r1'') = Inr st" "firstTerminal st \<noteq> None"
    using sample_loop[THEN conjunct1] by (auto split: sum.splits)
  from s that[OF st] show thesis by blast
qed

lemma sample_closed:
  obtains st d where "reached sample_subject d" "distinct_bookings (fst d)"
    "reduceRun sample_subject (run_stream (fst d) ''r1'') = Inr st" "closed st"
proof (rule sample_ended)
  fix st d
  assume s: "reduceRun sample_subject (run_stream (fst sample_cancelled) ''r1'') = Inr st" "firstTerminal st \<noteq> None"
    "AdvanceRun [sample_orch_env, sample_orch_env] ''r1'' sample_cancelled = Some (Inr (), d)" "distinct_bookings (fst d)"
  obtain st' where st': "run_at sample_subject (fst d) ''r1'' st'" "closed st'" "reached sample_subject d"
    using loop_ends_closed[OF s(3) sample_reached(2) _ run_at_reduced[OF s(1)] s(2)] by (auto simp: sample_env_subject)
  have "run_stream (fst d) ''r1'' \<noteq> []" using st'(1,2) by (auto simp: run_at_def no_state_def)
  from that[OF st'(3) s(4) reached_reduces[OF st'(3,1) this] st'(2)] show thesis .
qed

theorem every_step_is_a_lifecycle_transition_witness:
  "(\<exists>env r st fs c. run_at sample_subject (fst sample_created) r st \<and> lifecycle st fs c \<and> committed env r fs c sample_created sample_cancelled)
    \<or> fst sample_cancelled = fst sample_created \<and> tb_Schedules (snd sample_cancelled) = tb_Schedules (snd sample_created)"
  by (rule every_step_is_a_lifecycle_transition[OF sample_reached(1)])
    (simp add: sample_cancelled_def orch_step.cancel[OF sample_env_subject])

theorem table_mirrors_the_log_witness:
  "GetRun sample_orch_env ''r1'' sample_cancelled
     = (case map_of (tb_Runs (snd sample_cancelled)) ''r1'' of None \<Rightarrow> Inl ErrRunNotFound | Some rec \<Rightarrow> Inr rec)"
  using table_mirrors_the_log[OF sample_reached(2), of undefined sample_orch_env "''r1''"] by (simp add: sample_env_subject)

theorem bookings_are_the_held_ones_witness:
  "slots (tb_Schedules (snd sample_cancelled))
     = {(k, i, r). \<exists>st. reduceRun sample_subject (run_stream (fst sample_cancelled) r) = Inr st \<and> held st = Some (k, i)}"
  using bookings_are_the_held_ones[OF sample_reached(2)] sample_loop by blast

theorem closed_run_left_nothing_behind_witness:
  "\<exists>st d. reached sample_subject d \<and> reduceRun sample_subject (run_stream (fst d) ''r1'') = Inr st \<and> closed st
     \<and> outcomeRecorded st \<and> (\<forall>k i. (k, i, ''r1'') \<notin> slots (tb_Schedules (snd d)))"
  by (rule sample_closed) (use closed_run_left_nothing_behind in blast)


subsection \<open>A Run cancelled after its capacity was reclaimed\<close>

text \<open>Reclaiming capacity gives the Booking up and leaves the launch intent, so a Run cancelled before it is
  placed again is cleaned up as if it had been launched. The Booking is on no schedule any more, and every
  later pass of the loop fails on completing it: it can record another failed cleanup and nothing else,
  and the Run is never closed.\<close>

lemma unheld_completes_nothing:
  assumes "reached js d" "distinct_bookings (fst d)" "run_at js (fst d) r st" "booked st = Some b" "held st = None"
  shows "\<exists>err. completeBookingAndAppend env r v st key es answer d = (Inl err, d)"
proof (cases "tb_Schedules (snd d) (b_RentalID b)")
  case None
  then show ?thesis using assms(4) no_schedule_completes[of empty_string "b_ID b" "oe_now env"]
    by (auto simp: completeBookingAndAppend_def Let_def split: sum.splits)
next
  case (Some s)
  have "schedule_Complete s (b_ID b) (oe_now env) \<noteq> Inr y" for y
  proof
    assume c: "schedule_Complete s (b_ID b) (oe_now env) = Inr y"
    have "well_kept (b_RentalID b) s" using orch.reached_sound[OF assms(1)] Some by (simp add: sound_stores_def schedules_kept_def)
    then obtain q where "(b_RentalID b, b_ID b, q) \<in> slots (tb_Schedules (snd d))"
      using Complete_effect(2)[of _ s "b_ID b" "oe_now env" "fst y" "snd y"] c Some by (auto simp: slots_def)
    then have q: "(b_RentalID b, b_ID b, q) \<in> holders js d" using orch.reached_ledger[OF assms(1,2)] by simp
    with one_holder_per_booking[OF assms(2-4)] have "q = r" by blast
    with q assms(3,5) show False using run_at_unique by (fastforce simp: holders_def)
  qed
  then show ?thesis using assms(4) Some by (cases "schedule_Complete s (b_ID b) (oe_now env)") (auto simp: completeBookingAndAppend_def)
qed

lemma cleanup_failure_commits:
  assumes "log_inv (fst d)"
  shows "snd (recordCleanupFailure env r v intent e d) = d
    \<or> (\<exists>x. committed env r [FactCleanupFailed x] Same d (snd (recordCleanupFailure env r v intent e d)))"
proof -
  let ?x = "publicCleanupError e (lq_LaunchKey intent) (lq_Disposition intent)"
  let ?req = "runAppendRequest env empty_string r v (''advance:cleanup-failed:'' @ Itoa (int v))
    [mustEvent r (''cleanup_failed_'' @ Itoa (int v + 1)) (FactCleanupFailed ?x) (oe_now env)]"
  have "stamped env ?req" by (auto simp: stamped_def)
  have app: "d' = d \<or> committed env r [FactCleanupFailed ?x] Same d d'" if "appendRun env ?req d = Inr (d', res)" for d' res
  proof -
    from appendRun_Inr[OF assms \<open>stamped env ?req\<close> that] show ?thesis
    proof
      assume g: "granted env ?req d d' \<and> tb_Schedules (snd d') = tb_Schedules (snd d)"
      have "committed env r [FactCleanupFailed ?x] Same d d'"
        unfolding committed_def
      proof (intro exI[of _ ?req] conjI)
        show "granted env ?req d d'" using g by (rule conjunct1)
      qed (use g in \<open>simp_all add: schedule_effect_def\<close>)
      then show ?thesis ..
    qed simp
  qed
  show ?thesis
  proof (cases "appendRun env ?req d")
    case (Inl err)
    then show ?thesis unfolding recordCleanupFailure_def snd_answered appendEvents_def appendEventsAs_def done_or_def by simp
  next
    case (Inr y)
    obtain d' res where y: "y = (d', res)" by (cases y)
    have "snd (recordCleanupFailure env r v intent e d) = d'"
      using Inr y unfolding recordCleanupFailure_def snd_answered appendEvents_def appendEventsAs_def done_or_def by simp
    with app[OF Inr[unfolded y]] show ?thesis by auto
  qed
qed

theorem cancelled_after_reclaim_never_closes:
  assumes "reached js d" "distinct_bookings (fst d)" "reduceRun js (run_stream (fst d) r) = Inr st" "oe_subject env = js"
    "capacityReclaimed st \<noteq> None" "\<not> bookingQueued st" "cleanupRequested st" "\<not> closed st"
  shows "\<exists>err. fst (advance_once env r d) = Inl err"
    "snd (advance_once env r d) = d \<or> (\<exists>e. committed env r [FactCleanupFailed e] Same d (snd (advance_once env r d)))"
proof -
  have at1: "run_at js (fst d) r st" by (rule run_at_reduced[OF assms(3)])
  have "\<not> cleanupConfirmed st" using reached_states(2)[OF assms(1) at1] assms(8) by (auto simp: orderly_def ending_ok_def)
  then have step: "step env r v st d = releaseAndCloseScheduled env r v st d" for v using assms(7,8) by (simp add: step_def)
  have log: "log_inv (fst d)" using orch.reached_sound[OF assms(1)] by (simp add: sound_stores_def)
  have none: "held st = None" using assms(5,6) by (simp add: held_def holding_def state_replacementEligible_def)
  have complete: "(\<exists>err. fst (completeBookingAndAppend env r v st key es True d) = Inl err)
      \<and> snd (completeBookingAndAppend env r v st key es True d) = d" for v key es
  proof (cases "booked st")
    case None
    then show ?thesis by (simp add: completeBookingAndAppend_def)
  next
    case (Some b)
    obtain err where "completeBookingAndAppend env r v st key es True d = (Inl err, d)"
      using unheld_completes_nothing[OF assms(1,2) at1 Some none, of env v key es True] by (elim exE)
    then show ?thesis by simp
  qed
  have failed: "\<exists>err. fst (recordCleanupFailure env r v intent e d) = Inl err" for v intent e
    using failing_answers[of env r v intent e d] by (cases "fst (recordCleanupFailure env r v intent e d)") auto
  have "(\<exists>err. fst (releaseAndCloseScheduled env r v st d) = Inl err)
      \<and> (snd (releaseAndCloseScheduled env r v st d) = d
         \<or> (\<exists>e. committed env r [FactCleanupFailed e] Same d (snd (releaseAndCloseScheduled env r v st d))))" for v
  proof (cases "launchIntent st")
    case (Some intent)
    show ?thesis
    proof (cases "cleanup env intent")
      case None
      with Some complete[of v] show ?thesis by (auto simp: releaseAndCloseScheduled_def)
    next
      case e: (Some e)
      with Some failed[of v intent e] cleanup_failure_commits[OF log] show ?thesis by (simp add: releaseAndCloseScheduled_def)
    qed
  qed (simp add: releaseAndCloseScheduled_def)
  then show "\<exists>err. fst (advance_once env r d) = Inl err"
    "snd (advance_once env r d) = d \<or> (\<exists>e. committed env r [FactCleanupFailed e] Same d (snd (advance_once env r d)))"
    using assms(3,4) readStream_events[OF log] by (auto simp: advance_once_def step split: sum.splits)
qed

end
