(* ===== verification/Janitor.thy ===== *)
theory Janitor
  imports Ledger
begin

text \<open>
  The janitor (\<^verbatim>\<open>internal/janitor/janitor.go\<close>): a sweep over the capacity the adapters say Mercator
  owns, which decides by Mercator's own record of the Run what becomes of each piece, writes the decision
  down, and then asks the provider for it.

  The log holds the decisions beside the facts of the Runs, so its payload is \<open>plane_fact\<close>. The adapter
  is an environment: what it lists, and what it answers to a release and to a termination. A sweep gives
  back its counts, the error it stopped at, the commands it sent to providers in order, and the log.
\<close>

subsection \<open>Policy\<close>

definition OrphanPolicy :: string where
  "OrphanPolicy = ''adopt_capacity_mercator_recorded_terminate_the_rest''"

datatype orphan_outcome = OrphanAdopted | OrphanTerminated

definition reasonRecordedRelease :: string where "reasonRecordedRelease = ''recorded_disposition_release''"
definition reasonRecordedTerminate :: string where "reasonRecordedTerminate = ''recorded_disposition_terminate''"
definition reasonUnattributed :: string where "reasonUnattributed = ''unattributed''"
definition reasonNoRecordedRun :: string where "reasonNoRecordedRun = ''no_recorded_run''"
definition reasonNoLaunchAccountsFor :: string where "reasonNoLaunchAccountsFor = ''no_recorded_launch_accounts_for_it''"
definition reasonClosedWithoutAsking :: string where "reasonClosedWithoutAsking = ''closed_without_a_cleanup_request''"

definition EventOrphanConverged :: string where
  "EventOrphanConverged = ''compute.capacity.orphan_converged.v1''"

record orphan_convergence =
  og_Policy :: string
  og_Outcome :: orphan_outcome
  og_Reason :: string
  og_ExternalID :: string
  og_LaunchKey :: string
  og_ConnectionID :: string
  og_RunID :: string

text \<open>A payload of the log: a fact of a Run, a recorded decision, or neither.\<close>

datatype plane_fact = RunFact run_fact | OrphanConverged orphan_convergence | OtherFact

record orphan_decision =
  od_outcome :: "orphan_outcome option"
  od_reason :: string

datatype terminate_error = ErrTerminateUnsupported | TerminateFailed string

datatype janitor_error =
    JanitorList string
  | JanitorRead "log_error scan_error"
  | JanitorReadNeverEnds
  | JanitorDecode
  | JanitorNoLaunch string
  | JanitorDisposition disposition
  | JanitorRecord log_error
  | JanitorRelease string
  | JanitorTerminate string

record janitor_env =
  jv_now :: time
  jv_listOwned :: "string + owned_external_object list"
  jv_release :: "release_request \<Rightarrow> string option"
  jv_terminate :: "terminate_request \<Rightarrow> terminate_error option"
  jv_hash :: "orphan_convergence \<Rightarrow> string"

subsection \<open>What the log says of a Run\<close>

record recorded_launch =
  rn_attemptID :: string
  rn_launchKey :: string
  rn_disposition :: disposition

record recorded_run =
  rr_exists :: bool
  rr_closed :: bool
  rr_cleanupAsked :: bool
  rr_launches :: "recorded_launch list"

definition launch_took :: "recorded_launch \<Rightarrow> owned_external_object \<Rightarrow> bool" where
  "launch_took launch object \<longleftrightarrow>
     ow_AttemptID object \<noteq> empty_string \<and> ow_AttemptID object = rn_attemptID launch
   \<or> ow_LaunchKey object \<noteq> empty_string \<and> ow_LaunchKey object = rn_launchKey launch"

definition agreedLaunch :: "recorded_run \<Rightarrow> recorded_launch option" where
  "agreedLaunch recorded = (case rr_launches recorded of
     [] \<Rightarrow> None
   | agreed # _ \<Rightarrow>
       if list_all (\<lambda>launch. rn_disposition launch = rn_disposition agreed) (rr_launches recorded)
       then Some agreed else None)"

definition launchTaking :: "recorded_run \<Rightarrow> owned_external_object \<Rightarrow> recorded_launch option" where
  "launchTaking recorded object = (case find (\<lambda>launch. launch_took launch object) (rr_launches recorded) of
     Some launch \<Rightarrow> Some launch
   | None \<Rightarrow> agreedLaunch recorded)"

definition recorded_over :: "recorded_run \<Rightarrow> bool" where
  "recorded_over recorded \<longleftrightarrow> rr_cleanupAsked recorded \<or> rr_closed recorded"

definition terminate_because :: "string \<Rightarrow> orphan_decision" where
  "terminate_because reason = \<lparr>od_outcome = Some OrphanTerminated, od_reason = reason\<rparr>"

definition byRecordedDisposition :: "disposition \<Rightarrow> janitor_error + orphan_decision" where
  "byRecordedDisposition disp = (case disp of
     DispositionRelease \<Rightarrow> Inr \<lparr>od_outcome = Some OrphanAdopted, od_reason = reasonRecordedRelease\<rparr>
   | DispositionTerminate \<Rightarrow> Inr \<lparr>od_outcome = Some OrphanTerminated, od_reason = reasonRecordedTerminate\<rparr>
   | DispositionOther _ \<Rightarrow> Inl (JanitorDisposition disp))"

definition no_decision :: orphan_decision where
  "no_decision = \<lparr>od_outcome = None, od_reason = empty_string\<rparr>"

definition recorded_converge :: "recorded_run \<Rightarrow> owned_external_object \<Rightarrow> janitor_error + orphan_decision" where
  "recorded_converge recorded object =
     (if \<not> rr_exists recorded then Inr (terminate_because reasonNoRecordedRun)
      else if \<not> recorded_over recorded then Inr no_decision
      else case launchTaking recorded object of
        Some launch \<Rightarrow> byRecordedDisposition (rn_disposition launch)
      | None \<Rightarrow>
          if rr_launches recorded \<noteq> [] then Inr (terminate_because reasonNoLaunchAccountsFor)
          else if rr_cleanupAsked recorded then Inl (JanitorNoLaunch (ow_RunID object))
          else Inr (terminate_because reasonClosedWithoutAsking))"

definition recordedLaunchOf :: "plane_fact stored_event \<Rightarrow> janitor_error + recorded_launch" where
  "recordedLaunchOf e = (case ev_Data e of
     RunFact (FactLaunchIntentRecorded intent) \<Rightarrow>
       Inr \<lparr>rn_attemptID = lq_AttemptID intent, rn_launchKey = lq_LaunchKey intent, rn_disposition = lq_Disposition intent\<rparr>
   | _ \<Rightarrow> Inl JanitorDecode)"

fun recorded_events :: "plane_fact stored_event list \<Rightarrow> recorded_run \<Rightarrow> janitor_error + recorded_run" where
  "recorded_events [] recorded = Inr recorded"
| "recorded_events (e # es) recorded =
     (if ev_Type e = ''compute.run.launch_intent_recorded.v1'' then
        (case recordedLaunchOf e of
           Inl err \<Rightarrow> Inl err
         | Inr launch \<Rightarrow> recorded_events es (recorded\<lparr>rr_launches := rr_launches recorded @ [launch]\<rparr>))
      else if ev_Type e = ''compute.run.cleanup_requested.v1'' \<or> ev_Type e = ''compute.run.cleanup_confirmed.v1'' then
        recorded_events es (recorded\<lparr>rr_cleanupAsked := True\<rparr>)
      else if ev_Type e = EventRunClosed then recorded_events es (recorded\<lparr>rr_closed := True\<rparr>)
      else recorded_events es recorded)"

definition read_history :: "plane_fact event_log \<Rightarrow> stream_key \<Rightarrow> janitor_error + plane_fact stored_event list" where
  "read_history lg s = (case ReadFullStream (ReadStream lg) s of
     None \<Rightarrow> Inl JanitorReadNeverEnds
   | Some (Inl err) \<Rightarrow> Inl (JanitorRead err)
   | Some (Inr h) \<Rightarrow> Inr (sh_Events h))"

definition recordedRun :: "plane_fact event_log \<Rightarrow> owned_external_object \<Rightarrow> janitor_error + recorded_run" where
  "recordedRun lg object = (case read_history lg \<lparr>sk_Type = ''run'', sk_ID = ow_RunID object\<rparr> of
     Inl err \<Rightarrow> Inl err
   | Inr events \<Rightarrow> recorded_events events
       \<lparr>rr_exists = (events \<noteq> []), rr_closed = False, rr_cleanupAsked = False, rr_launches = []\<rparr>)"

subsection \<open>Deciding, recording, reclaiming\<close>

definition orphanIdentity :: "owned_external_object \<Rightarrow> string" where
  "orphanIdentity object = (if ow_LaunchKey object \<noteq> empty_string then ow_LaunchKey object else ow_ExternalID object)"

definition orphanStream :: "owned_external_object \<Rightarrow> stream_key" where
  "orphanStream object = \<lparr>sk_Type = ''orphan'', sk_ID = orphanIdentity object\<rparr>"

fun first_decision :: "plane_fact stored_event list \<Rightarrow> janitor_error + orphan_decision" where
  "first_decision [] = Inr no_decision"
| "first_decision (e # es) =
     (if ev_Type e \<noteq> EventOrphanConverged then first_decision es
      else case ev_Data e of
        OrphanConverged c \<Rightarrow> Inr \<lparr>od_outcome = Some (og_Outcome c), od_reason = og_Reason c\<rparr>
      | _ \<Rightarrow> Inl JanitorDecode)"

definition recordedDecision :: "plane_fact event_log \<Rightarrow> owned_external_object \<Rightarrow> janitor_error + orphan_decision" where
  "recordedDecision lg object = (case read_history lg (orphanStream object) of
     Inl err \<Rightarrow> Inl err
   | Inr events \<Rightarrow> first_decision events)"

definition janitor_decide :: "plane_fact event_log \<Rightarrow> owned_external_object \<Rightarrow> janitor_error + orphan_decision" where
  "janitor_decide lg object =
     (if ow_RunID object = empty_string then Inr (terminate_because reasonUnattributed)
      else case recordedRun lg object of
        Inl err \<Rightarrow> Inl err
      | Inr recorded \<Rightarrow> recorded_converge recorded object)"

definition orphan_request :: "janitor_env \<Rightarrow> owned_external_object \<Rightarrow> orphan_outcome \<Rightarrow> string \<Rightarrow> plane_fact append_request" where
  "orphan_request env object out reason =
     (let convergence = \<lparr>og_Policy = OrphanPolicy, og_Outcome = out, og_Reason = reason, og_ExternalID = ow_ExternalID object,
            og_LaunchKey = ow_LaunchKey object, og_ConnectionID = ow_ConnectionID object, og_RunID = ow_RunID object\<rparr>;
          identity = orphanIdentity object
      in \<lparr>ar_Stream = orphanStream object, ar_ExpectedStreamVersion = 0, ar_CommandKey = ''janitor:converge:'' @ identity,
          ar_RequestHash = jv_hash env convergence, ar_Actor = empty_string, ar_CorrelationID = ow_RunID object,
          ar_CausationID = ''janitor'',
          ar_Events = [\<lparr>ne_ID = ''evt_orphan_'' @ identity, ne_Type = EventOrphanConverged, ne_SchemaVersion = 1,
            ne_OccurredAt = zero_time, ne_Visibility = VisibilityPublic, ne_Data = OrphanConverged convergence,
            ne_PrivateData = empty_string\<rparr>]\<rparr>)"

definition record_decision ::
  "janitor_env \<Rightarrow> owned_external_object \<Rightarrow> orphan_outcome \<Rightarrow> string \<Rightarrow> plane_fact event_log \<Rightarrow> janitor_error + plane_fact event_log" where
  "record_decision env object out reason lg = (case Append (jv_now env) (orphan_request env object out reason) lg of
     Inl err \<Rightarrow> Inl (JanitorRecord err)
   | Inr (lg', _) \<Rightarrow> Inr lg')"

definition janitor_converge ::
  "janitor_env \<Rightarrow> owned_external_object \<Rightarrow> plane_fact event_log \<Rightarrow> (janitor_error + orphan_decision) \<times> plane_fact event_log" where
  "janitor_converge env object lg = (case recordedDecision lg object of
     Inl err \<Rightarrow> (Inl err, lg)
   | Inr decided \<Rightarrow>
       if od_outcome decided \<noteq> None then (Inr decided, lg)
       else (case janitor_decide lg object of
         Inl err \<Rightarrow> (Inl err, lg)
       | Inr decision \<Rightarrow> (case od_outcome decision of
           None \<Rightarrow> (Inr decision, lg)
         | Some out \<Rightarrow> (case record_decision env object out (od_reason decision) lg of
             Inl err \<Rightarrow> (Inl err, lg)
           | Inr lg' \<Rightarrow> (Inr decision, lg')))))"

datatype provider_command = ReleaseSent release_request | TerminateSent terminate_request

definition orphan_release :: "owned_external_object \<Rightarrow> release_request" where
  "orphan_release object =
     \<lparr>rl_ConnectionID = ow_ConnectionID object, rl_OperationKey = ''janitor:release:'' @ ow_LaunchKey object,
      rl_LaunchKey = ow_LaunchKey object, rl_OwnershipToken = ow_OwnershipToken object,
      rl_LaunchRequestHash = ow_RequestHash object, rl_Lane = LaneOther empty_string, rl_NativeRef = empty_string,
      rl_RunID = empty_string\<rparr>"

definition orphan_terminate :: "owned_external_object \<Rightarrow> terminate_request" where
  "orphan_terminate object =
     \<lparr>tm_ConnectionID = ow_ConnectionID object, tm_OperationKey = ''janitor:terminate:'' @ ow_LaunchKey object,
      tm_LaunchKey = ow_LaunchKey object, tm_OwnershipToken = ow_OwnershipToken object,
      tm_LaunchRequestHash = ow_RequestHash object\<rparr>"

definition janitor_release :: "janitor_env \<Rightarrow> owned_external_object \<Rightarrow> provider_command list \<times> janitor_error option" where
  "janitor_release env object =
     ([ReleaseSent (orphan_release object)], map_option JanitorRelease (jv_release env (orphan_release object)))"

definition janitor_reclaim ::
  "janitor_env \<Rightarrow> owned_external_object \<Rightarrow> orphan_outcome \<Rightarrow> provider_command list \<times> janitor_error option" where
  "janitor_reclaim env object out = (case out of
     OrphanAdopted \<Rightarrow> janitor_release env object
   | OrphanTerminated \<Rightarrow>
       (let sent = TerminateSent (orphan_terminate object) in
        case jv_terminate env (orphan_terminate object) of
          None \<Rightarrow> ([sent], None)
        | Some (TerminateFailed err) \<Rightarrow> ([sent], Some (JanitorTerminate err))
        | Some ErrTerminateUnsupported \<Rightarrow>
            (let (cs, err) = janitor_release env object in (sent # cs, err))))"

subsection \<open>The sweep\<close>

record sweep_result =
  sw_Found :: nat
  sw_Adopted :: nat
  sw_Terminated :: nat

definition sweep_Converged :: "sweep_result \<Rightarrow> nat" where
  "sweep_Converged result = sw_Adopted result + sw_Terminated result"

definition counted :: "orphan_outcome \<Rightarrow> sweep_result \<Rightarrow> sweep_result" where
  "counted out result = (case out of
     OrphanAdopted \<Rightarrow> result\<lparr>sw_Adopted := sw_Adopted result + 1\<rparr>
   | OrphanTerminated \<Rightarrow> result\<lparr>sw_Terminated := sw_Terminated result + 1\<rparr>)"

record sweep =
  sp_result :: sweep_result
  sp_error :: "janitor_error option"
  sp_sent :: "provider_command list"
  sp_log :: "plane_fact event_log"

fun sweep_objects :: "janitor_env \<Rightarrow> owned_external_object list \<Rightarrow> sweep_result \<Rightarrow> plane_fact event_log \<Rightarrow> sweep" where
  "sweep_objects env [] result lg = \<lparr>sp_result = result, sp_error = None, sp_sent = [], sp_log = lg\<rparr>"
| "sweep_objects env (object # objects) result lg = (case janitor_converge env object lg of
     (Inl err, lg') \<Rightarrow> \<lparr>sp_result = result, sp_error = Some err, sp_sent = [], sp_log = lg'\<rparr>
   | (Inr decision, lg') \<Rightarrow> (case od_outcome decision of
       None \<Rightarrow> sweep_objects env objects result lg'
     | Some out \<Rightarrow> (case janitor_reclaim env object out of
         (cs, Some err) \<Rightarrow> \<lparr>sp_result = result, sp_error = Some err, sp_sent = cs, sp_log = lg'\<rparr>
       | (cs, None) \<Rightarrow>
           (let rest = sweep_objects env objects (counted out result) lg' in rest\<lparr>sp_sent := cs @ sp_sent rest\<rparr>))))"

definition Sweep :: "janitor_env \<Rightarrow> plane_fact event_log \<Rightarrow> sweep" where
  "Sweep env lg = (case jv_listOwned env of
     Inl err \<Rightarrow> \<lparr>sp_result = \<lparr>sw_Found = 0, sw_Adopted = 0, sw_Terminated = 0\<rparr>, sp_error = Some (JanitorList err),
                 sp_sent = [], sp_log = lg\<rparr>
   | Inr owned \<Rightarrow> sweep_objects env owned \<lparr>sw_Found = length owned, sw_Adopted = 0, sw_Terminated = 0\<rparr> lg)"

subsection \<open>The log of the whole control plane\<close>

text \<open>
  Only the janitor writes to the streams of capacity and under its own command keys. Everything else is
  some other part of the control plane appending to other streams, or a subscriber acknowledging.
\<close>

definition converge_key :: "string \<Rightarrow> string" where
  "converge_key i = ''janitor:converge:'' @ i"

definition decision_event :: "plane_fact stored_event \<Rightarrow> bool" where
  "decision_event e \<longleftrightarrow> ev_StreamType e = ''orphan'' \<and> ev_CommandKey e = converge_key (ev_StreamID e)
     \<and> ev_Type e = EventOrphanConverged \<and> (\<exists>c. ev_Data e = OrphanConverged c)"

definition plane_ok :: "plane_fact event_log \<Rightarrow> bool" where
  "plane_ok lg \<longleftrightarrow> log_inv lg \<and>
     (\<forall>e \<in> set (el_Events lg). ev_StreamType e = ''orphan'' \<or> (\<exists>i. ev_CommandKey e = converge_key i) \<longrightarrow> decision_event e)"

definition same_run_streams :: "plane_fact event_log \<Rightarrow> plane_fact event_log \<Rightarrow> bool" where
  "same_run_streams lg lg' \<longleftrightarrow> (\<forall>s. sk_Type s \<noteq> ''orphan'' \<longrightarrow> stream_of lg' s = stream_of lg s)"

lemma same_run_streams_refl [simp]: "same_run_streams lg lg"
  by (simp add: same_run_streams_def)

lemma same_run_streams_trans: "same_run_streams a b \<Longrightarrow> same_run_streams b c \<Longrightarrow> same_run_streams a c"
  by (simp add: same_run_streams_def)

lemma read_history_eq:
  assumes "log_inv lg" "sk_Type s \<noteq> empty_string"
  shows "read_history lg s = (if sk_ID s = empty_string then Inl (JanitorRead (ReadFailed StreamKeyRequired)) else Inr (stream_of lg s))"
proof (cases "sk_ID s = empty_string")
  case True
  then have "ScanStream (ReadStream lg) s = Some ([], Some (ReadFailed StreamKeyRequired))"
    by (simp add: ScanStream_def ScanStream_from.simps ReadStream_def stream_validate_def)
  with True show ?thesis by (simp add: read_history_def ReadFullStream_def)
next
  case False
  then have "stream_validate s = None" using assms(2) by (simp add: stream_validate_def)
  from ReadFullStream_eq[OF assms(1) this] False show ?thesis by (simp add: read_history_def)
qed

lemma orphan_stream_decisions:
  assumes "plane_ok lg" "e \<in> set (stream_of lg (orphanStream object))"
  shows "decision_event e"
  using assms by (auto simp: plane_ok_def stream_of_def orphanStream_def stored_stream_def)

lemma orphan_stream_head:
  assumes "plane_ok lg" "stream_of lg (orphanStream object) = e # es"
  shows "\<exists>c. ev_Data e = OrphanConverged c \<and> ev_Type e = EventOrphanConverged"
  using orphan_stream_decisions[OF assms(1), of e object] assms(2) by (auto simp: decision_event_def)

definition decision_in :: "plane_fact stored_event list \<Rightarrow> orphan_decision" where
  "decision_in es = (case es of
     e # _ \<Rightarrow> (case ev_Data e of OrphanConverged c \<Rightarrow> \<lparr>od_outcome = Some (og_Outcome c), od_reason = og_Reason c\<rparr> | _ \<Rightarrow> no_decision)
   | [] \<Rightarrow> no_decision)"

lemma recordedDecision_eq:
  assumes "plane_ok lg"
  shows "recordedDecision lg object =
    (if orphanIdentity object = empty_string then Inl (JanitorRead (ReadFailed StreamKeyRequired))
     else Inr (decision_in (stream_of lg (orphanStream object))))"
proof -
  note read = read_history_eq[of lg "orphanStream object"]
  have "first_decision (stream_of lg (orphanStream object)) = Inr (decision_in (stream_of lg (orphanStream object)))"
    using orphan_stream_head[OF assms, of object]
    by (cases "stream_of lg (orphanStream object)") (auto simp: decision_in_def)
  then show ?thesis using read assms
    by (simp add: recordedDecision_def plane_ok_def orphanStream_def)
qed

lemma decision_in_None:
  assumes "plane_ok lg"
  shows "od_outcome (decision_in (stream_of lg (orphanStream object))) = None \<longleftrightarrow> stream_of lg (orphanStream object) = []"
  using orphan_stream_head[OF assms, of object]
  by (cases "stream_of lg (orphanStream object)") (auto simp: decision_in_def no_decision_def)

lemma unrecorded_command:
  assumes "plane_ok lg" "stream_of lg (orphanStream object) = []"
  shows "command_events lg (converge_key (orphanIdentity object)) = []"
proof -
  have False if "e \<in> set (el_Events lg)" "ev_CommandKey e = converge_key (orphanIdentity object)" for e
  proof -
    have d: "decision_event e" using assms(1) that by (auto simp: plane_ok_def)
    then have "ev_StreamID e = orphanIdentity object" using that(2) by (simp add: decision_event_def converge_key_def)
    then have "e \<in> set (stream_of lg (orphanStream object))"
      using that(1) d by (simp add: stream_of_def orphanStream_def stored_stream_def decision_event_def)
    with assms(2) show False by simp
  qed
  then show ?thesis by (auto simp: command_events_def filter_empty_conv)
qed

subsection \<open>One piece of capacity\<close>

lemma orphan_request_fields [simp]:
  "ar_Stream (orphan_request env object out reason) = orphanStream object"
  "ar_ExpectedStreamVersion (orphan_request env object out reason) = 0"
  "ar_CommandKey (orphan_request env object out reason) = converge_key (orphanIdentity object)"
  by (simp_all add: orphan_request_def converge_key_def Let_def)

lemma record_decision_Inr:
  assumes ok: "plane_ok lg" and fresh: "stream_of lg (orphanStream object) = []"
    and rec: "record_decision env object out reason lg = Inr lg'"
  shows "plane_ok lg'" "log_grows lg lg'" "same_run_streams lg lg'"
    "decision_in (stream_of lg' (orphanStream object)) = \<lparr>od_outcome = Some out, od_reason = reason\<rparr>"
    "orphanIdentity object' \<noteq> orphanIdentity object \<Longrightarrow> stream_of lg' (orphanStream object') = stream_of lg (orphanStream object')"
proof -
  let ?req = "orphan_request env object out reason"
  note inv = ok[unfolded plane_ok_def, THEN conjunct1]
  from rec obtain res where ap: "log_append (jv_now env) None ?req (lg, ()) = Inr ((lg', ()), res)"
    by (auto simp: record_decision_def Append_Inr split: sum.splits)
  have app: "lg' = appended (jv_now env) ?req lg"
    using log_append_Inr(2)[OF inv ap] unrecorded_command[OF ok fresh] by simp
  note keeps = log_append_keeps[OF inv ap]
  show "log_grows lg lg'" using keeps by blast
  have ev: "el_Events lg' = el_Events lg @ rows_of (jv_now env) ?req (el_Sequence lg + 1) 0 (ar_Events ?req)"
    by (simp add: app appended_def Let_def)
  have row: "decision_event e" if "e \<in> set (rows_of (jv_now env) ?req p i (ar_Events ?req))" for e p i
    using that by (auto simp: decision_event_def orphan_request_def Let_def orphanStream_def stored_of_def converge_key_def)
  then show "plane_ok lg'" using ok keeps by (auto simp: plane_ok_def ev)
  show "same_run_streams lg lg'"
    by (auto simp: same_run_streams_def app stream_of_appended orphanStream_def)
  show "decision_in (stream_of lg' (orphanStream object)) = \<lparr>od_outcome = Some out, od_reason = reason\<rparr>"
    by (simp add: app stream_of_appended fresh decision_in_def orphan_request_def Let_def)
  show "stream_of lg' (orphanStream object') = stream_of lg (orphanStream object')"
    if "orphanIdentity object' \<noteq> orphanIdentity object"
    using that by (simp add: app stream_of_appended orphanStream_def)
qed

lemma decide_cong:
  assumes "plane_ok lg" "plane_ok lg'" "same_run_streams lg lg'"
  shows "janitor_decide lg' object = janitor_decide lg object"
proof -
  have "read_history lg' \<lparr>sk_Type = ''run'', sk_ID = ow_RunID object\<rparr> = read_history lg \<lparr>sk_Type = ''run'', sk_ID = ow_RunID object\<rparr>"
    using assms by (simp add: read_history_eq plane_ok_def same_run_streams_def)
  then show ?thesis by (simp add: janitor_decide_def recordedRun_def)
qed

text \<open>What the log answers of a piece of capacity after it was converged.\<close>

definition decides :: "plane_fact event_log \<Rightarrow> owned_external_object \<Rightarrow> orphan_outcome \<Rightarrow> bool" where
  "decides lg object out \<longleftrightarrow> (\<exists>decision. recordedDecision lg object = Inr decision \<and> od_outcome decision = Some out)"

definition policy_says :: "plane_fact event_log \<Rightarrow> owned_external_object \<Rightarrow> orphan_outcome \<Rightarrow> bool" where
  "policy_says lg object out \<longleftrightarrow> (\<exists>decision. janitor_decide lg object = Inr decision \<and> od_outcome decision = Some out)"

lemma decides_eq:
  assumes "plane_ok lg"
  shows "decides lg object out \<longleftrightarrow> orphanIdentity object \<noteq> empty_string
    \<and> od_outcome (decision_in (stream_of lg (orphanStream object))) = Some out"
  by (auto simp: decides_def recordedDecision_eq[OF assms])

lemma converge_cases:
  assumes "plane_ok lg" "janitor_converge env object lg = (res, lg')"
  obtains (kept) "lg' = lg" "\<And>decision out. res = Inr decision \<Longrightarrow> od_outcome decision = Some out \<Longrightarrow> decides lg object out"
  | (recorded) decision out where "res = Inr decision" "od_outcome decision = Some out" "policy_says lg object out"
      "record_decision env object out (od_reason decision) lg = Inr lg'" "stream_of lg (orphanStream object) = []"
      "orphanIdentity object \<noteq> empty_string"
proof (cases "recordedDecision lg object")
  case (Inl err)
  with assms(2) have "lg' = lg" "res = Inl err" by (simp_all add: janitor_converge_def)
  with kept show ?thesis by simp
next
  case (Inr decided)
  then have id: "orphanIdentity object \<noteq> empty_string" "decided = decision_in (stream_of lg (orphanStream object))"
    by (simp_all add: recordedDecision_eq[OF assms(1)] split: if_splits)
  show ?thesis
  proof (cases "od_outcome decided")
    case (Some x)
    then have "lg' = lg" "res = Inr decided" using Inr assms(2) by (simp_all add: janitor_converge_def)
    with kept Inr show ?thesis by (simp add: decides_def)
  next
    case None
    then have fresh: "stream_of lg (orphanStream object) = []" using decision_in_None[OF assms(1)] id(2) by simp
    show ?thesis
    proof (cases "\<exists>decision out. janitor_decide lg object = Inr decision \<and> od_outcome decision = Some out
        \<and> record_decision env object out (od_reason decision) lg = Inr lg' \<and> res = Inr decision")
      case True
      with recorded[OF _ _ _ _ fresh id(1)] show ?thesis by (auto simp: policy_says_def)
    next
      case False
      with Inr None assms(2) have "lg' = lg" "res = Inr decision \<Longrightarrow> od_outcome decision = None" for decision
        by (auto simp: janitor_converge_def split: sum.splits option.splits)
      with kept show ?thesis by simp
    qed
  qed
qed

lemma converge_keeps:
  assumes "plane_ok lg" "janitor_converge env object lg = (res, lg')"
  shows "plane_ok lg' \<and> log_grows lg lg' \<and> same_run_streams lg lg'"
  using assms
proof (cases rule: converge_cases)
  case kept
  then show ?thesis using assms(1) by (simp add: log_grows_refl)
next
  case (recorded decision out)
  from record_decision_Inr(1-3)[OF assms(1) recorded(5,4)] show ?thesis by blast
qed

lemma converge_decided:
  assumes "plane_ok lg" "janitor_converge env object lg = (Inr decision, lg')" "od_outcome decision = Some out"
  shows "decides lg' object out"
  using assms(1,2)
proof (cases rule: converge_cases)
  case kept
  with assms(3) show ?thesis by blast
next
  case (recorded decision' out')
  note r = record_decision_Inr[OF assms(1) recorded(5,4)]
  from r(4) recorded(1,2,6) assms(3) show ?thesis by (simp add: decides_eq[OF r(1)])
qed

lemma converge_decides:
  assumes "plane_ok lg" "janitor_converge env object lg = (res, lg')" "decides lg' object' out"
  shows "decides lg object' out \<or> orphanIdentity object' = orphanIdentity object \<and> policy_says lg object out"
  using assms(1,2)
proof (cases rule: converge_cases)
  case kept
  with assms(3) show ?thesis by simp
next
  case (recorded decision out')
  note r = record_decision_Inr[OF assms(1) recorded(5,4)]
  show ?thesis
  proof (cases "orphanIdentity object' = orphanIdentity object")
    case True
    then have "orphanStream object' = orphanStream object" by (simp add: orphanStream_def)
    with assms(3) r(4) have "out' = out" by (simp add: decides_eq[OF r(1)])
    with True recorded(3) show ?thesis by simp
  next
    case False
    from r(5)[OF False] assms(3) show ?thesis by (simp add: decides_eq[OF r(1)] decides_eq[OF assms(1)])
  qed
qed

lemma grown_decision:
  assumes "plane_ok lg" "plane_ok lg'" "log_grows lg lg'" "decides lg object out"
  shows "recordedDecision lg' object = recordedDecision lg object"
proof -
  obtain xs where m: "stream_of lg' (orphanStream object) = stream_of lg (orphanStream object) @ xs"
    by (rule log_grows_stream[OF assms(3)])
  have "stream_of lg (orphanStream object) \<noteq> []"
    using assms(4) decision_in_None[OF assms(1), of object] by (auto simp: decides_eq[OF assms(1)])
  then have "decision_in (stream_of lg' (orphanStream object)) = decision_in (stream_of lg (orphanStream object))"
    unfolding m by (cases "stream_of lg (orphanStream object)") (simp_all add: decision_in_def)
  then show ?thesis by (simp add: recordedDecision_eq[OF assms(1)] recordedDecision_eq[OF assms(2)])
qed

lemma grown_decides:
  "plane_ok lg \<Longrightarrow> plane_ok lg' \<Longrightarrow> log_grows lg lg' \<Longrightarrow> decides lg object out \<Longrightarrow> decides lg' object out"
  using grown_decision[of lg lg' object out] by (simp add: decides_def)

subsection \<open>A sweep\<close>

text \<open>The command is one that carries the outcome out on this piece of capacity.\<close>

definition carries :: "janitor_env \<Rightarrow> owned_external_object \<Rightarrow> orphan_outcome \<Rightarrow> provider_command \<Rightarrow> bool" where
  "carries env object out c \<longleftrightarrow> (case out of
     OrphanAdopted \<Rightarrow> c = ReleaseSent (orphan_release object)
   | OrphanTerminated \<Rightarrow> c = TerminateSent (orphan_terminate object)
       \<or> c = ReleaseSent (orphan_release object) \<and> jv_terminate env (orphan_terminate object) = Some ErrTerminateUnsupported)"

lemma reclaim_carries: "janitor_reclaim env object out = (cs, err) \<Longrightarrow> c \<in> set cs \<Longrightarrow> carries env object out c"
  by (auto simp: janitor_reclaim_def janitor_release_def carries_def Let_def
      split: orphan_outcome.splits option.splits terminate_error.splits)

text \<open>
  Why a piece of capacity is decided as it is: the log said so before the sweep, or the policy says so of a
  listed piece that is filed under the same identity.
\<close>

definition grounds :: "plane_fact event_log \<Rightarrow> owned_external_object list \<Rightarrow> owned_external_object \<Rightarrow> orphan_outcome \<Rightarrow> bool" where
  "grounds lg objects object out \<longleftrightarrow> decides lg object out
     \<or> (\<exists>same \<in> set objects. orphanIdentity same = orphanIdentity object \<and> policy_says lg same out)"

definition swept :: "janitor_env \<Rightarrow> owned_external_object list \<Rightarrow> plane_fact event_log \<Rightarrow> sweep \<Rightarrow> bool" where
  "swept env objects lg s \<longleftrightarrow> plane_ok (sp_log s) \<and> log_grows lg (sp_log s) \<and> same_run_streams lg (sp_log s)
     \<and> (\<forall>c \<in> set (sp_sent s). \<exists>object \<in> set objects. \<exists>out. carries env object out c \<and> decides (sp_log s) object out
          \<and> grounds lg objects object out)"

lemma swept_nothing: "plane_ok lg \<Longrightarrow> swept env objects lg \<lparr>sp_result = n, sp_error = err, sp_sent = [], sp_log = lg\<rparr>"
  by (simp add: swept_def log_grows_refl)

lemma grounds_before:
  assumes "plane_ok lg" "janitor_converge env object lg = (res, lg')" "grounds lg' objects object' out"
  shows "grounds lg (object # objects) object' out"
proof -
  note k = converge_keeps[OF assms(1,2)]
  have "janitor_decide lg' x = janitor_decide lg x" for x using decide_cong[OF assms(1)] k by blast
  then have "policy_says lg' x y = policy_says lg x y" for x y by (simp add: policy_says_def)
  with assms(3) converge_decides[OF assms(1,2), of object' out] show ?thesis
    by (auto simp: grounds_def)
qed

lemma swept_after:
  assumes ok: "plane_ok lg" and conv: "janitor_converge env object lg = (res, lg')" and rest: "swept env objects lg' s"
  shows "swept env (object # objects) lg s"
proof -
  note k = converge_keeps[OF ok conv]
  from rest k have "log_grows lg (sp_log s)" "same_run_streams lg (sp_log s)"
    by (auto simp: swept_def intro: log_grows_trans same_run_streams_trans)
  then show ?thesis using rest grounds_before[OF ok conv] unfolding swept_def
    by (meson list.set_intros(2))
qed

lemma swept_sending:
  assumes ok: "plane_ok lg" and conv: "janitor_converge env object lg = (Inr decision, lg')" "od_outcome decision = Some out"
    and sent: "janitor_reclaim env object out = (cs, err)" and rest: "swept env objects lg' s"
  shows "swept env (object # objects) lg (s\<lparr>sp_sent := cs @ sp_sent s\<rparr>)"
proof -
  note k = converge_keeps[OF ok conv(1)] and d = converge_decided[OF ok conv]
  have "decides (sp_log s) object out" using grown_decides[OF _ _ _ d] k rest by (auto simp: swept_def)
  moreover have "grounds lg (object # objects) object out" using grounds_before[OF ok conv(1)] d by (auto simp: grounds_def)
  ultimately have "\<exists>x \<in> set (object # objects). \<exists>y. carries env x y c \<and> decides (sp_log s) x y \<and> grounds lg (object # objects) x y"
    if "c \<in> set cs" for c using reclaim_carries[OF sent that] by auto
  with swept_after[OF ok conv(1) rest] show ?thesis unfolding swept_def by auto
qed

lemma sweep_objects_swept: "plane_ok lg \<Longrightarrow> swept env objects lg (sweep_objects env objects n lg)"
proof (induction env objects n lg rule: sweep_objects.induct)
  case (1 env n lg)
  then show ?case by (simp add: swept_nothing)
next
  case (2 env object objects n lg)
  obtain res lg' where c: "janitor_converge env object lg = (res, lg')" by fastforce
  note ok = converge_keeps[OF 2(3) c, THEN conjunct1]
  show ?case
  proof (cases res)
    case (Inl err)
    with c swept_after[OF 2(3) c swept_nothing[OF ok]] show ?thesis by simp
  next
    case r: (Inr decision)
    show ?thesis
    proof (cases "od_outcome decision")
      case None
      with 2(1)[OF c[symmetric] r None ok] swept_after[OF 2(3) c] c r show ?thesis by simp
    next
      case (Some out)
      obtain cs err where s: "janitor_reclaim env object out = (cs, err)" by fastforce
      note send = swept_sending[OF 2(3) c[unfolded r] Some s]
      show ?thesis
      proof (cases err)
        case None
        with 2(2)[OF c[symmetric] r Some s[symmetric] None ok] send c r Some s show ?thesis by (simp add: Let_def)
      next
        case (Some e)
        with send[OF swept_nothing[OF ok], of objects n] c r \<open>od_outcome decision = Some out\<close> s show ?thesis by simp
      qed
    qed
  qed
qed

lemma Sweep_swept: "plane_ok lg \<Longrightarrow> swept env (case jv_listOwned env of Inl _ \<Rightarrow> [] | Inr owned \<Rightarrow> owned) lg (Sweep env lg)"
  by (auto simp: Sweep_def swept_nothing sweep_objects_swept split: sum.splits)

subsection \<open>The control plane around the janitor\<close>

text \<open>
  What may happen to the log: a sweep, an append of another part of the control plane (none of which
  names a stream of capacity or a key of the janitor), an acknowledgement.
\<close>

datatype plane_op = PlaneSweep janitor_env | PlaneAppend time "plane_fact append_request" | PlaneAck string nat

datatype plane_error = PlaneLog log_error | NotForOthers

definition janitors_own :: "plane_fact append_request \<Rightarrow> bool" where
  "janitors_own req \<longleftrightarrow> sk_Type (ar_Stream req) = ''orphan'' \<or> prefix ''janitor:converge:'' (ar_CommandKey req)"

definition plane_step :: "plane_op \<Rightarrow> plane_fact event_log \<Rightarrow> plane_error + plane_fact event_log" where
  "plane_step op lg = (case op of
     PlaneSweep env \<Rightarrow> Inr (sp_log (Sweep env lg))
   | PlaneAppend now req \<Rightarrow>
       if janitors_own req then Inl NotForOthers
       else (case Append now req lg of Inl err \<Rightarrow> Inl (PlaneLog err) | Inr (lg', _) \<Rightarrow> Inr lg')
   | PlaneAck sid position \<Rightarrow> Inr (Ack sid position lg))"

lemma plane_ok_empty: "plane_ok empty_log"
  using empty_log_inv by (simp add: plane_ok_def empty_log_def)

lemma foreign_rows:
  assumes "\<not> janitors_own req" "e \<in> set (rows_of now req p i es)"
  shows "ev_StreamType e \<noteq> ''orphan''" "ev_CommandKey e \<noteq> converge_key k"
proof -
  note r = rows_of_member[OF assms(2)]
  have "ev_StreamType e = sk_Type (ar_Stream req)"
    using arg_cong[OF r[THEN conjunct1], of sk_Type] by (simp add: stored_stream_def)
  then show "ev_StreamType e \<noteq> ''orphan''" using assms(1) by (simp add: janitors_own_def)
  have "prefix ''janitor:converge:'' (converge_key k)" unfolding converge_key_def by (rule prefixI[OF refl])
  then show "ev_CommandKey e \<noteq> converge_key k" using assms(1) r by (auto simp: janitors_own_def)
qed

lemma plane_append_keeps:
  assumes ok: "plane_ok lg" and own: "\<not> janitors_own req" and ap: "Append now req lg = Inr (lg', res)"
  shows "plane_ok lg' \<and> log_grows lg lg'"
proof -
  note inv = ok[unfolded plane_ok_def, THEN conjunct1] and log = ap[unfolded Append_Inr]
  note keeps = log_append_keeps[OF inv log]
  have "lg' = lg \<or> lg' = appended now req lg" using log_append_Inr(2)[OF inv log] by blast
  then have "plane_ok lg'"
  proof
    assume "lg' = appended now req lg"
    then have ev: "el_Events lg' = el_Events lg @ rows_of now req (el_Sequence lg + 1) 0 (ar_Events req)"
      by (simp add: appended_def Let_def)
    have "ev_StreamType e \<noteq> ''orphan'' \<and> (\<forall>i. ev_CommandKey e \<noteq> converge_key i)"
      if "e \<in> set (rows_of now req (el_Sequence lg + 1) 0 (ar_Events req))" for e
      using foreign_rows[OF own that] by blast
    with ok keeps show ?thesis by (auto simp: plane_ok_def ev)
  qed (use ok in simp)
  with keeps show ?thesis by blast
qed

lemma plane_ack_keeps: "plane_ok lg \<Longrightarrow> plane_ok (Ack sid position lg) \<and> log_grows lg (Ack sid position lg)"
  by (simp add: Ack_grows plane_ok_def Ack_inv) (simp add: Ack_def)

lemma plane_step_keeps:
  assumes "plane_ok lg" "plane_step op lg = Inr lg'"
  shows "plane_ok lg' \<and> log_grows lg lg'"
proof (cases op)
  case (PlaneSweep env)
  with assms Sweep_swept[OF assms(1), of env] show ?thesis by (simp add: plane_step_def swept_def)
next
  case (PlaneAppend now req)
  with assms(2) obtain res where "\<not> janitors_own req" "Append now req lg = Inr (lg', res)"
    by (auto simp: plane_step_def split: if_splits sum.splits)
  from plane_append_keeps[OF assms(1) this] show ?thesis .
next
  case (PlaneAck sid position)
  with assms(2) plane_ack_keeps[OF assms(1), of sid position] show ?thesis by (simp add: plane_step_def)
qed

interpretation plane: evolving_object plane_step plane_ok log_grows
  by unfold_locales (use plane_step_keeps in \<open>blast intro: log_grows_refl log_grows_trans\<close>)+

lemmas plane_reached = plane.run_ops_evolves[OF plane_ok_empty]

subsection \<open>Live work\<close>

definition on_plane :: "run_fact stored_event \<Rightarrow> plane_fact stored_event" where
  "on_plane e = \<lparr>ev_GlobalPosition = ev_GlobalPosition e, ev_ID = ev_ID e, ev_StreamType = ev_StreamType e,
     ev_StreamID = ev_StreamID e, ev_StreamVersion = ev_StreamVersion e, ev_Type = ev_Type e,
     ev_SchemaVersion = ev_SchemaVersion e, ev_OccurredAt = ev_OccurredAt e, ev_Actor = ev_Actor e,
     ev_CorrelationID = ev_CorrelationID e, ev_CausationID = ev_CausationID e, ev_CommandKey = ev_CommandKey e,
     ev_RequestHash = ev_RequestHash e, ev_Visibility = ev_Visibility e, ev_Data = RunFact (ev_Data e),
     ev_PrivateData = ev_PrivateData e\<rparr>"

definition well_typed :: "run_fact stored_event \<Rightarrow> bool" where
  "well_typed e \<longleftrightarrow> ev_Type e = fact_type (ev_Data e)"

definition run_over :: "run_state \<Rightarrow> bool" where
  "run_over st \<longleftrightarrow> closed st \<or> cleanupRequested st \<or> cleanupConfirmed st"

definition ending_type :: "string \<Rightarrow> bool" where
  "ending_type t \<longleftrightarrow> t = ''compute.run.cleanup_requested.v1'' \<or> t = ''compute.run.cleanup_confirmed.v1'' \<or> t = EventRunClosed"

lemma apply_fact_over:
  "apply_fact js now a f st = Inr st' \<Longrightarrow> run_over st' \<longleftrightarrow> run_over st \<or> ending_type (fact_type f)"
  by (cases f) (auto simp: run_over_def ending_type_def fact_effects event_type_defs exclude_def split: if_splits option.splits)

lemma reduced_over:
  "reduce_facts (applyStoredEvent js) rows st = Inr st' \<Longrightarrow>
     run_over st' \<longleftrightarrow> run_over st \<or> (\<exists>e \<in> set rows. ending_type (fact_type (ev_Data e)))"
proof (induction rows arbitrary: st)
  case (Cons e es)
  then obtain s where s: "applyStoredEvent js e st = Inr s" "reduce_facts (applyStoredEvent js) es s = Inr st'"
    unfolding reduce_facts_Cons_Inr by blast
  from s(1) have "apply_fact js (ev_OccurredAt e) (ev_Actor e) (ev_Data e) st = Inr s"
    by (simp add: applyStoredEvent_def split: if_splits)
  from apply_fact_over[OF this] Cons.IH[OF s(2)] show ?case by auto
qed simp

lemma recorded_events_over:
  "recorded_events es recorded = Inr recorded' \<Longrightarrow>
     rr_exists recorded' = rr_exists recorded
   \<and> (recorded_over recorded' \<longleftrightarrow> recorded_over recorded \<or> (\<exists>e \<in> set es. ending_type (ev_Type e)))"
  by (induction es recorded rule: recorded_events.induct)
    (auto simp: ending_type_def recorded_over_def EventRunClosed_def split: if_splits sum.splits)

text \<open>
  The Run is in the log with these facts and is not over: it is open, and nobody has asked for its capacity
  back.
\<close>

definition live_run :: "(string \<Rightarrow> string option) \<Rightarrow> plane_fact event_log \<Rightarrow> string \<Rightarrow> bool" where
  "live_run js lg r \<longleftrightarrow> r \<noteq> empty_string \<and> (\<exists>rows st. rows \<noteq> [] \<and> stream_of lg (runStream r) = map on_plane rows
     \<and> list_all well_typed rows \<and> reduceRun js rows = Inr st \<and> \<not> run_over st)"

lemma live_run_undecided:
  assumes "plane_ok lg" "live_run js lg (ow_RunID object)"
  shows "\<not> policy_says lg object out"
proof -
  let ?r = "ow_RunID object"
  from assms(2) obtain rows st where r: "?r \<noteq> empty_string" "rows \<noteq> []" "stream_of lg (runStream ?r) = map on_plane rows"
      "list_all well_typed rows" "reduceRun js rows = Inr st" "\<not> run_over st"
    by (auto simp: live_run_def)
  have "reduce_facts (applyStoredEvent js) rows no_state = Inr st" using r(5) by (simp add: reduceRun_Inr)
  from reduced_over[OF this] r(6) have none: "\<forall>e \<in> set rows. \<not> ending_type (fact_type (ev_Data e))" by blast
  have "ev_Type (on_plane e) = fact_type (ev_Data e)" if "e \<in> set rows" for e
    using that r(4) by (auto simp: list_all_iff well_typed_def on_plane_def)
  with none have no_end: "\<not> (\<exists>e \<in> set (map on_plane rows). ending_type (ev_Type e))" by auto
  have read: "read_history lg \<lparr>sk_Type = ''run'', sk_ID = ?r\<rparr> = Inr (map on_plane rows)"
    using assms(1) r(1,3) by (simp add: read_history_eq plane_ok_def runStream_def)
  show ?thesis
  proof (cases "recordedRun lg object")
    case (Inl err)
    then show ?thesis using r(1) by (simp add: policy_says_def janitor_decide_def)
  next
    case (Inr recorded)
    then have "recorded_events (map on_plane rows)
        \<lparr>rr_exists = True, rr_closed = False, rr_cleanupAsked = False, rr_launches = []\<rparr> = Inr recorded"
      using read r(2) by (simp add: recordedRun_def)
    from recorded_events_over[OF this] no_end have "rr_exists recorded" "\<not> recorded_over recorded"
      by (auto simp: recorded_over_def)
    then show ?thesis using Inr r(1) by (simp add: policy_says_def janitor_decide_def recorded_converge_def no_decision_def)
  qed
qed

subsection \<open>Properties\<close>

text \<open>C7: The janitor sends a provider nothing it did not write down first. Whatever sweeps, appends and
  acknowledgements the log has been through, every command a sweep sends is about a piece of capacity the
  adapters listed, asks for the outcome a decision in the log names for that piece (a release in place of a
  termination only where the provider says it cannot terminate), and that decision was already there before
  the sweep or is what the policy says of the record of the Run.\<close>

theorem sweep_acts_on_recorded_decisions:
  assumes "lg = run_ops plane_step ops empty_log" "c \<in> set (sp_sent (Sweep env lg))"
  shows "\<exists>owned object out. jv_listOwned env = Inr owned \<and> object \<in> set owned \<and> carries env object out c
    \<and> decides (sp_log (Sweep env lg)) object out \<and> grounds lg owned object out"
proof (cases "jv_listOwned env")
  case (Inl err)
  with assms(2) show ?thesis by (simp add: Sweep_def)
next
  case (Inr owned)
  have "swept env owned lg (Sweep env lg)" using Sweep_swept[of lg env] plane_reached[of ops] Inr by (simp add: assms(1))
  with assms(2) Inr show ?thesis unfolding swept_def by blast
qed

text \<open>C6: A sweep spares live work. While a Run is open and nobody has asked for its capacity back, no sweep
  releases or terminates capacity that names that Run and carries its launch key, unless a decision about
  that capacity was recorded before. (Launch keys tell Runs apart: no listed piece of capacity of another Run
  is filed under the same identity.)\<close>

theorem sweep_spares_live_work:
  assumes "lg = run_ops plane_step ops empty_log" "jv_listOwned env = Inr owned" "object \<in> set owned"
    "ow_LaunchKey object \<noteq> empty_string" "live_run js lg (ow_RunID object)" "\<And>out. \<not> decides lg object out"
    "\<And>same. same \<in> set owned \<Longrightarrow> orphanIdentity same = orphanIdentity object \<Longrightarrow> ow_RunID same = ow_RunID object"
  shows "ReleaseSent (orphan_release object) \<notin> set (sp_sent (Sweep env lg))
    \<and> TerminateSent (orphan_terminate object) \<notin> set (sp_sent (Sweep env lg))"
proof -
  note ok = plane_reached[of ops, folded assms(1), THEN conjunct1]
  have "swept env owned lg (Sweep env lg)" using Sweep_swept[OF ok, of env] assms(2) by simp
  then have why: "\<exists>x \<in> set owned. \<exists>out. carries env x out c \<and> grounds lg owned x out"
    if "c \<in> set (sp_sent (Sweep env lg))" for c using that unfolding swept_def by blast
  have "\<not> grounds lg owned x out" if "ow_LaunchKey x = ow_LaunchKey object" for x out
  proof -
    have "orphanIdentity x = orphanIdentity object" using that assms(4) by (simp add: orphanIdentity_def)
    moreover from this have "decides lg x out = decides lg object out"
      by (simp add: decides_eq[OF ok] orphanStream_def)
    ultimately show ?thesis using assms(5-7) live_run_undecided[OF ok]
      unfolding grounds_def by metis
  qed
  moreover have "ow_LaunchKey x = ow_LaunchKey object"
    if "carries env x out (ReleaseSent (orphan_release object)) \<or> carries env x out (TerminateSent (orphan_terminate object))" for x out
    using that by (auto simp: carries_def orphan_release_def orphan_terminate_def split: orphan_outcome.splits)
  ultimately show ?thesis using why by blast
qed

text \<open>C8: A decision about a piece of capacity is made once. Whatever happens to the log afterwards, a later
  sweep reads back the decision that was recorded, and never one made again against a record that has moved
  on.\<close>

theorem orphan_decision_is_final:
  assumes "lg = run_ops plane_step ops empty_log" "recordedDecision lg object = Inr decision" "od_outcome decision \<noteq> None"
    "lg' = run_ops plane_step ops' lg"
  shows "recordedDecision lg' object = Inr decision \<and> janitor_converge env object lg' = (Inr decision, lg')"
proof -
  note ok = plane_reached[of ops, folded assms(1), THEN conjunct1]
  note later = plane.run_ops_evolves[OF ok, of ops', folded assms(4)]
  from assms(2,3) obtain out where "decides lg object out" by (auto simp: decides_def)
  with grown_decision[OF ok] later assms(2) have "recordedDecision lg' object = Inr decision" by simp
  with assms(3) show ?thesis by (simp add: janitor_converge_def)
qed

subsection \<open>A sweep over two machines\<close>

definition plane_event :: "run_fact new_event \<Rightarrow> plane_fact new_event" where
  "plane_event e = \<lparr>ne_ID = ne_ID e, ne_Type = ne_Type e, ne_SchemaVersion = ne_SchemaVersion e,
     ne_OccurredAt = ne_OccurredAt e, ne_Visibility = ne_Visibility e, ne_Data = RunFact (ne_Data e),
     ne_PrivateData = ne_PrivateData e\<rparr>"

definition sample_plane_append :: "plane_fact append_request" where
  "sample_plane_append =
     \<lparr>ar_Stream = ar_Stream sample_run_append, ar_ExpectedStreamVersion = 0, ar_CommandKey = ''c1'',
      ar_RequestHash = ''h1'', ar_Actor = empty_string, ar_CorrelationID = empty_string, ar_CausationID = empty_string,
      ar_Events = map plane_event (ar_Events sample_run_append)\<rparr>"

definition sample_owned :: "string \<Rightarrow> string \<Rightarrow> owned_external_object" where
  "sample_owned key run =
     \<lparr>ow_ExternalID = ''x'', ow_ConnectionID = ''c'', ow_RunID = run, ow_AttemptID = empty_string, ow_OwnershipToken = ''t'',
      ow_LaunchKey = key, ow_CleanupLocator = empty_string, ow_RequestHash = empty_string, ow_Phase = ExternalPhaseRunning\<rparr>"

definition sample_janitor :: janitor_env where
  "sample_janitor =
     \<lparr>jv_now = 5, jv_listOwned = Inr [sample_owned ''k1'' ''r1'', sample_owned ''k2'' empty_string],
      jv_release = (\<lambda>_. None), jv_terminate = (\<lambda>_. None), jv_hash = (\<lambda>_. ''h'')\<rparr>"

definition sample_plane :: "plane_fact event_log" where
  "sample_plane = run_ops plane_step [PlaneAppend 1 sample_plane_append] empty_log"

lemma sample_plane_events: "el_Events sample_plane = map on_plane (el_Events sample_run_log)"
  by code_simp

lemma sample_plane_live: "live_run (\<lambda>_. None) sample_plane ''r1''"
proof -
  have "stream_of sample_plane (runStream ''r1'') = map on_plane (stream_of sample_run_log \<lparr>sk_Type = ''run'', sk_ID = ''r1''\<rparr>)"
    by (simp add: stream_of_def sample_plane_events filter_map comp_def on_plane_def stored_stream_def runStream_def)
  moreover have "list_all well_typed (el_Events sample_run_log)" "el_Events sample_run_log \<noteq> []"
    by (simp_all add: sample_run_log_events stored_of_def sample_run_append_def well_typed_def)
  ultimately show ?thesis using sample_queued_reduces unfolding live_run_def
    by (intro conjI exI[of _ "el_Events sample_run_log"] exI[of _ sample_queued])
      (simp_all add: sample_run_stream run_over_def sample_queued_def no_state_def)
qed

lemma sample_sweep:
  "sp_sent (Sweep sample_janitor sample_plane) = [TerminateSent (orphan_terminate (sample_owned ''k2'' empty_string))]
   \<and> recordedDecision sample_plane (sample_owned ''k1'' ''r1'') = Inr no_decision
   \<and> recordedDecision (sp_log (Sweep sample_janitor sample_plane)) (sample_owned ''k2'' empty_string) = Inr (terminate_because reasonUnattributed)"
  by code_simp

theorem sweep_acts_on_recorded_decisions_witness:
  "decides (sp_log (Sweep sample_janitor sample_plane)) (sample_owned ''k2'' empty_string) OrphanTerminated
   \<and> (\<exists>owned object out. jv_listOwned sample_janitor = Inr owned \<and> object \<in> set owned
     \<and> carries sample_janitor object out (TerminateSent (orphan_terminate (sample_owned ''k2'' empty_string)))
     \<and> decides (sp_log (Sweep sample_janitor sample_plane)) object out \<and> grounds sample_plane owned object out)"
  using sweep_acts_on_recorded_decisions[OF sample_plane_def,
      of "TerminateSent (orphan_terminate (sample_owned ''k2'' empty_string))" sample_janitor] sample_sweep
  by (simp add: decides_def terminate_because_def)

theorem sweep_spares_live_work_witness:
  "live_run (\<lambda>_. None) sample_plane ''r1''
   \<and> ReleaseSent (orphan_release (sample_owned ''k1'' ''r1'')) \<notin> set (sp_sent (Sweep sample_janitor sample_plane))
   \<and> TerminateSent (orphan_terminate (sample_owned ''k1'' ''r1'')) \<notin> set (sp_sent (Sweep sample_janitor sample_plane))"
proof -
  have l: "jv_listOwned sample_janitor = Inr [sample_owned ''k1'' ''r1'', sample_owned ''k2'' empty_string]"
    by (simp add: sample_janitor_def)
  have f: "ow_LaunchKey (sample_owned k r) = k" "ow_RunID (sample_owned k r) = r" for k r
    by (simp_all add: sample_owned_def)
  have d: "\<not> decides sample_plane (sample_owned ''k1'' ''r1'') out" for out
    using sample_sweep by (simp add: decides_def no_decision_def)
  have r: "ow_RunID same = ow_RunID (sample_owned ''k1'' ''r1'')"
    if "same \<in> set [sample_owned ''k1'' ''r1'', sample_owned ''k2'' empty_string]"
      "orphanIdentity same = orphanIdentity (sample_owned ''k1'' ''r1'')" for same
    using that by (auto simp: f orphanIdentity_def)
  have m: "sample_owned ''k1'' ''r1'' \<in> set [sample_owned ''k1'' ''r1'', sample_owned ''k2'' empty_string]"
    "ow_LaunchKey (sample_owned ''k1'' ''r1'') \<noteq> empty_string" "live_run (\<lambda>_. None) sample_plane (ow_RunID (sample_owned ''k1'' ''r1''))"
    using sample_plane_live by (simp_all add: f)
  show ?thesis
    by (rule conjI[OF sample_plane_live sweep_spares_live_work[OF sample_plane_def l m d r]])
qed

theorem orphan_decision_is_final_witness:
  "recordedDecision (run_ops plane_step [PlaneSweep sample_janitor] (sp_log (Sweep sample_janitor sample_plane)))
     (sample_owned ''k2'' empty_string) = Inr (terminate_because reasonUnattributed)"
proof -
  have s: "sp_log (Sweep sample_janitor sample_plane)
      = run_ops plane_step [PlaneAppend 1 sample_plane_append, PlaneSweep sample_janitor] empty_log"
    by (simp add: sample_plane_def plane_step_def[of "PlaneSweep sample_janitor"] split: sum.splits)
  show ?thesis
    by (rule orphan_decision_is_final[OF s sample_sweep[THEN conjunct2, THEN conjunct2] _ refl, THEN conjunct1])
      (simp add: terminate_because_def)
qed

end
