(* ===== verification/NodeStore.thy ===== *)
theory NodeStore
  imports Orchestrator
begin

text \<open>
  The durable half of the node registry: what a node is and what it reports
  (\<^verbatim>\<open>internal/node/node.go\<close>, \<^verbatim>\<open>internal/capability/node.go\<close>) and the four tables that hold it
  (\<^verbatim>\<open>internal/storage/sqlite/node.go\<close>).

  A row is held decoded. The two comparisons SQLite makes between moments are made between the texts the
  moments are written as, so \<open>stamp\<close> is \<^verbatim>\<open>time.RFC3339Nano\<close> with its calendar, and text is compared
  byte by byte.
\<close>

subsection \<open>What a node reports\<close>

record disk_facts =
  df_Known :: bool
  df_TotalBytes :: int64
  df_FreeBytes :: int64

record accelerator_facts =
  acf_Established :: bool
  acf_Vendor :: string
  acf_DriverVersion :: string
  acf_DriverCapability :: string
  acf_Devices :: "accelerator_inventory list"

record node_host =
  nh_OS :: string
  nh_KernelVersion :: string
  nh_Architecture :: string
  nh_ContainerRuntime :: string
  nh_RuntimeVersion :: string
  nh_AcceleratorToolkit :: string
  nh_Accelerator :: accelerator_facts
  nh_CPUMillis :: int64
  nh_MemoryBytes :: int64
  nh_Disk :: disk_facts
  nh_Network :: "network_fact list"

record image_locality =
  ly_ManifestDigest :: string
  ly_Platform :: platform
  ly_LayerDigests :: "string list"
  ly_LayerDiffIDs :: "string list"
  ly_ContentPresent :: bool
  ly_State :: locality
  ly_LastVerifiedAt :: time

record node_facts =
  nfa_ObservedAt :: time
  nfa_Host :: node_host
  nfa_Images :: "image_locality list"
  nfa_Artifacts :: artifact_inventory
  nfa_Caches :: cache_inventory

definition no_disk :: disk_facts where
  "no_disk = \<lparr>df_Known = False, df_TotalBytes = 0, df_FreeBytes = 0\<rparr>"

definition no_accelerator :: accelerator_facts where
  "no_accelerator = \<lparr>acf_Established = False, acf_Vendor = empty_string, acf_DriverVersion = empty_string,
     acf_DriverCapability = empty_string, acf_Devices = []\<rparr>"

definition no_facts :: node_facts where
  "no_facts = \<lparr>nfa_ObservedAt = zero_time,
     nfa_Host = \<lparr>nh_OS = empty_string, nh_KernelVersion = empty_string, nh_Architecture = empty_string,
       nh_ContainerRuntime = empty_string, nh_RuntimeVersion = empty_string, nh_AcceleratorToolkit = empty_string,
       nh_Accelerator = no_accelerator, nh_CPUMillis = 0, nh_MemoryBytes = 0, nh_Disk = no_disk, nh_Network = []\<rparr>,
     nfa_Images = [], nfa_Artifacts = \<lparr>ai_Known = False, ai_ObservedAt = zero_time, ai_Replicas = []\<rparr>,
     nfa_Caches = \<lparr>ci_Known = False, ci_ObservedAt = zero_time, ci_Mounts = []\<rparr>\<rparr>"

definition facts_Established :: "node_facts \<Rightarrow> node_facts" where
  "facts_Established facts =
     (let host = nfa_Host facts;
          host1 = (if \<not> df_Known (nh_Disk host) then host\<lparr>nh_Disk := no_disk\<rparr> else host);
          host2 = (if \<not> acf_Established (nh_Accelerator host1) then host1\<lparr>nh_Accelerator := no_accelerator\<rparr> else host1)
      in facts\<lparr>nfa_Host := host2\<rparr>)"

datatype workload_phase =
    WorkloadPhasePreparing | WorkloadPhaseCreated | WorkloadPhaseRunning | WorkloadPhaseExited
  | WorkloadPhaseAbsent | WorkloadPhaseOther string

record workload_observation =
  wo_RunID :: string
  wo_AttemptID :: string
  wo_Phase :: workload_phase
  wo_ObservedAt :: time
  wo_ReceivedAt :: time
  wo_ExitCode :: "int option"
  wo_OOMKilled :: bool
  wo_FailureReason :: string
  wo_StartedAt :: "time option"
  wo_FinishedAt :: "time option"

subsection \<open>Identity\<close>

datatype node_state = StateEnrolling | StateReady | StateLost | StateRetired

record purchase =
  pu_BillingIntervalSeconds :: int64
  pu_EligibleClasses :: "service_class list"
  pu_AvailableUntil :: time

record node_record =
  nr_ID :: string
  nr_RentalID :: string
  nr_Generation :: uint64
  nr_State :: node_state
  nr_FencingToken :: uint64
  nr_EnrollmentTokenID :: string
  nr_EnrollmentExpires :: time
  nr_EnrolledAt :: time
  nr_LeaseExpires :: time
  nr_LastHeartbeatAt :: time
  nr_AgentVersion :: string
  nr_Facts :: node_facts
  nr_ShadowPriceUSDPerHour :: float64
  nr_Purchase :: purchase

definition node_Retired :: "node_record \<Rightarrow> bool" where
  "node_Retired r \<longleftrightarrow> nr_State r = StateRetired"

definition node_Alive :: "node_record \<Rightarrow> time \<Rightarrow> bool" where
  "node_Alive r now \<longleftrightarrow> nr_State r = StateReady \<and> now < nr_LeaseExpires r"

definition node_Ref :: "node_record \<Rightarrow> node_ref" where
  "node_Ref r = \<lparr>nf_NodeID = nr_ID r, nf_RentalID = nr_RentalID r, nf_Generation = nr_Generation r\<rparr>"

datatype disk_report = DiskNeverReported | DiskUnmeasurable | DiskMeasured

definition node_Disk :: "node_record \<Rightarrow> disk_report" where
  "node_Disk r =
     (if time_is_zero (nfa_ObservedAt (nr_Facts r)) then DiskNeverReported
      else if \<not> df_Known (nh_Disk (nfa_Host (nr_Facts r))) then DiskUnmeasurable
      else DiskMeasured)"

subsection \<open>Commands\<close>

record credential_scope =
  sc_Operation :: string
  sc_Content :: string
  sc_ExpiresAt :: time

record registry_pull =
  rp_Scope :: credential_scope
  rp_Registry :: string
  rp_Username :: string
  rp_Secret :: string

record artifact_read =
  arr_Scope :: credential_scope
  arr_Location :: string

record prepare_image_command =
  pi_ManifestDigest :: string
  pi_Platform :: platform
  pi_Reference :: string
  pi_RegistryCredential :: registry_pull
  pi_Unpack :: bool

record prepare_artifact_command =
  pa_ArtifactID :: string
  pa_ContentDigest :: string
  pa_Source :: string
  pa_SourceCredential :: artifact_read
  pa_SizeBytes :: int64

record launch_workload_command =
  lw_RunID :: string
  lw_AttemptID :: string
  lw_BookingID :: string
  lw_Workload :: workload_spec
  lw_ManifestDigest :: string
  lw_Environment :: "(string \<times> string option) list"
  lw_CacheMounts :: "cache_requirement list"
  lw_MaxRuntimeSeconds :: int64

record stop_workload_command =
  sw_RunID :: string
  sw_GraceSeconds :: int64

text \<open>The typed command of the capability contract, which is also the payload that is stored and sent.\<close>

datatype node_order =
    PrepareImage prepare_image_command
  | PrepareArtifact prepare_artifact_command
  | LaunchWorkload launch_workload_command
  | StopWorkload stop_workload_command

datatype command_kind =
    CommandPrepareImage | CommandPrepareArtifact | CommandLaunchWorkload | CommandStopWorkload

definition order_kind :: "node_order \<Rightarrow> command_kind" where
  "order_kind c = (case c of PrepareImage _ \<Rightarrow> CommandPrepareImage | PrepareArtifact _ \<Rightarrow> CommandPrepareArtifact
     | LaunchWorkload _ \<Rightarrow> CommandLaunchWorkload | StopWorkload _ \<Rightarrow> CommandStopWorkload)"

definition MayLeaveEffectOnFailure :: "command_kind \<Rightarrow> bool" where
  "MayLeaveEffectOnFailure k \<longleftrightarrow> k = CommandLaunchWorkload \<or> k = CommandStopWorkload"

definition pull_WithoutMaterial :: "prepare_image_command \<Rightarrow> prepare_image_command" where
  "pull_WithoutMaterial c = c\<lparr>pi_RegistryCredential := (pi_RegistryCredential c)\<lparr>rp_Secret := empty_string\<rparr>\<rparr>"

definition read_WithoutMaterial :: "prepare_artifact_command \<Rightarrow> prepare_artifact_command" where
  "read_WithoutMaterial c = c\<lparr>pa_SourceCredential := (pa_SourceCredential c)\<lparr>arr_Location := empty_string\<rparr>\<rparr>"

definition recorded_order :: "node_order \<Rightarrow> node_order" where
  "recorded_order c = (case c of
     PrepareImage p \<Rightarrow> PrepareImage (pull_WithoutMaterial p)
   | PrepareArtifact p \<Rightarrow> PrepareArtifact (read_WithoutMaterial p)
   | _ \<Rightarrow> c)"

datatype operation_state = OperationPending | OperationApplied | OperationRefused

record operation =
  on_OperationID :: string
  on_NodeID :: string
  on_Kind :: command_kind
  on_FencingToken :: uint64
  on_State :: operation_state
  on_IssuedAt :: time
  on_SettledAt :: time
  on_Payload :: node_order
  on_Failure :: string

definition Reissuable :: "operation \<Rightarrow> bool" where
  "Reissuable o1 \<longleftrightarrow> on_State o1 = OperationRefused \<and> \<not> MayLeaveEffectOnFailure (on_Kind o1)"

record node_result =
  ns_OperationID :: string
  ns_Applied :: bool
  ns_Failure :: string
  ns_Duplicate :: bool
  ns_ReportedAt :: time

datatype event_kind = EventHeartbeat | EventWorkload | EventKindOther string

record node_event =
  nv_ID :: string
  nv_NodeID :: string
  nv_Kind :: event_kind
  nv_ObservedAt :: time
  nv_Facts :: "node_facts option"
  nv_Workload :: "workload_observation option"

definition event_receive :: "node_event \<Rightarrow> time \<Rightarrow> node_event" where
  "event_receive e moment = e\<lparr>nv_Workload := map_option (\<lambda>w. w\<lparr>wo_ReceivedAt := moment\<rparr>) (nv_Workload e)\<rparr>"

datatype node_error =
    ErrNotFound string
  | ErrEnrollmentSpent string
  | ErrEnrollmentInvalid
  | ErrIdentityExists string
  | ErrNodeRetired string
  | ErrFenced
  | ErrSessionInvalid string
  | ErrNoOperation string string
  | ErrEventInvalid string
  | ErrNodeRefused string
  | ErrNodePanic string

definition event_Validate :: "node_event \<Rightarrow> node_error option" where
  "event_Validate e =
     (if nv_ID e = empty_string then Some (ErrEventInvalid ''id'')
      else if nv_NodeID e = empty_string then Some (ErrEventInvalid ''node id'')
      else if time_is_zero (nv_ObservedAt e) then Some (ErrEventInvalid ''observation time'')
      else if nv_Kind e = EventHeartbeat \<and> nv_Facts e = None then Some (ErrEventInvalid ''facts'')
      else if nv_Kind e = EventWorkload \<and> nv_Workload e = None then Some (ErrEventInvalid ''workload'')
      else if nv_Kind e \<noteq> EventHeartbeat \<and> nv_Kind e \<noteq> EventWorkload then Some (ErrEventInvalid ''kind'')
      else None)"

subsection \<open>Moments as text\<close>

text \<open>
  The calendar of \<^verbatim>\<open>time.Time\<close> counts from the zero time, midnight of 1 January of year 1, which begins
  a cycle of 400 years.
\<close>

definition cycle_date :: "int \<Rightarrow> int \<times> int" where
  "cycle_date days =
     (let n400 = days div 146097; d = days mod 146097;
          n100 = min 3 (d div 36524); d = d - 36524 * n100;
          n4 = d div 1461; d = d mod 1461;
          n1 = min 3 (d div 365)
      in (400 * n400 + 100 * n100 + 4 * n4 + n1 + 1, d - 365 * n1))"

definition leap_year :: "int \<Rightarrow> bool" where
  "leap_year y \<longleftrightarrow> y mod 4 = 0 \<and> (y mod 100 \<noteq> 0 \<or> y mod 400 = 0)"

definition month_lengths :: "int \<Rightarrow> int list" where
  "month_lengths y = [31, if leap_year y then 29 else 28, 31, 30, 31, 30, 31, 31, 30, 31, 30, 31]"

fun month_of :: "int \<Rightarrow> int list \<Rightarrow> int \<Rightarrow> int \<times> int" where
  "month_of m [] d = (m, d + 1)"
| "month_of m (n # ns) d = (if d < n \<or> ns = [] then (m, d + 1) else month_of (m + 1) ns (d - n))"

definition padded :: "nat \<Rightarrow> int \<Rightarrow> string" where
  "padded w n = (let ds = nat_digits (nat n) in replicate (w - length ds) CHR ''0'' @ ds)"

definition second_stamp :: "int \<Rightarrow> string" where
  "second_stamp secs =
     (let days = secs div 86400; s = secs mod 86400;
          (y, yday) = cycle_date days; (mo, d) = month_of 1 (month_lengths y) yday
      in padded 4 y @ ''-'' @ padded 2 mo @ ''-'' @ padded 2 d @ ''T''
         @ padded 2 (s div 3600) @ '':'' @ padded 2 (s mod 3600 div 60) @ '':'' @ padded 2 (s mod 60))"

text \<open>The fraction of a second is written without its trailing zeros, and not at all when it is zero.\<close>

definition fraction_stamp :: "int \<Rightarrow> string" where
  "fraction_stamp ns =
     (if ns = 0 then empty_string
      else CHR ''.'' # rev (dropWhile (\<lambda>c. c = CHR ''0'') (rev (padded 9 ns))))"

definition stamp :: "time \<Rightarrow> string" where
  "stamp t =
     (if time_is_zero t then empty_string
      else second_stamp (t div nanos_per_second) @ fraction_stamp (t mod nanos_per_second) @ ''Z'')"

subsection \<open>The tables\<close>

record workload_row =
  wr_NodeID :: string
  wr_RunID :: string
  wr_AttemptID :: string
  wr_ObservedAt :: string
  wr_Observation :: workload_observation

record operation_row =
  orw_Operation :: operation
  orw_Sequence :: nat

record node_tables =
  nt_Nodes :: "node_record list"
  nt_Operations :: "operation_row list"
  nt_Events :: "(string \<times> string) list"
  nt_Workloads :: "workload_row list"

definition no_nodes :: node_tables where
  "no_nodes = \<lparr>nt_Nodes = [], nt_Operations = [], nt_Events = [], nt_Workloads = []\<rparr>"

definition node_row :: "node_tables \<Rightarrow> string \<Rightarrow> node_record option" where
  "node_row t i = find (\<lambda>r. nr_ID r = i) (nt_Nodes t)"

text \<open>An \<^verbatim>\<open>UPDATE nodes ... WHERE node_id = ?\<close>.\<close>

definition update_node :: "string \<Rightarrow> (node_record \<Rightarrow> node_record) \<Rightarrow> node_tables \<Rightarrow> node_tables" where
  "update_node i f t = t\<lparr>nt_Nodes := map (\<lambda>r. if nr_ID r = i then f r else r) (nt_Nodes t)\<rparr>"

definition nodes_Invite :: "node_record \<Rightarrow> node_tables \<Rightarrow> node_error + node_tables" where
  "nodes_Invite r t =
     (if node_row t (nr_ID r) \<noteq> None then Inl (ErrIdentityExists (nr_ID r))
      else Inr (t\<lparr>nt_Nodes := nt_Nodes t @ [r]\<rparr>))"

definition nodes_Get :: "node_tables \<Rightarrow> string \<Rightarrow> node_error + node_record" where
  "nodes_Get t i = (case node_row t i of None \<Rightarrow> Inl (ErrNotFound i) | Some r \<Rightarrow> Inr r)"

definition nodes_List :: "node_tables \<Rightarrow> node_record list" where
  "nodes_List t = sort_key nr_ID (nt_Nodes t)"

record store_enrollment =
  se_EnrollmentTokenID :: string
  se_AgentVersion :: string
  se_Facts :: node_facts
  se_EnrolledAt :: time
  se_LeaseExpires :: time

definition enrolled_row :: "store_enrollment \<Rightarrow> node_record \<Rightarrow> node_record" where
  "enrolled_row e r = r\<lparr>nr_State := StateReady, nr_FencingToken := nr_FencingToken r + 1, nr_EnrollmentTokenID := empty_string,
     nr_AgentVersion := se_AgentVersion e, nr_Facts := se_Facts e, nr_EnrolledAt := se_EnrolledAt e,
     nr_LastHeartbeatAt := se_EnrolledAt e, nr_LeaseExpires := se_LeaseExpires e\<rparr>"

definition nodes_Enroll :: "string \<Rightarrow> store_enrollment \<Rightarrow> node_tables \<Rightarrow> node_error + node_record \<times> node_tables" where
  "nodes_Enroll i e t = (case node_row t i of
     None \<Rightarrow> Inl (ErrNotFound i)
   | Some r \<Rightarrow>
       if nr_State r = StateRetired then Inl (ErrNodeRetired i)
       else if nr_EnrollmentTokenID r \<noteq> se_EnrollmentTokenID e then Inl (ErrEnrollmentSpent i)
       else (let t' = update_node i (enrolled_row e) t in
         case nodes_Get t' i of Inl err \<Rightarrow> Inl err | Inr r' \<Rightarrow> Inr (r', t')))"

definition nodes_Reinvite :: "string \<Rightarrow> string \<Rightarrow> time \<Rightarrow> node_tables \<Rightarrow> node_error + node_tables" where
  "nodes_Reinvite i token expires t =
     (if node_row t i = None then Inl (ErrNotFound i)
      else Inr (update_node i (\<lambda>r. r\<lparr>nr_EnrollmentTokenID := token, nr_EnrollmentExpires := expires\<rparr>) t))"

definition nodes_Retire :: "string \<Rightarrow> node_tables \<Rightarrow> node_error + node_tables" where
  "nodes_Retire i t =
     (if node_row t i = None then Inl (ErrNotFound i)
      else Inr (update_node i (\<lambda>r. r\<lparr>nr_State := StateRetired\<rparr>) t))"

definition nodes_Heartbeat :: "string \<Rightarrow> node_facts \<Rightarrow> time \<Rightarrow> node_tables \<Rightarrow> node_error + node_record \<times> node_tables" where
  "nodes_Heartbeat i facts leaseExpires t = (case node_row t i of
     None \<Rightarrow> Inl (ErrNotFound i)
   | Some r \<Rightarrow>
       if nr_State r = StateRetired then Inl (ErrNodeRetired (nr_ID r))
       else (let t' = update_node i (\<lambda>r. r\<lparr>nr_State := StateReady, nr_Facts := facts,
                 nr_LastHeartbeatAt := nfa_ObservedAt facts, nr_LeaseExpires := leaseExpires\<rparr>) t in
         case nodes_Get t' i of Inl err \<Rightarrow> Inl err | Inr r' \<Rightarrow> Inr (r', t')))"

definition same_workload :: "workload_row \<Rightarrow> workload_row \<Rightarrow> bool" where
  "same_workload x y \<longleftrightarrow> wr_NodeID x = wr_NodeID y \<and> wr_RunID x = wr_RunID y \<and> wr_AttemptID x = wr_AttemptID y"

text \<open>\<^verbatim>\<open>INSERT ... ON CONFLICT DO UPDATE ... WHERE excluded.observed_at >= node_workloads.observed_at\<close>.\<close>

definition upsert_workload :: "workload_row \<Rightarrow> workload_row list \<Rightarrow> workload_row list" where
  "upsert_workload x rows =
     (if \<not> list_ex (same_workload x) rows then rows @ [x]
      else map (\<lambda>y. if same_workload x y \<and> wr_ObservedAt y \<le> wr_ObservedAt x then x else y) rows)"

definition nodes_RecordEvent :: "node_event \<Rightarrow> node_tables \<Rightarrow> bool \<times> node_tables" where
  "nodes_RecordEvent e t =
     (if (nv_NodeID e, nv_ID e) \<in> set (nt_Events t) then (False, t)
      else (let t1 = t\<lparr>nt_Events := nt_Events t @ [(nv_NodeID e, nv_ID e)]\<rparr> in
        (True, case nv_Workload e of
           Some w \<Rightarrow>
             if nv_Kind e = EventWorkload
             then t1\<lparr>nt_Workloads := upsert_workload
               \<lparr>wr_NodeID = nv_NodeID e, wr_RunID = wo_RunID w, wr_AttemptID = wo_AttemptID w,
                wr_ObservedAt = stamp (wo_ObservedAt w), wr_Observation = w\<rparr> (nt_Workloads t1)\<rparr>
             else t1
         | None \<Rightarrow> t1)))"

definition LatestWorkload :: "node_tables \<Rightarrow> string \<Rightarrow> string \<Rightarrow> string \<Rightarrow> workload_observation option" where
  "LatestWorkload t nodeID runID attemptID = map_option wr_Observation
     (find (\<lambda>x. wr_NodeID x = nodeID \<and> wr_RunID x = runID \<and> wr_AttemptID x = attemptID) (nt_Workloads t))"

definition Workloads :: "node_tables \<Rightarrow> string \<Rightarrow> workload_observation list" where
  "Workloads t nodeID = map wr_Observation
     (sort_key wr_RunID (sort_key wr_AttemptID (filter (\<lambda>x. wr_NodeID x = nodeID) (nt_Workloads t))))"

definition operation_row_of :: "node_tables \<Rightarrow> string \<Rightarrow> string \<Rightarrow> operation option" where
  "operation_row_of t nodeID operationID = map_option orw_Operation
     (find (\<lambda>x. on_NodeID (orw_Operation x) = nodeID \<and> on_OperationID (orw_Operation x) = operationID) (nt_Operations t))"

definition update_operation :: "string \<Rightarrow> string \<Rightarrow> (operation \<Rightarrow> operation) \<Rightarrow> node_tables \<Rightarrow> node_tables" where
  "update_operation nodeID operationID f t = t\<lparr>nt_Operations := map (\<lambda>x.
     if on_NodeID (orw_Operation x) = nodeID \<and> on_OperationID (orw_Operation x) = operationID
     then x\<lparr>orw_Operation := f (orw_Operation x)\<rparr> else x) (nt_Operations t)\<rparr>"

definition next_sequence :: "node_tables \<Rightarrow> string \<Rightarrow> nat" where
  "next_sequence t nodeID =
     foldr max (map orw_Sequence (filter (\<lambda>x. on_NodeID (orw_Operation x) = nodeID) (nt_Operations t))) 0 + 1"

definition AppendOperation :: "operation \<Rightarrow> node_tables \<Rightarrow> (operation \<times> bool) \<times> node_tables" where
  "AppendOperation o1 t = (case operation_row_of t (on_NodeID o1) (on_OperationID o1) of
     Some existing \<Rightarrow>
       if \<not> Reissuable existing then ((existing, True), t)
       else ((o1, False), update_operation (on_NodeID o1) (on_OperationID o1) (\<lambda>old. old\<lparr>on_Kind := on_Kind o1,
          on_FencingToken := on_FencingToken o1, on_State := on_State o1, on_IssuedAt := on_IssuedAt o1,
          on_SettledAt := zero_time, on_Failure := empty_string, on_Payload := on_Payload o1\<rparr>) t)
   | None \<Rightarrow> ((o1, False), t\<lparr>nt_Operations := nt_Operations t @
       [\<lparr>orw_Operation = o1\<lparr>on_SettledAt := zero_time, on_Failure := empty_string\<rparr>,
         orw_Sequence = next_sequence t (on_NodeID o1)\<rparr>]\<rparr>))"

definition SettleOperation :: "string \<Rightarrow> node_result \<Rightarrow> node_tables \<Rightarrow> node_error option \<times> node_tables" where
  "SettleOperation nodeID result t =
     (let state = (if ns_Applied result then OperationApplied else OperationRefused);
          settle = (\<lambda>o1. o1\<lparr>on_State := state, on_Failure := ns_Failure result, on_SettledAt := ns_ReportedAt result\<rparr>) in
      case operation_row_of t nodeID (ns_OperationID result) of
        None \<Rightarrow> (Some (ErrNoOperation nodeID (ns_OperationID result)), t)
      | Some o1 \<Rightarrow>
          (None, if on_State o1 = OperationPending then update_operation nodeID (ns_OperationID result) settle t else t))"

definition node_operations :: "node_tables \<Rightarrow> string \<Rightarrow> operation_state \<Rightarrow> operation list" where
  "node_operations t nodeID state = map orw_Operation (sort_key orw_Sequence
     (filter (\<lambda>x. on_NodeID (orw_Operation x) = nodeID \<and> on_State (orw_Operation x) = state) (nt_Operations t)))"

definition PendingOperations :: "node_tables \<Rightarrow> string \<Rightarrow> operation list" where
  "PendingOperations t nodeID = node_operations t nodeID OperationPending"

definition AppliedOperationIDs :: "node_tables \<Rightarrow> string \<Rightarrow> string list" where
  "AppliedOperationIDs t nodeID = map on_OperationID (node_operations t nodeID OperationApplied)"

definition lease_elapsed :: "time \<Rightarrow> node_record \<Rightarrow> bool" where
  "lease_elapsed now r \<longleftrightarrow> nr_State r = StateReady \<and> stamp (nr_LeaseExpires r) \<le> stamp now"

text \<open>The expiry reads the elapsed leases first and marks them afterwards, statement by statement.\<close>

definition expired_leases :: "time \<Rightarrow> node_tables \<Rightarrow> node_record list" where
  "expired_leases now t = map (\<lambda>r. r\<lparr>nr_State := StateLost\<rparr>) (sort_key nr_ID (filter (lease_elapsed now) (nt_Nodes t)))"

definition mark_lost :: "node_record list \<Rightarrow> node_tables \<Rightarrow> node_tables" where
  "mark_lost rs t = fold (\<lambda>r. update_node (nr_ID r) (\<lambda>r. r\<lparr>nr_State := StateLost\<rparr>)) rs t"

definition nodes_ExpireLeases :: "time \<Rightarrow> node_tables \<Rightarrow> node_record list \<times> node_tables" where
  "nodes_ExpireLeases now t = (let expired = expired_leases now t in (expired, mark_lost expired t))"

subsection \<open>What the tables keep\<close>

lemma find_map_same:
  assumes "\<And>x. P (f x) = P x"
  shows "find P (map f xs) = map_option f (find P xs)"
  using assms by (induction xs) auto

lemma find_append_Some: "find P xs = Some x \<Longrightarrow> find P (xs @ ys) = Some x"
  by (induction xs) auto

lemma find_Some_holds: "find P xs = Some x \<Longrightarrow> P x \<and> x \<in> set xs"
  by (induction xs) (auto split: if_splits)

lemma node_row_ID: "node_row t i = Some r \<Longrightarrow> nr_ID r = i"
  by (auto simp: node_row_def dest: find_Some_holds)

lemma nodes_Get_Inr [simp]: "nodes_Get t i = Inr r \<longleftrightarrow> node_row t i = Some r"
  by (auto simp: nodes_Get_def split: option.splits)

lemma node_row_update:
  assumes "\<And>r. nr_ID (f r) = nr_ID r"
  shows "node_row (update_node i f t) j = map_option (\<lambda>r. if j = i then f r else r) (node_row t j)"
proof -
  have "node_row (update_node i f t) j = map_option (\<lambda>r. if nr_ID r = i then f r else r) (node_row t j)"
    unfolding node_row_def update_node_def using assms by (simp add: find_map_same)
  then show ?thesis by (cases "node_row t j") (auto dest: node_row_ID)
qed

lemma operation_row_update:
  assumes "\<And>x. on_NodeID (f x) = on_NodeID x" "\<And>x. on_OperationID (f x) = on_OperationID x"
  shows "operation_row_of (update_operation n k f t) m j
    = map_option (\<lambda>x. if m = n \<and> j = k then f x else x) (operation_row_of t m j)"
proof -
  define P where "P x \<longleftrightarrow> on_NodeID (orw_Operation x) = m \<and> on_OperationID (orw_Operation x) = j" for x :: operation_row
  define g where "g x = (if on_NodeID (orw_Operation x) = n \<and> on_OperationID (orw_Operation x) = k
    then x\<lparr>orw_Operation := f (orw_Operation x)\<rparr> else x)" for x :: operation_row
  have "P (g x) = P x" for x using assms by (simp add: P_def g_def)
  from find_map_same[of P g, OF this] have "map_option orw_Operation (find P (map g (nt_Operations t)))
      = map_option (\<lambda>x. if m = n \<and> j = k then f x else x) (map_option orw_Operation (find P (nt_Operations t)))"
    by (cases "find P (nt_Operations t)") (auto simp: P_def g_def dest: find_Some_holds)
  then show ?thesis unfolding operation_row_of_def update_operation_def P_def[abs_def] g_def[abs_def] by simp
qed

lemma tables_untouched [simp]:
  "node_row (t\<lparr>nt_Operations := x\<rparr>) i = node_row t i" "node_row (t\<lparr>nt_Events := y\<rparr>) i = node_row t i"
  "node_row (t\<lparr>nt_Workloads := z\<rparr>) i = node_row t i" "node_row (update_operation n k g t) i = node_row t i"
  "operation_row_of (t\<lparr>nt_Nodes := v\<rparr>) n k = operation_row_of t n k"
  "operation_row_of (t\<lparr>nt_Events := y\<rparr>) n k = operation_row_of t n k"
  "operation_row_of (t\<lparr>nt_Workloads := z\<rparr>) n k = operation_row_of t n k"
  "operation_row_of (update_node i f t) n k = operation_row_of t n k"
  by (simp_all add: node_row_def operation_row_of_def update_operation_def update_node_def)

text \<open>
  How the tables may move. A row of a node keeps its identity, its Rental, its generation and what it was
  bought on; its fencing token only counts enrollments; its state leaves \<open>StateRetired\<close> never. A command
  that can leave an effect on the machine keeps everything it was stored with, and settles once.
\<close>

definition node_after :: "nat \<Rightarrow> node_record \<Rightarrow> node_record \<Rightarrow> bool" where
  "node_after n r r' \<longleftrightarrow> nr_ID r' = nr_ID r \<and> nr_RentalID r' = nr_RentalID r \<and> nr_Generation r' = nr_Generation r
     \<and> nr_ShadowPriceUSDPerHour r' = nr_ShadowPriceUSDPerHour r \<and> nr_Purchase r' = nr_Purchase r
     \<and> (node_Retired r \<longrightarrow> node_Retired r')
     \<and> (\<exists>k \<le> n. nr_FencingToken r' = nr_FencingToken r + of_nat k)"

definition operation_after :: "operation \<Rightarrow> operation \<Rightarrow> bool" where
  "operation_after x y \<longleftrightarrow> on_NodeID y = on_NodeID x \<and> on_OperationID y = on_OperationID x
     \<and> (MayLeaveEffectOnFailure (on_Kind x) \<longrightarrow>
          on_Kind y = on_Kind x \<and> on_Payload y = on_Payload x \<and> on_IssuedAt y = on_IssuedAt x
          \<and> on_FencingToken y = on_FencingToken x
          \<and> (on_State x \<noteq> OperationPending \<longrightarrow> y = x))
     \<and> (on_State x = OperationApplied \<longrightarrow> y = x)"

definition tables_move :: "nat \<Rightarrow> node_tables \<Rightarrow> node_tables \<Rightarrow> bool" where
  "tables_move n t t' \<longleftrightarrow>
     (\<forall>i r. node_row t i = Some r \<longrightarrow> (\<exists>r'. node_row t' i = Some r' \<and> node_after n r r'))
   \<and> (\<forall>i k x. operation_row_of t i k = Some x \<longrightarrow> (\<exists>y. operation_row_of t' i k = Some y \<and> operation_after x y))
   \<and> set (nt_Events t) \<subseteq> set (nt_Events t')"

lemma node_after_refl: "node_after n r r"
  by (auto simp: node_after_def intro!: exI[of _ 0])

lemma operation_after_refl: "operation_after x x"
  by (simp add: operation_after_def)

lemma node_after_trans: "node_after m a b \<Longrightarrow> node_after n b c \<Longrightarrow> node_after (m + n) a c"
proof -
  assume a: "node_after m a b" "node_after n b c"
  from a obtain k l where k: "k \<le> m" "nr_FencingToken b = nr_FencingToken a + of_nat k"
    "l \<le> n" "nr_FencingToken c = nr_FencingToken b + of_nat l" by (auto simp: node_after_def)
  then have "k + l \<le> m + n \<and> nr_FencingToken c = nr_FencingToken a + of_nat (k + l)" by (simp add: add.assoc)
  then show ?thesis using a unfolding node_after_def by metis
qed

lemma operation_after_trans: "operation_after a b \<Longrightarrow> operation_after b c \<Longrightarrow> operation_after a c"
  unfolding operation_after_def by metis

lemma tables_move_same [simp]: "tables_move n t t"
  unfolding tables_move_def using node_after_refl operation_after_refl by blast

lemma tables_move_trans: "tables_move m a b \<Longrightarrow> tables_move n b c \<Longrightarrow> tables_move (m + n) a c"
  unfolding tables_move_def
  by (meson node_after_trans operation_after_trans subset_trans)

lemma tables_move_mono: "tables_move m a b \<Longrightarrow> m \<le> n \<Longrightarrow> tables_move n a b"
  unfolding tables_move_def node_after_def by (meson order_trans)

lemma update_node_moves:
  assumes "\<And>r. nr_ID (f r) = nr_ID r" "\<And>r. node_row t i = Some r \<Longrightarrow> node_after n r (f r)"
  shows "tables_move n t (update_node i f t)"
  unfolding tables_move_def
proof (intro conjI allI impI)
  fix j r assume "node_row t j = Some r"
  then show "\<exists>r'. node_row (update_node i f t) j = Some r' \<and> node_after n r r'"
    using assms node_after_refl by (cases "j = i") (auto simp: node_row_update)
qed (auto simp: operation_after_refl update_node_def)

lemma update_operation_moves:
  assumes "\<And>x. on_NodeID (f x) = on_NodeID x" "\<And>x. on_OperationID (f x) = on_OperationID x"
    "\<And>x. operation_row_of t i k = Some x \<Longrightarrow> operation_after x (f x)"
  shows "tables_move n t (update_operation i k f t)"
  unfolding tables_move_def
proof (intro conjI allI impI)
  fix j l x assume "operation_row_of t j l = Some x"
  then show "\<exists>y. operation_row_of (update_operation i k f t) j l = Some y \<and> operation_after x y"
    using assms operation_after_refl by (cases "j = i \<and> l = k") (auto simp: operation_row_update)
qed (auto simp: node_after_refl update_operation_def)

lemma nodes_Invite_moves: "nodes_Invite r t = Inr t' \<Longrightarrow> tables_move n t t'"
  by (auto simp: nodes_Invite_def tables_move_def node_row_def operation_after_refl operation_row_of_def
      intro!: exI[of _ _] node_after_refl find_append_Some split: if_splits)

lemma nodes_Enroll_Inr:
  assumes "nodes_Enroll i e t = Inr (r', t')"
  obtains r where "node_row t i = Some r" "nr_State r \<noteq> StateRetired" "nr_EnrollmentTokenID r = se_EnrollmentTokenID e"
    "r' = enrolled_row e r" "t' = update_node i (enrolled_row e) t" "node_row t' i = Some r'"
proof -
  have ids: "nr_ID (enrolled_row e r) = nr_ID r" for r by (simp add: enrolled_row_def)
  from assms show thesis
    by (auto simp: nodes_Enroll_def Let_def node_row_update[OF ids] split: option.splits if_splits sum.splits
        intro: that)
qed

lemma nodes_Enroll_moves: "nodes_Enroll i e t = Inr (r', t') \<Longrightarrow> tables_move 1 t t'"
proof (erule nodes_Enroll_Inr)
  fix r assume r: "node_row t i = Some r" "nr_State r \<noteq> StateRetired" "t' = update_node i (enrolled_row e) t"
  have "node_after 1 r (enrolled_row e r)" using r(2)
    by (auto simp: node_after_def enrolled_row_def node_Retired_def intro!: exI[of _ 1])
  then show "tables_move 1 t t'" unfolding r(3)
    by (intro update_node_moves) (use r(1) in \<open>auto simp: enrolled_row_def\<close>)
qed

lemma nodes_Reinvite_moves: "nodes_Reinvite i k x t = Inr t' \<Longrightarrow> tables_move n t t'"
  by (auto simp: nodes_Reinvite_def node_after_def node_Retired_def split: if_splits intro!: update_node_moves exI[of _ 0])

lemma nodes_Retire_moves: "nodes_Retire i t = Inr t' \<Longrightarrow> tables_move n t t'"
  by (auto simp: nodes_Retire_def node_after_def node_Retired_def split: if_splits intro!: update_node_moves exI[of _ 0])

lemma nodes_Heartbeat_moves: "nodes_Heartbeat i facts l t = Inr (r, t') \<Longrightarrow> tables_move n t t'"
  by (auto simp: nodes_Heartbeat_def Let_def node_after_def node_Retired_def
      split: if_splits option.splits sum.splits intro!: update_node_moves exI[of _ 0])

lemma nodes_RecordEvent_moves: "nodes_RecordEvent e t = (b, t') \<Longrightarrow> tables_move n t t'"
  by (auto simp: nodes_RecordEvent_def tables_move_def Let_def node_after_refl operation_after_refl
      split: if_splits option.splits)

lemma AppendOperation_moves: "AppendOperation x t = (p, t') \<Longrightarrow> tables_move n t t'"
proof (cases "operation_row_of t (on_NodeID x) (on_OperationID x)")
  case None
  assume "AppendOperation x t = (p, t')"
  with None show ?thesis
    by (auto simp: AppendOperation_def tables_move_def node_after_refl operation_row_of_def
        intro!: exI[of _ _] operation_after_refl dest: find_append_Some)
next
  case (Some old)
  assume "AppendOperation x t = (p, t')"
  with Some show ?thesis
    by (auto simp: AppendOperation_def operation_after_def Reissuable_def split: if_splits intro!: update_operation_moves)
qed

lemma SettleOperation_moves: "SettleOperation i result t = (err, t') \<Longrightarrow> tables_move n t t'"
  by (auto simp: SettleOperation_def Let_def operation_after_def split: option.splits if_splits
      intro!: update_operation_moves)

definition node_keys :: "node_tables \<Rightarrow> bool" where
  "node_keys t \<longleftrightarrow> distinct (map nr_ID (nt_Nodes t))"

lemma node_row_member: "node_keys t \<Longrightarrow> r \<in> set (nt_Nodes t) \<Longrightarrow> node_row t (nr_ID r) = Some r"
proof -
  have "distinct (map nr_ID xs) \<Longrightarrow> r \<in> set xs \<Longrightarrow> find (\<lambda>x. nr_ID x = nr_ID r) xs = Some r" for xs :: "node_record list"
    by (induction xs) (auto simp: image_iff)
  then show "node_keys t \<Longrightarrow> r \<in> set (nt_Nodes t) \<Longrightarrow> node_row t (nr_ID r) = Some r" by (simp add: node_keys_def node_row_def)
qed

lemma mark_lost_moves:
  assumes "\<And>r r'. r \<in> set rs \<Longrightarrow> node_row t (nr_ID r) = Some r' \<Longrightarrow> \<not> node_Retired r'"
  shows "tables_move 0 t (mark_lost rs t)"
  using assms
proof (induction rs arbitrary: t)
  case (Cons r rs)
  let ?t = "update_node (nr_ID r) (\<lambda>r. r\<lparr>nr_State := StateLost\<rparr>) t"
  have step: "tables_move 0 t ?t"
    by (rule update_node_moves) (use Cons.prems in \<open>auto simp: node_after_def\<close>)
  have "tables_move 0 ?t (mark_lost rs ?t)"
  proof (rule Cons.IH)
    fix x x' assume "x \<in> set rs" "node_row ?t (nr_ID x) = Some x'"
    then show "\<not> node_Retired x'" using Cons.prems[of x]
      by (auto simp: node_row_update node_Retired_def split: if_splits)
  qed
  from tables_move_trans[OF step this] show ?case by (simp add: mark_lost_def)
qed (simp add: mark_lost_def)

lemma nodes_ExpireLeases_moves:
  assumes "node_keys t" "nodes_ExpireLeases now t = (rs, t')"
  shows "tables_move n t t'"
proof -
  have "tables_move 0 t (mark_lost (expired_leases now t) t)"
    by (rule mark_lost_moves)
      (auto simp: expired_leases_def lease_elapsed_def node_Retired_def dest: node_row_member[OF assms(1)])
  then show ?thesis using assms(2) by (auto simp: nodes_ExpireLeases_def Let_def intro: tables_move_mono)
qed

lemma update_node_keys: "(\<And>r. nr_ID (f r) = nr_ID r) \<Longrightarrow> node_keys (update_node i f t) = node_keys t"
  by (simp add: node_keys_def update_node_def comp_def if_distrib cong: if_cong)

lemma mark_lost_keys: "node_keys (mark_lost rs t) = node_keys t"
  by (induction rs arbitrary: t) (simp_all add: mark_lost_def update_node_keys)

lemma nodes_Invite_keys: "node_keys t \<Longrightarrow> nodes_Invite r t = Inr t' \<Longrightarrow> node_keys t'"
  by (fastforce simp: nodes_Invite_def node_keys_def node_row_def find_None_iff split: if_splits)

subsection \<open>Moments compared as text\<close>

lemma append_le_append: "xs @ ys \<le> xs @ zs \<longleftrightarrow> ys \<le> (zs :: string)"
  by (induction xs) simp_all

lemma stamp_whole: "0 < s \<Longrightarrow> stamp (s * nanos_per_second) = second_stamp s @ ''Z''"
  by (simp add: stamp_def time_is_zero_def fraction_stamp_def nanos_per_second_def)

lemma digit_chars: "char_of (53 :: nat) = CHR ''5''" "char_of (48 :: nat) = CHR ''0''"
  by code_simp+

lemma half_digits: "nat_digits 500000000 = ''500000000''"
  by (simp add: nat_digits.simps digit_chars)

lemma half_fraction: "fraction_stamp 500000000 = ''.5''"
  by (simp add: fraction_stamp_def padded_def half_digits digit_chars)

lemma stamp_half:
  assumes "0 < s"
  shows "stamp (s * nanos_per_second + 500000000) = second_stamp s @ ''.5Z''"
proof -
  have "(s * 1000000000 + 500000000) div 1000000000 = s" "(s * 1000000000 + 500000000) mod 1000000000 = (500000000 :: int)"
    using div_mult_self2[of 1000000000 "500000000 :: int" s] mod_mult_self2[of "500000000 :: int" 1000000000 s]
    by (simp_all add: ac_simps)
  then show ?thesis using assms by (simp add: stamp_def time_is_zero_def nanos_per_second_def half_fraction)
qed

definition workload_event :: "string \<Rightarrow> string \<Rightarrow> workload_observation \<Rightarrow> node_event" where
  "workload_event i n w = \<lparr>nv_ID = i, nv_NodeID = n, nv_Kind = EventWorkload, nv_ObservedAt = wo_ObservedAt w,
     nv_Facts = None, nv_Workload = Some w\<rparr>"

lemma upsert_finds:
  assumes "find (same_workload x) rows = Some y" "wr_ObservedAt y \<le> wr_ObservedAt x"
  shows "find (same_workload x) (upsert_workload x rows) = Some x"
proof -
  have "find (same_workload x) (map (\<lambda>z. if same_workload x z \<and> wr_ObservedAt z \<le> wr_ObservedAt x then x else z) rows) = Some x"
    using assms by (induction rows) (auto simp: same_workload_def split: if_splits)
  moreover have "list_ex (same_workload x) rows" using assms(1) by (auto simp: list_ex_iff dest: find_Some_holds)
  ultimately show ?thesis by (simp add: upsert_workload_def)
qed

text \<open>C40: The text a moment is stored as does not sort as the moments do. When a node reported an exit half a
  second into a second and a report of the container running at the start of that second arrives late, the
  row of the exit is overwritten: the latest observation is the older one, and the exit is gone.\<close>

theorem late_report_erases_the_exit:
  assumes "0 < s" "wo_ObservedAt gone = s * nanos_per_second + 500000000" "wo_ObservedAt running = s * nanos_per_second"
    "wo_RunID running = wo_RunID gone" "wo_AttemptID running = wo_AttemptID gone"
    "nodes_RecordEvent (workload_event e1 n gone) no_nodes = (True, t)" "e2 \<noteq> e1"
  shows "wo_ObservedAt running < wo_ObservedAt gone \<and> LatestWorkload t n (wo_RunID gone) (wo_AttemptID gone) = Some gone
    \<and> LatestWorkload (snd (nodes_RecordEvent (workload_event e2 n running) t)) n (wo_RunID gone) (wo_AttemptID gone) = Some running"
proof -
  have t: "t = \<lparr>nt_Nodes = [], nt_Operations = [], nt_Events = [(n, e1)], nt_Workloads =
      [\<lparr>wr_NodeID = n, wr_RunID = wo_RunID gone, wr_AttemptID = wo_AttemptID gone,
        wr_ObservedAt = second_stamp s @ ''.5Z'', wr_Observation = gone\<rparr>]\<rparr>"
    using assms(1,2,6) by (simp add: nodes_RecordEvent_def workload_event_def no_nodes_def upsert_workload_def Let_def stamp_half)
  have "second_stamp s @ ''.5Z'' \<le> second_stamp s @ ''Z''" by (simp only: append_le_append) (simp add: less_char_def)
  then show ?thesis using assms(1-5,7)
    by (simp add: t nodes_RecordEvent_def workload_event_def Let_def stamp_whole upsert_workload_def same_workload_def
        LatestWorkload_def)
qed

lemma node_row_mark_lost:
  "node_row t i = Some r \<Longrightarrow> node_row (mark_lost rs t) i = Some (if i \<in> nr_ID ` set rs then r\<lparr>nr_State := StateLost\<rparr> else r)"
  by (induction rs arbitrary: t r) (auto simp: mark_lost_def node_row_update)

text \<open>
  The expiry of leases reads the elapsed ones and marks them in later statements that do not look at the state
  again. A retirement that lands in between is overwritten: the node is lost, not retired, and its next
  heartbeat makes it ready.
\<close>

lemma retirement_lost_to_expiry:
  assumes "node_row t i = Some r" "i \<in> nr_ID ` set (expired_leases now t)" "nodes_Retire i t = Inr t1"
    "t2 = mark_lost (expired_leases now t) t1"
  shows "(\<exists>r1. node_row t1 i = Some r1 \<and> node_Retired r1)
    \<and> (\<exists>r2 t3. nodes_Heartbeat i facts l t2 = Inr (r2, t3) \<and> nr_State r2 = StateReady)"
proof -
  have r1: "node_row t1 i = Some (r\<lparr>nr_State := StateRetired\<rparr>)"
    using assms(1,3) by (auto simp: nodes_Retire_def node_row_update split: if_splits)
  from node_row_mark_lost[OF this, of "expired_leases now t"] assms(2,4)
  have "node_row t2 i = Some (r\<lparr>nr_State := StateLost\<rparr>)" by simp
  then show ?thesis using r1
    by (auto simp: node_Retired_def nodes_Heartbeat_def Let_def node_row_update nodes_Get_def)
qed

definition sample_observation :: "workload_phase \<Rightarrow> time \<Rightarrow> workload_observation" where
  "sample_observation p moment = \<lparr>wo_RunID = ''r1'', wo_AttemptID = ''a1'', wo_Phase = p, wo_ObservedAt = moment, wo_ReceivedAt = zero_time,
     wo_ExitCode = None, wo_OOMKilled = False, wo_FailureReason = empty_string, wo_StartedAt = None, wo_FinishedAt = None\<rparr>"

theorem late_report_erases_the_exit_witness:
  "LatestWorkload (snd (nodes_RecordEvent (workload_event ''e2'' ''n1'' (sample_observation WorkloadPhaseRunning 3000000000))
       (snd (nodes_RecordEvent (workload_event ''e1'' ''n1'' (sample_observation WorkloadPhaseExited 3500000000)) no_nodes)))) ''n1'' ''r1'' ''a1''
     = Some (sample_observation WorkloadPhaseRunning 3000000000)"
proof -
  let ?gone = "sample_observation WorkloadPhaseExited 3500000000" and ?running = "sample_observation WorkloadPhaseRunning 3000000000"
  have f: "wo_ObservedAt ?gone = 3 * nanos_per_second + 500000000" "wo_ObservedAt ?running = 3 * nanos_per_second"
    "wo_RunID ?running = wo_RunID ?gone" "wo_AttemptID ?running = wo_AttemptID ?gone" "wo_RunID ?gone = ''r1''" "wo_AttemptID ?gone = ''a1''"
    by (simp_all add: sample_observation_def nanos_per_second_def)
  have e: "nodes_RecordEvent (workload_event ''e1'' ''n1'' ?gone) no_nodes
      = (True, snd (nodes_RecordEvent (workload_event ''e1'' ''n1'' ?gone) no_nodes))"
    by (simp add: nodes_RecordEvent_def workload_event_def no_nodes_def Let_def)
  show ?thesis using late_report_erases_the_exit[OF _ f(1-4) e, of "''e2''"] by (simp add: f(5,6))
qed

end
