(* ===== verification/NodeRegistry.thy ===== *)
theory NodeRegistry
  imports NodeStore
begin

text \<open>
  The control plane's authority over enrolled nodes (\<^verbatim>\<open>internal/node\<close>: \<^verbatim>\<open>registry.go\<close>,
  \<^verbatim>\<open>session.go\<close>, \<^verbatim>\<open>token.go\<close>, \<^verbatim>\<open>offers.go\<close>): invitations, enrollment, sessions, commands, reports,
  and the offers built from what nodes report.

  The registry is the tables, the open sessions and the drain flag. An operation takes the environment it
  runs in and gives back its answer beside the registry it leaves. The keyed digest of a message
  (HMAC-SHA256) and the digest of a token (SHA-256), each in base64, are functions of the environment, and
  so is the source of identities. A session is named by a number where the code has a pointer; its buffer
  is the list of commands the transport has yet to write.
\<close>

subsection \<open>Credentials\<close>

record registry_env =
  re_now :: time
  re_key :: string
  re_mac :: "string \<Rightarrow> string \<Rightarrow> string"
  re_digest :: "string \<Rightarrow> string"
  re_lease :: duration
  re_session :: duration
  re_invitation :: duration
  re_controlPlaneURL :: string
  re_agentVersion :: string
  re_identity :: "nat \<Rightarrow> string"

definition unix_epoch :: int where
  "unix_epoch = 62135596800"

definition unix_seconds :: "time \<Rightarrow> int" where
  "unix_seconds t = t div nanos_per_second - unix_epoch"

definition of_unix :: "int \<Rightarrow> time" where
  "of_unix secs = (secs + unix_epoch) * nanos_per_second"

definition signer_Enabled :: "registry_env \<Rightarrow> bool" where
  "signer_Enabled env \<longleftrightarrow> re_key env \<noteq> empty_string"

definition signed_message :: "string \<Rightarrow> string \<Rightarrow> string list \<Rightarrow> string" where
  "signed_message purpose expiry parts = purpose @ concat (map (\<lambda>p. CHR 0x00 # p) (expiry # parts))"

definition signer_sign :: "registry_env \<Rightarrow> string \<Rightarrow> string \<Rightarrow> string list \<Rightarrow> string" where
  "signer_sign env purpose expiry parts = re_mac env (re_key env) (signed_message purpose expiry parts)"

definition signer_mint :: "registry_env \<Rightarrow> string \<Rightarrow> time \<Rightarrow> string list \<Rightarrow> node_error + string" where
  "signer_mint env purpose expires parts =
     (if \<not> signer_Enabled env then Inl (ErrNodeRefused ''signing key is not configured'')
      else if time_is_zero expires then Inl (ErrNodeRefused ''credentials must expire'')
      else (let expiry = Itoa (unix_seconds expires) in Inr (expiry @ ''.'' @ signer_sign env purpose expiry parts)))"

definition signer_verify :: "registry_env \<Rightarrow> string \<Rightarrow> time \<Rightarrow> string \<Rightarrow> string list \<Rightarrow> bool" where
  "signer_verify env token now purpose parts =
     (if \<not> signer_Enabled env \<or> token = empty_string then False
      else if CHR ''.'' \<notin> set token then False
      else (let expiry = takeWhile (\<lambda>c. c \<noteq> CHR ''.'') token; mac = drop (length expiry + 1) token in
        case Atoi expiry of
          None \<Rightarrow> False
        | Some secs \<Rightarrow>
            if \<not> now < of_unix secs then False
            else signer_sign env purpose expiry parts = mac))"

definition format_uint :: "uint64 \<Rightarrow> string" where
  "format_uint n = nat_digits (unat n)"

definition signer_Enrollment :: "registry_env \<Rightarrow> string \<Rightarrow> string \<Rightarrow> uint64 \<Rightarrow> time \<Rightarrow> node_error + string" where
  "signer_Enrollment env nodeID rentalID generation expires =
     signer_mint env ''enroll'' expires [nodeID, rentalID, format_uint generation]"

definition VerifyEnrollment :: "registry_env \<Rightarrow> string \<Rightarrow> string \<Rightarrow> uint64 \<Rightarrow> string \<Rightarrow> time \<Rightarrow> bool" where
  "VerifyEnrollment env nodeID rentalID generation token now =
     signer_verify env token now ''enroll'' [nodeID, rentalID, format_uint generation]"

definition signer_Session :: "registry_env \<Rightarrow> string \<Rightarrow> uint64 \<Rightarrow> time \<Rightarrow> node_error + string" where
  "signer_Session env nodeID fencingToken expires =
     signer_mint env ''session'' expires [nodeID, format_uint fencingToken]"

definition VerifySession :: "registry_env \<Rightarrow> string \<Rightarrow> uint64 \<Rightarrow> string \<Rightarrow> time \<Rightarrow> bool" where
  "VerifySession env nodeID fencingToken token now =
     signer_verify env token now ''session'' [nodeID, format_uint fencingToken]"

definition signer_Expiry :: "time \<Rightarrow> time" where
  "signer_Expiry moment = moment - moment mod nanos_per_second"

definition TokenID :: "registry_env \<Rightarrow> string \<Rightarrow> string" where
  "TokenID env token = re_digest env token"

subsection \<open>The registry\<close>

record node_command =
  nc_OperationID :: string
  nc_NodeID :: string
  nc_Kind :: command_kind
  nc_FencingToken :: uint64
  nc_IssuedAt :: time
  nc_Payload :: node_order

record session =
  ss_Handle :: nat
  ss_NodeID :: string
  ss_FencingToken :: uint64
  ss_Commands :: "node_command list"
  ss_Buffer :: nat

record registry =
  rg_Tables :: node_tables
  rg_Sessions :: "(string \<times> session) list"
  rg_Ended :: "nat list"
  rg_Next :: nat
  rg_Draining :: bool

definition NewRegistry :: "node_tables \<Rightarrow> registry" where
  "NewRegistry t = \<lparr>rg_Tables = t, rg_Sessions = [], rg_Ended = [], rg_Next = 0, rg_Draining = False\<rparr>"

definition node_max_concurrent :: int where
  "node_max_concurrent = 1"

record registry_invitation = node_invitation +
  iv_Purchase :: purchase

definition bootstrap_of :: "registry_env \<Rightarrow> string \<Rightarrow> string \<Rightarrow> uint64 \<Rightarrow> string \<Rightarrow> node_bootstrap" where
  "bootstrap_of env nodeID rentalID generation token =
     \<lparr>nb_ControlPlaneURL = re_controlPlaneURL env, nb_NodeID = nodeID, nb_RentalID = rentalID,
      nb_Generation = generation, nb_EnrollmentToken = token, nb_AgentVersion = re_agentVersion env\<rparr>"

definition node_bootstrapFor :: "registry_env \<Rightarrow> node_record \<Rightarrow> string \<Rightarrow> node_bootstrap" where
  "node_bootstrapFor env r token = bootstrap_of env (nr_ID r) (nr_RentalID r) (nr_Generation r) token"

definition invitation_window :: "registry_env \<Rightarrow> time \<Rightarrow> node_error + time" where
  "invitation_window env redeemableThrough =
     (if time_is_zero redeemableThrough then Inr (signer_Expiry (time_add (re_now env) (re_invitation env)))
      else if \<not> re_now env < redeemableThrough then Inl (ErrNodeRefused ''invitation is already spent'')
      else Inr (signer_Expiry redeemableThrough))"

definition invited_row :: "registry_env \<Rightarrow> registry_invitation \<Rightarrow> string \<Rightarrow> string \<Rightarrow> uint64 \<Rightarrow> string \<Rightarrow> time \<Rightarrow> node_record" where
  "invited_row env invitation nodeID rentalID generation token expires =
     \<lparr>nr_ID = nodeID, nr_RentalID = rentalID, nr_Generation = generation, nr_State = StateEnrolling,
      nr_FencingToken = 0, nr_EnrollmentTokenID = TokenID env token, nr_EnrollmentExpires = expires,
      nr_EnrolledAt = zero_time, nr_LeaseExpires = zero_time, nr_LastHeartbeatAt = zero_time,
      nr_AgentVersion = empty_string, nr_Facts = no_facts,
      nr_ShadowPriceUSDPerHour = iv_ShadowPriceUSDPerHour invitation, nr_Purchase = iv_Purchase invitation\<rparr>"

definition registry_Invite :: "registry_env \<Rightarrow> registry_invitation \<Rightarrow> registry \<Rightarrow> (node_error + node_bootstrap) \<times> registry" where
  "registry_Invite env invitation rg =
     (let generation = (if iv_Generation invitation = 0 then 1 else iv_Generation invitation);
          nodeID = (if iv_NodeID invitation = empty_string then ''nod_'' @ re_identity env 0 else iv_NodeID invitation);
          rentalID = (if iv_RentalID invitation = empty_string then ''rnt_'' @ re_identity env 1 else iv_RentalID invitation) in
      case invitation_window env (iv_RedeemableThrough invitation) of
        Inl err \<Rightarrow> (Inl err, rg)
      | Inr expires \<Rightarrow> (case signer_Enrollment env nodeID rentalID generation expires of
          Inl err \<Rightarrow> (Inl err, rg)
        | Inr token \<Rightarrow>
            (case nodes_Invite (invited_row env invitation nodeID rentalID generation token expires) (rg_Tables rg) of
               Inl err \<Rightarrow> (Inl err, rg)
             | Inr t \<Rightarrow> (Inr (bootstrap_of env nodeID rentalID generation token), rg\<lparr>rg_Tables := t\<rparr>))))"

definition registry_record :: "registry \<Rightarrow> node_ref \<Rightarrow> node_error + node_record" where
  "registry_record rg ref = (case nodes_Get (rg_Tables rg) (nf_NodeID ref) of
     Inl err \<Rightarrow> Inl err
   | Inr r \<Rightarrow>
       if nf_Generation ref \<noteq> 0 \<and> nr_Generation r \<noteq> nf_Generation ref then Inl (ErrNodeRefused ''another generation'')
       else Inr r)"

definition registry_EnrolledAt :: "registry \<Rightarrow> node_ref \<Rightarrow> node_error + time" where
  "registry_EnrolledAt rg ref = (case registry_record rg ref of
     Inl (ErrNotFound _) \<Rightarrow> Inr zero_time
   | Inl err \<Rightarrow> Inl err
   | Inr r \<Rightarrow> Inr (if nr_State r \<noteq> StateReady then zero_time else nr_EnrolledAt r))"

record enrollment_request =
  eq_NodeID :: string
  eq_RentalID :: string
  eq_Generation :: uint64
  eq_EnrollmentToken :: string
  eq_AgentVersion :: string
  eq_Facts :: node_facts

record enrollment =
  en_NodeID :: string
  en_SessionToken :: string
  en_SessionExpires :: time
  en_FencingToken :: uint64
  en_LeaseExpires :: time
  en_Duplicate :: bool

definition lookupInvited :: "registry \<Rightarrow> enrollment_request \<Rightarrow> node_error + node_record" where
  "lookupInvited rg req = (case nodes_Get (rg_Tables rg) (eq_NodeID req) of
     Inl err \<Rightarrow> Inl err
   | Inr r \<Rightarrow>
       if nr_RentalID r \<noteq> eq_RentalID req then Inl (ErrNodeRefused ''another Rental'')
       else if nr_Generation r \<noteq> eq_Generation req then Inl (ErrNodeRefused ''another generation'')
       else Inr r)"

definition close_session :: "string \<Rightarrow> registry \<Rightarrow> registry" where
  "close_session nodeID rg = (case map_of (rg_Sessions rg) nodeID of
     None \<Rightarrow> rg
   | Some s \<Rightarrow> rg\<lparr>rg_Sessions := AList.delete nodeID (rg_Sessions rg), rg_Ended := ss_Handle s # rg_Ended rg\<rparr>)"

definition registry_Enroll :: "registry_env \<Rightarrow> enrollment_request \<Rightarrow> registry \<Rightarrow> (node_error + enrollment) \<times> registry" where
  "registry_Enroll env req rg = (case lookupInvited rg req of
     Inl err \<Rightarrow> (Inl err, rg)
   | Inr r \<Rightarrow>
       if \<not> VerifyEnrollment env (eq_NodeID req) (eq_RentalID req) (eq_Generation req) (eq_EnrollmentToken req) (re_now env)
       then (Inl ErrEnrollmentInvalid, rg)
       else (case nodes_Enroll (nr_ID r)
              \<lparr>se_EnrollmentTokenID = TokenID env (eq_EnrollmentToken req), se_AgentVersion = eq_AgentVersion req,
               se_Facts = facts_Established (eq_Facts req), se_EnrolledAt = re_now env,
               se_LeaseExpires = time_add (re_now env) (re_lease env)\<rparr> (rg_Tables rg) of
         Inl err \<Rightarrow> (Inl err, rg)
       | Inr (enrolled, t) \<Rightarrow>
           (let rg1 = close_session (nr_ID enrolled) (rg\<lparr>rg_Tables := t\<rparr>);
                sessionExpires = signer_Expiry (time_add (re_now env) (re_session env)) in
            case signer_Session env (nr_ID enrolled) (nr_FencingToken enrolled) sessionExpires of
              Inl err \<Rightarrow> (Inl err, rg1)
            | Inr token \<Rightarrow>
                (Inr \<lparr>en_NodeID = nr_ID enrolled, en_SessionToken = token, en_SessionExpires = sessionExpires,
                      en_FencingToken = nr_FencingToken enrolled, en_LeaseExpires = nr_LeaseExpires enrolled,
                      en_Duplicate = False\<rparr>, rg1))))"

definition registry_Facts :: "registry \<Rightarrow> node_ref \<Rightarrow> node_error + node_facts" where
  "registry_Facts rg ref = (case registry_record rg ref of Inl err \<Rightarrow> Inl err | Inr r \<Rightarrow> Inr (nr_Facts r))"

subsection \<open>Commands\<close>

definition commandFrom :: "operation \<Rightarrow> node_command" where
  "commandFrom o1 = \<lparr>nc_OperationID = on_OperationID o1, nc_NodeID = on_NodeID o1, nc_Kind = on_Kind o1,
     nc_FencingToken = on_FencingToken o1, nc_IssuedAt = on_IssuedAt o1, nc_Payload = on_Payload o1\<rparr>"

text \<open>A full buffer drops the command: it is durable, and the next session is told again.\<close>

definition deliver :: "string \<Rightarrow> node_command \<Rightarrow> registry \<Rightarrow> registry" where
  "deliver nodeID c rg = (case map_of (rg_Sessions rg) nodeID of
     None \<Rightarrow> rg
   | Some s \<Rightarrow>
       if length (ss_Commands s) < ss_Buffer s
       then rg\<lparr>rg_Sessions := AList.update nodeID (s\<lparr>ss_Commands := ss_Commands s @ [c]\<rparr>) (rg_Sessions rg)\<rparr>
       else rg)"

record operation_receipt =
  ot_OperationID :: string
  ot_AcceptedAt :: time
  ot_Duplicate :: bool

record node_instruction =
  nn_Ref :: node_ref
  nn_OperationID :: string
  nn_FencingToken :: uint64
  nn_Order :: node_order

definition dispatch :: "registry_env \<Rightarrow> node_instruction \<Rightarrow> registry \<Rightarrow> (node_error + operation_receipt) \<times> registry" where
  "dispatch env command rg =
     (if nn_OperationID command = empty_string then (Inl (ErrNodeRefused ''needs an operation ID''), rg)
      else case registry_record rg (nn_Ref command) of
        Inl err \<Rightarrow> (Inl err, rg)
      | Inr r \<Rightarrow>
          if node_Retired r then (Inl (ErrNodeRetired (nr_ID r)), rg)
          else if nn_FencingToken command \<noteq> 0 \<and> nn_FencingToken command < nr_FencingToken r then (Inl ErrFenced, rg)
          else (let op = \<lparr>on_OperationID = nn_OperationID command, on_NodeID = nr_ID r, on_Kind = order_kind (nn_Order command),
                   on_FencingToken = nr_FencingToken r, on_State = OperationPending, on_IssuedAt = re_now env,
                   on_SettledAt = zero_time, on_Payload = recorded_order (nn_Order command), on_Failure = empty_string\<rparr> in
            case AppendOperation op (rg_Tables rg) of
              ((stored, duplicate), t) \<Rightarrow>
                (let rg1 = rg\<lparr>rg_Tables := t\<rparr> in
                 if duplicate
                 then (Inr \<lparr>ot_OperationID = nn_OperationID command, ot_AcceptedAt = on_IssuedAt stored, ot_Duplicate = True\<rparr>, rg1)
                 else (Inr \<lparr>ot_OperationID = nn_OperationID command, ot_AcceptedAt = re_now env, ot_Duplicate = False\<rparr>,
                       deliver (nr_ID r) ((commandFrom stored)\<lparr>nc_Payload := nn_Order command\<rparr>) rg1))))"

record workload_ref =
  wf_Node :: node_ref
  wf_RunID :: string
  wf_AttemptID :: string

definition ObserveWorkload :: "registry_env \<Rightarrow> workload_ref \<Rightarrow> registry \<Rightarrow> node_error + workload_observation" where
  "ObserveWorkload env ref rg = (case registry_record rg (wf_Node ref) of
     Inl err \<Rightarrow> Inl err
   | Inr _ \<Rightarrow> (case LatestWorkload (rg_Tables rg) (nf_NodeID (wf_Node ref)) (wf_RunID ref) (wf_AttemptID ref) of
       None \<Rightarrow> Inr \<lparr>wo_RunID = wf_RunID ref, wo_AttemptID = wf_AttemptID ref, wo_Phase = WorkloadPhaseAbsent,
                  wo_ObservedAt = re_now env, wo_ReceivedAt = re_now env, wo_ExitCode = None, wo_OOMKilled = False,
                  wo_FailureReason = empty_string, wo_StartedAt = None, wo_FinishedAt = None\<rparr>
     | Some w \<Rightarrow> Inr w))"

record reconciliation =
  rn_NodeID :: string
  rn_Generation :: uint64
  rn_FencingToken :: uint64
  rn_AppliedOperationIDs :: "string list"
  rn_Workloads :: "workload_observation list"
  rn_Facts :: node_facts

definition Reconcile :: "registry \<Rightarrow> node_ref \<Rightarrow> node_error + reconciliation" where
  "Reconcile rg ref = (case registry_record rg ref of
     Inl err \<Rightarrow> Inl err
   | Inr r \<Rightarrow> Inr \<lparr>rn_NodeID = nr_ID r, rn_Generation = nr_Generation r, rn_FencingToken = nr_FencingToken r,
       rn_AppliedOperationIDs = AppliedOperationIDs (rg_Tables rg) (nr_ID r), rn_Workloads = Workloads (rg_Tables rg) (nr_ID r),
       rn_Facts = nr_Facts r\<rparr>)"

subsection \<open>Inviting again, retiring\<close>

definition outstandingInvitation :: "registry_env \<Rightarrow> node_record \<Rightarrow> time \<Rightarrow> node_bootstrap option" where
  "outstandingInvitation env r redeemableThrough =
     (if nr_EnrollmentTokenID r = empty_string \<or> \<not> re_now env < nr_EnrollmentExpires r then None
      else if \<not> time_is_zero redeemableThrough \<and> nr_EnrollmentExpires r < redeemableThrough then None
      else case signer_Enrollment env (nr_ID r) (nr_RentalID r) (nr_Generation r) (nr_EnrollmentExpires r) of
        Inl _ \<Rightarrow> None
      | Inr token \<Rightarrow> if TokenID env token \<noteq> nr_EnrollmentTokenID r then None else Some (node_bootstrapFor env r token))"

definition registry_Reinvite :: "registry_env \<Rightarrow> string \<Rightarrow> time \<Rightarrow> registry \<Rightarrow> (node_error + node_bootstrap) \<times> registry" where
  "registry_Reinvite env nodeID redeemableThrough rg = (case nodes_Get (rg_Tables rg) nodeID of
     Inl err \<Rightarrow> (Inl err, rg)
   | Inr r \<Rightarrow>
       if node_Retired r then (Inl (ErrNodeRefused ''is retired and cannot be invited again''), rg)
       else (case outstandingInvitation env r redeemableThrough of
         Some b \<Rightarrow> (Inr b, rg)
       | None \<Rightarrow> (case invitation_window env redeemableThrough of
           Inl err \<Rightarrow> (Inl err, rg)
         | Inr expires \<Rightarrow> (case signer_Enrollment env (nr_ID r) (nr_RentalID r) (nr_Generation r) expires of
             Inl err \<Rightarrow> (Inl err, rg)
           | Inr token \<Rightarrow> (case nodes_Reinvite nodeID (TokenID env token) expires (rg_Tables rg) of
               Inl err \<Rightarrow> (Inl err, rg)
             | Inr t \<Rightarrow> (Inr (node_bootstrapFor env r token), rg\<lparr>rg_Tables := t\<rparr>))))))"

definition registry_Retire :: "string \<Rightarrow> registry \<Rightarrow> node_error option \<times> registry" where
  "registry_Retire nodeID rg = (case nodes_Retire nodeID (rg_Tables rg) of
     Inl err \<Rightarrow> (Some err, rg)
   | Inr t \<Rightarrow> (None, close_session nodeID (rg\<lparr>rg_Tables := t\<rparr>)))"

subsection \<open>Sessions\<close>

definition sessionBuffer :: nat where
  "sessionBuffer = 64"

definition authenticate :: "registry_env \<Rightarrow> string \<Rightarrow> string \<Rightarrow> registry \<Rightarrow> node_error + node_record" where
  "authenticate env nodeID sessionToken rg = (case nodes_Get (rg_Tables rg) nodeID of
     Inl err \<Rightarrow> Inl err
   | Inr r \<Rightarrow>
       if \<not> VerifySession env (nr_ID r) (nr_FencingToken r) sessionToken (re_now env) then Inl (ErrSessionInvalid nodeID)
       else Inr r)"

definition OpenSession :: "registry_env \<Rightarrow> string \<Rightarrow> string \<Rightarrow> registry \<Rightarrow> (node_error + session) \<times> registry" where
  "OpenSession env nodeID sessionToken rg = (case authenticate env nodeID sessionToken rg of
     Inl err \<Rightarrow> (Inl err, rg)
   | Inr r \<Rightarrow>
       if node_Retired r then (Inl (ErrNodeRetired (nr_ID r)), rg)
       else (let pending = PendingOperations (rg_Tables rg) (nr_ID r);
                 session = \<lparr>ss_Handle = rg_Next rg, ss_NodeID = nr_ID r, ss_FencingToken = nr_FencingToken r,
                   ss_Commands = map commandFrom pending, ss_Buffer = max sessionBuffer (length pending)\<rparr> in
         if rg_Draining rg then (Inl (ErrNodeRefused ''shutting down''), rg)
         else (Inr session, rg\<lparr>rg_Sessions := AList.update (nr_ID r) session (rg_Sessions rg),
            rg_Ended := (case map_of (rg_Sessions rg) (nr_ID r) of None \<Rightarrow> rg_Ended rg | Some previous \<Rightarrow> ss_Handle previous # rg_Ended rg),
            rg_Next := rg_Next rg + 1\<rparr>)))"

record session_renewal =
  sn_NodeID :: string
  sn_SessionToken :: string
  sn_SessionExpires :: time
  sn_FencingToken :: uint64

definition RenewSession :: "registry_env \<Rightarrow> string \<Rightarrow> string \<Rightarrow> registry \<Rightarrow> node_error + session_renewal" where
  "RenewSession env nodeID sessionToken rg = (case authenticate env nodeID sessionToken rg of
     Inl err \<Rightarrow> Inl err
   | Inr r \<Rightarrow>
       if node_Retired r then Inl (ErrNodeRetired (nr_ID r))
       else (let expires = signer_Expiry (time_add (re_now env) (re_session env)) in
         case signer_Session env (nr_ID r) (nr_FencingToken r) expires of
           Inl err \<Rightarrow> Inl err
         | Inr token \<Rightarrow> Inr \<lparr>sn_NodeID = nr_ID r, sn_SessionToken = token, sn_SessionExpires = expires,
             sn_FencingToken = nr_FencingToken r\<rparr>))"

definition Drain :: "registry \<Rightarrow> registry" where
  "Drain rg = rg\<lparr>rg_Draining := True, rg_Sessions := [], rg_Ended := map (ss_Handle \<circ> snd) (rg_Sessions rg) @ rg_Ended rg\<rparr>"

definition CloseSession :: "session \<Rightarrow> registry \<Rightarrow> registry" where
  "CloseSession s rg = (case map_of (rg_Sessions rg) (ss_NodeID s) of
     None \<Rightarrow> rg
   | Some current \<Rightarrow>
       if ss_Handle current \<noteq> ss_Handle s then rg
       else rg\<lparr>rg_Sessions := AList.delete (ss_NodeID s) (rg_Sessions rg), rg_Ended := ss_Handle s # rg_Ended rg\<rparr>)"

subsection \<open>Reports\<close>

text \<open>The events of a report in order: the first one that does not validate ends it, after the ones before
  it were stored.\<close>

fun record_events :: "time \<Rightarrow> string \<Rightarrow> node_event list \<Rightarrow> node_facts option \<Rightarrow> node_tables \<Rightarrow> (node_error + node_facts option) \<times> node_tables" where
  "record_events now nodeID [] latest t = (Inr latest, t)"
| "record_events now nodeID (e # es) latest t =
     (let e1 = e\<lparr>nv_NodeID := nodeID\<rparr> in
      case event_Validate e1 of
        Some err \<Rightarrow> (Inl err, t)
      | None \<Rightarrow> (case nodes_RecordEvent (event_receive e1 now) t of
          (fresh, t1) \<Rightarrow> record_events now nodeID es (if fresh \<and> nv_Kind e1 = EventHeartbeat then nv_Facts e1 else latest) t1))"

definition RecordEvents :: "registry_env \<Rightarrow> string \<Rightarrow> string \<Rightarrow> node_event list \<Rightarrow> registry \<Rightarrow> node_error option \<times> registry" where
  "RecordEvents env nodeID sessionToken events rg = (case authenticate env nodeID sessionToken rg of
     Inl err \<Rightarrow> (Some err, rg)
   | Inr r \<Rightarrow> (case record_events (re_now env) (nr_ID r) events None (rg_Tables rg) of
       (Inl err, t) \<Rightarrow> (Some err, rg\<lparr>rg_Tables := t\<rparr>)
     | (Inr None, t) \<Rightarrow> (None, rg\<lparr>rg_Tables := t\<rparr>)
     | (Inr (Some facts), t) \<Rightarrow>
         if node_Retired r then (None, rg\<lparr>rg_Tables := t\<rparr>)
         else (case nodes_Heartbeat (nr_ID r) (facts_Established facts) (time_add (re_now env) (re_lease env)) t of
           Inl err \<Rightarrow> (Some err, rg\<lparr>rg_Tables := t\<rparr>)
         | Inr (_, t1) \<Rightarrow> (None, rg\<lparr>rg_Tables := t1\<rparr>))))"

definition RecordResult :: "registry_env \<Rightarrow> string \<Rightarrow> string \<Rightarrow> node_result \<Rightarrow> registry \<Rightarrow> node_error option \<times> registry" where
  "RecordResult env nodeID sessionToken result rg = (case authenticate env nodeID sessionToken rg of
     Inl err \<Rightarrow> (Some err, rg)
   | Inr r \<Rightarrow>
       if ns_OperationID result = empty_string then (Some (ErrNodeRefused ''a result names the operation it settles''), rg)
       else (let result1 = (if time_is_zero (ns_ReportedAt result) then result\<lparr>ns_ReportedAt := re_now env\<rparr> else result) in
         case SettleOperation (nr_ID r) result1 (rg_Tables rg) of (err, t) \<Rightarrow> (err, rg\<lparr>rg_Tables := t\<rparr>)))"

definition registry_ExpireLeases :: "registry_env \<Rightarrow> registry \<Rightarrow> node_record list \<times> registry" where
  "registry_ExpireLeases env rg = (case nodes_ExpireLeases (re_now env) (rg_Tables rg) of
     (expired, t) \<Rightarrow> (expired, fold (\<lambda>r. close_session (nr_ID r)) expired (rg\<lparr>rg_Tables := t\<rparr>)))"

definition registry_List :: "registry \<Rightarrow> node_record list" where
  "registry_List rg = nodes_List (rg_Tables rg)"

text \<open>The transport writes the next command of a session to its node.\<close>

definition transport_write :: "string \<Rightarrow> registry \<Rightarrow> registry" where
  "transport_write nodeID rg = (case map_of (rg_Sessions rg) nodeID of
     None \<Rightarrow> rg
   | Some s \<Rightarrow> rg\<lparr>rg_Sessions := AList.update nodeID (s\<lparr>ss_Commands := tl (ss_Commands s)\<rparr>) (rg_Sessions rg)\<rparr>)"

subsection \<open>Offers\<close>

definition AdapterType :: string where "AdapterType = ''node''"

definition NodesConnectionID :: string where "NodesConnectionID = ''connection:nodes''"

text \<open>Go panics on a division by zero, which a billing interval that wraps to zero nanoseconds reaches.\<close>

definition CommittedUntil :: "node_record \<Rightarrow> time \<Rightarrow> node_error + time" where
  "CommittedUntil r now =
     (if pu_BillingIntervalSeconds (nr_Purchase r) \<le> 0 \<or> time_is_zero (nr_EnrolledAt r) then Inr zero_time
      else (let interval = i64_mul (pu_BillingIntervalSeconds (nr_Purchase r)) nanos_per_second;
                elapsed = max 0 (time_sub now (nr_EnrolledAt r)) in
        if interval = 0 then Inl (ErrNodePanic ''integer divide by zero'')
        else Inr (time_add (nr_EnrolledAt r) (i64_mul (i64_add (elapsed sdiv interval) 1) interval))))"

definition node_Terms :: "node_record \<Rightarrow> time \<Rightarrow> node_error + capacity_terms" where
  "node_Terms r now = (case CommittedUntil r now of
     Inl err \<Rightarrow> Inl err
   | Inr until \<Rightarrow> Inr \<lparr>ct_CommittedUntil = until, ct_EligibleClasses = pu_EligibleClasses (nr_Purchase r),
       ct_AvailableUntil = pu_AvailableUntil (nr_Purchase r)\<rparr>)"

definition occupies :: "workload_phase \<Rightarrow> bool" where
  "occupies p \<longleftrightarrow> p = WorkloadPhasePreparing \<or> p = WorkloadPhaseCreated \<or> p = WorkloadPhaseRunning"

definition occupied_slots :: "registry \<Rightarrow> node_record \<Rightarrow> nat" where
  "occupied_slots rg r = length (filter (\<lambda>w. occupies (wo_Phase w)) (Workloads (rg_Tables rg) (nr_ID r)))"

definition offerFreshness :: "registry_env \<Rightarrow> duration" where
  "offerFreshness env = re_lease env sdiv 3"

definition registry_Ref :: "registry_env \<Rightarrow> string \<Rightarrow> registry \<Rightarrow> node_error + node_ref" where
  "registry_Ref env nodeID rg = (case nodes_Get (rg_Tables rg) nodeID of
     Inl err \<Rightarrow> Inl err
   | Inr r \<Rightarrow> if \<not> node_Alive r (re_now env) then Inl (ErrNodeRefused ''will not send it more work'') else Inr (node_Ref r))"

definition attestations :: "accelerator_facts \<Rightarrow> host_fact \<rightharpoonup> bool" where
  "attestations facts =
     (if \<not> acf_Established facts then Map.empty
      else [HostFactNvidiaDriver \<mapsto> to_lower (acf_Vendor facts) = ''nvidia'' \<and> acf_DriverVersion facts \<noteq> empty_string])"

definition facts_Driver :: "accelerator_facts \<Rightarrow> accelerator_driver" where
  "facts_Driver facts =
     (if \<not> acf_Established facts then \<lparr>dr_Vendor = empty_string, dr_Version = empty_string, dr_Capability = empty_string\<rparr>
      else \<lparr>dr_Vendor = acf_Vendor facts, dr_Version = acf_DriverVersion facts, dr_Capability = acf_DriverCapability facts\<rparr>)"

definition shadowPrice :: "node_record \<Rightarrow> price_model" where
  "shadowPrice r =
     (if nr_ShadowPriceUSDPerHour r \<le> 0
      then \<lparr>pm_Currency = ''USD'', pm_SetupFeeUSD = 0, pm_RatePerSecondUSD = 0, pm_MinimumChargeSeconds = 0,
            pm_GranularitySeconds = 0, pm_Known = False\<rparr>
      else \<lparr>pm_Currency = ''USD'', pm_SetupFeeUSD = 0, pm_RatePerSecondUSD = fdiv (nr_ShadowPriceUSDPerHour r) 3600,
            pm_MinimumChargeSeconds = 0, pm_GranularitySeconds = pu_BillingIntervalSeconds (nr_Purchase r), pm_Known = True\<rparr>)"

definition recordImage :: "image_inventory \<Rightarrow> image_locality \<Rightarrow> platform \<Rightarrow> image_inventory" where
  "recordImage inventory img host =
     (if ly_ManifestDigest img = empty_string then inventory
      else if ly_State img = LocalityUnknown
        then inventory\<lparr>ii_UnknownImageDigests := ii_UnknownImageDigests inventory @ [ly_ManifestDigest img]\<rparr>
      else if ly_Platform img \<noteq> host then inventory
      else if ly_State img = LocalityHot
        then inventory\<lparr>ii_ImageDigests := ii_ImageDigests inventory @ [ly_ManifestDigest img]\<rparr>
      else if ly_ContentPresent img
        then inventory\<lparr>ii_PulledImageDigests := ii_PulledImageDigests inventory @ [ly_ManifestDigest img]\<rparr>
      else inventory)"

definition addNew :: "string list \<Rightarrow> string list \<Rightarrow> string list" where
  "addNew known reported = foldl (\<lambda>ks d. if d \<noteq> empty_string \<and> d \<notin> set ks then ks @ [d] else ks) known reported"

definition imageInventory :: "node_facts \<Rightarrow> platform \<Rightarrow> image_inventory" where
  "imageInventory facts host = foldl (\<lambda>i img.
       let i1 = recordImage i img host in
       i1\<lparr>ii_LayerDigests := addNew (ii_LayerDigests i1) (ly_LayerDigests img),
          ii_LayerDiffIDs := addNew (ii_LayerDiffIDs i1) (ly_LayerDiffIDs img)\<rparr>)
     \<lparr>ii_Known = (\<not> time_is_zero (nfa_ObservedAt facts)), ii_ObservedAt = nfa_ObservedAt facts, ii_ImageDigests = [],
      ii_PulledImageDigests = [], ii_UnknownImageDigests = [], ii_LayerDigests = [], ii_LayerDiffIDs = []\<rparr>
     (nfa_Images facts)"

fun contains_text :: "string \<Rightarrow> string \<Rightarrow> bool" where
  "contains_text sub [] \<longleftrightarrow> sub = []"
| "contains_text sub (c # cs) \<longleftrightarrow> take (length sub) (c # cs) = sub \<or> contains_text sub cs"

definition hostOS :: "string \<Rightarrow> string" where
  "hostOS reported =
     (let lowered = to_lower reported in
      if lowered = empty_string then empty_string
      else if contains_text ''linux'' lowered \<or> contains_text ''ubuntu'' lowered \<or> contains_text ''debian'' lowered then ''linux''
      else if contains_text ''darwin'' lowered \<or> contains_text ''mac'' lowered then ''darwin''
      else if contains_text ''windows'' lowered then ''windows''
      else reported)"

definition node_offer :: "registry_env \<Rightarrow> node_record \<Rightarrow> nat \<Rightarrow> node_error + offer_snapshot" where
  "node_offer env r occupied =
     (let facts = nr_Facts r; host = nfa_Host facts;
          platform = \<lparr>pl_OS = hostOS (nh_OS host), pl_Architecture = nh_Architecture host\<rparr> in
      case node_Terms r (re_now env) of
        Inl err \<Rightarrow> Inl err
      | Inr terms \<Rightarrow> Inr (zero_offer\<lparr>o_ID := nr_ID r, o_RentalID := nr_RentalID r, o_MachineID := nr_ID r,
          o_ConnectionID := NodesConnectionID, o_AdapterType := AdapterType, o_Kind := OfferKindStanding,
          o_Lane := LaneReusable, o_NativeRef := nr_ID r, o_ObservedAt := nfa_ObservedAt facts,
          o_ExpiresAt := time_add (nfa_ObservedAt facts) (offerFreshness env), o_Platform := platform,
          o_Resources := \<lparr>rv_CPUMillis = nh_CPUMillis host, rv_MemoryBytes = nh_MemoryBytes host,
            rv_EphemeralDiskBytes = df_FreeBytes (nh_Disk host), rv_EphemeralDiskKnown = df_Known (nh_Disk host),
            rv_Accelerators = acf_Devices (nh_Accelerator host),
            rv_AcceleratorsKnown = acf_Established (nh_Accelerator host)\<rparr>,
          o_Host := \<lparr>hf_Attested = attestations (nh_Accelerator host), hf_Driver = facts_Driver (nh_Accelerator host)\<rparr>,
          o_Capabilities := \<lparr>cp_MaxContainers = node_max_concurrent, cp_SupportsDigestRefs = True,
            cp_SupportsEntrypointOverride = True, cp_Inbound = InboundNetworkNone\<rparr>,
          o_Network := nh_Network host, o_Pricing := shadowPrice r, o_Terms := terms, o_QueuedWorkSeconds := Some 0,
          o_Images := imageInventory facts platform, o_Artifacts := nfa_Artifacts facts, o_Caches := nfa_Caches facts,
          o_Available := (int occupied < node_max_concurrent), o_CapacityConfidence := 1\<rparr>))"

fun offers_of :: "registry_env \<Rightarrow> registry \<Rightarrow> node_record list \<Rightarrow> node_error + offer_snapshot list" where
  "offers_of env rg [] = Inr []"
| "offers_of env rg (r # rs) =
     (if \<not> node_Alive r (re_now env) then offers_of env rg rs
      else case node_offer env r (occupied_slots rg r) of
        Inl err \<Rightarrow> Inl err
      | Inr offer \<Rightarrow> (case offers_of env rg rs of Inl err \<Rightarrow> Inl err | Inr offers \<Rightarrow> Inr (offer # offers)))"

definition registry_Offers :: "registry_env \<Rightarrow> registry \<Rightarrow> node_error + offer_snapshot list" where
  "registry_Offers env rg = offers_of env rg (nodes_List (rg_Tables rg))"

subsection \<open>Numbers in credentials\<close>

lemma digit_value_digit: "d < 10 \<Longrightarrow> digit_value (char_of (48 + d :: nat)) = Some d"
  by (simp add: digit_value_def)

lemma digits_value_append:
  "digits_value a (xs @ ys) = Option.bind (digits_value a xs) (\<lambda>b. digits_value b ys)"
  by (induction xs arbitrary: a) (auto split: option.splits)

declare nat_digits.simps [simp del]

lemma digits_value_nat_digits: "digits_value 0 (nat_digits n) = Some n"
proof (induction n rule: nat_digits.induct)
  case (1 n)
  show ?case
  proof (cases "n < 10")
    case True
    then show ?thesis by (simp add: nat_digits.simps[of n] digit_value_digit)
  next
    case False
    then have "digits_value 0 (nat_digits (n div 10)) = Some (n div 10)" using 1 by blast
    then show ?thesis using False
      by (simp add: nat_digits.simps[of n] digits_value_append digit_value_digit)
  qed
qed

lemma nat_digits_nonempty [simp]: "nat_digits n \<noteq> []"
  by (subst nat_digits.simps) simp

lemma nat_digits_digits: "c \<in> set (nat_digits n) \<Longrightarrow> digit_value c \<noteq> None"
proof (induction n rule: nat_digits.induct)
  case (1 n)
  then show ?case
    by (cases "n < 10") (auto simp: nat_digits.simps[of n] digit_value_digit)
qed

lemma not_a_digit [simp]:
  "digit_value (CHR ''.'') = None" "digit_value (CHR 0x00) = None" "digit_value (CHR ''-'') = None" "digit_value (CHR ''+'') = None"
  by (simp_all add: digit_value_def)

lemma nat_digits_plain: "digit_value c = None \<Longrightarrow> c \<notin> set (nat_digits n)"
  using nat_digits_digits by blast

lemma nat_digits_inj: "nat_digits m = nat_digits n \<Longrightarrow> m = n"
  using digits_value_nat_digits by (metis option.inject)

lemma Itoa_plain: "CHR ''.'' \<notin> set (Itoa n)" "CHR 0x00 \<notin> set (Itoa n)"
  by (simp_all add: Itoa_def nat_digits_plain)

lemma Atoi_Itoa:
  assumes "in_int64 n"
  shows "Atoi (Itoa n) = Some n"
proof (cases "n < 0")
  case True
  then show ?thesis using assms by (simp add: Atoi_def Itoa_def digits_value_nat_digits)
next
  case False
  obtain c cs where d: "nat_digits (nat n) = c # cs" by (cases "nat_digits (nat n)") auto
  then have "digit_value c \<noteq> None" using nat_digits_digits[of c "nat n"] by simp
  then have "c \<noteq> CHR ''-''" "c \<noteq> CHR ''+''" by (metis not_a_digit(3), metis not_a_digit(4))
  then show ?thesis using assms False digits_value_nat_digits[of "nat n"] by (simp add: Atoi_def Itoa_def d)
qed

subsection \<open>Credentials\<close>

lemma signer_mint_Inr:
  "signer_mint env purpose expires parts = Inr token \<longleftrightarrow> signer_Enabled env \<and> \<not> time_is_zero expires
     \<and> token = Itoa (unix_seconds expires) @ ''.'' @ signer_sign env purpose (Itoa (unix_seconds expires)) parts"
  by (auto simp: signer_mint_def Let_def)

lemma token_parts:
  "takeWhile (\<lambda>c. c \<noteq> CHR ''.'') (Itoa n @ ''.'' @ m) = Itoa n"
  "drop (length (Itoa n) + 1) (Itoa n @ ''.'' @ m) = m"
  using Itoa_plain(1)[of n] by (auto simp: takeWhile_append)

lemma minted_verifies:
  assumes "signer_mint env purpose expires parts = Inr token" "in_int64 (unix_seconds expires)"
  shows "signer_verify env' token now purpose' parts' \<longleftrightarrow> signer_Enabled env' \<and> now < of_unix (unix_seconds expires)
    \<and> signer_sign env' purpose' (Itoa (unix_seconds expires)) parts' = signer_sign env purpose (Itoa (unix_seconds expires)) parts"
proof -
  have t: "token = Itoa (unix_seconds expires) @ ''.'' @ signer_sign env purpose (Itoa (unix_seconds expires)) parts"
    using assms(1) by (simp add: signer_mint_Inr)
  show ?thesis unfolding signer_verify_def Let_def t token_parts Atoi_Itoa[OF assms(2)] by simp
qed

lemma expiry_of_unix: "of_unix (unix_seconds (signer_Expiry t)) = signer_Expiry t"
  by (simp add: of_unix_def unix_seconds_def signer_Expiry_def nanos_per_second_def)

definition same_signer :: "registry_env \<Rightarrow> registry_env \<Rightarrow> bool" where
  "same_signer env env' \<longleftrightarrow> re_key env' = re_key env \<and> re_mac env' = re_mac env"

lemma session_message_inj:
  assumes "signed_message ''session'' e [i, nat_digits f] = signed_message ''session'' e [i, nat_digits g]"
  shows "f = g"
  using assms by (simp add: signed_message_def nat_digits_inj)

text \<open>A credential verifies at the fencing token it was minted for and at no other.\<close>

lemma VerifySession_minted:
  assumes "signer_Session env i f expires = Inr token" "in_int64 (unix_seconds expires)" "same_signer env env'"
    "inj (re_mac env (re_key env))"
  shows "VerifySession env' i g token now \<longleftrightarrow> g = f \<and> now < of_unix (unix_seconds expires)"
proof -
  note m = assms(1)[unfolded signer_Session_def]
  have on: "signer_Enabled env'" using m assms(3) by (auto simp: signer_mint_Inr same_signer_def signer_Enabled_def)
  have "signer_sign env' ''session'' e [i, format_uint g] = signer_sign env ''session'' e [i, format_uint f] \<longleftrightarrow> g = f" for e
    using assms(3,4) session_message_inj[of e i "unat g" "unat f"]
    by (auto simp: signer_sign_def same_signer_def format_uint_def inj_eq unsigned_word_eqI)
  then show ?thesis unfolding VerifySession_def minted_verifies[OF m assms(2)] using on by auto
qed

subsection \<open>What the registry may do\<close>

datatype registry_op =
    RegInvite registry_env registry_invitation
  | RegEnroll registry_env enrollment_request
  | RegDispatch registry_env node_instruction
  | RegReinvite registry_env string time
  | RegRetire string
  | RegOpen registry_env string string
  | RegClose session
  | RegDrain
  | RegEvents registry_env string string "node_event list"
  | RegResult registry_env string string node_result
  | RegExpire registry_env
  | RegWrite string
  | RegRestart

definition registry_step :: "registry_op \<Rightarrow> registry \<Rightarrow> registry" where
  "registry_step op rg = (case op of
     RegInvite env invitation \<Rightarrow> snd (registry_Invite env invitation rg)
   | RegEnroll env req \<Rightarrow> snd (registry_Enroll env req rg)
   | RegDispatch env command \<Rightarrow> snd (dispatch env command rg)
   | RegReinvite env nodeID through \<Rightarrow> snd (registry_Reinvite env nodeID through rg)
   | RegRetire nodeID \<Rightarrow> snd (registry_Retire nodeID rg)
   | RegOpen env nodeID token \<Rightarrow> snd (OpenSession env nodeID token rg)
   | RegClose session \<Rightarrow> CloseSession session rg
   | RegDrain \<Rightarrow> Drain rg
   | RegEvents env nodeID token events \<Rightarrow> snd (RecordEvents env nodeID token events rg)
   | RegResult env nodeID token result \<Rightarrow> snd (RecordResult env nodeID token result rg)
   | RegExpire env \<Rightarrow> snd (registry_ExpireLeases env rg)
   | RegWrite nodeID \<Rightarrow> transport_write nodeID rg
   | RegRestart \<Rightarrow> NewRegistry (rg_Tables rg))"

definition registry_run :: "registry_op list \<Rightarrow> registry \<Rightarrow> registry" where
  "registry_run ops rg = fold registry_step ops rg"

definition material_free :: "node_order \<Rightarrow> bool" where
  "material_free c \<longleftrightarrow> (case c of
     PrepareImage p \<Rightarrow> rp_Secret (pi_RegistryCredential p) = empty_string
   | PrepareArtifact p \<Rightarrow> arr_Location (pa_SourceCredential p) = empty_string
   | _ \<Rightarrow> True)"

definition tables_ok :: "node_tables \<Rightarrow> bool" where
  "tables_ok t \<longleftrightarrow> node_keys t \<and> (\<forall>x \<in> set (nt_Operations t). material_free (on_Payload (orw_Operation x)))"

lemma recorded_order_free: "material_free (recorded_order c)"
  by (cases c) (simp_all add: recorded_order_def material_free_def pull_WithoutMaterial_def read_WithoutMaterial_def)

lemma tables_ok_nodes: "(\<And>r. nr_ID (f r) = nr_ID r) \<Longrightarrow> tables_ok (update_node i f t) = tables_ok t"
  by (simp add: tables_ok_def update_node_keys) (simp add: update_node_def)

lemma tables_ok_operations:
  "tables_ok t \<Longrightarrow> (\<And>x. material_free (on_Payload x) \<Longrightarrow> material_free (on_Payload (f x))) \<Longrightarrow> tables_ok (update_operation i k f t)"
  by (auto simp: tables_ok_def update_operation_def node_keys_def)

lemma tables_ok_rest [simp]:
  "tables_ok (t\<lparr>nt_Events := y\<rparr>) = tables_ok t" "tables_ok (t\<lparr>nt_Workloads := z\<rparr>) = tables_ok t"
  by (simp_all add: tables_ok_def node_keys_def)

lemma close_session_tables [simp]: "rg_Tables (close_session i rg) = rg_Tables rg"
  by (simp add: close_session_def split: option.splits)

lemma deliver_tables [simp]: "rg_Tables (deliver i c rg) = rg_Tables rg"
  by (simp add: deliver_def split: option.splits)

lemma close_sessions_tables [simp]: "rg_Tables (fold (\<lambda>r. close_session (nr_ID r)) rs rg) = rg_Tables rg"
  by (induction rs arbitrary: rg) simp_all

lemma record_events_keeps:
  "record_events now i es l t = (res, t') \<Longrightarrow> tables_ok t \<Longrightarrow> tables_ok t' \<and> tables_move 0 t t'"
proof (induction now i es l t rule: record_events.induct)
  case (2 now i e es l t)
  show ?case
  proof (cases "event_Validate (e\<lparr>nv_NodeID := i\<rparr>)")
    case None
    obtain fresh t1 where r: "nodes_RecordEvent (event_receive (e\<lparr>nv_NodeID := i\<rparr>) now) t = (fresh, t1)" by fastforce
    have ok: "tables_ok t1" using r 2(3) by (auto simp: nodes_RecordEvent_def Let_def split: if_splits option.splits)
    note m = nodes_RecordEvent_moves[OF r, of 0]
    from 2(2) None r have more: "record_events now i es
        (if fresh \<and> nv_Kind (e\<lparr>nv_NodeID := i\<rparr>) = EventHeartbeat then nv_Facts (e\<lparr>nv_NodeID := i\<rparr>) else l) t1 = (res, t')"
      by (simp add: Let_def)
    from 2(1)[OF refl None r[symmetric] more ok] tables_move_trans[OF m, of 0] show ?thesis by simp
  qed (use 2 in simp)
qed simp

locale counted_system =
  fixes step :: "'op \<Rightarrow> 'a \<Rightarrow> 'a"
    and inv :: "'a \<Rightarrow> bool"
    and move :: "nat \<Rightarrow> 'a \<Rightarrow> 'a \<Rightarrow> bool"
  assumes step_keeps: "inv x \<Longrightarrow> inv (step op x) \<and> move 1 x (step op x)"
    and move_refl: "move 0 x x"
    and move_trans: "move m x y \<Longrightarrow> move n y z \<Longrightarrow> move (m + n) x z"
begin

lemma runs_move: "inv x \<Longrightarrow> inv (fold step ops x) \<and> move (length ops) x (fold step ops x)"
proof (induction ops arbitrary: x)
  case Nil
  then show ?case by (simp add: move_refl)
next
  case (Cons op ops)
  from step_keeps[OF Cons.prems, of op] Cons.IH[of "step op x"] show ?case
    by (auto dest: move_trans)
qed

end

definition keeps_tables :: "node_tables \<Rightarrow> node_tables \<Rightarrow> bool" where
  "keeps_tables t t' \<longleftrightarrow> (tables_ok t \<longrightarrow> tables_ok t' \<and> tables_move 1 t t')"

lemma keeps_same [simp]: "keeps_tables t t"
  by (simp add: keeps_tables_def)

lemma Invite_keeps: "nodes_Invite r t = Inr t' \<Longrightarrow> keeps_tables t t'"
  using nodes_Invite_keys[of t r t'] nodes_Invite_moves[of r t t' 1]
  by (auto simp: keeps_tables_def tables_ok_def nodes_Invite_def split: if_splits)

lemma Enroll_keeps:
  assumes "nodes_Enroll i e t = Inr (r, t')"
  shows "keeps_tables t t'"
proof -
  from assms have t': "t' = update_node i (enrolled_row e) t" by (rule nodes_Enroll_Inr)
  show ?thesis using nodes_Enroll_moves[OF assms] by (simp add: keeps_tables_def t' tables_ok_nodes enrolled_row_def)
qed

lemma Reinvite_keeps: "nodes_Reinvite i k x t = Inr t' \<Longrightarrow> keeps_tables t t'"
  using nodes_Reinvite_moves[of i k x t t' 1]
  by (auto simp: keeps_tables_def nodes_Reinvite_def tables_ok_nodes split: if_splits)

lemma Retire_keeps: "nodes_Retire i t = Inr t' \<Longrightarrow> keeps_tables t t'"
  using nodes_Retire_moves[of i t t' 1]
  by (auto simp: keeps_tables_def nodes_Retire_def tables_ok_nodes split: if_splits)

lemma Heartbeat_ok: "nodes_Heartbeat i facts l t = Inr (r, t') \<Longrightarrow> tables_ok t' = tables_ok t"
  by (auto simp: nodes_Heartbeat_def Let_def tables_ok_nodes split: if_splits option.splits sum.splits)

lemma AppendOperation_keeps: "AppendOperation x t = (p, t') \<Longrightarrow> material_free (on_Payload x) \<Longrightarrow> keeps_tables t t'"
  using AppendOperation_moves[of x t p t' 1]
  by (auto simp: keeps_tables_def AppendOperation_def tables_ok_operations split: option.splits if_splits)
    (auto simp: tables_ok_def node_keys_def)

lemma SettleOperation_keeps: "SettleOperation i result t = (err, t') \<Longrightarrow> keeps_tables t t'"
  using SettleOperation_moves[of i result t err t' 1]
  by (auto simp: keeps_tables_def SettleOperation_def Let_def tables_ok_operations split: option.splits if_splits)

lemma ExpireLeases_keeps: "nodes_ExpireLeases now t = (rs, t') \<Longrightarrow> keeps_tables t t'"
proof -
  have "nt_Operations (mark_lost rs t) = nt_Operations t" for rs and t :: node_tables
    by (induction rs arbitrary: t) (simp_all add: mark_lost_def update_node_def)
  then show "nodes_ExpireLeases now t = (rs, t') \<Longrightarrow> keeps_tables t t'"
    using nodes_ExpireLeases_moves[of t now rs t' 1]
    by (auto simp: keeps_tables_def tables_ok_def nodes_ExpireLeases_def Let_def mark_lost_keys)
qed

lemma dispatch_keeps: "keeps_tables (rg_Tables rg) (rg_Tables (snd (dispatch env command rg)))"
  by (auto simp: dispatch_def Let_def recorded_order_free split: sum.splits prod.splits
      dest!: AppendOperation_keeps)

lemma RecordEvents_keeps: "keeps_tables (rg_Tables rg) (rg_Tables (snd (RecordEvents env i token es rg)))"
proof (cases "authenticate env i token rg")
  case (Inr r)
  obtain res t where e: "record_events (re_now env) (nr_ID r) es None (rg_Tables rg) = (res, t)" by fastforce
  have t: "tables_ok (rg_Tables rg) \<Longrightarrow> tables_ok t \<and> tables_move 0 (rg_Tables rg) t" by (rule record_events_keeps[OF e])
  then have k: "keeps_tables (rg_Tables rg) t" using tables_move_mono[of 0 _ _ 1] by (simp add: keeps_tables_def)
  have "keeps_tables (rg_Tables rg) t1" if "nodes_Heartbeat j f l t = Inr (r1, t1)" for j f l r1 t1
    using t Heartbeat_ok[OF that] nodes_Heartbeat_moves[OF that, of 1] tables_move_trans[of 0 _ t 1]
    by (simp add: keeps_tables_def)
  with k show ?thesis
    by (simp add: RecordEvents_def Inr e split: sum.splits option.splits if_splits prod.splits)
qed (simp add: RecordEvents_def)

lemma invite_parts:
  "snd (case w of Inl err \<Rightarrow> (Inl err, rg) | Inr expires \<Rightarrow> (case m expires of
     Inl err \<Rightarrow> (Inl err, rg)
   | Inr token \<Rightarrow> (case nodes_Invite (row token expires) (rg_Tables rg) of
       Inl err \<Rightarrow> (Inl err, rg)
     | Inr t \<Rightarrow> (Inr (b token), rg\<lparr>rg_Tables := t\<rparr>)))) = rg'
   \<Longrightarrow> keeps_tables (rg_Tables rg) (rg_Tables rg')"
  by (auto split: sum.splits dest: Invite_keeps)

lemma registry_Invite_keeps: "keeps_tables (rg_Tables rg) (rg_Tables (snd (registry_Invite env invitation rg)))"
  unfolding registry_Invite_def Let_def by (rule invite_parts[OF refl])

lemma registry_Enroll_keeps: "keeps_tables (rg_Tables rg) (rg_Tables (snd (registry_Enroll env req rg)))"
  by (simp add: registry_Enroll_def Let_def Enroll_keeps split: sum.split prod.split)

lemma registry_Reinvite_keeps: "keeps_tables (rg_Tables rg) (rg_Tables (snd (registry_Reinvite env i through rg)))"
  by (simp add: registry_Reinvite_def Reinvite_keeps split: sum.split option.split)

lemma registry_Retire_keeps: "keeps_tables (rg_Tables rg) (rg_Tables (snd (registry_Retire i rg)))"
  by (simp add: registry_Retire_def Retire_keeps split: sum.split)

lemma OpenSession_tables [simp]: "rg_Tables (snd (OpenSession env i token rg)) = rg_Tables rg"
  by (simp add: OpenSession_def Let_def split: sum.split)

lemma session_tables [simp]:
  "rg_Tables (CloseSession s rg) = rg_Tables rg" "rg_Tables (Drain rg) = rg_Tables rg"
  "rg_Tables (transport_write i rg) = rg_Tables rg" "rg_Tables (NewRegistry t) = t"
  by (simp_all add: CloseSession_def Drain_def transport_write_def NewRegistry_def split: option.split)

lemma RecordResult_keeps: "keeps_tables (rg_Tables rg) (rg_Tables (snd (RecordResult env i token result rg)))"
  by (simp add: RecordResult_def Let_def SettleOperation_keeps split: sum.split prod.split)

lemma registry_ExpireLeases_keeps: "keeps_tables (rg_Tables rg) (rg_Tables (snd (registry_ExpireLeases env rg)))"
  by (simp add: registry_ExpireLeases_def ExpireLeases_keeps split: prod.split)

lemmas registry_keeps = registry_Invite_keeps registry_Enroll_keeps dispatch_keeps registry_Reinvite_keeps
  registry_Retire_keeps RecordEvents_keeps RecordResult_keeps registry_ExpireLeases_keeps

lemma registry_tables: "keeps_tables (rg_Tables rg) (rg_Tables (registry_step op rg))"
  by (cases op) (simp_all add: registry_step_def registry_keeps)

interpretation reg: counted_system registry_step "\<lambda>rg. tables_ok (rg_Tables rg)"
    "\<lambda>n rg rg'. tables_move n (rg_Tables rg) (rg_Tables rg')"
  by unfold_locales (use registry_tables[unfolded keeps_tables_def] in \<open>auto intro: tables_move_trans\<close>)

subsection \<open>Effects\<close>

lemma no_nodes_ok: "tables_ok no_nodes"
  by (simp add: tables_ok_def node_keys_def no_nodes_def)

lemma registry_run_moves:
  "tables_ok (rg_Tables rg) \<Longrightarrow> tables_ok (rg_Tables (registry_run ops rg))
     \<and> tables_move (length ops) (rg_Tables rg) (rg_Tables (registry_run ops rg))"
  unfolding registry_run_def by (rule reg.runs_move)

lemma registry_reached_ok: "tables_ok (rg_Tables (registry_run ops (NewRegistry no_nodes)))"
  using registry_run_moves[of "NewRegistry no_nodes" ops] no_nodes_ok by simp

lemma registry_run_row:
  assumes "tables_ok (rg_Tables rg)" "node_row (rg_Tables rg) i = Some r"
  obtains r' where "node_row (rg_Tables (registry_run ops rg)) i = Some r'" "node_after (length ops) r r'"
  using registry_run_moves[OF assms(1), of ops] assms(2) unfolding tables_move_def by blast

lemma lookupInvited_Inr: "lookupInvited rg req = Inr r \<Longrightarrow> node_row (rg_Tables rg) (eq_NodeID req) = Some r"
  by (auto simp: lookupInvited_def split: sum.splits if_splits)

lemma registry_Enroll_Inr:
  assumes "registry_Enroll env req rg = (Inr e, rg')"
  obtains r r' where "node_row (rg_Tables rg) (en_NodeID e) = Some r" "node_row (rg_Tables rg') (en_NodeID e) = Some r'"
    "\<not> node_Retired r" "nr_FencingToken r' = nr_FencingToken r + 1" "en_FencingToken e = nr_FencingToken r'"
    "en_SessionExpires e = signer_Expiry (time_add (re_now env) (re_session env))"
    "signer_Session env (en_NodeID e) (en_FencingToken e) (en_SessionExpires e) = Inr (en_SessionToken e)"
proof -
  obtain r where l: "lookupInvited rg req = Inr r"
    using assms by (cases "lookupInvited rg req") (simp_all add: registry_Enroll_def)
  have row: "node_row (rg_Tables rg) (nr_ID r) = Some r"
    using lookupInvited_Inr[OF l] node_row_ID[OF lookupInvited_Inr[OF l]] by simp
  let ?se = "\<lparr>se_EnrollmentTokenID = TokenID env (eq_EnrollmentToken req), se_AgentVersion = eq_AgentVersion req,
    se_Facts = facts_Established (eq_Facts req), se_EnrolledAt = re_now env, se_LeaseExpires = time_add (re_now env) (re_lease env)\<rparr>"
  obtain x t where n: "nodes_Enroll (nr_ID r) ?se (rg_Tables rg) = Inr (x, t)"
    using assms l by (cases "nodes_Enroll (nr_ID r) ?se (rg_Tables rg)") (auto simp: registry_Enroll_def split: if_splits)
  from n row have x: "\<not> node_Retired r" "x = enrolled_row ?se r" "node_row t (nr_ID r) = Some x"
    by (auto simp: node_Retired_def elim!: nodes_Enroll_Inr)
  from assms l n have e: "en_NodeID e = nr_ID x" "en_FencingToken e = nr_FencingToken x"
    "en_SessionExpires e = signer_Expiry (time_add (re_now env) (re_session env))"
    "signer_Session env (en_NodeID e) (en_FencingToken e) (en_SessionExpires e) = Inr (en_SessionToken e)" "rg_Tables rg' = t"
    by (auto simp: registry_Enroll_def Let_def split: if_splits sum.splits)
  have "nr_ID x = nr_ID r" "nr_FencingToken x = nr_FencingToken r + 1" by (simp_all add: x(2) enrolled_row_def)
  with e x row show thesis by (intro that[of r x]) simp_all
qed

lemma authenticate_refused:
  assumes "node_row (rg_Tables rg) i = Some r" "\<not> VerifySession env i (nr_FencingToken r) token (re_now env)"
  shows "authenticate env i token rg = Inl (ErrSessionInvalid i)"
  using assms node_row_ID[OF assms(1)] by (simp add: authenticate_def nodes_Get_def)

lemma no_wrap: "0 < n \<Longrightarrow> n < 2 ^ 64 \<Longrightarrow> (x :: uint64) + of_nat n \<noteq> x"
  using word_of_nat_eq_0_iff[where 'a = 64, of n] by (auto dest: nat_dvd_not_less)

lemma authenticate_retired:
  assumes "node_row (rg_Tables rg) i = Some r" "node_Retired r" "authenticate env i token rg = Inr x"
  shows "node_Retired x"
  using assms by (auto simp: authenticate_def nodes_Get_def split: if_splits)

lemma offers_of_alive: "offers_of env rg rs = Inr offers \<Longrightarrow>
    list_all2 (\<lambda>r offer. node_offer env r (occupied_slots rg r) = Inr offer) (filter (\<lambda>r. node_Alive r (re_now env)) rs) offers"
  by (induction rs arbitrary: offers) (auto split: if_splits sum.splits)

lemma node_offer_fields:
  assumes "node_offer env r n = Inr offer"
  shows "o_ID offer = nr_ID r" "o_Lane offer = LaneReusable" "o_Available offer = (n = 0)"
    "o_ExpiresAt offer = time_add (nfa_ObservedAt (nr_Facts r)) (offerFreshness env)"
    "pm_Known (o_Pricing offer) = (0 < nr_ShadowPriceUSDPerHour r)"
proof -
  obtain terms where "node_Terms r (re_now env) = Inr terms"
    using assms by (auto simp: node_offer_def Let_def split: sum.splits)
  with assms have o1: "offer = projr (node_offer env r n)" "node_Terms r (re_now env) = Inr terms" by simp_all
  show "o_ID offer = nr_ID r" "o_Lane offer = LaneReusable" "o_Available offer = (n = 0)"
    "o_ExpiresAt offer = time_add (nfa_ObservedAt (nr_Facts r)) (offerFreshness env)"
    "pm_Known (o_Pricing offer) = (0 < nr_ShadowPriceUSDPerHour r)"
    unfolding o1(1) node_offer_def Let_def o1(2) by (auto simp: node_max_concurrent_def shadowPrice_def)
qed

lemma list_all2_member: "list_all2 P xs ys \<Longrightarrow> y \<in> set ys \<Longrightarrow> \<exists>x \<in> set xs. P x y"
  by (induction rule: list_all2_induct) auto

lemma registry_Offers_records:
  assumes "registry_Offers env rg = Inr offers" "offer \<in> set offers"
  shows "\<exists>r \<in> set (nt_Nodes (rg_Tables rg)). node_Alive r (re_now env) \<and> node_offer env r (occupied_slots rg r) = Inr offer"
  using list_all2_member[OF offers_of_alive[OF assms(1)[unfolded registry_Offers_def]] assms(2)]
  by (auto simp: nodes_List_def)

lemma operation_row_added:
  "operation_row_of t (on_NodeID x) (on_OperationID x) = None \<Longrightarrow>
     operation_row_of (t\<lparr>nt_Operations := nt_Operations t @ [\<lparr>orw_Operation = x, orw_Sequence = n\<rparr>]\<rparr>) (on_NodeID x) (on_OperationID x) = Some x"
proof -
  have "find P xs = None \<Longrightarrow> P y \<Longrightarrow> find P (xs @ [y]) = Some y" for P and xs :: "operation_row list" and y
    by (induction xs) auto
  then show "operation_row_of t (on_NodeID x) (on_OperationID x) = None \<Longrightarrow> ?thesis" by (simp add: operation_row_of_def)
qed

lemma dispatch_duplicate:
  assumes "operation_row_of (rg_Tables rg) (nf_NodeID (nn_Ref command)) (nn_OperationID command) = Some x" "\<not> Reissuable x"
  shows "snd (dispatch env command rg) = rg
    \<and> (\<forall>receipt. fst (dispatch env command rg) = Inr receipt \<longrightarrow> ot_Duplicate receipt \<and> ot_AcceptedAt receipt = on_IssuedAt x)"
proof (cases "registry_record rg (nn_Ref command)")
  case (Inr r)
  then have "nr_ID r = nf_NodeID (nn_Ref command)"
    by (auto simp: registry_record_def split: sum.splits if_splits dest: node_row_ID)
  with assms Inr show ?thesis by (auto simp: dispatch_def AppendOperation_def Let_def)
qed (simp add: dispatch_def)

lemma AppendOperation_records:
  assumes "AppendOperation x t = ((y, False), t')"
  shows "\<exists>z. operation_row_of t' (on_NodeID x) (on_OperationID x) = Some z \<and> on_Kind z = on_Kind x \<and> on_IssuedAt z = on_IssuedAt x
    \<and> on_State z = on_State x"
proof (cases "operation_row_of t (on_NodeID x) (on_OperationID x)")
  case None
  then show ?thesis using assms operation_row_added[of t "x\<lparr>on_SettledAt := zero_time, on_Failure := empty_string\<rparr>"]
    by (auto simp: AppendOperation_def)
next
  case (Some old)
  then show ?thesis using assms by (auto simp: AppendOperation_def operation_row_update split: if_splits)
qed

lemma dispatch_records:
  assumes "dispatch env command rg = (Inr receipt, rg')" "\<not> ot_Duplicate receipt"
  shows "\<exists>x. operation_row_of (rg_Tables rg') (nf_NodeID (nn_Ref command)) (nn_OperationID command) = Some x
    \<and> on_Kind x = order_kind (nn_Order command) \<and> on_IssuedAt x = ot_AcceptedAt receipt \<and> on_State x = OperationPending"
proof -
  obtain r where r: "registry_record rg (nn_Ref command) = Inr r"
    using assms(1) by (auto simp: dispatch_def split: if_splits sum.splits)
  then have id: "nr_ID r = nf_NodeID (nn_Ref command)"
    by (auto simp: registry_record_def split: sum.splits if_splits dest: node_row_ID)
  define op where "op = \<lparr>on_OperationID = nn_OperationID command, on_NodeID = nr_ID r, on_Kind = order_kind (nn_Order command),
    on_FencingToken = nr_FencingToken r, on_State = OperationPending, on_IssuedAt = re_now env, on_SettledAt = zero_time,
    on_Payload = recorded_order (nn_Order command), on_Failure = empty_string\<rparr>"
  obtain stored duplicate t where a: "AppendOperation op (rg_Tables rg) = ((stored, duplicate), t)" by (metis surj_pair)
  from assms r a have d: "\<not> duplicate" "rg_Tables rg' = t" "ot_AcceptedAt receipt = re_now env"
    by (auto simp: dispatch_def Let_def op_def[symmetric] split: if_splits)
  from AppendOperation_records[of op "rg_Tables rg" stored t] a d(1) d(2,3) show ?thesis
    by (auto simp: op_def id)
qed

subsection \<open>Properties\<close>

text \<open>C9: A superseded session is refused everywhere. Once a node has enrolled again, whatever happened in
  between and whatever happens after, the session credential of its earlier enrollment opens no session,
  renews nothing, reports no event and settles no command, and the attempt changes nothing. (The keyed digest
  is taken to have no collisions, and fewer than 2 to the 63 steps are taken.)\<close>

theorem superseded_session_is_refused:
  assumes "rg = registry_run ops (NewRegistry no_nodes)" "registry_Enroll env req rg = (Inr e, rg1)"
    "registry_Enroll env2 req2 (registry_run ops1 rg1) = (Inr e2, rg2)" "en_NodeID e2 = en_NodeID e"
    "rg3 = registry_run ops2 rg2" "length ops1 + length ops2 < 2 ^ 63"
    "same_signer env env3" "inj (re_mac env (re_key env))" "in_int64 (unix_seconds (en_SessionExpires e))"
  shows "OpenSession env3 (en_NodeID e) (en_SessionToken e) rg3 = (Inl (ErrSessionInvalid (en_NodeID e)), rg3)
    \<and> RenewSession env3 (en_NodeID e) (en_SessionToken e) rg3 = Inl (ErrSessionInvalid (en_NodeID e))
    \<and> RecordEvents env3 (en_NodeID e) (en_SessionToken e) events rg3 = (Some (ErrSessionInvalid (en_NodeID e)), rg3)
    \<and> RecordResult env3 (en_NodeID e) (en_SessionToken e) result rg3 = (Some (ErrSessionInvalid (en_NodeID e)), rg3)"
proof -
  let ?i = "en_NodeID e"
  have ok: "tables_ok (rg_Tables rg)" by (simp add: assms(1) registry_reached_ok)
  have ok1: "tables_ok (rg_Tables rg1)"
    using registry_Enroll_keeps[of rg env req] assms(2) ok by (simp add: keeps_tables_def)
  have ok2: "tables_ok (rg_Tables rg2)"
    using registry_Enroll_keeps[of "registry_run ops1 rg1" env2 req2] assms(3) registry_run_moves[OF ok1, of ops1]
    by (simp add: keeps_tables_def)
  from assms(2) obtain r1 where r1: "node_row (rg_Tables rg1) ?i = Some r1" "en_FencingToken e = nr_FencingToken r1"
    "signer_Session env ?i (en_FencingToken e) (en_SessionExpires e) = Inr (en_SessionToken e)" by (rule registry_Enroll_Inr)
  obtain r2 where r2: "node_row (rg_Tables (registry_run ops1 rg1)) ?i = Some r2" "node_after (length ops1) r1 r2"
    by (rule registry_run_row[OF ok1 r1(1)])
  from assms(3) obtain s s' where s: "node_row (rg_Tables (registry_run ops1 rg1)) (en_NodeID e2) = Some s"
    "node_row (rg_Tables rg2) (en_NodeID e2) = Some s'" "nr_FencingToken s' = nr_FencingToken s + 1" by (rule registry_Enroll_Inr)
  obtain r3 where r3: "node_row (rg_Tables rg3) ?i = Some r3" "node_after (length ops2) s' r3"
    using registry_run_row[OF ok2 s(2), of ops2] assms(4,5) by auto
  from r2 s r3 obtain k l where "k \<le> length ops1" "l \<le> length ops2"
    "nr_FencingToken r3 = nr_FencingToken r1 + of_nat k + 1 + of_nat l"
    by (auto simp: node_after_def assms(4))
  then have "nr_FencingToken r3 = nr_FencingToken r1 + of_nat (k + 1 + l)" "k + 1 + l < 2 ^ 64"
    using assms(6) by (simp_all add: ac_simps)
  then have "nr_FencingToken r3 \<noteq> en_FencingToken e" using no_wrap[of "k + 1 + l"] r1(2) by simp
  then have "\<not> VerifySession env3 ?i (nr_FencingToken r3) (en_SessionToken e) (re_now env3)"
    by (simp add: VerifySession_minted[OF r1(3) assms(9,7,8)])
  from authenticate_refused[OF r3(1) this] show ?thesis
    by (simp add: OpenSession_def RenewSession_def RecordEvents_def RecordResult_def)
qed



text \<open>C12: No bearer material is kept. In every state the registry reaches, no stored command holds a registry
  secret or a signed location, and neither does a command a session begins with.\<close>

theorem stored_commands_hold_no_material:
  assumes "rg = registry_run ops (NewRegistry no_nodes)"
  shows "(\<forall>x \<in> set (nt_Operations (rg_Tables rg)). material_free (on_Payload (orw_Operation x)))
    \<and> (\<forall>c \<in> set (ss_Commands s). OpenSession env i token rg = (Inr s, rg') \<longrightarrow> material_free (nc_Payload c))"
proof -
  have free: "\<forall>x \<in> set (nt_Operations (rg_Tables rg)). material_free (on_Payload (orw_Operation x))"
    using registry_reached_ok[of ops] by (simp add: assms tables_ok_def)
  have "material_free (nc_Payload c)" if "OpenSession env i token rg = (Inr s, rg')" "c \<in> set (ss_Commands s)" for c
  proof -
    from that(1) obtain j where "ss_Commands s = map commandFrom (PendingOperations (rg_Tables rg) j)"
      by (auto simp: OpenSession_def Let_def split: sum.splits if_splits)
    with that(2) free show ?thesis
      by (auto simp: PendingOperations_def node_operations_def commandFrom_def)
  qed
  with free show ?thesis by blast
qed


text \<open>C17: The fleet is offered as it reports itself. An offer of the registry is a node inside its lease, under
  the node's own identity in the reusable lane; it says it is available exactly when the node reports no
  workload short of its exit, it states a price only when the operator did, and every such node is offered.\<close>

theorem offers_are_the_ready_nodes:
  assumes "registry_Offers env rg = Inr offers"
  shows "map o_ID offers = map nr_ID (filter (\<lambda>r. node_Alive r (re_now env)) (nodes_List (rg_Tables rg)))
    \<and> (\<forall>offer \<in> set offers. \<exists>r \<in> set (nt_Nodes (rg_Tables rg)). nr_ID r = o_ID offer \<and> node_Alive r (re_now env)
        \<and> o_Lane offer = LaneReusable \<and> pm_Known (o_Pricing offer) = (0 < nr_ShadowPriceUSDPerHour r)
        \<and> o_Available offer = (\<forall>w \<in> set (Workloads (rg_Tables rg) (nr_ID r)). \<not> occupies (wo_Phase w)))"
proof -
  have "map nr_ID xs = map o_ID ys" if "list_all2 (\<lambda>r offer. node_offer env r (occupied_slots rg r) = Inr offer) xs ys" for xs ys
    using that by (induction rule: list_all2_induct) (auto simp: node_offer_fields(1))
  note ids = this[OF offers_of_alive[OF assms[unfolded registry_Offers_def]], symmetric]
  have "\<exists>r \<in> set (nt_Nodes (rg_Tables rg)). nr_ID r = o_ID offer \<and> node_Alive r (re_now env)
      \<and> o_Lane offer = LaneReusable \<and> pm_Known (o_Pricing offer) = (0 < nr_ShadowPriceUSDPerHour r)
      \<and> o_Available offer = (\<forall>w \<in> set (Workloads (rg_Tables rg) (nr_ID r)). \<not> occupies (wo_Phase w))"
    if "offer \<in> set offers" for offer
    using registry_Offers_records[OF assms that]
    by (auto simp: node_offer_fields occupied_slots_def filter_empty_conv)
  with ids show ?thesis by blast
qed

subsection \<open>A node enrolled twice\<close>

definition sample_registry_env :: "int \<Rightarrow> registry_env" where
  "sample_registry_env secs =
     \<lparr>re_now = of_unix secs, re_key = ''k'', re_mac = (\<lambda>_ message. message), re_digest = (\<lambda>token. token),
      re_lease = 9 * nanos_per_second, re_session = 6 * nanos_per_second, re_invitation = 5 * nanos_per_second,
      re_controlPlaneURL = empty_string, re_agentVersion = empty_string, re_identity = (\<lambda>_. ''x'')\<rparr>"

definition sample_invitation :: registry_invitation where
  "sample_invitation = \<lparr>iv_NodeID = ''n1'', iv_RentalID = ''r1'', iv_Generation = 1, iv_ShadowPriceUSDPerHour = 2,
     iv_RedeemableThrough = zero_time, iv_Purchase = \<lparr>pu_BillingIntervalSeconds = 0, pu_EligibleClasses = [], pu_AvailableUntil = zero_time\<rparr>\<rparr>"

definition sample_enrollment :: "string \<Rightarrow> enrollment_request" where
  "sample_enrollment token = \<lparr>eq_NodeID = ''n1'', eq_RentalID = ''r1'', eq_Generation = 1, eq_EnrollmentToken = token,
     eq_AgentVersion = empty_string, eq_Facts = no_facts\<rparr>"

definition token_of :: "(node_error + node_bootstrap) \<times> registry \<Rightarrow> string" where
  "token_of p = (case fst p of Inl _ \<Rightarrow> empty_string | Inr b \<Rightarrow> nb_EnrollmentToken b)"

definition sample_invited :: registry where
  "sample_invited = registry_run [RegInvite (sample_registry_env 1) sample_invitation] (NewRegistry no_nodes)"

definition sample_token :: string where
  "sample_token = token_of (registry_Invite (sample_registry_env 1) sample_invitation (NewRegistry no_nodes))"

definition sample_enrolled :: "(node_error + enrollment) \<times> registry" where
  "sample_enrolled = registry_Enroll (sample_registry_env 1) (sample_enrollment sample_token) sample_invited"

definition sample_again :: "(node_error + enrollment) \<times> registry" where
  "sample_again = (let rg = snd sample_enrolled; p = registry_Reinvite (sample_registry_env 2) ''n1'' zero_time rg in
     registry_Enroll (sample_registry_env 2) (sample_enrollment (token_of p)) (snd p))"

definition sample_stop :: node_instruction where
  "sample_stop = \<lparr>nn_Ref = \<lparr>nf_NodeID = ''n1'', nf_RentalID = ''r1'', nf_Generation = 1\<rparr>, nn_OperationID = ''op1'',
     nn_FencingToken = 0, nn_Order = StopWorkload \<lparr>sw_RunID = ''run1'', sw_GraceSeconds = 3\<rparr>\<rparr>"

lemma sample_enrollments:
  "(case sample_enrolled of (Inr e, _) \<Rightarrow> en_NodeID e = ''n1'' \<and> in_int64 (unix_seconds (en_SessionExpires e)) | _ \<Rightarrow> False)
   \<and> (case sample_again of (Inr e, _) \<Rightarrow> en_NodeID e = ''n1'' | _ \<Rightarrow> False)"
  by code_simp

lemma inj_sample: "inj (re_mac (sample_registry_env n) (re_key (sample_registry_env n)))"
  by (simp add: sample_registry_env_def inj_def)

lemma same_signer_sample: "same_signer (sample_registry_env m) (sample_registry_env n)"
  by (simp add: sample_registry_env_def same_signer_def)

theorem superseded_session_is_refused_witness:
  "\<exists>e e2 rg2. fst sample_enrolled = Inr e \<and> sample_again = (Inr e2, rg2)
     \<and> OpenSession (sample_registry_env 3) ''n1'' (en_SessionToken e) rg2 = (Inl (ErrSessionInvalid ''n1''), rg2)"
proof -
  obtain e rg1 where e: "sample_enrolled = (Inr e, rg1)" "en_NodeID e = ''n1''" "in_int64 (unix_seconds (en_SessionExpires e))"
    using sample_enrollments by (auto split: prod.splits sum.splits)
  obtain e2 rg2 where e2: "sample_again = (Inr e2, rg2)" "en_NodeID e2 = ''n1''"
    using sample_enrollments by (auto split: prod.splits sum.splits)
  define req where "req = sample_enrollment (token_of (registry_Reinvite (sample_registry_env 2) ''n1'' zero_time rg1))"
  have first: "registry_Enroll (sample_registry_env 1) (sample_enrollment sample_token) sample_invited = (Inr e, rg1)"
    using e(1) by (simp add: sample_enrolled_def)
  have again: "registry_Enroll (sample_registry_env 2) req (registry_run [RegReinvite (sample_registry_env 2) ''n1'' zero_time] rg1) = (Inr e2, rg2)"
    using e2(1) by (simp add: sample_again_def e(1) Let_def req_def registry_run_def registry_step_def)
  have "en_NodeID e2 = en_NodeID e" "rg2 = registry_run [] rg2"
    "length [RegReinvite (sample_registry_env 2) ''n1'' zero_time] + length ([] :: registry_op list) < 2 ^ 63"
    by (simp_all add: e(2) e2(2) registry_run_def)
  from superseded_session_is_refused[OF sample_invited_def first again this same_signer_sample[of 1 3] inj_sample e(3)]
  have "OpenSession (sample_registry_env 3) ''n1'' (en_SessionToken e) rg2 = (Inl (ErrSessionInvalid ''n1''), rg2)"
    unfolding e(2) by blast
  moreover have "fst sample_enrolled = Inr e" using arg_cong[OF e(1), of fst] by (simp only: fst_conv)
  ultimately show ?thesis using e2(1) by blast
qed

definition sample_retired :: registry where
  "sample_retired = registry_run [RegInvite (sample_registry_env 1) sample_invitation, RegRetire ''n1''] (NewRegistry no_nodes)"

lemma sample_retired_row:
  "case node_row (rg_Tables sample_retired) ''n1'' of Some r \<Rightarrow> node_Retired r | None \<Rightarrow> False"
  by code_simp


definition sample_serving :: registry where
  "sample_serving = registry_run [RegInvite (sample_registry_env 1) sample_invitation,
     RegEnroll (sample_registry_env 1) (sample_enrollment sample_token)] (NewRegistry no_nodes)"

lemma sample_dispatch:
  "case dispatch (sample_registry_env 2) sample_stop sample_serving of (Inr receipt, _) \<Rightarrow> \<not> ot_Duplicate receipt | _ \<Rightarrow> False"
  by code_simp



definition sample_pull :: node_instruction where
  "sample_pull = sample_stop\<lparr>nn_Order := PrepareImage \<lparr>pi_ManifestDigest = ''d'', pi_Platform = sample_platform, pi_Reference = ''i'',
     pi_RegistryCredential = \<lparr>rp_Scope = \<lparr>sc_Operation = ''op1'', sc_Content = ''d'', sc_ExpiresAt = of_unix 9\<rparr>,
       rp_Registry = ''reg'', rp_Username = ''u'', rp_Secret = ''secret''\<rparr>, pi_Unpack = True\<rparr>\<rparr>"

definition sample_pulling :: registry where
  "sample_pulling = registry_run [RegInvite (sample_registry_env 1) sample_invitation,
     RegEnroll (sample_registry_env 1) (sample_enrollment sample_token), RegDispatch (sample_registry_env 2) sample_pull] (NewRegistry no_nodes)"

lemma sample_opened_session:
  "case sample_enrolled of (Inr e, _) \<Rightarrow>
     (case OpenSession (sample_registry_env 2) ''n1'' (en_SessionToken e) sample_pulling of
        (Inr s, _) \<Rightarrow> length (ss_Commands s) = 1 | _ \<Rightarrow> False) | _ \<Rightarrow> False"
  by code_simp

theorem stored_commands_hold_no_material_witness:
  "\<exists>e s rg'. fst sample_enrolled = Inr e
     \<and> OpenSession (sample_registry_env 2) ''n1'' (en_SessionToken e) sample_pulling = (Inr s, rg')
     \<and> length (ss_Commands s) = 1 \<and> list_all (\<lambda>c. material_free (nc_Payload c)) (ss_Commands s)"
proof -
  obtain e rg1 where e: "sample_enrolled = (Inr e, rg1)" using sample_enrollments by (auto split: prod.splits sum.splits)
  obtain res rg' where o1: "OpenSession (sample_registry_env 2) ''n1'' (en_SessionToken e) sample_pulling = (res, rg')" by fastforce
  have "case res of Inr s \<Rightarrow> length (ss_Commands s) = 1 | Inl _ \<Rightarrow> False"
    using sample_opened_session unfolding e by (simp add: o1)
  then obtain s where "res = Inr s" "length (ss_Commands s) = 1" by (cases res) simp_all
  then have s: "fst sample_enrolled = Inr e" "length (ss_Commands s) = 1"
    "OpenSession (sample_registry_env 2) ''n1'' (en_SessionToken e) sample_pulling = (Inr s, rg')"
    using arg_cong[OF e, of fst] o1 by (simp_all only: fst_conv)
  with stored_commands_hold_no_material[OF sample_pulling_def, of s "sample_registry_env 2" "''n1''" "en_SessionToken e" rg']
  show ?thesis by (auto simp: list_all_iff)
qed

lemma sample_offered:
  "case registry_Offers (sample_registry_env 2) sample_serving of Inr offers \<Rightarrow> map o_ID offers = [''n1''] | Inl _ \<Rightarrow> False"
  by code_simp

theorem offers_are_the_ready_nodes_witness:
  "\<exists>offers. registry_Offers (sample_registry_env 2) sample_serving = Inr offers \<and> map o_ID offers = [''n1'']
     \<and> map nr_ID (filter (\<lambda>r. node_Alive r (of_unix 2)) (nodes_List (rg_Tables sample_serving))) = [''n1'']"
proof -
  obtain offers where "registry_Offers (sample_registry_env 2) sample_serving = Inr offers" "map o_ID offers = [''n1'']"
    using sample_offered by (auto split: sum.splits)
  with offers_are_the_ready_nodes[OF this(1)] show ?thesis by (simp add: sample_registry_env_def)
qed

text \<open>
  A token is a signature over the identity, the generation and the second it expires in, and nothing else. An
  invitation minted after one was redeemed, and expiring in the same second, is the redeemed token again, and
  redeems again.
\<close>

lemma spent_invitation_is_minted_again:
  "let p = registry_Reinvite (sample_registry_env 1) ''n1'' zero_time (snd sample_enrolled) in
     token_of p = sample_token
   \<and> (case registry_Enroll (sample_registry_env 1) (sample_enrollment sample_token) (snd p) of (Inr e, _) \<Rightarrow> en_FencingToken e = 2 | _ \<Rightarrow> False)"
  by code_simp

end
