(* ===== verification/NodeAgent.thy ===== *)
theory NodeAgent
  imports NodeRegistry
begin

text \<open>
  The agent on a reusable machine (\<^verbatim>\<open>internal/nodeagent\<close>: \<^verbatim>\<open>agent.go\<close>, \<^verbatim>\<open>state.go\<close> and the calls of
  \<^verbatim>\<open>transport.go\<close>): the state file it remembers by, the credential it holds, the commands it performs and
  the facts it reports or spools.

  The agent is its memory, the file on its disk, the commands that reached the container runtime, and the
  control plane it speaks to, of any type. What the disk, the runtime, the clock and the control plane
  answer is the environment of a step. \<open>transport_env\<close> puts the node registry at the other end of a link
  that may lose the request or the answer.
\<close>

subsection \<open>The state file\<close>

record state_file =
  sf_NodeID :: string
  sf_SessionToken :: string
  sf_SessionExpires :: time
  sf_FencingToken :: uint64
  sf_Applied :: "string list"
  sf_Spool :: "node_event list"
  sf_EventSequence :: uint64
  sf_Reported :: "(string \<times> string) list"

record agent_identity =
  id_NodeID :: string
  id_RentalID :: string
  id_Generation :: uint64
  id_EnrollmentToken :: string
  id_AgentVersion :: string

record 's agent_env =
  ae_identity :: agent_identity
  ae_now :: time
  ae_heartbeat :: duration
  ae_disk :: "state_file \<Rightarrow> string option"
  ae_read :: "string option"
  ae_Facts :: "string + node_facts"
  ae_Observe :: "string + workload_observation list"
  ae_runtime :: "command_kind \<Rightarrow> node_order \<Rightarrow> string option"
  ae_Enroll :: "enrollment_request \<Rightarrow> 's \<Rightarrow> (string + enrollment) \<times> 's"
  ae_RenewSession :: "string \<Rightarrow> string \<Rightarrow> 's \<Rightarrow> (string + session_renewal) \<times> 's"
  ae_SendEvents :: "string \<Rightarrow> string \<Rightarrow> node_event list \<Rightarrow> 's \<Rightarrow> string option \<times> 's"
  ae_SendResult :: "string \<Rightarrow> string \<Rightarrow> node_result \<Rightarrow> 's \<Rightarrow> string option \<times> 's"

record 's agent =
  ag_data :: state_file
  ag_disk :: "state_file option"
  ag_performed :: "node_command list"
  ag_peer :: 's

definition new_state :: "string \<Rightarrow> state_file" where
  "new_state nodeID = \<lparr>sf_NodeID = nodeID, sf_SessionToken = empty_string, sf_SessionExpires = zero_time, sf_FencingToken = 0,
     sf_Applied = [], sf_Spool = [], sf_EventSequence = 0, sf_Reported = []\<rparr>"

text \<open>The file is replaced by a rename, so it holds the previous content or the new one.\<close>

definition persistLocked :: "'s agent_env \<Rightarrow> 's agent \<Rightarrow> string option \<times> 's agent" where
  "persistLocked env a = (case ae_disk env (ag_data a) of
     Some err \<Rightarrow> (Some err, a)
   | None \<Rightarrow> (None, a\<lparr>ag_disk := Some (ag_data a)\<rparr>))"

text \<open>The agent of a process that starts on this disk. A file of another node is refused.\<close>

definition OpenState :: "'s agent_env \<Rightarrow> 's agent \<Rightarrow> string + 's agent" where
  "OpenState env a = (case ae_read env of
     Some err \<Rightarrow> Inl err
   | None \<Rightarrow> (case ag_disk a of
       None \<Rightarrow> (case persistLocked env (a\<lparr>ag_data := new_state (id_NodeID (ae_identity env))\<rparr>) of
         (Some err, _) \<Rightarrow> Inl err
       | (None, a1) \<Rightarrow> Inr a1)
     | Some data \<Rightarrow>
         if sf_NodeID data \<noteq> id_NodeID (ae_identity env) then Inl ''a machine cannot adopt another node's memory''
         else Inr (a\<lparr>ag_data := data\<rparr>)))"

definition state_Session :: "state_file \<Rightarrow> (string \<times> time) option" where
  "state_Session data = (if sf_SessionToken data = empty_string then None
     else Some (sf_SessionToken data, sf_SessionExpires data))"

definition state_holds :: "'s agent_env \<Rightarrow> string \<Rightarrow> time \<Rightarrow> uint64 \<Rightarrow> 's agent \<Rightarrow> string option \<times> 's agent" where
  "state_holds env token expires fencing a = persistLocked env (a\<lparr>ag_data := (ag_data a)\<lparr>sf_SessionToken := token,
     sf_SessionExpires := expires, sf_FencingToken := fencing\<rparr>\<rparr>)"

definition state_Enrolled :: "'s agent_env \<Rightarrow> enrollment \<Rightarrow> 's agent \<Rightarrow> string option \<times> 's agent" where
  "state_Enrolled env e a = state_holds env (en_SessionToken e) (en_SessionExpires e) (en_FencingToken e) a"

definition state_Renewed :: "'s agent_env \<Rightarrow> session_renewal \<Rightarrow> 's agent \<Rightarrow> string option \<times> 's agent" where
  "state_Renewed env r a = state_holds env (sn_SessionToken r) (sn_SessionExpires r) (sn_FencingToken r) a"

definition state_Applied :: "state_file \<Rightarrow> string \<Rightarrow> bool" where
  "state_Applied data operationID \<longleftrightarrow> operationID \<in> set (sf_Applied data)"

definition MarkApplied :: "'s agent_env \<Rightarrow> string \<Rightarrow> 's agent \<Rightarrow> string option \<times> 's agent" where
  "MarkApplied env operationID a =
     (if state_Applied (ag_data a) operationID then (None, a)
      else persistLocked env (a\<lparr>ag_data := (ag_data a)\<lparr>sf_Applied := sf_Applied (ag_data a) @ [operationID]\<rparr>\<rparr>))"

definition state_Spool :: "'s agent_env \<Rightarrow> node_event \<Rightarrow> 's agent \<Rightarrow> string option \<times> 's agent" where
  "state_Spool env e a =
     (if list_ex (\<lambda>s. nv_ID s = nv_ID e) (sf_Spool (ag_data a)) then (None, a)
      else persistLocked env (a\<lparr>ag_data := (ag_data a)\<lparr>sf_Spool := sf_Spool (ag_data a) @ [e]\<rparr>\<rparr>))"

definition ClearSpool :: "'s agent_env \<Rightarrow> 's agent \<Rightarrow> string option \<times> 's agent" where
  "ClearSpool env a = persistLocked env (a\<lparr>ag_data := (ag_data a)\<lparr>sf_Spool := []\<rparr>\<rparr>)"

definition phase_text :: "workload_phase \<Rightarrow> string" where
  "phase_text p = (case p of WorkloadPhasePreparing \<Rightarrow> ''preparing'' | WorkloadPhaseCreated \<Rightarrow> ''created''
     | WorkloadPhaseRunning \<Rightarrow> ''running'' | WorkloadPhaseExited \<Rightarrow> ''exited'' | WorkloadPhaseAbsent \<Rightarrow> ''absent''
     | WorkloadPhaseOther s \<Rightarrow> s)"

definition workloadKey :: "workload_observation \<Rightarrow> string" where
  "workloadKey w = wo_RunID w @ ''/'' @ wo_AttemptID w"

definition WorkloadChanged :: "state_file \<Rightarrow> workload_observation \<Rightarrow> bool" where
  "WorkloadChanged data w \<longleftrightarrow>
     (case map_of (sf_Reported data) (workloadKey w) of None \<Rightarrow> empty_string | Some p \<Rightarrow> p) \<noteq> phase_text (wo_Phase w)"

definition RecordWorkload :: "'s agent_env \<Rightarrow> workload_observation \<Rightarrow> 's agent \<Rightarrow> 's agent" where
  "RecordWorkload env w a = snd (persistLocked env (a\<lparr>ag_data := (ag_data a)\<lparr>sf_Reported :=
     AList.update (workloadKey w) (phase_text (wo_Phase w)) (sf_Reported (ag_data a))\<rparr>\<rparr>))"

definition event_name :: "string \<Rightarrow> uint64 \<Rightarrow> string" where
  "event_name nodeID sequence = nodeID @ ''-'' @ format_uint sequence"

definition NextEventID :: "'s agent_env \<Rightarrow> 's agent \<Rightarrow> string \<times> 's agent" where
  "NextEventID env a =
     (let sequence = sf_EventSequence (ag_data a) + 1;
          a1 = snd (persistLocked env (a\<lparr>ag_data := (ag_data a)\<lparr>sf_EventSequence := sequence\<rparr>\<rparr>))
      in (event_name (sf_NodeID (ag_data a1)) sequence, a1))"

subsection \<open>The credential\<close>

definition renewWithin :: "'s agent_env \<Rightarrow> duration" where
  "renewWithin env = i64_mul 2 (ae_heartbeat env)"

definition agent_renew :: "'s agent_env \<Rightarrow> string \<Rightarrow> 's agent \<Rightarrow> (string + string) \<times> 's agent" where
  "agent_renew env token a = (case ae_RenewSession env (id_NodeID (ae_identity env)) token (ag_peer a) of
     (Inl err, p) \<Rightarrow> (Inl (''renew node session: '' @ err), a\<lparr>ag_peer := p\<rparr>)
   | (Inr renewal, p) \<Rightarrow> (case state_Renewed env renewal (a\<lparr>ag_peer := p\<rparr>) of
       (Some err, a1) \<Rightarrow> (Inl err, a1)
     | (None, a1) \<Rightarrow> (Inr (sn_SessionToken renewal), a1)))"

definition agent_enroll :: "'s agent_env \<Rightarrow> 's agent \<Rightarrow> (string + string) \<times> 's agent" where
  "agent_enroll env a = (case ae_Facts env of
     Inl err \<Rightarrow> (Inl (''read host facts: '' @ err), a)
   | Inr facts \<Rightarrow>
       (let who = ae_identity env;
            req = \<lparr>eq_NodeID = id_NodeID who, eq_RentalID = id_RentalID who, eq_Generation = id_Generation who,
              eq_EnrollmentToken = id_EnrollmentToken who, eq_AgentVersion = id_AgentVersion who, eq_Facts = facts\<rparr> in
        case ae_Enroll env req (ag_peer a) of
          (Inl err, p) \<Rightarrow> (Inl (''enroll: '' @ err), a\<lparr>ag_peer := p\<rparr>)
        | (Inr e, p) \<Rightarrow> (case state_Enrolled env e (a\<lparr>ag_peer := p\<rparr>) of
            (Some err, a1) \<Rightarrow> (Inl err, a1)
          | (None, a1) \<Rightarrow> (Inr (en_SessionToken e), a1))))"

definition credential :: "'s agent_env \<Rightarrow> 's agent \<Rightarrow> (string + string) \<times> 's agent" where
  "credential env a = (case state_Session (ag_data a) of
     None \<Rightarrow> agent_enroll env a
   | Some (token, expires) \<Rightarrow>
       if time_add (ae_now env) (renewWithin env) < expires then (Inr token, a)
       else agent_renew env token a)"

subsection \<open>Commands and facts\<close>

definition agent_report :: "'s agent_env \<Rightarrow> node_result \<Rightarrow> 's agent \<Rightarrow> 's agent" where
  "agent_report env result a = (case credential env a of
     (Inl _, a1) \<Rightarrow> a1
   | (Inr token, a1) \<Rightarrow>
       a1\<lparr>ag_peer := snd (ae_SendResult env (id_NodeID (ae_identity env)) token result (ag_peer a1))\<rparr>)"

text \<open>The method of the runtime that the kind selects, on the payload as that method decodes it.\<close>

definition perform :: "'s agent_env \<Rightarrow> node_command \<Rightarrow> string option" where
  "perform env c = ae_runtime env (nc_Kind c) (nc_Payload c)"

definition result_of :: "'s agent_env \<Rightarrow> node_command \<Rightarrow> bool \<Rightarrow> bool \<Rightarrow> string \<Rightarrow> node_result" where
  "result_of env c applied duplicate failure =
     \<lparr>ns_OperationID = nc_OperationID c, ns_Applied = applied, ns_Failure = failure, ns_Duplicate = duplicate,
      ns_ReportedAt = ae_now env\<rparr>"

definition refused_by_agent :: "node_command \<Rightarrow> 's agent \<Rightarrow> bool" where
  "refused_by_agent c a \<longleftrightarrow> nc_FencingToken c \<noteq> 0 \<and> nc_FencingToken c < sf_FencingToken (ag_data a)"

definition agent_apply :: "'s agent_env \<Rightarrow> node_command \<Rightarrow> 's agent \<Rightarrow> 's agent" where
  "agent_apply env c a =
     (if refused_by_agent c a
      then agent_report env (result_of env c False False ''command carries a superseded fencing token'') a
      else if state_Applied (ag_data a) (nc_OperationID c)
      then agent_report env (result_of env c True True empty_string) a
      else (let failure = perform env c;
                a1 = a\<lparr>ag_performed := ag_performed a @ [c]\<rparr>;
                a2 = (if failure = None \<or> MayLeaveEffectOnFailure (nc_Kind c)
                      then snd (MarkApplied env (nc_OperationID c) a1) else a1)
            in agent_report env (result_of env c (failure = None) False
                 (case failure of None \<Rightarrow> empty_string | Some f \<Rightarrow> f)) a2))"

definition join_errors :: "string \<Rightarrow> string option \<Rightarrow> string" where
  "join_errors err other = (case other of None \<Rightarrow> err | Some e \<Rightarrow> err @ [CHR 0x0A] @ e)"

definition spooled_after :: "'s agent_env \<Rightarrow> string \<Rightarrow> node_event \<Rightarrow> 's agent \<Rightarrow> string option \<times> 's agent" where
  "spooled_after env err e a = (case state_Spool env e a of (other, a1) \<Rightarrow> (Some (join_errors err other), a1))"

definition agent_send :: "'s agent_env \<Rightarrow> node_event \<Rightarrow> 's agent \<Rightarrow> string option \<times> 's agent" where
  "agent_send env e a = (case credential env a of
     (Inl err, a1) \<Rightarrow> spooled_after env err e a1
   | (Inr token, a1) \<Rightarrow> (case ae_SendEvents env (id_NodeID (ae_identity env)) token [e] (ag_peer a1) of
       (Some err, p) \<Rightarrow> spooled_after env err e (a1\<lparr>ag_peer := p\<rparr>)
     | (None, p) \<Rightarrow> (None, a1\<lparr>ag_peer := p\<rparr>)))"

definition flushSpool :: "'s agent_env \<Rightarrow> 's agent \<Rightarrow> string option \<times> 's agent" where
  "flushSpool env a =
     (if sf_Spool (ag_data a) = [] then (None, a)
      else case credential env a of
        (Inl err, a1) \<Rightarrow> (Some err, a1)
      | (Inr token, a1) \<Rightarrow>
          (case ae_SendEvents env (id_NodeID (ae_identity env)) token (sf_Spool (ag_data a)) (ag_peer a1) of
             (Some err, p) \<Rightarrow> (Some err, a1\<lparr>ag_peer := p\<rparr>)
           | (None, p) \<Rightarrow> ClearSpool env (a1\<lparr>ag_peer := p\<rparr>)))"

definition sendHeartbeat :: "'s agent_env \<Rightarrow> 's agent \<Rightarrow> string option \<times> 's agent" where
  "sendHeartbeat env a = (case ae_Facts env of
     Inl err \<Rightarrow> (Some (''read host facts: '' @ err), a)
   | Inr facts \<Rightarrow> (case NextEventID env a of (i, a1) \<Rightarrow>
       agent_send env \<lparr>nv_ID = i, nv_NodeID = id_NodeID (ae_identity env), nv_Kind = EventHeartbeat, nv_ObservedAt = ae_now env,
         nv_Facts = Some (facts\<lparr>nfa_ObservedAt := ae_now env\<rparr>), nv_Workload = None\<rparr> a1))"

fun report_each :: "'s agent_env \<Rightarrow> workload_observation list \<Rightarrow> 's agent \<Rightarrow> string option \<times> 's agent" where
  "report_each env [] a = (None, a)"
| "report_each env (w # ws) a =
     (if \<not> WorkloadChanged (ag_data a) w then report_each env ws a
      else case NextEventID env a of (i, a1) \<Rightarrow>
        (case agent_send env \<lparr>nv_ID = i, nv_NodeID = id_NodeID (ae_identity env), nv_Kind = EventWorkload,
               nv_ObservedAt = wo_ObservedAt w, nv_Facts = None, nv_Workload = Some w\<rparr> a1 of
           (Some err, a2) \<Rightarrow> (Some err, a2)
         | (None, a2) \<Rightarrow> report_each env ws (RecordWorkload env w a2)))"

definition reportObservations :: "'s agent_env \<Rightarrow> 's agent \<Rightarrow> string option \<times> 's agent" where
  "reportObservations env a = (case ae_Observe env of
     Inl err \<Rightarrow> (Some (''observe workloads: '' @ err), a)
   | Inr ws \<Rightarrow> report_each env ws a)"

subsection \<open>Serving\<close>

text \<open>
  A pass of \<^verbatim>\<open>serve\<close>: the four calls before its loop, each of which may end it, then the turns of the loop
  and of the worker beside it. The worker performs one command at a time and shares with the loop only the
  state file, whose operations hold its lock. The error a stream ends with is only logged.
\<close>

definition serve_open :: "'s agent_env \<Rightarrow> 's agent \<Rightarrow> string option \<times> 's agent" where
  "serve_open env a = (case credential env a of
     (Inl err, a1) \<Rightarrow> (Some err, a1)
   | (Inr _, a1) \<Rightarrow> (case reportObservations env a1 of
       (Some err, a2) \<Rightarrow> (Some err, a2)
     | (None, a2) \<Rightarrow> (case flushSpool env a2 of
         (Some err, a3) \<Rightarrow> (Some err, a3)
       | (None, a3) \<Rightarrow> sendHeartbeat env a3)))"

datatype 's serve_turn = Tick "'s agent_env" | Work "'s agent_env" node_command

definition serve_turn :: "'s serve_turn \<Rightarrow> 's agent \<Rightarrow> 's agent" where
  "serve_turn turn a = (case turn of
     Tick env \<Rightarrow> snd (reportObservations env (snd (sendHeartbeat env a)))
   | Work env c \<Rightarrow> agent_apply env c a)"

definition serve :: "'s agent_env \<Rightarrow> 's serve_turn list \<Rightarrow> 's agent \<Rightarrow> string option \<times> 's agent" where
  "serve env turns a = (case serve_open env a of
     (Some err, a1) \<Rightarrow> (Some err, a1)
   | (None, a1) \<Rightarrow> (None, fold serve_turn turns a1))"

subsection \<open>Lives of an agent\<close>

text \<open>
  What happens to an agent: a pass of \<^verbatim>\<open>serve\<close>, a restart of its process on the file it left, a process
  killed after the runtime performed a command and before the command was remembered, and what everyone
  else does to the control plane. A process that cannot read its file does not come up.
\<close>

datatype 's agent_life =
    Pass "'s agent_env" "'s serve_turn list"
  | Restart "'s agent_env"
  | Killed "'s agent_env" node_command
  | Elsewhere "'s \<Rightarrow> 's"

definition restart :: "'s agent_env \<Rightarrow> 's agent \<Rightarrow> 's agent" where
  "restart env a = (case OpenState env a of Inl _ \<Rightarrow> a | Inr a1 \<Rightarrow> a1)"

definition killed :: "'s agent_env \<Rightarrow> node_command \<Rightarrow> 's agent \<Rightarrow> 's agent" where
  "killed env c a =
     (if refused_by_agent c a \<or> state_Applied (ag_data a) (nc_OperationID c) then restart env a
      else restart env (a\<lparr>ag_performed := ag_performed a @ [c]\<rparr>))"

definition agent_life :: "'s agent_life \<Rightarrow> 's agent \<Rightarrow> 's agent" where
  "agent_life l a = (case l of
     Pass env turns \<Rightarrow> snd (serve env turns a)
   | Restart env \<Rightarrow> restart env a
   | Killed env c \<Rightarrow> killed env c a
   | Elsewhere f \<Rightarrow> a\<lparr>ag_peer := f (ag_peer a)\<rparr>)"

definition agent_lives :: "'s agent_life list \<Rightarrow> 's agent \<Rightarrow> 's agent" where
  "agent_lives ls a = fold agent_life ls a"

definition turn_env :: "'s serve_turn \<Rightarrow> 's agent_env" where
  "turn_env t = (case t of Tick env \<Rightarrow> env | Work env _ \<Rightarrow> env)"

definition life_envs :: "'s agent_life \<Rightarrow> 's agent_env list" where
  "life_envs l = (case l of Pass env turns \<Rightarrow> env # map turn_env turns | Restart env \<Rightarrow> [env] | Killed env _ \<Rightarrow> [env] | Elsewhere _ \<Rightarrow> [])"

text \<open>A disk that takes every write of the steps.\<close>

definition disk_ok :: "'s agent_env \<Rightarrow> bool" where
  "disk_ok env \<longleftrightarrow> ae_disk env = (\<lambda>_. None)"

definition kills :: "string \<Rightarrow> 's agent_life list \<Rightarrow> nat" where
  "kills op ls = length (filter (\<lambda>l. case l of Killed _ c \<Rightarrow> nc_OperationID c = op | _ \<Rightarrow> False) ls)"

definition effects :: "string \<Rightarrow> 's agent \<Rightarrow> nat" where
  "effects op a = length (filter (\<lambda>c. nc_OperationID c = op \<and> MayLeaveEffectOnFailure (nc_Kind c)) (ag_performed a))"

subsection \<open>What the steps leave alone\<close>

text \<open>
  The steps that speak to the control plane change neither what was performed nor what is remembered of it,
  and the memory is on the disk after them if it was before.
\<close>

definition on_disk :: "'s agent \<Rightarrow> bool" where
  "on_disk a \<longleftrightarrow> ag_disk a = Some (ag_data a)"

definition same_memory :: "'s agent \<Rightarrow> 's agent \<Rightarrow> bool" where
  "same_memory a b \<longleftrightarrow> ag_performed b = ag_performed a \<and> sf_Applied (ag_data b) = sf_Applied (ag_data a)
     \<and> sf_NodeID (ag_data b) = sf_NodeID (ag_data a) \<and> (on_disk a \<longrightarrow> on_disk b)"

lemma same_memory_refl [simp]: "same_memory a a"
  by (simp add: same_memory_def)

lemma same_memory_trans [trans]: "same_memory a b \<Longrightarrow> same_memory b c \<Longrightarrow> same_memory a c"
  by (simp add: same_memory_def)

lemma same_memory_peer [simp]: "same_memory (a\<lparr>ag_peer := p\<rparr>) b = same_memory a b" "same_memory a (b\<lparr>ag_peer := p\<rparr>) = same_memory a b"
  by (simp_all add: same_memory_def on_disk_def)

lemma persist_ok: "disk_ok env \<Longrightarrow> persistLocked env a = (None, a\<lparr>ag_disk := Some (ag_data a)\<rparr>)"
  by (simp add: disk_ok_def persistLocked_def)

named_theorems agent_writes
lemmas [agent_writes] = state_holds_def state_Enrolled_def state_Renewed_def state_Spool_def ClearSpool_def
  RecordWorkload_def NextEventID_def

lemma state_writes_same_memory:
  assumes "disk_ok env"
  shows "same_memory a (snd (state_holds env t e f a))" "same_memory a (snd (state_Spool env v a))"
    "same_memory a (snd (ClearSpool env a))" "same_memory a (RecordWorkload env w a)" "same_memory a (snd (NextEventID env a))"
  by (auto simp: same_memory_def on_disk_def agent_writes persist_ok[OF assms] Let_def)

lemma state_holds_None: "disk_ok env \<Longrightarrow> fst (state_holds env t e f a) = None"
  by (simp add: state_holds_def persist_ok)

lemma credential_same_memory:
  assumes "disk_ok env"
  shows "same_memory a (snd (credential env a))"
proof -
  have held: "same_memory a b" if "state_holds env t e f (a\<lparr>ag_peer := p\<rparr>) = (r, b)" for t e f p r b
    using state_writes_same_memory(1)[OF assms, of "a\<lparr>ag_peer := p\<rparr>" t e f] that by simp
  show ?thesis
    by (auto simp: credential_def agent_renew_def agent_enroll_def state_Renewed_def state_Enrolled_def Let_def
        split: option.splits prod.splits sum.splits intro: held)
qed

lemma credential_step: "credential env a = (r, b) \<Longrightarrow> disk_ok env \<Longrightarrow> same_memory a b"
  using credential_same_memory[of env a] by simp

lemma spooled_after_step: "spooled_after env err e a = (r, b) \<Longrightarrow> disk_ok env \<Longrightarrow> same_memory a b"
  using state_writes_same_memory(2)[of env a e] by (auto simp: spooled_after_def split: prod.splits)

lemma agent_send_step: "agent_send env e a = (r, b) \<Longrightarrow> disk_ok env \<Longrightarrow> same_memory a b"
  by (auto simp: agent_send_def split: prod.splits sum.splits option.splits
      dest!: spooled_after_step credential_step intro: same_memory_trans)

lemma flushSpool_step: "flushSpool env a = (r, b) \<Longrightarrow> disk_ok env \<Longrightarrow> same_memory a b"
  using state_writes_same_memory(3)[of env]
  by (auto simp: flushSpool_def split: prod.splits sum.splits option.splits if_splits dest!: credential_step)
    (metis same_memory_trans same_memory_peer(1) snd_conv)

lemma NextEventID_step: "NextEventID env a = (i, b) \<Longrightarrow> disk_ok env \<Longrightarrow> same_memory a b"
  using state_writes_same_memory(5)[of env a] by simp

lemma sendHeartbeat_step: "sendHeartbeat env a = (r, b) \<Longrightarrow> disk_ok env \<Longrightarrow> same_memory a b"
  by (auto simp: sendHeartbeat_def split: sum.splits prod.splits dest!: NextEventID_step agent_send_step intro: same_memory_trans)

lemma report_each_step: "report_each env ws a = (r, b) \<Longrightarrow> disk_ok env \<Longrightarrow> same_memory a b"
proof (induction ws arbitrary: a)
  case (Cons w ws)
  show ?case
  proof (cases "WorkloadChanged (ag_data a) w")
    case True
    obtain i a1 where n: "NextEventID env a = (i, a1)" by fastforce
    obtain r2 a2 where s: "agent_send env \<lparr>nv_ID = i, nv_NodeID = id_NodeID (ae_identity env), nv_Kind = EventWorkload,
               nv_ObservedAt = wo_ObservedAt w, nv_Facts = None, nv_Workload = Some w\<rparr> a1 = (r2, a2)" by fastforce
    have a2: "same_memory a a2"
      using NextEventID_step[OF n Cons.prems(2)] agent_send_step[OF s Cons.prems(2)] by (rule same_memory_trans)
    show ?thesis
    proof (cases r2)
      case None
      with Cons.prems True n s have "report_each env ws (RecordWorkload env w a2) = (r, b)" by simp
      from Cons.IH[OF this Cons.prems(2)] state_writes_same_memory(4)[OF Cons.prems(2), of a2 w] a2
      show ?thesis by (meson same_memory_trans)
    qed (use Cons.prems True n s a2 in simp)
  qed (use Cons in simp)
qed simp

lemma reportObservations_step: "reportObservations env a = (r, b) \<Longrightarrow> disk_ok env \<Longrightarrow> same_memory a b"
  by (auto simp: reportObservations_def split: sum.splits dest: report_each_step)

lemma agent_report_step: "disk_ok env \<Longrightarrow> same_memory a (agent_report env result a)"
  by (auto simp: agent_report_def split: prod.splits sum.splits dest: credential_step)

lemma serve_open_step: "serve_open env a = (r, b) \<Longrightarrow> disk_ok env \<Longrightarrow> same_memory a b"
  by (auto simp: serve_open_def split: prod.splits sum.splits option.splits
      dest!: credential_step reportObservations_step flushSpool_step sendHeartbeat_step intro: same_memory_trans)

subsection \<open>Once\<close>

text \<open>What is remembered accounts for what was performed, up to the kills.\<close>

definition accounted :: "(string \<Rightarrow> nat) \<Rightarrow> 's agent \<Rightarrow> bool" where
  "accounted k a \<longleftrightarrow> on_disk a \<and> (\<forall>op. effects op a \<le> k op + of_bool (state_Applied (ag_data a) op))"

lemma accounted_same_memory: "accounted k a \<Longrightarrow> same_memory a b \<Longrightarrow> accounted k b"
  by (simp add: accounted_def same_memory_def effects_def state_Applied_def)

lemma accounted_mono: "accounted k a \<Longrightarrow> k \<le> k' \<Longrightarrow> accounted k' a"
  unfolding accounted_def le_fun_def by (meson add_le_mono1 order_trans)

lemma MarkApplied_ok:
  "disk_ok env \<Longrightarrow> snd (MarkApplied env op a) =
     (if state_Applied (ag_data a) op then a
      else (let d = (ag_data a)\<lparr>sf_Applied := sf_Applied (ag_data a) @ [op]\<rparr> in a\<lparr>ag_data := d, ag_disk := Some d\<rparr>))"
  by (simp add: MarkApplied_def persist_ok Let_def)

lemma accounted_performed:
  assumes "accounted k a" "\<not> state_Applied (ag_data a) (nc_OperationID c)" "disk_ok env"
  shows "accounted k (snd (MarkApplied env (nc_OperationID c) (a\<lparr>ag_performed := ag_performed a @ [c]\<rparr>)))"
    "\<not> MayLeaveEffectOnFailure (nc_Kind c) \<Longrightarrow> accounted k (a\<lparr>ag_performed := ag_performed a @ [c]\<rparr>)"
    "k (nc_OperationID c) < k' (nc_OperationID c) \<Longrightarrow> k \<le> k' \<Longrightarrow> accounted k' (a\<lparr>ag_performed := ag_performed a @ [c]\<rparr>)"
proof -
  note eff = assms(1)[unfolded accounted_def, THEN conjunct2, rule_format]
  have none: "effects (nc_OperationID c) a \<le> k (nc_OperationID c)" using eff[of "nc_OperationID c"] assms(2) by simp
  show "accounted k (snd (MarkApplied env (nc_OperationID c) (a\<lparr>ag_performed := ag_performed a @ [c]\<rparr>)))"
    unfolding accounted_def
  proof (intro conjI allI)
    fix op
    show "effects op (snd (MarkApplied env (nc_OperationID c) (a\<lparr>ag_performed := ag_performed a @ [c]\<rparr>)))
        \<le> k op + of_bool (state_Applied (ag_data (snd (MarkApplied env (nc_OperationID c) (a\<lparr>ag_performed := ag_performed a @ [c]\<rparr>)))) op)"
      using assms(2) none eff[of op] by (cases "op = nc_OperationID c")
        (auto simp: MarkApplied_ok[OF assms(3)] Let_def effects_def state_Applied_def of_bool_def split: if_splits)
  qed (use assms in \<open>simp add: MarkApplied_ok[OF assms(3)] on_disk_def Let_def\<close>)
  show "accounted k (a\<lparr>ag_performed := ag_performed a @ [c]\<rparr>)" if "\<not> MayLeaveEffectOnFailure (nc_Kind c)"
    using assms(1) that by (simp add: accounted_def on_disk_def effects_def)
  show "accounted k' (a\<lparr>ag_performed := ag_performed a @ [c]\<rparr>)"
    if k': "k (nc_OperationID c) < k' (nc_OperationID c)" "k \<le> k'"
    unfolding accounted_def
  proof (intro conjI allI)
    fix op
    show "effects op (a\<lparr>ag_performed := ag_performed a @ [c]\<rparr>) \<le> k' op + of_bool (state_Applied (ag_data (a\<lparr>ag_performed := ag_performed a @ [c]\<rparr>)) op)"
      using none eff[of op] k'(1) le_funD[OF k'(2), of op] assms(2) by (cases "op = nc_OperationID c") (auto simp: effects_def)
  qed (use assms(1) in \<open>simp add: accounted_def on_disk_def\<close>)
qed

lemma agent_apply_accounted:
  assumes "accounted k a" "disk_ok env"
  shows "accounted k (agent_apply env c a)"
proof (cases "refused_by_agent c a \<or> state_Applied (ag_data a) (nc_OperationID c)")
  case True
  then show ?thesis using agent_report_step[OF assms(2)] accounted_same_memory[OF assms(1)] by (auto simp: agent_apply_def)
next
  case False
  let ?a = "a\<lparr>ag_performed := ag_performed a @ [c]\<rparr>"
  let ?b = "if perform env c = None \<or> MayLeaveEffectOnFailure (nc_Kind c) then snd (MarkApplied env (nc_OperationID c) ?a) else ?a"
  have "accounted k ?b" using accounted_performed(1,2)[OF assms(1) _ assms(2)] False by simp
  then have "accounted k (agent_report env r ?b)" for r
    using agent_report_step[OF assms(2)] by (rule accounted_same_memory)
  then show ?thesis using False by (simp add: agent_apply_def Let_def)
qed

lemma serve_turn_accounted:
  assumes "accounted k a" "disk_ok (turn_env t)"
  shows "accounted k (serve_turn t a)"
proof (cases t)
  case (Tick env)
  then have env: "disk_ok env" using assms(2) by (simp add: turn_env_def)
  have "same_memory a (serve_turn t a)" unfolding Tick serve_turn_def serve_turn.case
    by (rule same_memory_trans[OF sendHeartbeat_step[OF prod.collapse[symmetric] env] reportObservations_step[OF prod.collapse[symmetric] env]])
  then show ?thesis by (rule accounted_same_memory[OF assms(1)])
next
  case (Work env c)
  then show ?thesis using assms agent_apply_accounted by (simp add: serve_turn_def turn_env_def)
qed

lemma serve_accounted:
  assumes "accounted k a" "list_all disk_ok (env # map turn_env turns)"
  shows "accounted k (snd (serve env turns a))"
proof -
  obtain r b where o1: "serve_open env a = (r, b)" by fastforce
  have b: "accounted k b" using accounted_same_memory[OF assms(1) serve_open_step[OF o1]] assms(2) by simp
  have "accounted k (fold serve_turn turns b)" using b assms(2)
  proof (induction turns arbitrary: b)
    case (Cons t ts)
    then show ?case using serve_turn_accounted[OF Cons.prems(1), of t] by simp
  qed simp
  with o1 b show ?thesis by (simp add: serve_def split: option.splits)
qed

lemma restart_on_disk: "on_disk a \<Longrightarrow> restart env a = a"
  by (simp add: restart_def OpenState_def on_disk_def split: option.splits)

lemma agent_life_accounted:
  assumes "accounted k a" "list_all disk_ok (life_envs l)" "\<And>op. k' op = k op + kills op [l]"
  shows "accounted k' (agent_life l a)"
proof (cases l)
  case (Killed env c)
  show ?thesis
  proof (cases "refused_by_agent c a \<or> state_Applied (ag_data a) (nc_OperationID c)")
    case True
    have "accounted k' a" by (rule accounted_mono[OF assms(1)]) (simp add: le_fun_def assms(3))
    with True show ?thesis using restart_on_disk[of a env] by (simp add: agent_life_def Killed killed_def accounted_def)
  next
    case False
    have "accounted k' (a\<lparr>ag_performed := ag_performed a @ [c]\<rparr>)"
      by (rule accounted_performed(3)[OF assms(1) _ _]) (use False assms Killed in \<open>auto simp: kills_def le_fun_def life_envs_def\<close>)
    then show ?thesis using False restart_on_disk[of "a\<lparr>ag_performed := ag_performed a @ [c]\<rparr>" env]
      by (simp add: agent_life_def Killed killed_def accounted_def)
  qed
next
  case (Pass env turns)
  then have "k' = k" using assms(3) by (auto simp: kills_def)
  with Pass assms show ?thesis by (simp add: agent_life_def life_envs_def serve_accounted)
qed (use assms restart_on_disk[of a] in \<open>auto simp: agent_life_def kills_def accounted_def on_disk_def effects_def\<close>)

lemma kills_Cons: "kills op (l # ls) = kills op [l] + kills op ls"
  by (simp add: kills_def)

lemma agent_lives_accounted:
  "accounted k a \<Longrightarrow> list_all (\<lambda>l. list_all disk_ok (life_envs l)) ls \<Longrightarrow> accounted (\<lambda>op. k op + kills op ls) (agent_lives ls a)"
proof (induction ls arbitrary: k a)
  case (Cons l ls)
  have "accounted (\<lambda>op. k op + kills op [l]) (agent_life l a)" using Cons.prems by (intro agent_life_accounted) simp_all
  from Cons.IH[OF this] Cons.prems show ?case by (simp add: agent_lives_def kills_Cons[of _ l ls] add.assoc)
qed (simp add: agent_lives_def kills_def)

definition started :: "string \<Rightarrow> 's \<Rightarrow> 's agent" where
  "started nodeID p = \<lparr>ag_data = new_state nodeID, ag_disk = Some (new_state nodeID), ag_performed = [], ag_peer = p\<rparr>"

subsection \<open>Nothing a node reports is lost\<close>

text \<open>
  What the agent relies on of a control plane: it says that a report was taken only when it holds every
  event of the report, and it forgets none, whatever else it is asked.
\<close>

locale reporting_plane =
  fixes speaks :: "'s agent_env \<Rightarrow> bool"
    and holds :: "'s \<Rightarrow> string \<Rightarrow> bool"
    and sound :: "'s \<Rightarrow> bool"
  assumes taken: "speaks env \<Longrightarrow> sound s \<Longrightarrow> ae_SendEvents env (id_NodeID (ae_identity env)) token es s = (None, s') \<Longrightarrow> e \<in> set es \<Longrightarrow> holds s' (nv_ID e)"
    and events_keep: "speaks env \<Longrightarrow> sound s \<Longrightarrow> sound (snd (ae_SendEvents env i token es s)) \<and> (holds s k \<longrightarrow> holds (snd (ae_SendEvents env i token es s)) k)"
    and result_keeps: "speaks env \<Longrightarrow> sound s \<Longrightarrow> sound (snd (ae_SendResult env i token r s)) \<and> (holds s k \<longrightarrow> holds (snd (ae_SendResult env i token r s)) k)"
    and enroll_keeps: "speaks env \<Longrightarrow> sound s \<Longrightarrow> sound (snd (ae_Enroll env q s)) \<and> (holds s k \<longrightarrow> holds (snd (ae_Enroll env q s)) k)"
    and renew_keeps: "speaks env \<Longrightarrow> sound s \<Longrightarrow> sound (snd (ae_RenewSession env i token s)) \<and> (holds s k \<longrightarrow> holds (snd (ae_RenewSession env i token s)) k)"
begin

definition settled :: "'s agent \<Rightarrow> string \<Rightarrow> bool" where
  "settled a k \<longleftrightarrow> holds (ag_peer a) k \<or> k \<in> nv_ID ` set (sf_Spool (ag_data a))"

text \<open>A step loses no event, and leaves the sequence alone.\<close>

definition loses_none :: "'s agent \<Rightarrow> 's agent \<Rightarrow> bool" where
  "loses_none a b \<longleftrightarrow> (sound (ag_peer a) \<longrightarrow> sound (ag_peer b) \<and> (\<forall>k. settled a k \<longrightarrow> settled b k))
     \<and> sf_EventSequence (ag_data b) = sf_EventSequence (ag_data a)"

lemma loses_none_refl [simp]: "loses_none a a"
  by (simp add: loses_none_def)

lemma loses_none_trans: "loses_none a b \<Longrightarrow> loses_none b c \<Longrightarrow> loses_none a c"
  by (simp add: loses_none_def)

lemma persist_keeps: "persistLocked env a = (r, b) \<Longrightarrow> ag_data b = ag_data a \<and> ag_peer b = ag_peer a"
  by (auto simp: persistLocked_def split: option.splits)

lemma persist_snd [simp]: "ag_data (snd (persistLocked env a)) = ag_data a" "ag_peer (snd (persistLocked env a)) = ag_peer a"
  by (simp_all add: persistLocked_def split: option.splits)

lemma data_keeps:
  "ag_peer b = ag_peer a \<Longrightarrow> sf_Spool (ag_data b) = sf_Spool (ag_data a) \<Longrightarrow>
   sf_EventSequence (ag_data b) = sf_EventSequence (ag_data a) \<Longrightarrow> loses_none a b"
  by (simp add: loses_none_def settled_def)

lemma peer_keeps:
  "(sound (ag_peer a) \<Longrightarrow> sound p \<and> (\<forall>k. holds (ag_peer a) k \<longrightarrow> holds p k)) \<Longrightarrow> loses_none a (a\<lparr>ag_peer := p\<rparr>)"
  by (auto simp: loses_none_def settled_def)

lemma holds_keeps: "loses_none a (snd (state_holds env t e f a))"
  by (rule data_keeps) (simp_all add: state_holds_def)

lemma agent_enroll_keeps: "speaks env \<Longrightarrow> loses_none a (snd (agent_enroll env a))"
proof (cases "ae_Facts env")
  case (Inr facts)
  assume env: "speaks env"
  let ?q = "\<lparr>eq_NodeID = id_NodeID (ae_identity env), eq_RentalID = id_RentalID (ae_identity env),
    eq_Generation = id_Generation (ae_identity env), eq_EnrollmentToken = id_EnrollmentToken (ae_identity env),
    eq_AgentVersion = id_AgentVersion (ae_identity env), eq_Facts = facts\<rparr>"
  obtain r p where q: "ae_Enroll env ?q (ag_peer a) = (r, p)" by fastforce
  have "loses_none a (a\<lparr>ag_peer := p\<rparr>)" by (rule peer_keeps) (use enroll_keeps[OF env, of "ag_peer a" ?q] q in auto)
  with holds_keeps[of "a\<lparr>ag_peer := p\<rparr>" env] have "loses_none a (snd (state_holds env t e f (a\<lparr>ag_peer := p\<rparr>)))" for t e f
    by (blast intro: loses_none_trans)
  with \<open>loses_none a (a\<lparr>ag_peer := p\<rparr>)\<close> show ?thesis
    by (auto simp: agent_enroll_def Inr q state_Enrolled_def split: sum.splits prod.splits option.splits) (metis snd_conv)+
qed (simp add: agent_enroll_def)

lemma agent_renew_keeps: "speaks env \<Longrightarrow> loses_none a (snd (agent_renew env token a))"
proof -
  assume env: "speaks env"
  obtain r p where q: "ae_RenewSession env (id_NodeID (ae_identity env)) token (ag_peer a) = (r, p)" by fastforce
  have "loses_none a (a\<lparr>ag_peer := p\<rparr>)"
    by (rule peer_keeps) (use renew_keeps[OF env, of "ag_peer a" "id_NodeID (ae_identity env)" token] q in auto)
  with holds_keeps[of "a\<lparr>ag_peer := p\<rparr>" env] have "loses_none a (snd (state_holds env t e f (a\<lparr>ag_peer := p\<rparr>)))" for t e f
    by (blast intro: loses_none_trans)
  with \<open>loses_none a (a\<lparr>ag_peer := p\<rparr>)\<close> show ?thesis
    by (auto simp: agent_renew_def q state_Renewed_def split: sum.splits prod.splits option.splits) (metis snd_conv)+
qed

lemma credential_keeps: "speaks env \<Longrightarrow> credential env a = (r, b) \<Longrightarrow> loses_none a b"
  using agent_enroll_keeps[of env a] agent_renew_keeps[of env a]
  by (auto simp: credential_def split: option.splits prod.splits if_splits) (metis snd_conv)+

lemma state_Spool_settles: "state_Spool env e a = (r, b) \<Longrightarrow> loses_none a b \<and> settled b (nv_ID e)"
  by (cases "list_ex (\<lambda>s. nv_ID s = nv_ID e) (sf_Spool (ag_data a))")
    (auto simp: state_Spool_def settled_def loses_none_def list_ex_iff dest: persist_keeps intro: rev_image_eqI)

lemma agent_send_settles:
  assumes "speaks env" "sound (ag_peer a)" "agent_send env e a = (r, b)"
  shows "loses_none a b \<and> settled b (nv_ID e)"
proof -
  obtain cr a1 where c: "credential env a = (cr, a1)" by fastforce
  note k1 = credential_keeps[OF assms(1) c]
  have spool: "loses_none a b \<and> settled b (nv_ID e)" if "spooled_after env err e a2 = (r, b)" "loses_none a a2" for err a2
    using that state_Spool_settles[of env e a2] by (auto simp: spooled_after_def split: prod.splits intro: loses_none_trans)
  show ?thesis
  proof (cases cr)
    case (Inl err)
    with assms(3) c spool k1 show ?thesis by (simp add: agent_send_def)
  next
    case (Inr token)
    obtain sr p where s: "ae_SendEvents env (id_NodeID (ae_identity env)) token [e] (ag_peer a1) = (sr, p)" by fastforce
    have s1: "sound (ag_peer a1)" using k1 assms(2) by (simp add: loses_none_def)
    have "loses_none a1 (a1\<lparr>ag_peer := p\<rparr>)"
      by (rule peer_keeps) (use events_keep[OF assms(1) s1, of "id_NodeID (ae_identity env)" token "[e]"] s in auto)
    with k1 have k2: "loses_none a (a1\<lparr>ag_peer := p\<rparr>)" by (rule loses_none_trans)
    show ?thesis
    proof (cases sr)
      case None
      have "holds p (nv_ID e)" using taken[OF assms(1) s1 s[unfolded None]] by simp
      with assms(3) c Inr s None k2 show ?thesis by (auto simp: agent_send_def settled_def)
    qed (use assms(3) c Inr s spool k2 in \<open>simp add: agent_send_def\<close>)
  qed
qed

lemma flushSpool_keeps:
  assumes "speaks env" "sound (ag_peer a)" "flushSpool env a = (r, b)"
  shows "loses_none a b"
proof (cases "sf_Spool (ag_data a) = []")
  case False
  obtain cr a1 where c: "credential env a = (cr, a1)" by fastforce
  note k1 = credential_keeps[OF assms(1) c]
  then have s1: "sound (ag_peer a1)" using assms(2) by (simp add: loses_none_def)
  show ?thesis
  proof (cases cr)
    case (Inr token)
    obtain sr p where s: "ae_SendEvents env (id_NodeID (ae_identity env)) token (sf_Spool (ag_data a)) (ag_peer a1) = (sr, p)"
      by fastforce
    note ek = events_keep[OF assms(1) s1, of "id_NodeID (ae_identity env)" token "sf_Spool (ag_data a)", unfolded s snd_conv]
    have k2: "loses_none a (a1\<lparr>ag_peer := p\<rparr>)" by (rule loses_none_trans[OF k1 peer_keeps]) (use ek in auto)
    have spools: "sf_Spool (ag_data a1) = sf_Spool (ag_data a)"
      using c by (auto simp: credential_def agent_renew_def agent_enroll_def state_Renewed_def state_Enrolled_def state_holds_def Let_def
          split: option.splits prod.splits sum.splits if_splits dest!: persist_keeps)
    show ?thesis
    proof (cases sr)
      case None
      with assms(3) False c Inr s have b: "ClearSpool env (a1\<lparr>ag_peer := p\<rparr>) = (r, b)" by (simp add: flushSpool_def)
      then have bd: "ag_peer b = p" "ag_data b = (ag_data a1)\<lparr>sf_Spool := []\<rparr>"
        by (auto simp: ClearSpool_def dest: persist_keeps)
      have "holds p (nv_ID e)" if "e \<in> set (sf_Spool (ag_data a))" for e
        by (rule taken[OF assms(1) s1 s[unfolded None] that])
      with k2 spools show ?thesis unfolding loses_none_def settled_def bd by auto
    qed (use assms(3) False c Inr s k2 in \<open>simp add: flushSpool_def\<close>)
  qed (use assms(3) False c k1 in \<open>simp add: flushSpool_def\<close>)
qed (use assms(3) in \<open>simp add: flushSpool_def\<close>)

text \<open>The invariant: every event the sequence has named is held by the control plane or spooled.\<close>

definition reported :: "string \<Rightarrow> 's agent \<Rightarrow> bool" where
  "reported n a \<longleftrightarrow> sound (ag_peer a) \<and> sf_NodeID (ag_data a) = n
     \<and> (\<forall>k. 1 \<le> k \<and> k \<le> unat (sf_EventSequence (ag_data a)) \<longrightarrow> settled a (event_name n (of_nat k)))"

lemma reported_keeps: "reported n a \<Longrightarrow> loses_none a b \<Longrightarrow> sf_NodeID (ag_data b) = sf_NodeID (ag_data a) \<Longrightarrow> reported n b"
  by (simp add: reported_def loses_none_def)

lemma named_event_reported:
  assumes "reported n a" "NextEventID env a = (i, a1)" "loses_none a1 b" "settled b i" "sf_NodeID (ag_data b) = n"
  shows "reported n b"
proof -
  let ?s = "sf_EventSequence (ag_data a)"
  have a1: "sf_EventSequence (ag_data a1) = ?s + 1" "ag_peer a1 = ag_peer a" "sf_Spool (ag_data a1) = sf_Spool (ag_data a)"
      "i = event_name n (?s + 1)"
    using assms(1,2) by (auto simp: NextEventID_def Let_def reported_def)
  have b: "sf_EventSequence (ag_data b) = ?s + 1" "sound (ag_peer b)"
    "settled a k \<Longrightarrow> settled b k" for k
    using assms(1,3) a1 by (auto simp: loses_none_def reported_def settled_def)
  show ?thesis unfolding reported_def
  proof (intro conjI allI impI)
    fix k assume k: "1 \<le> k \<and> k \<le> unat (sf_EventSequence (ag_data b))"
    show "settled b (event_name n (of_nat k))"
    proof (cases "k \<le> unat ?s")
      case False
      have "unat (?s + 1) \<le> unat ?s + 1" by (metis add.commute unat_1 unat_plus_simple nat_le_linear not_less_eq_eq plus_1_eq_Suc word_le_nat_alt unatSuc le_SucI)
      then have "k = unat (?s + 1)" using k False b(1) by auto
      then have "of_nat k = ?s + 1" by simp
      then show ?thesis using assms(4) a1(4) by simp
    qed (use k assms(1) b(3) in \<open>auto simp: reported_def\<close>)
  qed (use b assms(5) in auto)
qed

lemma send_named_reported:
  assumes "speaks env" "disk_ok env" "reported n a" "NextEventID env a = (i, a1)" "agent_send env e a1 = (r, b)" "nv_ID e = i"
  shows "reported n b"
proof -
  have "sound (ag_peer a1)" using assms(3,4) by (auto simp: NextEventID_def Let_def reported_def)
  from agent_send_settles[OF assms(1) this assms(5)] have "loses_none a1 b" "settled b i" by (simp_all add: assms(6))
  moreover have "sf_NodeID (ag_data b) = n"
    using NextEventID_step[OF assms(4,2)] agent_send_step[OF assms(5,2)] assms(3) by (simp add: same_memory_def reported_def)
  ultimately show ?thesis by (rule named_event_reported[OF assms(3,4)])
qed

lemma sendHeartbeat_reported:
  assumes "speaks env" "disk_ok env" "reported n a" "sendHeartbeat env a = (r, b)"
  shows "reported n b"
  using assms(3,4) send_named_reported[OF assms(1-3)] by (auto simp: sendHeartbeat_def split: sum.splits prod.splits)

lemma RecordWorkload_reported: "disk_ok env \<Longrightarrow> reported n a \<Longrightarrow> reported n (RecordWorkload env w a)"
  by (erule reported_keeps) (simp_all add: RecordWorkload_def data_keeps)

lemma report_each_reported:
  "speaks env \<Longrightarrow> disk_ok env \<Longrightarrow> reported n a \<Longrightarrow> report_each env ws a = (r, b) \<Longrightarrow> reported n b"
proof (induction ws arbitrary: a)
  case (Cons w ws)
  show ?case
  proof (cases "WorkloadChanged (ag_data a) w")
    case True
    obtain i a1 where n: "NextEventID env a = (i, a1)" by fastforce
    obtain r2 a2 where s: "agent_send env \<lparr>nv_ID = i, nv_NodeID = id_NodeID (ae_identity env), nv_Kind = EventWorkload,
               nv_ObservedAt = wo_ObservedAt w, nv_Facts = None, nv_Workload = Some w\<rparr> a1 = (r2, a2)" by fastforce
    have a2: "reported n a2" by (rule send_named_reported[OF Cons.prems(1-3) n s]) simp
    show ?thesis
    proof (cases r2)
      case None
      with Cons.prems True n s have "report_each env ws (RecordWorkload env w a2) = (r, b)" by simp
      from Cons.IH[OF Cons.prems(1,2) RecordWorkload_reported[OF Cons.prems(2) a2] this] show ?thesis .
    qed (use Cons.prems True n s a2 in simp)
  qed (use Cons in simp)
qed simp

lemma reportObservations_reported:
  "speaks env \<Longrightarrow> disk_ok env \<Longrightarrow> reported n a \<Longrightarrow> reportObservations env a = (r, b) \<Longrightarrow> reported n b"
  by (auto simp: reportObservations_def split: sum.splits dest: report_each_reported)

lemma credential_reported: "speaks env \<Longrightarrow> disk_ok env \<Longrightarrow> reported n a \<Longrightarrow> credential env a = (r, b) \<Longrightarrow> reported n b"
  by (meson reported_keeps credential_keeps credential_step same_memory_def)

lemma flushSpool_reported: "speaks env \<Longrightarrow> disk_ok env \<Longrightarrow> reported n a \<Longrightarrow> flushSpool env a = (r, b) \<Longrightarrow> reported n b"
  using reported_keeps[of n a b] flushSpool_keeps[of env a r b] flushSpool_step[of env a r b]
  by (simp add: same_memory_def reported_def)

lemma agent_report_reported: "speaks env \<Longrightarrow> disk_ok env \<Longrightarrow> reported n a \<Longrightarrow> reported n (agent_report env result a)"
proof -
  assume env: "speaks env" "disk_ok env" "reported n a"
  obtain cr a1 where c: "credential env a = (cr, a1)" by fastforce
  note r1 = credential_reported[OF env c]
  show ?thesis
  proof (cases cr)
    case (Inr token)
    let ?p = "snd (ae_SendResult env (id_NodeID (ae_identity env)) token result (ag_peer a1))"
    have "loses_none a1 (a1\<lparr>ag_peer := ?p\<rparr>)"
      by (rule peer_keeps) (use result_keeps[OF env(1)] in blast)
    from reported_keeps[OF r1 this] show ?thesis by (simp add: agent_report_def c Inr)
  qed (simp add: agent_report_def c r1)
qed

lemma agent_apply_reported: "speaks env \<Longrightarrow> disk_ok env \<Longrightarrow> reported n a \<Longrightarrow> reported n (agent_apply env c a)"
proof -
  assume env: "speaks env" "disk_ok env" "reported n a"
  let ?a = "a\<lparr>ag_performed := ag_performed a @ [c]\<rparr>"
  have p: "reported n ?a" by (rule reported_keeps[OF env(3)]) (simp_all add: data_keeps)
  have "reported n (snd (MarkApplied env (nc_OperationID c) ?a))"
    by (rule reported_keeps[OF p]) (simp_all add: data_keeps MarkApplied_def)
  with p agent_report_reported[OF env(1,2)] env(3) show ?thesis by (simp add: agent_apply_def Let_def)
qed

lemma serve_turn_reported: "speaks (turn_env t) \<Longrightarrow> disk_ok (turn_env t) \<Longrightarrow> reported n a \<Longrightarrow> reported n (serve_turn t a)"
  by (cases t) (simp_all add: serve_turn_def turn_env_def agent_apply_reported
      reportObservations_reported[OF _ _ sendHeartbeat_reported[OF _ _ _ prod.collapse[symmetric]] prod.collapse[symmetric]])

lemma serve_reported:
  assumes "list_all speaks (env # map turn_env turns)" "list_all disk_ok (env # map turn_env turns)" "reported n a"
  shows "reported n (snd (serve env turns a))"
proof -
  have env: "speaks env" "disk_ok env" using assms by simp_all
  obtain r b where o1: "serve_open env a = (r, b)" by fastforce
  have b: "reported n b" using o1 assms(3)
    by (auto simp: serve_open_def split: prod.splits sum.splits option.splits
        dest!: credential_reported[OF env, rotated] reportObservations_reported[OF env, rotated]
          flushSpool_reported[OF env, rotated] sendHeartbeat_reported[OF env, rotated])
  have "reported n (fold serve_turn turns b)" using b assms(1,2)
  proof (induction turns arbitrary: b)
    case (Cons t ts)
    then show ?case using serve_turn_reported[of t n b] by simp
  qed simp
  with o1 b show ?thesis by (simp add: serve_def split: option.splits)
qed

definition life_ok :: "'s agent_life \<Rightarrow> bool" where
  "life_ok l \<longleftrightarrow> list_all speaks (life_envs l) \<and> list_all disk_ok (life_envs l)
     \<and> (case l of Elsewhere f \<Rightarrow> (\<forall>s. sound s \<longrightarrow> sound (f s) \<and> (\<forall>k. holds s k \<longrightarrow> holds (f s) k)) | _ \<Rightarrow> True)"

lemma life_reported:
  assumes "life_ok l" "accounted k a" "reported n a"
  shows "reported n (agent_life l a)"
proof (cases l)
  case (Elsewhere f)
  then show ?thesis using assms by (auto simp: agent_life_def life_ok_def reported_def settled_def)
next
  case (Pass env turns)
  then show ?thesis using assms serve_reported[of env turns n a] by (simp add: agent_life_def life_ok_def life_envs_def)
next
  case (Killed env c)
  have "reported n (a\<lparr>ag_performed := ag_performed a @ [c]\<rparr>)" by (rule reported_keeps[OF assms(3)]) (simp_all add: data_keeps)
  moreover have "on_disk a" "on_disk (a\<lparr>ag_performed := ag_performed a @ [c]\<rparr>)" using assms(2) by (simp_all add: accounted_def on_disk_def)
  ultimately show ?thesis
    using assms(3) restart_on_disk[of a env] restart_on_disk[of "a\<lparr>ag_performed := ag_performed a @ [c]\<rparr>" env]
    by (simp add: agent_life_def Killed killed_def)
qed (use assms restart_on_disk[of a] in \<open>simp add: agent_life_def accounted_def\<close>)

lemma lives_reported: "list_all life_ok ls \<Longrightarrow> accounted k a \<Longrightarrow> reported n a \<Longrightarrow> reported n (agent_lives ls a)"
proof (induction ls arbitrary: a k)
  case (Cons l ls)
  then have l: "life_ok l" "list_all disk_ok (life_envs l)" by (simp_all add: life_ok_def)
  from Cons.IH[OF _ agent_life_accounted[OF Cons.prems(2) l(2) refl] life_reported[OF l(1) Cons.prems(2,3)]] Cons.prems(1)
  show ?case by (simp add: agent_lives_def)
qed (simp add: agent_lives_def)

lemma fresh_accounted: "accounted (\<lambda>_. 0) (started n p)"
  by (simp add: accounted_def started_def on_disk_def effects_def)

theorem named_events_are_held_or_spooled:
  assumes "list_all life_ok ls" "sound p" "1 \<le> k" "k \<le> unat (sf_EventSequence (ag_data (agent_lives ls (started n p))))"
  shows "holds (ag_peer (agent_lives ls (started n p))) (event_name n (of_nat k))
     \<or> event_name n (of_nat k) \<in> nv_ID ` set (sf_Spool (ag_data (agent_lives ls (started n p))))"
proof -
  have "reported n (started n p)" using assms(2) by (simp add: reported_def started_def new_state_def)
  from lives_reported[OF assms(1) fresh_accounted this] assms(3,4) show ?thesis by (simp add: reported_def settled_def)
qed

end

subsection \<open>The node registry at the other end\<close>

record link =
  lk_request :: bool
  lk_answer :: bool

definition post :: "link \<Rightarrow> ('s \<Rightarrow> (node_error + 'b) \<times> 's) \<Rightarrow> 's \<Rightarrow> (string + 'b) \<times> 's" where
  "post l call s =
     (if \<not> lk_request l then (Inl ''post: connection refused'', s)
      else case call s of (answer, s1) \<Rightarrow>
        if \<not> lk_answer l then (Inl ''post: no answer'', s1)
        else case answer of Inl _ \<Rightarrow> (Inl ''post: refused'', s1) | Inr x \<Rightarrow> (Inr x, s1))"

definition transport_Enroll :: "registry_env \<Rightarrow> link \<Rightarrow> enrollment_request \<Rightarrow> registry \<Rightarrow> (string + enrollment) \<times> registry" where
  "transport_Enroll renv l req rg = (case post l (registry_Enroll renv req) rg of
     (Inl err, rg1) \<Rightarrow> (Inl err, rg1)
   | (Inr e, rg1) \<Rightarrow> (Inr (e\<lparr>en_Duplicate := False\<rparr>), rg1))"

definition transport_RenewSession :: "registry_env \<Rightarrow> link \<Rightarrow> string \<Rightarrow> string \<Rightarrow> registry \<Rightarrow> (string + session_renewal) \<times> registry" where
  "transport_RenewSession renv l nodeID token rg = post l (\<lambda>rg. (RenewSession renv nodeID token rg, rg)) rg"

definition answered :: "node_error option \<Rightarrow> node_error + unit" where
  "answered r = (case r of None \<Rightarrow> Inr () | Some err \<Rightarrow> Inl err)"

definition posted :: "(string + unit) \<times> 's \<Rightarrow> string option \<times> 's" where
  "posted p = (case p of (Inl err, s) \<Rightarrow> (Some err, s) | (Inr _, s) \<Rightarrow> (None, s))"

definition transport_SendEvents :: "registry_env \<Rightarrow> link \<Rightarrow> string \<Rightarrow> string \<Rightarrow> node_event list \<Rightarrow> registry \<Rightarrow> string option \<times> registry" where
  "transport_SendEvents renv l nodeID token events rg = posted (post l (\<lambda>rg.
     case RecordEvents renv nodeID token events rg of (r, rg1) \<Rightarrow> (answered r, rg1)) rg)"

definition transport_SendResult :: "registry_env \<Rightarrow> link \<Rightarrow> string \<Rightarrow> string \<Rightarrow> node_result \<Rightarrow> registry \<Rightarrow> string option \<times> registry" where
  "transport_SendResult renv l nodeID token result rg = posted (post l (\<lambda>rg.
     case RecordResult renv nodeID token result rg of (r, rg1) \<Rightarrow> (answered r, rg1)) rg)"

definition transport_env :: "registry_env \<Rightarrow> link \<Rightarrow> registry agent_env \<Rightarrow> registry agent_env" where
  "transport_env renv l env = env\<lparr>ae_Enroll := transport_Enroll renv l, ae_RenewSession := transport_RenewSession renv l,
     ae_SendEvents := transport_SendEvents renv l, ae_SendResult := transport_SendResult renv l\<rparr>"

lemma transport_env_fields [simp]:
  "ae_identity (transport_env renv l env) = ae_identity env" "ae_now (transport_env renv l env) = ae_now env"
  "ae_Facts (transport_env renv l env) = ae_Facts env" "disk_ok (transport_env renv l env) = disk_ok env"
  "ae_disk (transport_env renv l env) = ae_disk env"
  "ae_SendEvents (transport_env renv l env) = transport_SendEvents renv l"
  by (simp_all add: transport_env_def disk_ok_def)

lemma post_state:
  "snd (post l call s) = (if lk_request l then snd (call s) else s)"
  by (auto simp: post_def split: prod.splits sum.splits)

lemma transport_state:
  "snd (transport_Enroll renv l req rg) = (if lk_request l then registry_step (RegEnroll renv req) rg else rg)"
  "snd (transport_RenewSession renv l i token rg) = rg"
  "snd (transport_SendEvents renv l i token es rg) = (if lk_request l then registry_step (RegEvents renv i token es) rg else rg)"
  "snd (transport_SendResult renv l i token r rg) = (if lk_request l then registry_step (RegResult renv i token r) rg else rg)"
proof -
  have p: "snd (posted x) = snd x" for x :: "(string + unit) \<times> registry"
    by (auto simp: posted_def split: prod.splits sum.splits)
  show "snd (transport_Enroll renv l req rg) = (if lk_request l then registry_step (RegEnroll renv req) rg else rg)"
    using post_state[of l "registry_Enroll renv req" rg]
    by (auto simp: transport_Enroll_def registry_step_def split: prod.splits sum.splits)
  show "snd (transport_RenewSession renv l i token rg) = rg" by (simp add: transport_RenewSession_def post_state)
  show "snd (transport_SendEvents renv l i token es rg) = (if lk_request l then registry_step (RegEvents renv i token es) rg else rg)"
    by (simp add: transport_SendEvents_def p post_state registry_step_def split: prod.splits)
  show "snd (transport_SendResult renv l i token r rg) = (if lk_request l then registry_step (RegResult renv i token r) rg else rg)"
    by (simp add: transport_SendResult_def p post_state registry_step_def split: prod.splits)
qed

lemma record_events_recorded:
  "record_events now i es l t = (Inr x, t') \<Longrightarrow> tables_ok t \<Longrightarrow> \<forall>e \<in> set es. (i, nv_ID e) \<in> set (nt_Events t')"
proof (induction now i es l t rule: record_events.induct)
  case (2 now i e es l t)
  let ?e = "e\<lparr>nv_NodeID := i\<rparr>"
  have v: "event_Validate ?e = None" using 2(2) by (auto simp: Let_def split: option.splits)
  obtain fresh t1 where r: "nodes_RecordEvent (event_receive ?e now) t = (fresh, t1)" by fastforce
  have here: "(i, nv_ID e) \<in> set (nt_Events t1)" using r
    by (auto simp: nodes_RecordEvent_def event_receive_def Let_def split: if_splits option.splits)
  have ok: "tables_ok t1" using r 2(3) by (auto simp: nodes_RecordEvent_def Let_def split: if_splits option.splits)
  from 2(2) v r have more: "record_events now i es (if fresh \<and> nv_Kind ?e = EventHeartbeat then nv_Facts ?e else l) t1 = (Inr x, t')"
    by (simp add: Let_def)
  have "set (nt_Events t1) \<subseteq> set (nt_Events t')" using record_events_keeps[OF more ok] by (simp add: tables_move_def)
  with here 2(1)[OF refl v r[symmetric] more ok] show ?case by auto
qed simp

lemma RecordEvents_recorded:
  assumes "RecordEvents renv n token es rg = (None, rg')" "tables_ok (rg_Tables rg)" "e \<in> set es"
  shows "(n, nv_ID e) \<in> set (nt_Events (rg_Tables rg'))"
proof -
  from assms(1) obtain r where a: "authenticate renv n token rg = Inr r" by (auto simp: RecordEvents_def split: sum.splits)
  then have n: "nr_ID r = n" by (auto simp: authenticate_def dest: node_row_ID split: sum.splits if_splits)
  obtain x t where rec: "record_events (re_now renv) n es None (rg_Tables rg) = (Inr x, t)"
    using assms(1) by (auto simp: RecordEvents_def a n split: prod.splits sum.splits)
  have "nt_Events (rg_Tables rg') = nt_Events t"
    using assms(1) by (auto simp: RecordEvents_def a n rec nodes_Heartbeat_def Let_def update_node_def
        split: option.splits if_splits sum.splits prod.splits)
  with record_events_recorded[OF rec assms(2)] assms(3) show ?thesis by simp
qed

lemma transport_SendEvents_None:
  "transport_SendEvents renv l n token es rg = (None, rg') \<Longrightarrow> RecordEvents renv n token es rg = (None, rg')"
  by (auto simp: transport_SendEvents_def posted_def post_def answered_def split: prod.splits sum.splits if_splits option.splits)

definition over_registry :: "string \<Rightarrow> registry agent_env \<Rightarrow> bool" where
  "over_registry n env \<longleftrightarrow> id_NodeID (ae_identity env) = n \<and> (\<exists>renv l env0. env = transport_env renv l env0)"

lemma registry_step_holds:
  "tables_ok (rg_Tables rg) \<Longrightarrow> tables_ok (rg_Tables (registry_step op rg))
     \<and> (x \<in> set (nt_Events (rg_Tables rg)) \<longrightarrow> x \<in> set (nt_Events (rg_Tables (registry_step op rg))))"
  using reg.step_keeps[of rg op] by (auto simp: tables_move_def)

lemma over_registryE:
  assumes "over_registry n env"
  obtains renv l env0 where "env = transport_env renv l env0" "id_NodeID (ae_identity env0) = n"
  using assms unfolding over_registry_def by (metis transport_env_fields(1))

lemma transport_env_calls [simp]:
  "ae_Enroll (transport_env renv l env) = transport_Enroll renv l"
  "ae_RenewSession (transport_env renv l env) = transport_RenewSession renv l"
  "ae_SendResult (transport_env renv l env) = transport_SendResult renv l"
  by (simp_all add: transport_env_def)

interpretation np: reporting_plane "over_registry n" "\<lambda>rg k. (n, k) \<in> set (nt_Events (rg_Tables rg))" "\<lambda>rg. tables_ok (rg_Tables rg)"
  for n
proof
  fix env s token es s' e
  assume env: "over_registry n env" and s: "tables_ok (rg_Tables s)" "e \<in> set es"
    and sent: "ae_SendEvents env (id_NodeID (ae_identity env)) token es s = (None, s')"
  from env show "(n, nv_ID e) \<in> set (nt_Events (rg_Tables s'))"
  proof (rule over_registryE)
    fix renv l env0 assume e0: "env = transport_env renv l env0" "id_NodeID (ae_identity env0) = n"
    from sent have "RecordEvents renv n token es s = (None, s')"
      by (intro transport_SendEvents_None[where l = l]) (simp add: e0)
    then show ?thesis using s by (rule RecordEvents_recorded)
  qed
qed (erule over_registryE; simp add: transport_state registry_step_holds)+

text \<open>A life among the operations of the registry.\<close>

definition registry_life :: "string \<Rightarrow> registry agent_life \<Rightarrow> bool" where
  "registry_life n l \<longleftrightarrow> list_all (over_registry n) (life_envs l) \<and> list_all disk_ok (life_envs l)
     \<and> (case l of Elsewhere f \<Rightarrow> \<exists>ops. f = registry_run ops | _ \<Rightarrow> True)"

lemma registry_run_holds:
  "tables_ok (rg_Tables rg) \<Longrightarrow> tables_ok (rg_Tables (registry_run ops rg))
     \<and> (x \<in> set (nt_Events (rg_Tables rg)) \<longrightarrow> x \<in> set (nt_Events (rg_Tables (registry_run ops rg))))"
  using reg.runs_move[of rg ops] by (auto simp: tables_move_def registry_run_def)

lemma registry_life_ok: "registry_life n l \<Longrightarrow> np.life_ok n l"
  by (auto simp: registry_life_def np.life_ok_def registry_run_holds split: agent_life.splits)

subsection \<open>Properties\<close>



lemma validated_heartbeat:
  "event_Validate \<lparr>nv_ID = i, nv_NodeID = n, nv_Kind = EventHeartbeat, nv_ObservedAt = t, nv_Facts = Some f, nv_Workload = None\<rparr> = None
     \<longleftrightarrow> i \<noteq> empty_string \<and> n \<noteq> empty_string \<and> \<not> time_is_zero t"
  by (simp add: event_Validate_def)

lemma known_event_changes_nothing:
  assumes "authenticate renv n token rg = Inr r" "event_Validate (e\<lparr>nv_NodeID := n\<rparr>) = None" "(n, nv_ID e) \<in> set (nt_Events (rg_Tables rg))"
  shows "RecordEvents renv n token [e] rg = (None, rg)"
proof -
  have n: "nr_ID r = n" using assms(1) by (auto simp: authenticate_def dest: node_row_ID split: sum.splits if_splits)
  have "nodes_RecordEvent (event_receive (e\<lparr>nv_NodeID := n\<rparr>) (re_now renv)) (rg_Tables rg) = (False, rg_Tables rg)"
    using assms(3) by (simp add: nodes_RecordEvent_def event_receive_def)
  then show ?thesis using assms(1,2) by (simp add: RecordEvents_def n Let_def)
qed

text \<open>C15: an agent whose memory was lost names its facts from one again, and the registry takes them for
  facts it has: the heartbeat of an enrolled agent is answered as received, and renews no lease.\<close>

theorem heartbeat_under_a_used_name_is_not_heard:
  assumes "lk_request l" "lk_answer l" "disk_ok env" "ae_Facts env = Inr facts" "\<not> time_is_zero (ae_now env)"
    "sf_NodeID (ag_data a) = id_NodeID (ae_identity env)" "id_NodeID (ae_identity env) \<noteq> empty_string"
    "sf_SessionToken (ag_data a) = token" "token \<noteq> empty_string"
    "time_add (ae_now env) (renewWithin env) < sf_SessionExpires (ag_data a)"
    "authenticate renv (id_NodeID (ae_identity env)) token (ag_peer a) = Inr r"
    "(id_NodeID (ae_identity env), event_name (id_NodeID (ae_identity env)) (sf_EventSequence (ag_data a) + 1))
       \<in> set (nt_Events (rg_Tables (ag_peer a)))"
  shows "fst (sendHeartbeat (transport_env renv l env) a) = None
     \<and> ag_peer (snd (sendHeartbeat (transport_env renv l env) a)) = ag_peer a"
proof -
  let ?env = "transport_env renv l env" and ?n = "id_NodeID (ae_identity env)"
  obtain i a1 where n: "NextEventID ?env a = (i, a1)" by fastforce
  have a1: "i = event_name ?n (sf_EventSequence (ag_data a) + 1)" "ag_peer a1 = ag_peer a"
    "sf_SessionToken (ag_data a1) = token" "sf_SessionExpires (ag_data a1) = sf_SessionExpires (ag_data a)"
    using n assms(6,8) persist_ok[of ?env] assms(3) by (auto simp: NextEventID_def Let_def)
  have cr: "credential ?env a1 = (Inr token, a1)"
    using a1 assms(9,10) by (simp add: credential_def state_Session_def renewWithin_def transport_env_def)
  let ?e = "\<lparr>nv_ID = i, nv_NodeID = ?n, nv_Kind = EventHeartbeat, nv_ObservedAt = ae_now env,
      nv_Facts = Some (facts\<lparr>nfa_ObservedAt := ae_now env\<rparr>), nv_Workload = None\<rparr>"
  have "i \<noteq> empty_string" by (simp add: a1 event_name_def)
  then have "RecordEvents renv ?n token [?e] (ag_peer a1) = (None, ag_peer a1)"
    using known_event_changes_nothing[of renv ?n token "ag_peer a1" r ?e] assms a1 by (simp add: validated_heartbeat)
  then have "transport_SendEvents renv l ?n token [?e] (ag_peer a1) = (None, ag_peer a1)"
    using assms(1,2) by (simp add: transport_SendEvents_def post_def posted_def answered_def)
  with cr a1 show ?thesis by (simp add: sendHeartbeat_def assms(4) n agent_send_def)
qed

text \<open>A launch that failed is remembered as applied, since it may have left something behind. If the
  failure was not heard, the command is delivered again and acknowledged as applied.\<close>

lemma failed_launch_is_acknowledged_as_applied:
  assumes "disk_ok env" "\<not> refused_by_agent c a" "\<not> state_Applied (ag_data a) (nc_OperationID c)"
    "perform env c = Some failure" "MayLeaveEffectOnFailure (nc_Kind c)"
    "\<not> refused_by_agent c (agent_apply env c a)"
  shows "agent_apply env' c (agent_apply env c a) = agent_report env' (result_of env' c True True empty_string) (agent_apply env c a)"
proof -
  let ?b = "snd (MarkApplied env (nc_OperationID c) (a\<lparr>ag_performed := ag_performed a @ [c]\<rparr>))"
  have "agent_apply env c a = agent_report env (result_of env c False False failure) ?b"
    using assms(2-5) by (simp add: agent_apply_def Let_def)
  moreover have "state_Applied (ag_data ?b) (nc_OperationID c)"
    by (simp add: MarkApplied_ok[OF assms(1)] state_Applied_def Let_def)
  ultimately have "state_Applied (ag_data (agent_apply env c a)) (nc_OperationID c)"
    using agent_report_step[OF assms(1), of ?b] by (simp add: same_memory_def state_Applied_def)
  then show ?thesis using assms(6) by (simp add: agent_apply_def[of env' c "agent_apply env c a"])
qed

subsection \<open>Witnesses\<close>

definition sample_identity_of :: "string \<Rightarrow> agent_identity" where
  "sample_identity_of token = \<lparr>id_NodeID = ''n1'', id_RentalID = ''r1'', id_Generation = 1, id_EnrollmentToken = token,
     id_AgentVersion = empty_string\<rparr>"

definition sample_agent_env :: "string \<Rightarrow> int \<Rightarrow> 's agent_env" where
  "sample_agent_env token secs = \<lparr>ae_identity = sample_identity_of token, ae_now = of_unix secs, ae_heartbeat = nanos_per_second,
     ae_disk = (\<lambda>_. None), ae_read = None, ae_Facts = Inr no_facts, ae_Observe = Inr [], ae_runtime = (\<lambda>_ _. None),
     ae_Enroll = (\<lambda>_ s. (Inr \<lparr>en_NodeID = ''n1'', en_SessionToken = ''t'', en_SessionExpires = of_unix 100, en_FencingToken = 1,
        en_LeaseExpires = of_unix 100, en_Duplicate = False\<rparr>, s)),
     ae_RenewSession = (\<lambda>_ _ s. (Inl ''refused'', s)), ae_SendEvents = (\<lambda>_ _ _ s. (None, s)), ae_SendResult = (\<lambda>_ _ _ s. (None, s))\<rparr>"

definition sample_stop_command :: node_command where
  "sample_stop_command = \<lparr>nc_OperationID = ''op1'', nc_NodeID = ''n1'', nc_Kind = CommandStopWorkload, nc_FencingToken = 1,
     nc_IssuedAt = of_unix 1, nc_Payload = StopWorkload \<lparr>sw_RunID = ''run1'', sw_GraceSeconds = 3\<rparr>\<rparr>"

definition sample_lives :: "unit agent_life list" where
  "sample_lives = (let env = sample_agent_env ''i'' 1; work = Work env sample_stop_command in
     [Pass env [work, Tick env, work], Restart env, Pass env [work]])"

lemma disk_ok_sample [simp]: "disk_ok (sample_agent_env token secs)"
  by (simp add: disk_ok_def sample_agent_env_def)


definition sample_link_env :: "bool \<Rightarrow> string \<Rightarrow> int \<Rightarrow> registry agent_env" where
  "sample_link_env up token secs = transport_env (sample_registry_env secs) \<lparr>lk_request = up, lk_answer = up\<rparr> (sample_agent_env token secs)"

definition sample_partition :: "registry agent_life list" where
  "sample_partition = [Pass (sample_link_env True sample_token 1) [Tick (sample_link_env False sample_token 2)]]"

lemma over_registry_sample: "over_registry ''n1'' (sample_link_env up token secs)"
  unfolding over_registry_def sample_link_env_def by (auto simp: sample_agent_env_def sample_identity_of_def)

lemma sample_invited_ok: "tables_ok (rg_Tables sample_invited)"
  using registry_run_holds[of "NewRegistry no_nodes"] by (simp add: sample_invited_def NewRegistry_def no_nodes_ok)


definition sample_heard :: "registry agent" where
  "sample_heard = agent_lives [Pass (sample_link_env True sample_token 1) []] (started ''n1'' sample_invited)"

definition sample_second_token :: string where
  "sample_second_token = token_of (registry_Reinvite (sample_registry_env 2) ''n1'' zero_time (ag_peer sample_heard))"

definition sample_forgotten :: "registry agent" where
  "sample_forgotten = snd (credential (sample_link_env True sample_second_token 2)
     (started ''n1'' (registry_run [RegReinvite (sample_registry_env 2) ''n1'' zero_time] (ag_peer sample_heard))))"

lemma sample_forgotten_session:
  "sf_SessionToken (ag_data sample_forgotten) \<noteq> empty_string
   \<and> of_unix 2 + 2 * nanos_per_second < sf_SessionExpires (ag_data sample_forgotten)
   \<and> sf_NodeID (ag_data sample_forgotten) = ''n1''
   \<and> (''n1'', event_name ''n1'' (sf_EventSequence (ag_data sample_forgotten) + 1)) \<in> set (nt_Events (rg_Tables (ag_peer sample_forgotten)))
   \<and> (case authenticate (sample_registry_env 2) ''n1'' (sf_SessionToken (ag_data sample_forgotten)) (ag_peer sample_forgotten) of Inr _ \<Rightarrow> True | Inl _ \<Rightarrow> False)"
  by code_simp

theorem heartbeat_under_a_used_name_is_not_heard_witness:
  "fst (sendHeartbeat (sample_link_env True sample_second_token 2) sample_forgotten) = None
   \<and> ag_peer (snd (sendHeartbeat (sample_link_env True sample_second_token 2) sample_forgotten)) = ag_peer sample_forgotten"
proof -
  note s = sample_forgotten_session
  obtain r where r: "authenticate (sample_registry_env 2) ''n1'' (sf_SessionToken (ag_data sample_forgotten)) (ag_peer sample_forgotten) = Inr r"
    using s by (auto split: sum.splits)
  have env: "id_NodeID (ae_identity (sample_agent_env sample_second_token 2 :: registry agent_env)) = ''n1''"
    "ae_Facts (sample_agent_env sample_second_token 2 :: registry agent_env) = Inr no_facts"
    "ae_now (sample_agent_env sample_second_token 2 :: registry agent_env) = of_unix 2"
    "renewWithin (sample_agent_env sample_second_token 2 :: registry agent_env) = 2 * nanos_per_second"
    by (simp_all add: sample_agent_env_def sample_identity_of_def renewWithin_def nanos_per_second_def i64_mul_def wrap64_def)
  show ?thesis unfolding sample_link_env_def
    by (rule heartbeat_under_a_used_name_is_not_heard[where token = "sf_SessionToken (ag_data sample_forgotten)" and r = r and facts = no_facts])
      (use s r in \<open>simp_all add: env of_unix_def unix_epoch_def nanos_per_second_def time_is_zero_def time_add_def\<close>)
qed

end
