(* ===== verification/Prewarm.thy ===== *)
theory Prewarm
  imports NodeStore
begin

text \<open>
  Preparation ahead of admission (\<^verbatim>\<open>internal/orchestrator/prewarm.go\<close>, \<^verbatim>\<open>internal/adapter/prepare.go\<close>):
  what the machines that queued Runs were given should already hold, stated to the fleet as one desired set
  under a bound on its size and a bound on how often it may begin something.

  The controller is its in-process memory and the durable clock. \<open>ps_asked\<close> is the history of the sets the
  fleet answered: the moment, the set, and whether the set named content not asked for before. The fleet,
  the minting of credentials and everything the orchestrator asks are the environment.
\<close>

subsection \<open>What may be prepared\<close>

datatype prepare_kind = PrepareKindImage | PrepareKindArtifact

record prepare_item =
  pt_Kind :: prepare_kind
  pt_OfferSnapshotID :: string
  pt_ConnectionID :: string
  pt_AdapterType :: string
  pt_NativeRef :: string
  pt_RunID :: string
  pt_Image :: string
  pt_Platform :: platform
  pt_RegistryCredential :: registry_pull
  pt_ArtifactID :: string
  pt_ContentDigest :: string
  pt_Source :: string
  pt_SourceCredential :: artifact_read
  pt_SizeBytes :: int64

definition ReferenceDigest :: "string \<Rightarrow> string" where
  "ReferenceDigest reference =
     (if CHR ''@'' \<notin> set reference then empty_string else tl (dropWhile (\<lambda>c. c \<noteq> CHR ''@'') reference))"

definition item_Content :: "prepare_item \<Rightarrow> string" where
  "item_Content i = (if pt_Kind i = PrepareKindImage then ReferenceDigest (pt_Image i) else pt_ArtifactID i)"

definition prepare_kind_text :: "prepare_kind \<Rightarrow> string" where
  "prepare_kind_text k = (case k of PrepareKindImage \<Rightarrow> ''image'' | PrepareKindArtifact \<Rightarrow> ''artifact'')"

definition item_Operation :: "prepare_item \<Rightarrow> string" where
  "item_Operation i = ''prepare:'' @ prepare_kind_text (pt_Kind i) @ '':'' @ pt_OfferSnapshotID i @ '':'' @ item_Content i"

definition item_Identity :: "prepare_item \<Rightarrow> string" where
  "item_Identity i = pt_OfferSnapshotID i @ ''/'' @ item_Content i"

record prepare_request =
  pq_OperationKey :: string
  pq_Wanted :: "prepare_item list"

record prepare_receipt =
  pc_OperationKey :: string
  pc_AcceptedAt :: time
  pc_Duplicate :: bool
  pc_Started :: "string list"
  pc_Abandoned :: "string list"
  pc_Unsupported :: "string list"
  pc_Refused :: "string list"

record prewarm_policy =
  py_MaxConcurrent :: int
  py_MinInterval :: duration

record content_credentials =
  cc_RegistryPull :: "string \<Rightarrow> string \<Rightarrow> string + registry_pull"
  cc_ArtifactRead :: "string \<Rightarrow> string \<Rightarrow> string \<Rightarrow> string + artifact_read"

record prewarm_env =
  pe_orch :: orch_env
  pe_prewarmer :: "(prepare_request \<Rightarrow> string + prepare_receipt) option"
  pe_policy :: prewarm_policy
  pe_clocked :: bool
  pe_credentials :: "content_credentials option"

record prewarm_state =
  ps_sent :: "string list"
  ps_key :: string
  ps_clock :: preparation_clock
  ps_asked :: "(time \<times> prepare_item list \<times> bool) list"

definition prewarmItemKey :: "prepare_item \<Rightarrow> string" where
  "prewarmItemKey i = prepare_kind_text (pt_Kind i) @ '':'' @ item_Identity i"

definition prewarmOperationKey :: "prepare_item list \<Rightarrow> string" where
  "prewarmOperationKey wanted = ''prewarm:'' @ string_join '','' (sort (map prewarmItemKey wanted))"

subsection \<open>The Runs that wait and the hosts that are busy\<close>

record queued_placement =
  qm_runID :: string
  qm_workload :: workload_revision
  qm_offer :: offer_snapshot
  qm_startsAt :: time

definition selectedDecisionCandidate :: "booking_decision \<Rightarrow> candidate_decision option" where
  "selectedDecisionCandidate decision =
     find (\<lambda>c. cd_OfferSnapshotID c = bd_SelectedOfferSnapshotID decision) (bd_Candidates decision)"

definition queuedPlacementOf :: "string \<Rightarrow> run_state \<Rightarrow> queued_placement option" where
  "queuedPlacementOf runID st =
     (if \<not> bookingQueued st \<or> cancelRequested st \<or> closed st then None
      else case (requested st, bookingDecision st) of
        (Some req, Some decision) \<Rightarrow> (case selectedDecisionCandidate decision of
            None \<Rightarrow> None
          | Some selected \<Rightarrow> Some \<lparr>qm_runID = runID, qm_workload = rq_Workload req,
              qm_offer = zero_offer\<lparr>o_ID := cd_OfferSnapshotID selected, o_ConnectionID := cd_ConnectionID selected,
                o_AdapterType := cd_AdapterType selected, o_NativeRef := cd_NativeRef selected\<rparr>,
              qm_startsAt = (case bd_Booking decision of
                 None \<Rightarrow> zero_time
               | Some b \<Rightarrow> (case b_ProjectedStartAt b of None \<Rightarrow> zero_time | Some t \<Rightarrow> t))\<rparr>)
      | _ \<Rightarrow> None)"

definition admittedPreparation :: "run_state \<Rightarrow> (string \<times> time) option" where
  "admittedPreparation st =
     (if \<not> launchAccepted st then None
      else case (launchIntent st, bookingDecision st) of
        (Some intent, Some decision) \<Rightarrow> (case selectedDecisionCandidate decision of
            None \<Rightarrow> None
          | Some selected \<Rightarrow> Some (lq_SelectedOfferSnapshotID intent,
              time_add (launchAcceptedAt st) (seconds_duration (e_Expected (es_StartSeconds (cd_Estimates selected))))))
      | _ \<Rightarrow> None)"

fun queued_scan :: "orch_env \<Rightarrow> durable \<Rightarrow> string list \<Rightarrow> orch_error + queued_placement list \<times> string list" where
  "queued_scan env d [] = Inr ([], [])"
| "queued_scan env d (runID # runIDs) = (case readStream (fst d) (runStream runID) of
     Inl err \<Rightarrow> Inl err
   | Inr h \<Rightarrow> (case reduceRun (oe_subject env) (sh_Events h) of
       Inl err \<Rightarrow> Inl (OrchRun err)
     | Inr st \<Rightarrow> (case queued_scan env d runIDs of
         Inl err \<Rightarrow> Inl err
       | Inr (queued, preparing) \<Rightarrow> Inr
           (case queuedPlacementOf runID st of None \<Rightarrow> queued | Some q \<Rightarrow> q # queued,
            case admittedPreparation st of
              None \<Rightarrow> preparing
            | Some (host, until) \<Rightarrow> if oe_now env < until then host # preparing else preparing))))"

definition queuedPlacements :: "orch_env \<Rightarrow> durable \<Rightarrow> orch_error + queued_placement list \<times> string list" where
  "queuedPlacements env d = (case queued_scan env d (runs_ListOpenIDs (snd d)) of
     Inl err \<Rightarrow> Inl err
   | Inr (queued, preparing) \<Rightarrow> Inr (sort_key qm_startsAt (sort_key qm_runID queued), preparing))"

subsection \<open>The content of a Run\<close>

definition no_pull :: registry_pull where
  "no_pull = \<lparr>rp_Scope = \<lparr>sc_Operation = empty_string, sc_Content = empty_string, sc_ExpiresAt = zero_time\<rparr>,
     rp_Registry = empty_string, rp_Username = empty_string, rp_Secret = empty_string\<rparr>"

definition no_read :: artifact_read where
  "no_read = \<lparr>arr_Scope = \<lparr>sc_Operation = empty_string, sc_Content = empty_string, sc_ExpiresAt = zero_time\<rparr>,
     arr_Location = empty_string\<rparr>"

definition mintPull :: "prewarm_env \<Rightarrow> prepare_item \<Rightarrow> string + registry_pull" where
  "mintPull env i = (case pe_credentials env of
     None \<Rightarrow> Inr no_pull | Some c \<Rightarrow> cc_RegistryPull c (item_Operation i) (pt_Image i))"

definition mintRead :: "prewarm_env \<Rightarrow> prepare_item \<Rightarrow> string + artifact_read" where
  "mintRead env i = (case pe_credentials env of
     None \<Rightarrow> Inr no_read | Some c \<Rightarrow> cc_ArtifactRead c (item_Operation i) (pt_ArtifactID i) (pt_Source i))"

definition item_on :: "queued_placement \<Rightarrow> prepare_item" where
  "item_on q = \<lparr>pt_Kind = PrepareKindImage, pt_OfferSnapshotID = o_ID (qm_offer q), pt_ConnectionID = o_ConnectionID (qm_offer q),
     pt_AdapterType = o_AdapterType (qm_offer q), pt_NativeRef = o_NativeRef (qm_offer q), pt_RunID = qm_runID q,
     pt_Image = empty_string, pt_Platform = \<lparr>pl_OS = empty_string, pl_Architecture = empty_string\<rparr>,
     pt_RegistryCredential = no_pull, pt_ArtifactID = empty_string, pt_ContentDigest = empty_string, pt_Source = empty_string,
     pt_SourceCredential = no_read, pt_SizeBytes = 0\<rparr>"

fun artifact_items :: "prewarm_env \<Rightarrow> queued_placement \<Rightarrow> artifact_version list \<Rightarrow> string + prepare_item list" where
  "artifact_items env q [] = Inr []"
| "artifact_items env q (v # vs) =
     (if \<not> artifact_Durable v then artifact_items env q vs
      else let i = (item_on q)\<lparr>pt_Kind := PrepareKindArtifact, pt_ArtifactID := av_ID v, pt_ContentDigest := av_ContentDigest v,
                 pt_Source := av_Location v, pt_SizeBytes := av_SizeBytes v\<rparr> in
        case mintRead env i of
          Inl err \<Rightarrow> Inl err
        | Inr read \<Rightarrow> (case artifact_items env q vs of
            Inl err \<Rightarrow> Inl err | Inr items \<Rightarrow> Inr (i\<lparr>pt_SourceCredential := read\<rparr> # items)))"

definition prewarmItems :: "prewarm_env \<Rightarrow> queued_placement \<Rightarrow> string + prepare_item list" where
  "prewarmItems env q = (case ws_Containers (wr_Spec (qm_workload q)) of
     [] \<Rightarrow> Inr []
   | c # _ \<Rightarrow>
       (let i = (item_on q)\<lparr>pt_Image := cs_Image c, pt_Platform := cs_Platform c\<rparr> in
        case mintPull env i of
          Inl err \<Rightarrow> Inl err
        | Inr pull \<Rightarrow> (case consumedArtifacts (pe_orch env) (qm_workload q) of
            Inl err \<Rightarrow> Inl err
          | Inr versions \<Rightarrow> (case artifact_items env q versions of
              Inl err \<Rightarrow> Inl err
            | Inr items \<Rightarrow> Inr (i\<lparr>pt_RegistryCredential := pull\<rparr> # items)))))"

definition alreadyHeld :: "offer_snapshot \<Rightarrow> prepare_item \<Rightarrow> bool" where
  "alreadyHeld offer i =
     (if pt_Kind i = PrepareKindImage then ii_Known (o_Images offer) \<and> images_Holds (o_Images offer) (ReferenceDigest (pt_Image i))
      else if \<not> ai_Known (o_Artifacts offer) then False
      else case artifacts_Replica (o_Artifacts offer) (pt_ArtifactID i) of
        None \<Rightarrow> False
      | Some replica \<Rightarrow> replica_Usable (ap_State replica) \<and> ap_ContentDigest replica = pt_ContentDigest i)"

subsection \<open>The desire of the deployment\<close>

record prewarm_want =
  pn_runID :: string
  pn_startsAt :: time
  pn_rank :: nat
  pn_item :: prepare_item

definition offersByID :: "offer_snapshot list \<Rightarrow> string \<rightharpoonup> offer_snapshot" where
  "offersByID offers = map_of (rev (map (\<lambda>x. (o_ID x, x)) offers))"

definition no_requirements :: resource_requirements where
  "no_requirements = \<lparr>rr_CPUMinMillis = 0, rr_MemoryMinBytes = 0, rr_Accelerators = [],
     rr_Host = \<lparr>hr_Facts = [], hr_MinDriverVersion = empty_string, hr_MinDriverCapability = empty_string\<rparr>,
     rr_EphemeralDiskMinBytes = 0\<rparr>"

fun want_items :: "offer_snapshot \<Rightarrow> queued_placement \<Rightarrow> nat \<Rightarrow> prepare_item list \<Rightarrow> string list \<Rightarrow> prewarm_want list \<times> string list" where
  "want_items offer q rank [] seen = ([], seen)"
| "want_items offer q rank (i # is) seen =
     (if prewarmItemKey i \<in> set seen \<or> alreadyHeld offer i then want_items offer q (rank + 1) is seen
      else case want_items offer q (rank + 1) is (prewarmItemKey i # seen) of
        (wanted, seen1) \<Rightarrow> (\<lparr>pn_runID = qm_runID q, pn_startsAt = qm_startsAt q, pn_rank = rank, pn_item = i\<rparr> # wanted, seen1))"

fun desire_from :: "prewarm_env \<Rightarrow> (string \<rightharpoonup> offer_snapshot) \<Rightarrow> string list \<Rightarrow> queued_placement list \<Rightarrow> string list \<Rightarrow> string + prewarm_want list" where
  "desire_from env catalog preparing [] seen = Inr []"
| "desire_from env catalog preparing (q # qs) seen = (case catalog (o_ID (qm_offer q)) of
     None \<Rightarrow> desire_from env catalog preparing qs seen
   | Some offer \<Rightarrow>
       if o_ID (qm_offer q) \<in> set preparing then desire_from env catalog preparing qs seen
       else (case prewarmItems env q of
         Inl err \<Rightarrow> Inl err
       | Inr items \<Rightarrow> (case want_items offer q 0 items seen of (here, seen1) \<Rightarrow>
           (case desire_from env catalog preparing qs seen1 of Inl err \<Rightarrow> Inl err | Inr later \<Rightarrow> Inr (here @ later)))))"

definition deploymentDesire :: "prewarm_env \<Rightarrow> durable \<Rightarrow> orch_error + prewarm_want list" where
  "deploymentDesire env d = (case queuedPlacements (pe_orch env) d of
     Inl err \<Rightarrow> Inl err
   | Inr (queued, preparing) \<Rightarrow>
       if queued = [] then Inr []
       else (case oe_collect (pe_orch env) no_requirements of
         Inl err \<Rightarrow> Inl (OrchRefused (''orchestrator: read capacity to prepare: '' @ err))
       | Inr collected \<Rightarrow> (case desire_from env (offersByID (oc_Offers collected)) preparing queued [] of
           Inl err \<Rightarrow> Inl (OrchRefused err) | Inr wanted \<Rightarrow> Inr wanted)))"

definition soonest_first :: "prewarm_want list \<Rightarrow> prewarm_want list" where
  "soonest_first wanted = sort_key pn_startsAt (sort_key pn_runID (sort_key pn_rank wanted))"

definition prewarmDesire :: "prewarm_env \<Rightarrow> durable \<Rightarrow> orch_error + prewarm_want list" where
  "prewarmDesire env d = (case deploymentDesire env d of
     Inl err \<Rightarrow> Inl err
   | Inr wanted \<Rightarrow> Inr (take (nat (py_MaxConcurrent (pe_policy env))) (soonest_first wanted)))"

subsection \<open>Stating the desire\<close>

definition withoutAdditions :: "prewarm_state \<Rightarrow> prepare_item list \<Rightarrow> prepare_item list" where
  "withoutAdditions s wanted = filter (\<lambda>i. prewarmItemKey i \<in> set (ps_sent s)) wanted"

definition begins :: "prewarm_state \<Rightarrow> prepare_item list \<Rightarrow> bool" where
  "begins s wanted \<longleftrightarrow> list_ex (\<lambda>i. prewarmItemKey i \<notin> set (ps_sent s)) wanted"

definition remember :: "prepare_item list \<Rightarrow> prepare_receipt \<Rightarrow> prewarm_state \<Rightarrow> bool \<times> prewarm_state" where
  "remember wanted receipt s =
     (let kept = filter (\<lambda>i. item_Identity i \<notin> set (pc_Refused receipt)) wanted
      in (begins s wanted, s\<lparr>ps_sent := map prewarmItemKey kept, ps_key := prewarmOperationKey kept\<rparr>))"

definition rateBoundHolds :: "prewarm_env \<Rightarrow> prewarm_state \<Rightarrow> bool" where
  "rateBoundHolds env s =
     (if py_MinInterval (pe_policy env) \<le> 0 then False
      else case LastBegan (ps_clock s) of
        None \<Rightarrow> False
      | Some began \<Rightarrow> time_sub (oe_now (pe_orch env)) began < py_MinInterval (pe_policy env))"

definition stateDesire ::
  "prewarm_env \<Rightarrow> (prepare_request \<Rightarrow> string + prepare_receipt) \<Rightarrow> prepare_item list \<Rightarrow> prewarm_state \<Rightarrow>
   (orch_error + bool) \<times> prewarm_state" where
  "stateDesire env prepare wanted0 s =
     (let wanted = (if rateBoundHolds env s then withoutAdditions s wanted0 else wanted0);
          key = prewarmOperationKey wanted in
      if ps_key s = key then (Inr False, s)
      else case prepare \<lparr>pq_OperationKey = key, pq_Wanted = wanted\<rparr> of
        Inl err \<Rightarrow> (Inl (OrchRefused (''orchestrator: prepare capacity for queued work: '' @ err)), s)
      | Inr receipt \<Rightarrow> (case remember wanted receipt s of (began, s1) \<Rightarrow>
          (let s2 = s1\<lparr>ps_asked := ps_asked s1 @ [(oe_now (pe_orch env), wanted, began)]\<rparr> in
           (Inr True, if began then s2\<lparr>ps_clock := RecordBegan (oe_now (pe_orch env)) (ps_clock s2)\<rparr> else s2))))"

record prewarm_result =
  pr_Wanted :: int
  pr_Stated :: int

definition Prewarm :: "prewarm_env \<Rightarrow> durable \<Rightarrow> prewarm_state \<Rightarrow> (orch_error + prewarm_result) \<times> prewarm_state" where
  "Prewarm env d s = (case pe_prewarmer env of
     None \<Rightarrow> (Inr \<lparr>pr_Wanted = 0, pr_Stated = 0\<rparr>, s)
   | Some prepare \<Rightarrow>
       if py_MaxConcurrent (pe_policy env) \<le> 0 then (Inr \<lparr>pr_Wanted = 0, pr_Stated = 0\<rparr>, s)
       else if \<not> pe_clocked env then (Inl (OrchRefused ''preparation is configured with no durable clock to bound its rate''), s)
       else (case prewarmDesire env d of
         Inl err \<Rightarrow> (Inl err, s)
       | Inr wanted \<Rightarrow> (case stateDesire env prepare (map pn_item wanted) s of
           (Inl err, s1) \<Rightarrow> (Inl err, s1)
         | (Inr stated, s1) \<Rightarrow>
             (Inr \<lparr>pr_Wanted = int (length wanted), pr_Stated = (if stated then 1 else 0)\<rparr>, s1))))"

subsection \<open>Sequences of passes\<close>

text \<open>A restart of the control plane loses the memory and keeps the clock.\<close>

datatype prewarm_step = PrewarmPass prewarm_env durable | PrewarmRestart

definition fresh_prewarm :: "preparation_clock \<Rightarrow> prewarm_state" where
  "fresh_prewarm clock = \<lparr>ps_sent = [], ps_key = empty_string, ps_clock = clock, ps_asked = []\<rparr>"

definition prewarm_step :: "prewarm_step \<Rightarrow> prewarm_state \<Rightarrow> prewarm_state" where
  "prewarm_step st1 s = (case st1 of
     PrewarmPass env d \<Rightarrow> snd (Prewarm env d s)
   | PrewarmRestart \<Rightarrow> s\<lparr>ps_sent := [], ps_key := empty_string\<rparr>)"

definition prewarm_run :: "prewarm_step list \<Rightarrow> prewarm_state \<Rightarrow> prewarm_state" where
  "prewarm_run steps s = fold prewarm_step steps s"

subsection \<open>What a pass may do\<close>

text \<open>A pass leaves the controller as it was, or the fleet answered a set drawn from the desire.\<close>

inductive states :: "prewarm_env \<Rightarrow> prepare_item list \<Rightarrow> prewarm_state \<Rightarrow> prewarm_state \<Rightarrow> bool" for env desire s where
  "wanted = (if rateBoundHolds env s then withoutAdditions s desire else desire) \<Longrightarrow>
   kept = filter (\<lambda>i. item_Identity i \<notin> set (pc_Refused (receipt :: prepare_receipt))) wanted \<Longrightarrow>
   ps_key s \<noteq> prewarmOperationKey wanted \<Longrightarrow>
   now = oe_now (pe_orch env) \<Longrightarrow>
   s' = s\<lparr>ps_sent := map prewarmItemKey kept, ps_key := prewarmOperationKey kept,
     ps_asked := ps_asked s @ [(now, wanted, begins s wanted)],
     ps_clock := (if begins s wanted then RecordBegan now (ps_clock s) else ps_clock s)\<rparr> \<Longrightarrow>
   states env desire s s'"

lemma stateDesire_states:
  assumes "stateDesire env prepare desire s = (r, s')"
  shows "s' = s \<or> states env desire s s'"
proof -
  let ?w = "if rateBoundHolds env s then withoutAdditions s desire else desire"
  show ?thesis
  proof (cases "ps_key s = prewarmOperationKey ?w")
    case False
    with assms show ?thesis
      by (auto simp: stateDesire_def remember_def Let_def split: sum.splits if_splits prod.splits
          intro!: states.intros[OF refl refl _ refl])
  qed (use assms in \<open>simp add: stateDesire_def Let_def\<close>)
qed

lemma Prewarm_states:
  assumes "Prewarm env d s = (r, s')"
  shows "s' = s \<or> (\<exists>wanted. prewarmDesire env d = Inr wanted \<and> 0 < py_MaxConcurrent (pe_policy env) \<and> states env (map pn_item wanted) s s')"
  using assms stateDesire_states[of env _ _ s]
  by (auto simp: Prewarm_def split: option.splits if_splits sum.splits prod.splits)

lemma begins_not_held: "begins s wanted \<Longrightarrow> wanted = (if h then withoutAdditions s desire else desire) \<Longrightarrow> \<not> h"
  by (auto simp: begins_def withoutAdditions_def list_ex_iff)

subsection \<open>Pace\<close>

definition beginnings :: "prewarm_state \<Rightarrow> time list" where
  "beginnings s = map fst (filter (\<lambda>(_, _, began). began) (ps_asked s))"

definition paced :: "preparation_clock \<Rightarrow> duration \<Rightarrow> prewarm_state \<Rightarrow> bool" where
  "paced clock m s \<longleftrightarrow> sorted_wrt (\<lambda>t u. t + m \<le> u) (case clock of None \<Rightarrow> beginnings s | Some c \<Rightarrow> c # beginnings s)
     \<and> (\<forall>t \<in> set (case clock of None \<Rightarrow> beginnings s | Some c \<Rightarrow> c # beginnings s). \<exists>c. ps_clock s = Some c \<and> t \<le> c)"

lemma interval_over:
  assumes "\<not> time_sub now began < m" "in_int64 m" "0 < m"
  shows "began + m \<le> now"
  using assms by (auto simp: time_sub_def in_int64_def split: if_splits)

lemma states_paced:
  assumes "states env desire s s'" "paced clock m s" "py_MinInterval (pe_policy env) = m" "0 < m" "in_int64 m"
  shows "paced clock m s'"
  using assms(1)
proof cases
  case (1 wanted kept receipt now)
  show ?thesis
  proof (cases "begins s wanted")
    case True
    note held = begins_not_held[OF True 1(1)]
    have before: "t + m \<le> now" if "ps_clock s = Some c" "t \<le> c" for t c
      using interval_over[OF _ assms(5,4), of now c] held that assms(3,4) 1(4) by (force simp: rateBoundHolds_def LastBegan_def)
    have "beginnings s' = beginnings s @ [now]" using True by (simp add: 1(5) beginnings_def)
    moreover have "\<exists>c'. ps_clock s' = Some c' \<and> now \<le> c' \<and> (\<forall>c t. ps_clock s = Some c \<longrightarrow> t \<le> c \<longrightarrow> t \<le> c')"
      using True by (auto simp: 1(5) RecordBegan_def split: option.splits)
    ultimately show ?thesis using assms(2) before unfolding paced_def
      by (fastforce simp: sorted_wrt_append split: option.splits)
  qed (use assms(2) in \<open>simp add: paced_def beginnings_def 1(5) cong: option.case_cong\<close>)
qed

lemma prewarm_run_paced:
  assumes "list_all (\<lambda>st1. case st1 of PrewarmPass env d \<Rightarrow> py_MinInterval (pe_policy env) = m | PrewarmRestart \<Rightarrow> True) steps"
    "paced clock m s" "0 < m" "in_int64 m"
  shows "paced clock m (prewarm_run steps s)"
  using assms(1,2)
proof (induction steps arbitrary: s)
  case (Cons st1 steps)
  have "paced clock m (prewarm_step st1 s)"
  proof (cases st1)
    case (PrewarmPass env d)
    obtain r s' where p: "Prewarm env d s = (r, s')" by fastforce
    from Prewarm_states[OF p] show ?thesis
      using states_paced[OF _ Cons.prems(2) _ assms(3,4)] Cons.prems p by (auto simp: PrewarmPass prewarm_step_def)
  next
    case PrewarmRestart
    with Cons.prems(2) show ?thesis by (simp add: prewarm_step_def paced_def beginnings_def cong: option.case_cong)
  qed
  with Cons show ?case by (simp add: prewarm_run_def)
qed (simp add: prewarm_run_def)

subsection \<open>The desire\<close>

lemma want_items_wanted:
  "want_items offer q n is seen = (ws, seen') \<Longrightarrow>
     (\<forall>w \<in> set ws. pn_item w \<in> set is \<and> \<not> alreadyHeld offer (pn_item w) \<and> pn_runID w = qm_runID q \<and> pn_startsAt w = qm_startsAt q)
   \<and> distinct (map (\<lambda>w. prewarmItemKey (pn_item w)) ws)
   \<and> set (map (\<lambda>w. prewarmItemKey (pn_item w)) ws) \<inter> set seen = {}
   \<and> set seen' = set seen \<union> set (map (\<lambda>w. prewarmItemKey (pn_item w)) ws)"
proof (induction offer q n "is" seen arbitrary: ws seen' rule: want_items.induct)
  case (2 offer q n i "is" seen)
  show ?case
  proof (cases "prewarmItemKey i \<in> set seen \<or> alreadyHeld offer i")
    case True
    with 2(1)[OF True] 2(3) show ?thesis by fastforce
  next
    case False
    obtain ws1 where w: "want_items offer q (n + 1) is (prewarmItemKey i # seen) = (ws1, seen')"
      and ws: "ws = \<lparr>pn_runID = qm_runID q, pn_startsAt = qm_startsAt q, pn_rank = n, pn_item = i\<rparr> # ws1"
      using 2(3) False by (auto split: prod.splits)
    from 2(2)[OF False w] False show ?thesis unfolding ws by auto
  qed
qed simp

lemma desire_from_wanted:
  "desire_from env catalog preparing qs seen = Inr ws \<Longrightarrow>
     (\<forall>w \<in> set ws. \<exists>q \<in> set qs. \<exists>offer items. catalog (o_ID (qm_offer q)) = Some offer \<and> o_ID (qm_offer q) \<notin> set preparing
        \<and> prewarmItems env q = Inr items \<and> pn_item w \<in> set items \<and> \<not> alreadyHeld offer (pn_item w)
        \<and> pn_runID w = qm_runID q \<and> pn_startsAt w = qm_startsAt q)
   \<and> distinct (map (\<lambda>w. prewarmItemKey (pn_item w)) ws)
   \<and> set (map (\<lambda>w. prewarmItemKey (pn_item w)) ws) \<inter> set seen = {}"
proof (induction env catalog preparing qs seen arbitrary: ws rule: desire_from.induct)
  case (2 env catalog preparing q qs seen)
  show ?case
  proof (cases "catalog (o_ID (qm_offer q))")
    case None
    with 2(1)[OF None] 2(4) show ?thesis by fastforce
  next
    case (Some offer)
    show ?thesis
    proof (cases "o_ID (qm_offer q) \<in> set preparing")
      case True
      with 2(2)[OF Some True] 2(4) Some show ?thesis by fastforce
    next
      case False
      from 2(4) Some False obtain items here seen1 later where i: "prewarmItems env q = Inr items"
        "want_items offer q 0 items seen = (here, seen1)" "desire_from env catalog preparing qs seen1 = Inr later" "ws = here @ later"
        by (auto split: sum.splits prod.splits)
      note h = want_items_wanted[OF i(2)] and l = 2(3)[OF Some False i(1) i(2)[symmetric] i(3)]
      have "\<forall>w \<in> set ws. \<exists>q \<in> set (q # qs). \<exists>offer items. catalog (o_ID (qm_offer q)) = Some offer \<and> o_ID (qm_offer q) \<notin> set preparing
        \<and> prewarmItems env q = Inr items \<and> pn_item w \<in> set items \<and> \<not> alreadyHeld offer (pn_item w)
        \<and> pn_runID w = qm_runID q \<and> pn_startsAt w = qm_startsAt q"
        using h l i(1) Some False unfolding i(4) by (simp add: ball_Un)
      moreover have "distinct (map (\<lambda>w. prewarmItemKey (pn_item w)) ws)" using h l unfolding i(4) by auto
      moreover have "set (map (\<lambda>w. prewarmItemKey (pn_item w)) ws) \<inter> set seen = {}" using h l unfolding i(4) by auto
      ultimately show ?thesis by blast
    qed
  qed
qed simp

lemma queued_scan_queued:
  "queued_scan env d rs = Inr (qs, ps) \<Longrightarrow>
     (\<forall>q \<in> set qs. \<exists>r \<in> set rs. \<exists>h st. readStream (fst d) (runStream r) = Inr h
        \<and> reduceRun (oe_subject env) (sh_Events h) = Inr st \<and> queuedPlacementOf r st = Some q)
   \<and> (\<forall>r \<in> set rs. \<forall>h st host until. readStream (fst d) (runStream r) = Inr h \<longrightarrow> reduceRun (oe_subject env) (sh_Events h) = Inr st
        \<longrightarrow> admittedPreparation st = Some (host, until) \<longrightarrow> oe_now env < until \<longrightarrow> host \<in> set ps)"
proof (induction env d rs arbitrary: qs ps rule: queued_scan.induct)
  case (2 env d r rs)
  from 2(2) obtain h st qs1 ps1 where s: "readStream (fst d) (runStream r) = Inr h" "reduceRun (oe_subject env) (sh_Events h) = Inr st"
    "queued_scan env d rs = Inr (qs1, ps1)" "qs = (case queuedPlacementOf r st of None \<Rightarrow> qs1 | Some q \<Rightarrow> q # qs1)"
    "ps = (case admittedPreparation st of None \<Rightarrow> ps1 | Some (host, until) \<Rightarrow> if oe_now env < until then host # ps1 else ps1)"
    by (auto split: sum.splits)
  from 2(1)[OF s(1,2,3)] s(1,2) show ?case unfolding s(4,5) by (auto split: option.splits)
qed simp

lemma soonest_first_facts:
  "set (soonest_first ws) = set ws" "distinct (map f (soonest_first ws)) = distinct (map f ws)"
  "sorted (map pn_startsAt (soonest_first ws))"
proof -
  have m: "mset (soonest_first ws) = mset ws" by (simp add: soonest_first_def)
  from mset_eq_setD[OF m] show "set (soonest_first ws) = set ws" .
  from m have "mset (map f (soonest_first ws)) = mset (map f ws)" by simp
  then show "distinct (map f (soonest_first ws)) = distinct (map f ws)" by (metis mset_eq_imp_distinct_iff)
qed (simp add: soonest_first_def)

text \<open>What it takes for content to be wanted on a machine.\<close>

definition wanted_for :: "prewarm_env \<Rightarrow> durable \<Rightarrow> prewarm_want \<Rightarrow> bool" where
  "wanted_for env d w \<longleftrightarrow> (\<exists>h st q collected offer items.
     pn_runID w \<in> set (runs_ListOpenIDs (snd d))
   \<and> readStream (fst d) (runStream (pn_runID w)) = Inr h \<and> reduceRun (oe_subject (pe_orch env)) (sh_Events h) = Inr st
   \<and> bookingQueued st \<and> \<not> cancelRequested st \<and> \<not> closed st
   \<and> queuedPlacementOf (pn_runID w) st = Some q \<and> prewarmItems env q = Inr items \<and> pn_item w \<in> set items
   \<and> oe_collect (pe_orch env) no_requirements = Inr collected \<and> offersByID (oc_Offers collected) (o_ID (qm_offer q)) = Some offer
   \<and> \<not> alreadyHeld offer (pn_item w)
   \<and> (\<forall>r \<in> set (runs_ListOpenIDs (snd d)). \<forall>h st host until. readStream (fst d) (runStream r) = Inr h \<longrightarrow>
        reduceRun (oe_subject (pe_orch env)) (sh_Events h) = Inr st \<longrightarrow> admittedPreparation st = Some (host, until) \<longrightarrow>
        oe_now (pe_orch env) < until \<longrightarrow> host \<noteq> o_ID (qm_offer q)))"

lemma queuedPlacementOf_Some:
  "queuedPlacementOf r st = Some q \<Longrightarrow> bookingQueued st \<and> \<not> cancelRequested st \<and> \<not> closed st \<and> qm_runID q = r"
  by (auto simp: queuedPlacementOf_def split: if_splits option.splits)

lemma deploymentDesire_wanted:
  assumes "deploymentDesire env d = Inr ws"
  shows "(\<forall>w \<in> set ws. wanted_for env d w) \<and> distinct (map (\<lambda>w. prewarmItemKey (pn_item w)) ws)"
proof (cases "ws = []")
  case False
  from assms obtain queued preparing where q: "queuedPlacements (pe_orch env) d = Inr (queued, preparing)"
    by (auto simp: deploymentDesire_def split: sum.splits)
  with assms False obtain collected where c: "oe_collect (pe_orch env) no_requirements = Inr collected"
    "desire_from env (offersByID (oc_Offers collected)) preparing queued [] = Inr ws"
    by (auto simp: deploymentDesire_def split: sum.splits if_splits)
  from q obtain qs where s: "queued_scan (pe_orch env) d (runs_ListOpenIDs (snd d)) = Inr (qs, preparing)" "set queued = set qs"
    by (auto simp: queuedPlacements_def split: sum.splits)
  note w = desire_from_wanted[OF c(2)] and sc = queued_scan_queued[OF s(1)]
  have "wanted_for env d x" if x: "x \<in> set ws" for x
  proof -
    from w x obtain q offer items where q: "q \<in> set qs" "offersByID (oc_Offers collected) (o_ID (qm_offer q)) = Some offer"
      "o_ID (qm_offer q) \<notin> set preparing" "prewarmItems env q = Inr items" "pn_item x \<in> set items"
      "\<not> alreadyHeld offer (pn_item x)" "pn_runID x = qm_runID q" by (metis s(2))
    from sc q(1) obtain r h st where r: "r \<in> set (runs_ListOpenIDs (snd d))" "readStream (fst d) (runStream r) = Inr h"
      "reduceRun (oe_subject (pe_orch env)) (sh_Events h) = Inr st" "queuedPlacementOf r st = Some q" by blast
    note st = queuedPlacementOf_Some[OF r(4)]
    then have id: "pn_runID x = r" using q(7) by simp
    show ?thesis unfolding wanted_for_def id
    proof (intro exI conjI)
      show "\<forall>r \<in> set (runs_ListOpenIDs (snd d)). \<forall>h st host until. readStream (fst d) (runStream r) = Inr h \<longrightarrow>
        reduceRun (oe_subject (pe_orch env)) (sh_Events h) = Inr st \<longrightarrow> admittedPreparation st = Some (host, until) \<longrightarrow>
        oe_now (pe_orch env) < until \<longrightarrow> host \<noteq> o_ID (qm_offer q)" using sc q(3) by blast
    qed (use r st q c(1) in auto)
  qed
  with w show ?thesis by blast
qed simp

subsection \<open>The memory\<close>

definition memory_ok :: "prewarm_state \<Rightarrow> bool" where
  "memory_ok s \<longleftrightarrow> (ps_key s = empty_string \<and> ps_sent s = []) \<or> ps_key s = ''prewarm:'' @ string_join '','' (sort (ps_sent s)) \<and> [] \<notin> set (ps_sent s)"

lemma string_join_empty: "string_join sep xs = [] \<Longrightarrow> [] \<notin> set xs \<Longrightarrow> xs = []"
  by (induction sep xs rule: string_join.induct) auto

lemma item_keys_nonempty: "[] \<notin> set (map prewarmItemKey is)"
  by (auto simp: prewarmItemKey_def)

lemma sort_empty: "sort xs = [] \<longleftrightarrow> xs = []"
  by (metis length_0_conv length_sort)

lemma states_memory: "states env desire s s' \<Longrightarrow> memory_ok s'"
  by (erule states.cases) (simp add: memory_ok_def prewarmOperationKey_def item_keys_nonempty del: set_map)

lemma prewarm_run_memory: "memory_ok s \<Longrightarrow> memory_ok (prewarm_run steps s)"
proof (induction steps arbitrary: s)
  case (Cons st1 steps)
  have "memory_ok (prewarm_step st1 s)"
  proof (cases st1)
    case (PrewarmPass env d)
    obtain r s' where p: "Prewarm env d s = (r, s')" by fastforce
    from Prewarm_states[OF p] show ?thesis using Cons.prems p by (auto simp: PrewarmPass prewarm_step_def states_memory)
  qed (simp add: prewarm_step_def memory_ok_def)
  with Cons show ?case by (simp add: prewarm_run_def)
qed (simp add: prewarm_run_def)

lemma empty_desire_key: "prewarmOperationKey [] = ''prewarm:''"
  by (simp add: prewarmOperationKey_def)

lemma memory_not_empty_desire:
  "memory_ok s \<Longrightarrow> ps_sent s \<noteq> [] \<or> ps_key s = empty_string \<Longrightarrow> ps_key s \<noteq> prewarmOperationKey []"
  unfolding empty_desire_key memory_ok_def
  by (auto dest!: string_join_empty simp: sort_empty)

subsection \<open>Properties\<close>

text \<open>C21: the set the fleet is asked for never exceeds the depth bound and names each piece of content on
  each machine once. Everything in it is needed by an open Run whose Booking is queued and not withdrawn, on
  the machine that Run was given, which is on offer, does not hold it, and is not still getting ready for
  work already admitted there. What the bound leaves out starts no sooner.\<close>

theorem desire_is_bounded_and_for_waiting_work:
  assumes "prewarmDesire env d = Inr wanted"
  shows "int (length wanted) \<le> max 0 (py_MaxConcurrent (pe_policy env))
     \<and> distinct (map (\<lambda>w. prewarmItemKey (pn_item w)) wanted)
     \<and> (\<forall>w \<in> set wanted. wanted_for env d w)
     \<and> (\<exists>all. deploymentDesire env d = Inr all
          \<and> (\<forall>w \<in> set wanted. \<forall>v \<in> set all - set wanted. pn_startsAt w \<le> pn_startsAt v))"
proof -
  let ?n = "nat (py_MaxConcurrent (pe_policy env))"
  from assms obtain all where a: "deploymentDesire env d = Inr all" "wanted = take ?n (soonest_first all)"
    by (auto simp: prewarmDesire_def split: sum.splits)
  note w = deploymentDesire_wanted[OF a(1)]
  have "pn_startsAt x \<le> pn_startsAt v" if x: "x \<in> set wanted" and v: "v \<in> set all - set wanted" for x v
  proof -
    have "v \<in> set (drop ?n (soonest_first all))"
      using v a(2) soonest_first_facts(1)[of all] by (metis DiffD1 DiffD2 Un_iff append_take_drop_id set_append)
    then show ?thesis using x a(2) soonest_first_facts(3)[of all]
      by (metis (no_types, lifting) append_take_drop_id imageI list.set_map map_append sorted_append)
  qed
  moreover have "distinct (map (\<lambda>w. prewarmItemKey (pn_item w)) wanted)"
    unfolding a(2) take_map[symmetric] by (rule distinct_take) (simp add: soonest_first_facts(2) w)
  moreover have "\<forall>w \<in> set wanted. wanted_for env d w" using w set_take_subset[of ?n "soonest_first all"] soonest_first_facts(1)[of all]
    unfolding a(2) by blast
  moreover have "int (length wanted) \<le> max 0 (py_MaxConcurrent (pe_policy env))" by (simp add: a(2))
  ultimately show ?thesis using a(1) by blast
qed


text \<open>C23: once nothing is wanted any more the fleet is told so by the next pass, whatever the rate bound
  says, both when something had been asked for and by a control plane that has just restarted; telling it
  is not a beginning.\<close>

theorem withdrawal_is_never_held_back:
  assumes "s = prewarm_run steps (fresh_prewarm clock)" "ps_sent s \<noteq> [] \<or> ps_key s = empty_string"
    "pe_prewarmer env = Some prepare" "0 < py_MaxConcurrent (pe_policy env)" "pe_clocked env" "prewarmDesire env d = Inr []"
    "prepare \<lparr>pq_OperationKey = ''prewarm:'', pq_Wanted = []\<rparr> = Inr receipt"
  shows "Prewarm env d s = (Inr \<lparr>pr_Wanted = 0, pr_Stated = 1\<rparr>,
     s\<lparr>ps_sent := [], ps_key := ''prewarm:'', ps_asked := ps_asked s @ [(oe_now (pe_orch env), [], False)]\<rparr>)"
proof -
  have "memory_ok (fresh_prewarm clock)" by (simp add: memory_ok_def fresh_prewarm_def)
  then have "ps_key s \<noteq> prewarmOperationKey []"
    using memory_not_empty_desire[OF prewarm_run_memory assms(2)[unfolded assms(1)]] by (simp add: assms(1))
  then show ?thesis using assms(3-7)
    by (simp add: Prewarm_def stateDesire_def withoutAdditions_def remember_def begins_def empty_desire_key Let_def)
qed

text \<open>A set that was taken on whole is not stated again while the desire stays what it is.\<close>

lemma settled_desire_is_not_restated:
  assumes "ps_sent s = map prewarmItemKey items" "ps_key s = prewarmOperationKey items"
    "pe_prewarmer env = Some prepare" "0 < py_MaxConcurrent (pe_policy env)" "pe_clocked env"
    "prewarmDesire env d = Inr wanted" "map pn_item wanted = items"
  shows "Prewarm env d s = (Inr \<lparr>pr_Wanted = int (length wanted), pr_Stated = 0\<rparr>, s)"
proof -
  have "withoutAdditions s items = items" unfolding withoutAdditions_def by (rule filter_True) (simp add: assms(1))
  then show ?thesis using assms(2-7) by (simp add: Prewarm_def stateDesire_def)
qed

text \<open>A request the fleet did not answer leaves no trace, so the next pass may make it at the same moment:
  the interval paces answered requests.\<close>

lemma unanswered_request_is_not_paced:
  assumes "pe_prewarmer env = Some (\<lambda>_. Inl err)"
  shows "snd (Prewarm env d s) = s"
  using assms by (auto simp: Prewarm_def stateDesire_def Let_def split: sum.splits if_splits prod.splits)

subsection \<open>Witnesses\<close>

definition zero_stages :: stage_estimates where
  "zero_stages = \<lparr>st_Acquisition = zero_estimate, st_Boot = zero_estimate, st_AgentReady = zero_estimate, st_ImageFetch = zero_estimate,
     st_Unpack = zero_estimate, st_ArtifactFetch = zero_estimate, st_ContainerStart = zero_estimate, st_ApplicationReady = zero_estimate\<rparr>"

definition sample_choice :: candidate_decision where
  "sample_choice = \<lparr>cd_OfferSnapshotID = ''cheap'', cd_ConnectionID = ''c'', cd_AdapterType = ''fake'', cd_NativeRef = ''cheap'',
     cd_Candidate = sample_candidate, cd_Disposition = CandidateDispositionQueue, cd_Feasible = True, cd_Rejections = [],
     cd_ImageLocality = LocalityCold, cd_ArtifactEvidence = [], cd_CacheEvidence = [],
     cd_Disk = \<lparr>dd_FreeBytes = 0, dd_FreeBytesKnown = False, dd_ReservedBytes = 0, dd_LandBytes = 0, dd_EstablishedLandBytes = 0\<rparr>,
     cd_Reliability = \<lparr>rl_StartFailures = \<lparr>sr_Rate = 0, sr_Confidence = 0\<rparr>, rl_Interruptions = \<lparr>sr_Rate = 0, sr_Confidence = 0\<rparr>\<rparr>,
     cd_RentalSchedule = None,
     cd_Estimates = \<lparr>es_QueueSeconds = zero_estimate, es_Stages = zero_stages, es_StartSeconds = zero_estimate,
       es_EstablishedStartSeconds = zero_estimate, es_CostUSD = zero_estimate, es_CostTerms = [],
       es_Committed = \<lparr>cv_Until = 0, cv_FromSeconds = 0, cv_Seconds = 0\<rparr>\<rparr>,
     cd_TransferRates = [], cd_Confidences = [], cd_ScoreUSD = 0\<rparr>"

definition sample_queued_decision :: booking_decision where
  "sample_queued_decision = \<lparr>bd_ID = ''d1'', bd_RunID = ''r1'', bd_WorkloadRevisionDigest = ''wd'', bd_EvaluatedAt = 900,
     bd_ModelVersion = ''m'', bd_Policy = ws_Placement (wr_Spec sample_workload), bd_Weights = no_weights,
     bd_CollectionReport = ([], [], []), bd_Candidates = [sample_choice], bd_SelectedOfferSnapshotID = ''cheap'',
     bd_Booking = Some \<lparr>b_ID = ''b1'', b_RunID = ''r1'', b_RentalID = ''rnt_1'', b_State = BookingStateQueued, b_AfterBookingID = ''b0'',
       b_ProjectedStartAt = Some 2000, b_LatestStartAt = Some 3000, b_ScheduleVersion = 2\<rparr>,
     bd_SelectionReasonCodes = [], bd_Supersedes = [], bd_SupersedesReason = []\<rparr>"

definition sample_waiting_log :: "run_fact event_log" where
  "sample_waiting_log = \<lparr>el_Events = [sample_fact 1 800 (FactRunRequested sample_requested), sample_fact 2 900 (FactBookingDecided sample_queued_decision)],
     el_Sequence = 2, el_Commands = Map.empty, el_Offsets = Map.empty\<rparr>"

definition sample_waiting_plane :: durable where
  "sample_waiting_plane = (sample_waiting_log, \<lparr>tb_Schedules = Map.empty,
     tb_Runs = (case reduceRun (\<lambda>_. None) (el_Events sample_waiting_log) of
       Inr st \<Rightarrow> (case runRecordFromState ''r1'' st of Some r \<Rightarrow> [(''r1'', r)] | None \<Rightarrow> []) | Inl _ \<Rightarrow> []),
     tb_ProjectionVersion = 1\<rparr>)"

definition sample_fleet :: orch_env where
  "sample_fleet =
     \<lparr>oe_now = 1000, oe_gpu = sample_gpu, oe_hashes = sample_hashes, oe_subject = (\<lambda>_. None), oe_formatFloat = (\<lambda>_. []),
      oe_eventsHash = (\<lambda>es. ''h''), oe_launchHash = (\<lambda>_. ''l''), oe_bookingHash = b_ID, oe_createHash = (\<lambda>_ _. ''c''),
      oe_reportHash = (\<lambda>_. ''r''), oe_shortHash = (\<lambda>_. ''s''),
      oe_collect = (\<lambda>_. Inr \<lparr>oc_Offers = [sample_offer ''cheap'' 2], oc_Queried = [''c''], oc_Excluded = []\<rparr>),
      oe_launch = (\<lambda>_. Inl \<lparr>ae_Provider = None, ae_Is = []\<rparr>), oe_observe = (\<lambda>_. Inl \<lparr>ae_Provider = None, ae_Is = []\<rparr>),
      oe_listOwned = Inr [], oe_release = (\<lambda>_. None), oe_terminate = (\<lambda>_. None), oe_manifest = None,
      oe_artifacts = None, oe_capacity = None, oe_inviter = None, oe_reporting = None\<rparr>"

definition taken_on :: "prepare_request \<Rightarrow> string + prepare_receipt" where
  "taken_on request = Inr \<lparr>pc_OperationKey = pq_OperationKey request, pc_AcceptedAt = 1000, pc_Duplicate = False,
     pc_Started = [], pc_Abandoned = [], pc_Unsupported = [], pc_Refused = []\<rparr>"

definition sample_prewarm :: prewarm_env where
  "sample_prewarm = \<lparr>pe_orch = sample_fleet, pe_prewarmer = Some taken_on,
     pe_policy = \<lparr>py_MaxConcurrent = 2, py_MinInterval = 50\<rparr>, pe_clocked = True, pe_credentials = None\<rparr>"

declare ScanStream_from.simps [code]

lemma sample_desire:
  "case prewarmDesire sample_prewarm sample_waiting_plane of Inr [w] \<Rightarrow> pn_runID w = ''r1'' | _ \<Rightarrow> False"
  by code_simp

theorem desire_is_bounded_and_for_waiting_work_witness:
  "\<exists>w. prewarmDesire sample_prewarm sample_waiting_plane = Inr [w] \<and> wanted_for sample_prewarm sample_waiting_plane w"
proof -
  obtain w where w: "prewarmDesire sample_prewarm sample_waiting_plane = Inr [w]"
    using sample_desire by (auto split: sum.splits list.splits)
  from desire_is_bounded_and_for_waiting_work[OF this] w show ?thesis by auto
qed

definition sample_passes :: "prewarm_step list" where
  "sample_passes = [PrewarmPass sample_prewarm sample_waiting_plane]"

lemma sample_passes_state:
  "ps_sent (prewarm_run sample_passes (fresh_prewarm None)) \<noteq> [] \<and> beginnings (prewarm_run sample_passes (fresh_prewarm None)) = [1000]"
  by code_simp


lemma nothing_queued: "prewarmDesire sample_prewarm new_storage = Inr []"
  by code_simp

theorem withdrawal_is_never_held_back_witness:
  "Prewarm sample_prewarm new_storage (prewarm_run sample_passes (fresh_prewarm None)) =
     (Inr \<lparr>pr_Wanted = 0, pr_Stated = 1\<rparr>,
      (prewarm_run sample_passes (fresh_prewarm None))\<lparr>ps_sent := [], ps_key := ''prewarm:'',
        ps_asked := ps_asked (prewarm_run sample_passes (fresh_prewarm None)) @ [(1000, [], False)]\<rparr>)"
proof -
  have env: "pe_prewarmer sample_prewarm = Some taken_on" "0 < py_MaxConcurrent (pe_policy sample_prewarm)" "pe_clocked sample_prewarm"
    by (simp_all add: sample_prewarm_def)
  note w = withdrawal_is_never_held_back[OF refl disjI1[OF conjunct1[OF sample_passes_state]] env nothing_queued taken_on_def]
  have "oe_now (pe_orch sample_prewarm) = 1000" by (simp add: sample_prewarm_def sample_fleet_def)
  with w show ?thesis by simp
qed

end
