(* ===== verification/Spec2Isabelle.thy ===== *)
theory Spec2Isabelle
  imports Janitor NodeAgent Prewarm
begin

text \<open>
  Mercator decides where a container workload (a Run) executes, books the machine, follows the Run to
  its end and keeps every decision explainable from an append-only event log. This development models
  its control plane as HOL functions translated from the Go sources and proves what makes each part
  correct.

  \<^bold>\<open>Parts and theories\<close>

  \<^item> \<open>Prelude\<close>, \<open>GoNum\<close>: results, replay and optimistic-object locales; Go's float64 (a real
    rounded to nearest even after every operation), int64 (wrapping), \<^verbatim>\<open>time.Time\<close> (nanoseconds, 0
    the zero time) and \<^verbatim>\<open>time.Duration\<close>.
  \<^item> \<open>Rental\<close> (\<^verbatim>\<open>internal/domain/rental.go\<close>): the lease on a machine and its generations.
  \<^item> \<open>RentalSchedule\<close> (\<^verbatim>\<open>internal/domain/rental_schedule.go\<close>): the Bookings of one Rental.
  \<^item> \<open>ServiceClass\<close>, \<open>Offers\<close>, \<open>Candidates\<close>, \<open>Prediction\<close>, \<open>Scheduler\<close>
    (\<^verbatim>\<open>internal/domain\<close>, \<^verbatim>\<open>internal/prediction\<close>, \<^verbatim>\<open>internal/scheduler\<close>): what a class of
    work is worth, what providers offer, what launches took before, and the evaluation that picks one
    offer and books it.
  \<^item> \<open>EventLog\<close>, \<open>Stores\<close> (\<^verbatim>\<open>internal/eventlog\<close>, \<^verbatim>\<open>internal/rental\<close>,
    \<^verbatim>\<open>internal/rentalschedule\<close>): the log with idempotent, optimistic appends, the paged scans over
    it, and the versioned stores.
  \<^item> \<open>RunEvents\<close>, \<open>AdmissionQueue\<close>, \<open>RunProjection\<close> (\<^verbatim>\<open>internal/orchestrator\<close>): the facts
    of a Run's stream and the state they reduce to, the queue replayed from the log, the read model.
  \<^item> \<open>Durable\<close> (\<^verbatim>\<open>internal/storage/sqlite\<close>): the tables beside the log and the writes that move
    both in one transaction.

  \<^item> \<open>Intake\<close> (\<^verbatim>\<open>internal/domain/normalize.go\<close>, \<^verbatim>\<open>validation.go\<close>): defaults, validation, image
    pinning and environment overrides of a workload.
  \<^item> \<open>Orchestrator\<close> (\<^verbatim>\<open>internal/orchestrator\<close>: \<^verbatim>\<open>orchestrator.go\<close>, \<^verbatim>\<open>placement.go\<close>,
    \<^verbatim>\<open>capacity.go\<close>, \<^verbatim>\<open>launch_failure.go\<close>, \<^verbatim>\<open>artifacts.go\<close>, \<^verbatim>\<open>intake.go\<close>): the commands on a
    Run and the loop that places it, builds its capacity, launches, observes, ends and cleans it up,
    each an operation on the durable stores in an environment \<open>orch_env\<close> that answers for the adapter,
    the capacity seam, the node registry, the catalog, the hashes and the clock.
  \<^item> \<open>Lifecycle\<close>: the state machine of a Run as an inductive relation, and that every operation of the
    orchestrator is one of its transitions. \<open>Ledger\<close>: what the stores keep under any sequence of
    operations and any answers of the environment.
  \<^item> \<open>Janitor\<close> (\<^verbatim>\<open>internal/janitor\<close>): the sweep over what providers say is owned, the decision
    recorded for each object and the commands it sends.
  \<^item> \<open>NodeStore\<close>, \<open>NodeRegistry\<close> (\<^verbatim>\<open>internal/storage/sqlite/node.go\<close>, \<^verbatim>\<open>internal/node\<close>): the
    tables of enrolled machines, and over them invitations, enrolment, sessions fenced by a token,
    commands and results, reports, leases, retirement, and the offers nodes make.
  \<^item> \<open>NodeAgent\<close> (\<^verbatim>\<open>internal/nodeagent\<close>: \<^verbatim>\<open>agent.go\<close>, \<^verbatim>\<open>state.go\<close>, \<^verbatim>\<open>transport.go\<close>): the agent on a
    machine, its state file with the applied operations and the spool of unsent events, and its life as
    turns of the serving loop, restarts and kills between the effect and the mark. \<open>agent_env\<close> answers
    for the container runtime, the disk and the control plane; \<open>transport_env\<close> makes that plane the
    registry of \<open>NodeRegistry\<close> behind a link that may lose requests or answers.
  \<^item> \<open>Prewarm\<close> (\<^verbatim>\<open>internal/orchestrator/prewarm.go\<close>, \<^verbatim>\<open>internal/adapter/prepare.go\<close>): what waiting
    placements want brought onto machines ahead of admission, and the paced statements of that desire.

  \<^bold>\<open>How state and calls are modelled\<close>

  A struct is a record and a method that returns a changed copy is a function to the new record; a
  store is a map or a row list passed in and out; an error return is \<open>Inl\<close>. Event payloads are held
  decoded, as one constructor of \<open>run_fact\<close> per event type. What the program asks of others is an
  argument: SHA-256 over canonical JSON (\<open>hashes\<close>), GPU product names (\<open>gpu_names\<close>), reading a subject
  out of an actor's JSON, formatting a float, retiring a runtime. Loops whose end depends on what a
  reader returns are \<open>partial_function (option)\<close>, and the scans and page walks are shown to end.
  The loop of \<^verbatim>\<open>AdvanceRun\<close> takes the environment of each pass from a list, so a list that runs out
  is a loop still running. A step of the orchestrator is one atomic operation: its per-Run lock, the
  admission lock and the version checks of the stores order the steps of the program.

  \<^bold>\<open>What the lemmas show\<close>

  Each component theory proves its invariant for every reachable value, then the behaviour of its
  operations. \<open>optimistic_store\<close>, \<open>versioned_object\<close>, \<open>evolving_object\<close>, \<open>replay_invariant\<close>,
  \<open>replay_order\<close>, \<open>preference\<close> and the paged sources are the interfaces; each is interpreted on the
  definitions of the component that provides it. \<open>counted_system\<close> is the interface between the
  operations of the node registry and what they may do to its tables, and \<open>reporting_plane\<close> what the agent
  relies on from the plane it reports to, interpreted on that registry. \<open>run_system\<close> is the interface
  between the transitions of one Run and the stores: it is interpreted on the orchestrator, and from it follow that the table of
  Runs mirrors the log, that the Bookings on the schedules are the ones open Runs hold, and that a closed
  Run left nothing behind.

  \<^bold>\<open>Not modelled\<close>

  Process wiring, HTTP, SQL schema migrations, subscriptions delivered over channels, cryptography,
  the provider adapters, and the Docker runtime and host probes of the node agent: I/O around the
  modelled operations. Within an operation of the orchestrator
  the clock reads one moment, and the retry of a report after a conflict reads the same stores.
\<close>

end
